(* ===== verification/Prelude.thy ===== *)
theory Prelude imports Complex_Main "HOL-Library.Multiset" "HOL-Library.AList" begin

text \<open>
  Shared vocabulary of the development: Python results as sums, Python strings as character
  lists, Python dictionaries as association lists in insertion order, and the generic lemmas the
  components use.  A character stands for one code point below 256; floating point numbers are
  rationals (exact arithmetic).
\<close>

section \<open>Collections\<close>

named_theorems res_simps \<open>rewriting of results and their bind\<close>
named_theorems step_defs \<open>definitions unfolded when a handler is run symbolically\<close>

section \<open>Results: a raised exception on the left, a value on the right\<close>

definition bind_res :: "'e + 'a \<Rightarrow> ('a \<Rightarrow> 'e + 'b) \<Rightarrow> 'e + 'b" where
  "bind_res m f = (case m of Inl e \<Rightarrow> Inl e | Inr x \<Rightarrow> f x)"

lemma bind_res_Inl [simp, res_simps]: "bind_res (Inl e) f = Inl e"
  by (simp add: bind_res_def)

lemma bind_res_Inr [simp, res_simps]: "bind_res (Inr x) f = f x"
  by (simp add: bind_res_def)

lemma bind_res_eq_Inr [res_simps]:
  "bind_res m f = Inr y \<longleftrightarrow> (\<exists>x. m = Inr x \<and> f x = Inr y)"
  by (cases m) auto

lemma bind_res_eq_Inl [res_simps]:
  "bind_res m f = Inl e \<longleftrightarrow> m = Inl e \<or> (\<exists>x. m = Inr x \<and> f x = Inl e)"
  by (cases m) auto

text \<open>\<open>[f x for x in xs]\<close> where \<open>f\<close> may raise: the first exception stops the comprehension.\<close>

fun map_res :: "('a \<Rightarrow> 'e + 'b) \<Rightarrow> 'a list \<Rightarrow> 'e + 'b list" where
  "map_res f [] = Inr []"
| "map_res f (x # xs) = bind_res (f x) (\<lambda>y. bind_res (map_res f xs) (\<lambda>ys. Inr (y # ys)))"

lemma map_res_Inr_iff:
  "map_res f xs = Inr ys \<longleftrightarrow> list_all2 (\<lambda>x y. f x = Inr y) xs ys"
proof (induction xs arbitrary: ys)
  case Nil
  then show ?case by auto
next
  case (Cons x xs)
  then show ?case by (cases ys) (auto simp: bind_res_eq_Inr)
qed

lemma map_res_length: "map_res f xs = Inr ys \<Longrightarrow> length ys = length xs"
  by (auto simp: map_res_Inr_iff dest: list_all2_lengthD)

lemma map_res_mem:
  assumes "map_res f xs = Inr ys"
  shows "(\<forall>y \<in> set ys. \<exists>x \<in> set xs. f x = Inr y) \<and> (\<forall>x \<in> set xs. \<exists>y \<in> set ys. f x = Inr y)"
proof -
  have "list_all2 (\<lambda>x y. f x = Inr y) xs ys" using assms by (simp add: map_res_Inr_iff)
  then show ?thesis by (induction rule: list_all2_induct) auto
qed

lemma map_res_total:
  assumes "\<And>x. x \<in> set xs \<Longrightarrow> f x = Inr (g x)"
  shows "map_res f xs = Inr (map g xs)"
  using assms by (induction xs) auto

text \<open>The same over an explicit state: the state survives an exception.\<close>

definition bind_st :: "('e + 'a) \<times> 's \<Rightarrow> ('a \<Rightarrow> 's \<Rightarrow> ('e + 'b) \<times> 's) \<Rightarrow> ('e + 'b) \<times> 's" where
  "bind_st m f = (case m of (Inl e, s) \<Rightarrow> (Inl e, s) | (Inr x, s) \<Rightarrow> f x s)"

lemma bind_st_simps [simp, res_simps]:
  "bind_st (Inl e, s) f = (Inl e, s)" "bind_st (Inr x, s) f = f x s"
  by (simp_all add: bind_st_def)

lemma bind_st_eq_Inr [res_simps]:
  "bind_st m f = (Inr y, t) \<longleftrightarrow> (\<exists>x s. m = (Inr x, s) \<and> f x s = (Inr y, t))"
  by (cases m; cases "fst m") auto

lemma bind_st_eq_Inl [res_simps]:
  "bind_st m f = (Inl e, t) \<longleftrightarrow> m = (Inl e, t) \<or> (\<exists>x s. m = (Inr x, s) \<and> f x s = (Inl e, t))"
  by (cases m; cases "fst m") auto

section \<open>Strings\<close>

abbreviation ord :: "char \<Rightarrow> nat" where
  "ord c \<equiv> of_char c"

definition is_digit :: "char \<Rightarrow> bool" where
  "is_digit c \<longleftrightarrow> 48 \<le> ord c \<and> ord c \<le> 57"

definition is_upper :: "char \<Rightarrow> bool" where
  "is_upper c \<longleftrightarrow> 65 \<le> ord c \<and> ord c \<le> 90"

definition is_lower :: "char \<Rightarrow> bool" where
  "is_lower c \<longleftrightarrow> 97 \<le> ord c \<and> ord c \<le> 122"

definition startswith :: "string \<Rightarrow> string \<Rightarrow> bool" where
  "startswith s p \<longleftrightarrow> take (length p) s = p"

definition endswith :: "string \<Rightarrow> string \<Rightarrow> bool" where
  "endswith s p \<longleftrightarrow> length p \<le> length s \<and> drop (length s - length p) s = p"

fun contains_sub :: "string \<Rightarrow> string \<Rightarrow> bool" where
  "contains_sub p [] = (p = [])"
| "contains_sub p (c # cs) = (startswith (c # cs) p \<or> contains_sub p cs)"

text \<open>\<open>str.strip()\<close>, \<open>str.rstrip(c)\<close>, \<open>sep.join(xs)\<close>, \<open>str.split(sep)\<close> for a one-character
  separator, and \<open>str.count\<close> of a character.\<close>

definition py_space :: "char \<Rightarrow> bool" where
  "py_space c \<longleftrightarrow> (9 \<le> ord c \<and> ord c \<le> 13) \<or> (28 \<le> ord c \<and> ord c \<le> 32) \<or> ord c = 133 \<or> ord c = 160"

definition py_strip :: "string \<Rightarrow> string" where
  "py_strip s = rev (dropWhile py_space (rev (dropWhile py_space s)))"

definition rstrip_char :: "char \<Rightarrow> string \<Rightarrow> string" where
  "rstrip_char c s = rev (dropWhile (\<lambda>x. x = c) (rev s))"

fun join_with :: "string \<Rightarrow> string list \<Rightarrow> string" where
  "join_with sep [] = []"
| "join_with sep [x] = x"
| "join_with sep (x # y # zs) = x @ sep @ join_with sep (y # zs)"

fun split_on :: "char \<Rightarrow> string \<Rightarrow> string list" where
  "split_on c [] = [[]]"
| "split_on c (x # xs) =
     (if x = c then [] # split_on c xs
      else (case split_on c xs of [] \<Rightarrow> [[x]] | w # ws \<Rightarrow> (x # w) # ws))"

text \<open>\<open>str.lower()\<close> below code point 256.\<close>

definition lower_char :: "char \<Rightarrow> char" where
  "lower_char c =
     (if is_upper c \<or> (192 \<le> ord c \<and> ord c \<le> 222 \<and> ord c \<noteq> 215) then char_of (ord c + 32) else c)"

definition lower :: "string \<Rightarrow> string" where
  "lower s = map lower_char s"

definition upper_char :: "char \<Rightarrow> char" where
  "upper_char c =
     (if is_lower c \<or> (224 \<le> ord c \<and> ord c \<le> 254 \<and> ord c \<noteq> 247) then char_of (ord c - 32) else c)"

text \<open>\<open>str.capitalize()\<close>, for text whose first character has its upper case below 256.\<close>

definition capitalize :: "string \<Rightarrow> string" where
  "capitalize s = (case s of [] \<Rightarrow> [] | c # cs \<Rightarrow> upper_char c # lower cs)"

text \<open>A pattern \<open>^...$\<close> of Python's \<open>re\<close>: its \<open>$\<close> also matches before one trailing newline.\<close>

definition re_dollar :: "(string \<Rightarrow> bool) \<Rightarrow> string \<Rightarrow> bool" where
  "re_dollar p s \<longleftrightarrow> p s \<or> (s \<noteq> [] \<and> last s = CHR 0x0A \<and> p (butlast s))"

text \<open>Decimal notation, as \<open>str(int)\<close> prints it.\<close>

definition digit_char :: "nat \<Rightarrow> char" where
  "digit_char n = char_of (48 + n)"

fun show_nat :: "nat \<Rightarrow> string" where
  "show_nat n = (if n < 10 then [digit_char n] else show_nat (n div 10) @ [digit_char (n mod 10)])"

declare show_nat.simps [simp del]

definition show_int :: "int \<Rightarrow> string" where
  "show_int i = (if i < 0 then CHR ''-'' # show_nat (nat (- i)) else show_nat (nat i))"

definition read_nat :: "string \<Rightarrow> nat" where
  "read_nat s = foldl (\<lambda>n c. 10 * n + (ord c - 48)) 0 s"

lemma startswith_append [simp]: "startswith (p @ s) p"
  by (simp add: startswith_def)

lemma startswith_iff: "startswith s p \<longleftrightarrow> (\<exists>t. s = p @ t)"
  by (metis append_eq_conv_conj append_take_drop_id startswith_def)

lemma endswith_iff: "endswith s p \<longleftrightarrow> (\<exists>t. s = t @ p)"
proof
  assume "endswith s p"
  then have "s = take (length s - length p) s @ p"
    by (metis append_take_drop_id endswith_def)
  then show "\<exists>t. s = t @ p" ..
qed (auto simp: endswith_def)

lemma ord_digit_char: "n < 10 \<Longrightarrow> ord (digit_char n) = 48 + n"
  by (simp add: digit_char_def)

lemma is_digit_digit_char: "n < 10 \<Longrightarrow> is_digit (digit_char n)"
  by (simp add: is_digit_def ord_digit_char)

lemma show_nat_digits: "c \<in> set (show_nat n) \<Longrightarrow> is_digit c"
proof (induction n arbitrary: c rule: show_nat.induct)
  case (1 n)
  then show ?case
    by (subst (asm) (2) show_nat.simps) (auto simp: is_digit_digit_char split: if_splits)
qed

lemma show_nat_nonempty: "show_nat n \<noteq> []"
  by (subst show_nat.simps) simp

lemma read_nat_snoc: "read_nat (s @ [c]) = 10 * read_nat s + (ord c - 48)"
  by (simp add: read_nat_def)

lemma read_show_nat [simp]: "read_nat (show_nat n) = n"
proof (induction n rule: show_nat.induct)
  case (1 n)
  show ?case
  proof (cases "n < 10")
    case True
    then show ?thesis by (subst show_nat.simps) (simp add: read_nat_def ord_digit_char)
  next
    case False
    with 1 show ?thesis
      by (subst show_nat.simps) (simp add: read_nat_snoc ord_digit_char)
  qed
qed

lemma split_on_nonempty: "split_on c s \<noteq> []"
  by (cases s) (auto split: list.splits)

lemma split_on_no_sep: "c \<notin> set s \<Longrightarrow> split_on c s = [s]"
  by (induction s) auto

lemma split_on_append:
  "c \<notin> set s \<Longrightarrow> split_on c (s @ c # t) = s # split_on c t"
  by (induction s) auto

lemma split_on_snoc: "split_on c (s @ [c]) = split_on c s @ [[]]"
  by (induction s) (auto split: list.splits simp: split_on_nonempty)

lemma split_join:
  "xs \<noteq> [] \<Longrightarrow> \<forall>x \<in> set xs. c \<notin> set x \<Longrightarrow> split_on c (join_with [c] xs) = xs"
proof (induction xs rule: list_nonempty_induct)
  case (single x)
  then show ?case by (simp add: split_on_no_sep)
next
  case (cons x xs)
  then show ?case by (cases xs) (auto simp: split_on_append)
qed

section \<open>Dictionaries in insertion order\<close>

type_synonym ('k, 'v) dict = "('k \<times> 'v) list"

abbreviation dget :: "('k, 'v) dict \<Rightarrow> 'k \<Rightarrow> 'v option" where
  "dget d k \<equiv> map_of d k"

abbreviation dset :: "'k \<Rightarrow> 'v \<Rightarrow> ('k, 'v) dict \<Rightarrow> ('k, 'v) dict" where
  "dset k v d \<equiv> AList.update k v d"

lemma dget_dset: "dget (dset k v d) k' = (if k' = k then Some v else dget d k')"
  by (simp add: update_conv')

text \<open>\<open>d1.update(d2)\<close>, also the rendering of \<open>{**d1, **d2}\<close>.\<close>

definition dupdate :: "('k, 'v) dict \<Rightarrow> ('k, 'v) dict \<Rightarrow> ('k, 'v) dict" where
  "dupdate d1 d2 = foldl (\<lambda>d (k, v). dset k v d) d1 d2"

lemma dget_foldl_dset:
  "distinct (map fst d2) \<Longrightarrow>
    dget (foldl (\<lambda>d (k, v). dset k v d) d1 d2) k = (case dget d2 k of None \<Rightarrow> dget d1 k | Some v \<Rightarrow> Some v)"
proof (induction d2 arbitrary: d1)
  case Nil
  then show ?case by simp
next
  case (Cons p d2)
  obtain a b where p: "p = (a, b)" by (cases p)
  have "a \<notin> dom (map_of d2)"
    using Cons.prems p by (simp add: dom_map_of_conv_image_fst)
  then have "map_of d2 a = None" by auto
  with Cons p show ?case by (auto simp: dget_dset split: option.splits)
qed

lemma dget_dupdate:
  "distinct (map fst d2) \<Longrightarrow>
    dget (dupdate d1 d2) k = (case dget d2 k of None \<Rightarrow> dget d1 k | Some v \<Rightarrow> Some v)"
  by (simp add: dupdate_def dget_foldl_dset)

section \<open>Sums over runs\<close>

lemma length_filter_append [simp]:
  "length (filter P (xs @ ys)) = length (filter P xs) + length (filter P ys)"
  by simp

end
