(* ===== verification/Errors.thy ===== *)
theory Errors imports Prelude begin

text \<open>
  The exceptions of the program: \<open>WazuhError\<close> of \<open>wazuh/errors.py\<close> with its closed set of safe
  codes and the mapping of upstream responses to it, the \<open>AuthError\<close> family of
  \<open>auth/errors.py\<close>, and the library exceptions the handlers raise or catch.
\<close>

section \<open>Safe codes and WazuhError\<close>

definition SAFE_CODES :: "string list" where
  "SAFE_CODES =
     [''auth_expired'', ''forbidden'', ''rate_limited'', ''invalid_query'', ''upstream_error'',
      ''not_found'', ''upstream_timeout'']"

record wazuh_error =
  we_code :: string
  we_message :: string
  we_status :: int
  we_scope :: "string option"

section \<open>Authentication errors\<close>

datatype auth_error =
    AuthErrorBase
  | InvalidToken
  | ExpiredToken
  | UnknownIssuer
  | MissingClaim string
  | ApiKeyRevoked

fun http_status :: "auth_error \<Rightarrow> int" where
  "http_status AuthErrorBase = 401"
| "http_status InvalidToken = 401"
| "http_status ExpiredToken = 401"
| "http_status UnknownIssuer = 401"
| "http_status (MissingClaim c) = 403"
| "http_status ApiKeyRevoked = 401"

fun public_message :: "auth_error \<Rightarrow> string" where
  "public_message AuthErrorBase = ''unauthorized''"
| "public_message InvalidToken = ''invalid_token''"
| "public_message ExpiredToken = ''invalid_token''"
| "public_message UnknownIssuer = ''unauthorized''"
| "public_message (MissingClaim c) = ''forbidden''"
| "public_message ApiKeyRevoked = ''unauthorized''"

section \<open>All exceptions a handler can raise\<close>

datatype exn =
    WazuhE wazuh_error
  | AuthE auth_error
  | ValueE
  | KeyE
  | IndexE
  | TypeE
  | LookupE
  | RuntimeE
  | ValidationE
  | ToolE string
  | HttpTimeoutE
  | RedisConnE
  | RedisTimeoutE
  | NoScriptE
  | RedisOtherE
  | BreakerOpenE
  | TimeoutE
  | WaitForExpiredE
  | OtherE
  | CancelledE

text \<open>\<open>asyncio.CancelledError\<close> derives from \<open>BaseException\<close>: an \<open>except Exception\<close> clause does not
  catch it.  \<open>WaitForExpiredE\<close> is the cancellation that \<open>asyncio.wait_for\<close> delivers into the
  awaited call when its time is up; \<open>wait_for\<close> itself then raises \<open>TimeoutError\<close>.\<close>

definition is_exception :: "exn \<Rightarrow> bool" where
  "is_exception e \<longleftrightarrow> e \<noteq> CancelledE \<and> e \<noteq> WaitForExpiredE"

definition wait_for :: "exn + 'a \<Rightarrow> exn + 'a" where
  "wait_for r = (case r of Inl e \<Rightarrow> Inl (if e = WaitForExpiredE then TimeoutE else e) | Inr x \<Rightarrow> Inr x)"

definition wazuh_error_init :: "string \<Rightarrow> string \<Rightarrow> int \<Rightarrow> string option \<Rightarrow> exn" where
  "wazuh_error_init code msg status scope =
     (if code \<notin> set SAFE_CODES then ValueE
      else WazuhE \<lparr>we_code = code, we_message = msg, we_status = status, we_scope = scope\<rparr>)"

section \<open>Upstream errors\<close>

definition map_http_error :: "int \<Rightarrow> exn" where
  "map_http_error status =
     (if status = 401 then wazuh_error_init ''auth_expired'' ''upstream authentication expired'' status None
      else if status = 403 then wazuh_error_init ''forbidden'' ''upstream denied the request'' status None
      else if status = 404 then wazuh_error_init ''not_found'' ''upstream resource not found'' status None
      else if status = 429 then wazuh_error_init ''rate_limited'' ''upstream rate limit exceeded'' status None
      else if status = 400 then wazuh_error_init ''invalid_query'' ''query was rejected by the backend'' status None
      else wazuh_error_init ''upstream_error'' ''upstream returned an error'' status None)"

definition map_timeout :: exn where
  "map_timeout = wazuh_error_init ''upstream_timeout'' ''upstream request timed out'' 504 None"

lemma wazuh_error_init_safe: "wazuh_error_init c m s sc = WazuhE w \<Longrightarrow> we_code w \<in> set SAFE_CODES"
  by (auto simp: wazuh_error_init_def split: if_splits)

lemma wazuh_error_init_eq [simp]:
  "c \<in> set SAFE_CODES \<Longrightarrow>
    wazuh_error_init c m s sc = WazuhE \<lparr>we_code = c, we_message = m, we_status = s, we_scope = sc\<rparr>"
  by (simp add: wazuh_error_init_def)

lemma safe_codes_mem [simp]:
  "''auth_expired'' \<in> set SAFE_CODES" "''forbidden'' \<in> set SAFE_CODES"
  "''rate_limited'' \<in> set SAFE_CODES" "''invalid_query'' \<in> set SAFE_CODES"
  "''upstream_error'' \<in> set SAFE_CODES" "''not_found'' \<in> set SAFE_CODES"
  "''upstream_timeout'' \<in> set SAFE_CODES"
  by (simp_all add: SAFE_CODES_def)

lemma map_http_error_wazuh: "\<exists>w. map_http_error st = WazuhE w \<and> we_status w = st \<and> we_scope w = None"
  by (simp add: map_http_error_def)

lemma map_http_error_simps [simp]:
  "map_http_error st \<noteq> CancelledE" "map_http_error st \<noteq> HttpTimeoutE"
  by (simp_all add: map_http_error_def)

end
