(* ===== verification/Config.thy ===== *)
theory Config imports Errors begin

text \<open>
  The validated configuration of \<open>tenancy/m4_config.py\<close> and \<open>tenancy/config.py\<close>: buckets, audit
  sinks, the circuit breaker and the tenant record, with the field constraints and validators as
  functions from the candidate value to the value or \<open>ValidationE\<close>.  The syntax of \<open>HttpUrl\<close> is
  pydantic's and enters as a parameter.
\<close>

section \<open>Rate limits\<close>

record bucket_config =
  bc_capacity :: int
  bc_refill :: rat

definition bucket_config_ok :: "bucket_config \<Rightarrow> bool" where
  "bucket_config_ok c \<longleftrightarrow>
     0 < bc_capacity c \<and> bc_capacity c \<le> 100000 \<and> 0 < bc_refill c \<and> bc_refill c \<le> 1000"

record rate_limit_config =
  rl_tenant :: bucket_config
  rl_session :: bucket_config

definition default_rate_limit :: rate_limit_config where
  "default_rate_limit =
     \<lparr>rl_tenant = \<lparr>bc_capacity = 250, bc_refill = 417 / 100\<rparr>,
      rl_session = \<lparr>bc_capacity = 60, bc_refill = 1\<rparr>\<rparr>"

definition rate_limit_ok :: "rate_limit_config \<Rightarrow> bool" where
  "rate_limit_ok c \<longleftrightarrow> bucket_config_ok (rl_tenant c) \<and> bucket_config_ok (rl_session c)"

section \<open>Audit sinks\<close>

datatype audit_sink_config =
    StderrSinkConfig
  | StdoutSinkConfig
  | FileSinkConfig string int int
  | HttpSinkConfig string int int int
  | WazuhIndexerSinkConfig string int int int

fun audit_sink_config_ok :: "(string \<Rightarrow> bool) \<Rightarrow> audit_sink_config \<Rightarrow> bool" where
  "audit_sink_config_ok url_ok StderrSinkConfig = True"
| "audit_sink_config_ok url_ok StdoutSinkConfig = True"
| "audit_sink_config_ok url_ok (FileSinkConfig path rotate_size_mb keep) =
     (0 < rotate_size_mb \<and> rotate_size_mb \<le> 10000 \<and> 0 \<le> keep \<and> keep \<le> 100)"
| "audit_sink_config_ok url_ok (HttpSinkConfig url batch flush_ms max_attempts) =
     (url_ok url \<and> 0 < batch \<and> batch \<le> 10000 \<and> 0 < flush_ms \<and> flush_ms \<le> 60000 \<and>
      1 \<le> max_attempts \<and> max_attempts \<le> 20)"
| "audit_sink_config_ok url_ok (WazuhIndexerSinkConfig index_prefix batch flush_ms max_attempts) =
     (0 < batch \<and> batch \<le> 10000 \<and> 0 < flush_ms \<and> flush_ms \<le> 60000 \<and>
      1 \<le> max_attempts \<and> max_attempts \<le> 20)"

section \<open>Allowlist validators\<close>

definition WRITE_TOOL_NAMES :: "string list" where
  "WRITE_TOOL_NAMES =
     [''write.isolate_agent'', ''write.restart_agent'', ''write.add_agent_to_group'',
      ''write.remove_agent_from_group'', ''write.create_rule'', ''write.update_rule'',
      ''write.run_active_response'', ''write.run_active_response_on_group'']"

definition validate_write_allowlist_entry :: "string \<Rightarrow> exn + string" where
  "validate_write_allowlist_entry name =
     (if \<not> startswith name ''write.'' then Inl ValueE
      else if name \<notin> set WRITE_TOOL_NAMES then Inl ValueE
      else Inr name)"

definition validate_ar_command_name :: "string \<Rightarrow> exn + string" where
  "validate_ar_command_name name =
     (if name = [] \<or> py_strip name = [] then Inl ValueE else Inr name)"

definition alnum :: "char \<Rightarrow> bool" where
  "alnum c \<longleftrightarrow> is_upper c \<or> is_lower c \<or> is_digit c"

text \<open>\<open>^[A-Za-z0-9][A-Za-z0-9_.-]{0,127}$\<close>, matched with \<open>re.match\<close>.\<close>

definition group_name_body :: "string \<Rightarrow> bool" where
  "group_name_body s \<longleftrightarrow>
     (case s of [] \<Rightarrow> False
      | c # cs \<Rightarrow> alnum c \<and> length cs \<le> 127 \<and>
          list_all (\<lambda>x. alnum x \<or> x \<in> set ''_.-'') cs)"

definition agent_group_name_match :: "string \<Rightarrow> bool" where
  "agent_group_name_match s \<longleftrightarrow> re_dollar group_name_body s"

definition AGENT_GROUP_MAX :: nat where
  "AGENT_GROUP_MAX = 50"

definition validate_ar_group_name :: "string \<Rightarrow> exn + string" where
  "validate_ar_group_name name = (if \<not> agent_group_name_match name then Inl ValueE else Inr name)"

section \<open>The server-wide limiter backend\<close>

record circuit_breaker_config =
  cb_error_threshold :: int
  cb_open_duration :: rat
  cb_half_open_max :: int

definition circuit_breaker_ok :: "circuit_breaker_config \<Rightarrow> bool" where
  "circuit_breaker_ok c \<longleftrightarrow>
     1 \<le> cb_error_threshold c \<and> cb_error_threshold c \<le> 100 \<and>
     0 < cb_open_duration c \<and> cb_open_duration c \<le> 300 \<and>
     1 \<le> cb_half_open_max c \<and> cb_half_open_max c \<le> 100"

record redis_limiter_config =
  rc_key_prefix :: string
  rc_call_timeout_ms :: int
  rc_circuit_breaker :: circuit_breaker_config

text \<open>The prefix pattern \<open>^[a-zA-Z0-9:_-]+$\<close> runs on pydantic's own engine, where \<open>$\<close> is the end
  of the text.\<close>

definition redis_limiter_ok :: "redis_limiter_config \<Rightarrow> bool" where
  "redis_limiter_ok c \<longleftrightarrow>
     1 \<le> length (rc_key_prefix c) \<and> length (rc_key_prefix c) \<le> 64 \<and>
     list_all (\<lambda>x. alnum x \<or> x \<in> set '':_-'') (rc_key_prefix c) \<and>
     1 \<le> rc_call_timeout_ms c \<and> rc_call_timeout_ms c \<le> 10000 \<and>
     circuit_breaker_ok (rc_circuit_breaker c)"

datatype limiter_backend = InProcessBackend | RedisBackend

record rate_limiter_config =
  rlc_backend :: limiter_backend
  rlc_redis :: redis_limiter_config

section \<open>The tenant record\<close>

record tenant_config =
  tenant_id :: string
  indexer_url :: string
  server_api_url :: "string option"
  verify_tls :: bool
  ca_bundle_path :: "string option"
  default_rbac_role :: string
  oauth_issuer :: "string option"
  oauth_audience :: "string option"
  wazuh_user_claim :: string
  secret_prefix :: "string option"
  role_tool_allowlist :: "(string, string list) dict option"
  rate_limit :: rate_limit_config
  audit_sinks :: "audit_sink_config list"
  write_allowlist :: "string list option"
  active_response_allowlist :: "string list"
  agent_group_allowlist :: "string list"

text \<open>\<open>^[a-z0-9][a-z0-9_-]{0,62}$\<close>, again on pydantic's engine.\<close>

definition tenant_id_match :: "string \<Rightarrow> bool" where
  "tenant_id_match s \<longleftrightarrow>
     (case s of [] \<Rightarrow> False
      | c # cs \<Rightarrow> (is_lower c \<or> is_digit c) \<and> length cs \<le> 62 \<and>
          list_all (\<lambda>x. is_lower x \<or> is_digit x \<or> x \<in> set ''_-'') cs)"

definition validate_writes :: "string list option \<Rightarrow> exn + string list option" where
  "validate_writes v =
     (case v of None \<Rightarrow> Inr None
      | Some names \<Rightarrow> bind_res (map_res validate_write_allowlist_entry names) (\<lambda>r. Inr (Some r)))"

definition validate_ar :: "string list \<Rightarrow> exn + string list" where
  "validate_ar v = map_res validate_ar_command_name v"

definition validate_ar_groups :: "string list \<Rightarrow> exn + string list" where
  "validate_ar_groups v = map_res validate_ar_group_name v"

definition validate_ar_groups_max :: "string list \<Rightarrow> exn + string list" where
  "validate_ar_groups_max v = (if length v > AGENT_GROUP_MAX then Inl ValueE else Inr v)"

text \<open>Pydantic runs the field constraints and the validators and turns every failure into one
  \<open>ValidationError\<close>.\<close>

definition opt_ok :: "('a \<Rightarrow> bool) \<Rightarrow> 'a option \<Rightarrow> bool" where
  "opt_ok p v \<longleftrightarrow> (case v of None \<Rightarrow> True | Some x \<Rightarrow> p x)"

definition model_validate :: "(string \<Rightarrow> bool) \<Rightarrow> tenant_config \<Rightarrow> exn + tenant_config" where
  "model_validate url_ok c =
     (if \<not> tenant_id_match (tenant_id c) \<or> \<not> url_ok (indexer_url c) \<or>
         \<not> opt_ok url_ok (server_api_url c) \<or> \<not> opt_ok url_ok (oauth_issuer c) \<or>
         \<not> rate_limit_ok (rate_limit c) \<or>
         \<not> list_all (audit_sink_config_ok url_ok) (audit_sinks c)
      then Inl ValidationE
      else case bind_res (validate_writes (write_allowlist c)) (\<lambda>w.
             bind_res (validate_ar (active_response_allowlist c)) (\<lambda>a.
             bind_res (validate_ar_groups (agent_group_allowlist c)) (\<lambda>g.
             bind_res (validate_ar_groups_max g) (\<lambda>g'. Inr (w, a, g')))))
           of Inl e \<Rightarrow> Inl ValidationE
            | Inr (w, a, g) \<Rightarrow>
                Inr (c\<lparr>write_allowlist := w, active_response_allowlist := a,
                       agent_group_allowlist := g\<rparr>))"

section \<open>What validation guarantees\<close>

lemma map_res_filter:
  assumes "\<And>x y. f x = Inr y \<longleftrightarrow> y = x \<and> P x"
  shows "map_res f xs = Inr ys \<longleftrightarrow> ys = xs \<and> (\<forall>x \<in> set xs. P x)"
  using assms by (induction xs arbitrary: ys) (auto simp: bind_res_eq_Inr)

lemma validators_id [res_simps]:
  "validate_write_allowlist_entry n = Inr m \<longleftrightarrow> m = n \<and> startswith n ''write.'' \<and> n \<in> set WRITE_TOOL_NAMES"
  "validate_ar_command_name n = Inr m \<longleftrightarrow> m = n \<and> n \<noteq> [] \<and> py_strip n \<noteq> []"
  "validate_ar_group_name n = Inr m \<longleftrightarrow> m = n \<and> agent_group_name_match n"
  by (auto simp: validate_write_allowlist_entry_def validate_ar_command_name_def
      validate_ar_group_name_def)

lemmas validator_lists =
  map_res_filter [OF validators_id(1)] map_res_filter [OF validators_id(2)]
  map_res_filter [OF validators_id(3)]

lemma validate_writes_sound:
  "validate_writes v = Inr w \<Longrightarrow> w = v \<and> opt_ok (\<lambda>l. set l \<subseteq> set WRITE_TOOL_NAMES) v"
  by (auto simp: validate_writes_def opt_ok_def bind_res_eq_Inr validator_lists split: option.splits)

lemma validate_ar_sound:
  "validate_ar v = Inr w \<Longrightarrow> w = v \<and> (\<forall>n \<in> set v. py_strip n \<noteq> [])"
  by (auto simp: validate_ar_def validator_lists)

lemma validate_ar_groups_sound:
  "validate_ar_groups v = Inr w \<Longrightarrow> w = v \<and> (\<forall>n \<in> set v. agent_group_name_match n)"
  by (auto simp: validate_ar_groups_def validator_lists)

lemma model_validate_sound:
  assumes "model_validate url_ok c = Inr c'"
  shows "c' = c" and "tenant_id_match (tenant_id c)" and "rate_limit_ok (rate_limit c)"
    and "opt_ok (\<lambda>l. set l \<subseteq> set WRITE_TOOL_NAMES) (write_allowlist c)"
    and "length (agent_group_allowlist c) \<le> AGENT_GROUP_MAX"
    and "\<forall>n \<in> set (agent_group_allowlist c). agent_group_name_match n"
    and "\<forall>n \<in> set (active_response_allowlist c). py_strip n \<noteq> []"
  using assms
  by (auto simp: model_validate_def res_simps validate_ar_groups_max_def split: if_splits sum.splits
      dest!: validate_writes_sound validate_ar_sound validate_ar_groups_sound)

end
