(* ===== verification/Json.thy ===== *)
theory Json imports Errors "HOL-Library.Char_ord" "HOL-Library.List_Lexorder" begin

text \<open>
  JSON values as the server builds them (Python dictionaries, lists and scalars) and \<open>json.dumps\<close>:
  insertion order, ASCII escapes, optional \<open>sort_keys\<close>.  A float is a rational whose text is
  produced by an argument \<open>fr\<close> (\<open>float.__repr__\<close>).
\<close>

datatype json =
    JNull
  | JBool bool
  | JInt int
  | JFloat rat
  | JStr string
  | JList "json list"
  | JObj "(string \<times> json) list"

section \<open>json.dumps\<close>

definition hex_digit :: "nat \<Rightarrow> char" where
  "hex_digit n = (if n < 10 then char_of (48 + n) else char_of (87 + n))"

definition json_escape_char :: "char \<Rightarrow> string" where
  "json_escape_char c =
     (if c = CHR 0x22 then [CHR 0x5C, CHR 0x22]
      else if c = CHR 0x5C then [CHR 0x5C, CHR 0x5C]
      else if ord c = 10 then [CHR 0x5C, CHR ''n'']
      else if ord c = 13 then [CHR 0x5C, CHR ''r'']
      else if ord c = 9 then [CHR 0x5C, CHR ''t'']
      else if ord c = 12 then [CHR 0x5C, CHR ''f'']
      else if ord c = 8 then [CHR 0x5C, CHR ''b'']
      else if 32 \<le> ord c \<and> ord c \<le> 126 then [c]
      else [CHR 0x5C, CHR ''u'', CHR ''0'', CHR ''0'', hex_digit (ord c div 16), hex_digit (ord c mod 16)])"

definition json_quote :: "string \<Rightarrow> string" where
  "json_quote s = CHR 0x22 # concat (map json_escape_char s) @ [CHR 0x22]"

text \<open>\<open>repr\<close> of a string, for the messages built with \<open>!r\<close>.\<close>

definition repr_char :: "char \<Rightarrow> char \<Rightarrow> string" where
  "repr_char quote c =
     (if c = quote \<or> c = CHR 0x5C then [CHR 0x5C, c]
      else if ord c = 10 then [CHR 0x5C, CHR ''n'']
      else if ord c = 13 then [CHR 0x5C, CHR ''r'']
      else if ord c = 9 then [CHR 0x5C, CHR ''t'']
      else if ord c < 32 \<or> (127 \<le> ord c \<and> ord c \<le> 160) \<or> ord c = 173
      then [CHR 0x5C, CHR ''x'', hex_digit (ord c div 16), hex_digit (ord c mod 16)]
      else [c])"

definition py_repr :: "string \<Rightarrow> string" where
  "py_repr s =
     (let quote = (if CHR 0x27 \<in> set s \<and> CHR 0x22 \<notin> set s then CHR 0x22 else CHR 0x27)
      in quote # concat (map (repr_char quote) s) @ [quote])"

fun dumps :: "(rat \<Rightarrow> string) \<Rightarrow> string \<Rightarrow> string \<Rightarrow> json \<Rightarrow> string" where
  "dumps fr isep ksep JNull = ''null''"
| "dumps fr isep ksep (JBool b) = (if b then ''true'' else ''false'')"
| "dumps fr isep ksep (JInt i) = show_int i"
| "dumps fr isep ksep (JFloat r) = fr r"
| "dumps fr isep ksep (JStr s) = json_quote s"
| "dumps fr isep ksep (JList xs) = ''['' @ join_with isep (map (dumps fr isep ksep) xs) @ '']''"
| "dumps fr isep ksep (JObj kvs) =
     ''{'' @ join_with isep (map (\<lambda>(k, v). json_quote k @ ksep @ dumps fr isep ksep v) kvs) @ ''}''"

text \<open>\<open>str(v)\<close>, the truth value of \<open>v\<close>, and its value where Python takes it for a number (a Boolean
  is one).\<close>

fun json_repr :: "(rat \<Rightarrow> string) \<Rightarrow> json \<Rightarrow> string" where
  "json_repr fr JNull = ''None''"
| "json_repr fr (JBool b) = (if b then ''True'' else ''False'')"
| "json_repr fr (JInt i) = show_int i"
| "json_repr fr (JFloat r) = fr r"
| "json_repr fr (JStr s) = py_repr s"
| "json_repr fr (JList xs) = ''['' @ join_with '', '' (map (json_repr fr) xs) @ '']''"
| "json_repr fr (JObj kvs) =
     ''{'' @ join_with '', '' (map (\<lambda>(k, v). py_repr k @ '': '' @ json_repr fr v) kvs) @ ''}''"

definition json_str :: "(rat \<Rightarrow> string) \<Rightarrow> json \<Rightarrow> string" where
  "json_str fr v = (case v of JStr s \<Rightarrow> s | _ \<Rightarrow> json_repr fr v)"

fun truthy :: "json \<Rightarrow> bool" where
  "truthy JNull = False"
| "truthy (JBool b) = b"
| "truthy (JInt i) = (i \<noteq> 0)"
| "truthy (JFloat r) = (r \<noteq> 0)"
| "truthy (JStr s) = (s \<noteq> [])"
| "truthy (JList xs) = (xs \<noteq> [])"
| "truthy (JObj kvs) = (kvs \<noteq> [])"

fun json_num :: "json \<Rightarrow> rat option" where
  "json_num (JInt i) = Some (of_int i)"
| "json_num (JFloat r) = Some r"
| "json_num (JBool b) = Some (if b then 1 else 0)"
| "json_num _ = None"

text \<open>\<open>d.get(k)\<close>: an absent key and a null value are the same.\<close>

definition jget :: "(string, json) dict \<Rightarrow> string \<Rightarrow> json" where
  "jget d k = (case dget d k of None \<Rightarrow> JNull | Some v \<Rightarrow> v)"

text \<open>\<open>v.get(k)\<close>, \<open>v.get(k, d)\<close>, \<open>v[k]\<close>, \<open>k in v\<close> and \<open>for x in v\<close> on decoded JSON of any shape; an
  \<open>AttributeError\<close> is \<open>OtherE\<close>.\<close>

definition py_get :: "json \<Rightarrow> string \<Rightarrow> exn + json" where
  "py_get v k = (case v of JObj kvs \<Rightarrow> Inr (jget kvs k) | _ \<Rightarrow> Inl OtherE)"

definition py_get_or :: "json \<Rightarrow> string \<Rightarrow> json \<Rightarrow> exn + json" where
  "py_get_or v k d =
     (case v of
        JObj kvs \<Rightarrow> Inr (case dget kvs k of None \<Rightarrow> d | Some x \<Rightarrow> x)
      | _ \<Rightarrow> Inl OtherE)"

definition py_index :: "json \<Rightarrow> string \<Rightarrow> exn + json" where
  "py_index v k =
     (case v of
        JObj kvs \<Rightarrow> (case dget kvs k of None \<Rightarrow> Inl KeyE | Some x \<Rightarrow> Inr x)
      | _ \<Rightarrow> Inl TypeE)"

definition py_in :: "string \<Rightarrow> json \<Rightarrow> exn + bool" where
  "py_in k v =
     (case v of
        JObj kvs \<Rightarrow> Inr (dget kvs k \<noteq> None)
      | JStr s \<Rightarrow> Inr (contains_sub k s)
      | JList xs \<Rightarrow> Inr (JStr k \<in> set xs)
      | _ \<Rightarrow> Inl TypeE)"

definition py_iter :: "json \<Rightarrow> exn + json list" where
  "py_iter v =
     (case v of
        JList xs \<Rightarrow> Inr xs
      | JObj kvs \<Rightarrow> Inr (map (\<lambda>(k, _). JStr k) kvs)
      | JStr s \<Rightarrow> Inr (map (\<lambda>c. JStr [c]) s)
      | _ \<Rightarrow> Inl TypeE)"

definition py_or :: "json \<Rightarrow> json \<Rightarrow> json" where
  "py_or v d = (if truthy v then v else d)"

lemmas py_access = py_get_def py_get_or_def py_index_def py_in_def py_iter_def py_or_def

text \<open>\<open>sort_keys=True\<close>: every object has its keys sorted by code point.\<close>

fun sort_keys :: "json \<Rightarrow> json" where
  "sort_keys (JList xs) = JList (map sort_keys xs)"
| "sort_keys (JObj kvs) = JObj (sort_key fst (map (\<lambda>(k, v). (k, sort_keys v)) kvs))"
| "sort_keys v = v"

section \<open>Lines\<close>

fun no_float :: "json \<Rightarrow> bool" where
  "no_float (JFloat r) = False"
| "no_float (JList xs) = list_all no_float xs"
| "no_float (JObj kvs) = list_all (\<lambda>(k, v). no_float v) kvs"
| "no_float v = True"

definition printable :: "string \<Rightarrow> bool" where
  "printable s \<longleftrightarrow> (\<forall>c \<in> set s. 32 \<le> ord c \<and> ord c \<le> 126)"

lemma printable_append [simp]: "printable (s @ t) \<longleftrightarrow> printable s \<and> printable t"
  by (auto simp: printable_def)

lemma printable_Cons [simp]: "printable (c # s) \<longleftrightarrow> (32 \<le> ord c \<and> ord c \<le> 126) \<and> printable s"
  by (auto simp: printable_def)

lemma printable_Nil [simp]: "printable []"
  by (simp add: printable_def)

lemma hex_digit_printable: "n < 16 \<Longrightarrow> 32 \<le> ord (hex_digit n) \<and> ord (hex_digit n) \<le> 126"
  by (simp add: hex_digit_def)

lemma json_escape_printable: "printable (json_escape_char c)"
proof -
  have "ord c < 256" by (rule nat_of_char_less_256)
  then have "ord c div 16 < 16" "ord c mod 16 < 16" by (simp_all add: less_mult_imp_div_less)
  then show ?thesis
    by (simp add: json_escape_char_def hex_digit_printable)
qed

lemma json_quote_printable: "printable (json_quote s)"
  by (induction s) (auto simp: json_quote_def json_escape_printable)

lemma show_nat_printable: "printable (show_nat n)"
  using show_nat_digits [of _ n] by (fastforce simp: printable_def is_digit_def)

lemma show_int_printable: "printable (show_int i)"
  by (simp add: show_int_def show_nat_printable)

lemma join_printable: "printable sep \<Longrightarrow> \<forall>x \<in> set xs. printable x \<Longrightarrow> printable (join_with sep xs)"
  by (induction sep xs rule: join_with.induct) auto

lemma dumps_printable:
  "no_float j \<Longrightarrow> printable isep \<Longrightarrow> printable ksep \<Longrightarrow> printable (dumps fr isep ksep j)"
proof (induction fr isep ksep j rule: dumps.induct)
  case (6 fr isep ksep xs)
  then have "\<forall>x \<in> set (map (dumps fr isep ksep) xs). printable x"
    by (auto simp: list_all_iff)
  then show ?case using 6(3) by (simp add: join_printable)
next
  case (7 fr isep ksep kvs)
  then have "\<forall>x \<in> set (map (\<lambda>(k, v). json_quote k @ ksep @ dumps fr isep ksep v) kvs). printable x"
    by (fastforce simp: list_all_iff json_quote_printable)
  then show ?case using 7(3) by (simp add: join_printable)
qed (auto simp: json_quote_printable show_int_printable)

lemma printable_no_newline: "printable s \<Longrightarrow> CHR 0x0A \<notin> set s"
  by (auto simp: printable_def)

section \<open>Key order\<close>

lemma sort_key_perm:
  assumes "distinct (map f xs)" "mset xs = mset ys"
  shows "sort_key f xs = sort_key f ys"
proof -
  have ms: "mset (map f (sort_key f xs)) = mset (map f (sort_key f ys))"
    using assms(2) by simp
  have "map f (sort_key f xs) = sort (map f (sort_key f ys))"
    by (rule properties_for_sort [symmetric]) (use ms in simp_all)
  also have "\<dots> = map f (sort_key f ys)" by (rule sorted_sort_id) simp
  finally have eq: "map f (sort_key f xs) = map f (sort_key f ys)" .
  have "set ys = set xs" using assms(2) by (metis set_mset_mset)
  moreover have "inj_on f (set xs)" using assms(1) by (simp add: distinct_map)
  ultimately have "inj_on f (set (sort_key f xs) \<union> set (sort_key f ys))" by simp
  with eq show ?thesis by (rule map_inj_on)
qed

lemma sort_keys_perm:
  assumes "distinct (map fst kvs)" "mset kvs = mset kvs'"
  shows "sort_keys (JObj kvs) = sort_keys (JObj kvs')"
proof -
  let ?f = "\<lambda>p :: string \<times> json. case p of (k, v) \<Rightarrow> (k, sort_keys v)"
  have "map fst (map ?f kvs) = map fst kvs" by (induction kvs) auto
  then have "distinct (map fst (map ?f kvs))" using assms(1) by (rule ssubst)
  moreover have "mset (map ?f kvs) = mset (map ?f kvs')" using assms(2) by simp
  ultimately have "sort_key fst (map ?f kvs) = sort_key fst (map ?f kvs')"
    by (rule sort_key_perm)
  then show ?thesis by simp
qed

end
