(* ===== verification/Buckets.thy ===== *)
theory Buckets imports Config begin

text \<open>
  The two token buckets: the in-process \<open>TokenBucket\<close> (\<open>rate_limit/token_bucket.py\<close>) and the
  Redis script (\<open>rate_limit/lua/token_bucket.lua\<close>), the interface both satisfy
  (\<open>metered_bucket\<close>), and the accounting of a whole run proved once from that interface.
  A clock reading is an argument; one reading serves one operation.
\<close>

section \<open>The interface: a refilling bucket that hands out one token\<close>

text \<open>A run takes one token at each of the listed times and records which takes were granted.\<close>

fun bucket_run :: "(rat \<Rightarrow> 's \<Rightarrow> bool \<times> 's) \<Rightarrow> rat list \<Rightarrow> 's \<Rightarrow> bool list \<times> 's" where
  "bucket_run take_one [] s = ([], s)"
| "bucket_run take_one (t # ts) s =
     (case take_one t s of (g, s') \<Rightarrow> (case bucket_run take_one ts s' of (gs, s'') \<Rightarrow> (g # gs, s'')))"

definition granted :: "bool list \<Rightarrow> nat" where
  "granted gs = length (filter id gs)"

lemma granted_simps [simp]:
  "granted [] = 0" "granted (g # gs) = (if g then Suc (granted gs) else granted gs)"
  "granted (gs @ hs) = granted gs + granted hs"
  by (simp_all add: granted_def)

locale metered_bucket =
  fixes take_one :: "rat \<Rightarrow> 's \<Rightarrow> bool \<times> 's"
    and level :: "'s \<Rightarrow> rat"
    and stamp :: "'s \<Rightarrow> rat"
    and cap :: "'s \<Rightarrow> rat"
    and rate :: "'s \<Rightarrow> rat"
    and valid :: "'s \<Rightarrow> bool"
  assumes rate_pos: "valid s \<Longrightarrow> 0 < rate s"
    and level_range: "valid s \<Longrightarrow> 0 \<le> level s \<and> level s \<le> cap s"
    and take_valid: "valid s \<Longrightarrow> take_one t s = (g, s') \<Longrightarrow> valid s'"
    and take_frame: "take_one t s = (g, s') \<Longrightarrow> cap s' = cap s \<and> rate s' = rate s"
    and take_stamp: "take_one t s = (g, s') \<Longrightarrow> stamp s' = t"
    and take_grant: "valid s \<Longrightarrow> stamp s \<le> t \<Longrightarrow> take_one t s = (g, s') \<Longrightarrow>
      g \<longleftrightarrow> 1 \<le> min (cap s) (level s + (t - stamp s) * rate s)"
    and take_level: "valid s \<Longrightarrow> stamp s \<le> t \<Longrightarrow> take_one t s = (g, s') \<Longrightarrow>
      level s' = min (cap s) (level s + (t - stamp s) * rate s) - (if g then 1 else 0)"
begin

text \<open>The level is a potential: what a run hands out is paid for by the initial level and by the
  refill of the elapsed time.\<close>

lemma run_accounting:
  assumes "valid s" "sorted (stamp s # ts)" "bucket_run take_one ts s = (gs, s')"
  shows "valid s' \<and> cap s' = cap s \<and> rate s' = rate s \<and> stamp s \<le> stamp s' \<and>
    of_nat (granted gs) + level s' \<le> level s + (stamp s' - stamp s) * rate s"
  using assms
proof (induction ts arbitrary: s gs)
  case Nil
  then show ?case by simp
next
  case (Cons t ts)
  obtain g s1 where one: "take_one t s = (g, s1)" by fastforce
  obtain gs1 where rest: "bucket_run take_one ts s1 = (gs1, s')" and gs: "gs = g # gs1"
    using Cons.prems one by (auto split: prod.splits)
  have le: "stamp s \<le> t" and st: "stamp s1 = t" and fr: "cap s1 = cap s" "rate s1 = rate s"
    using Cons.prems take_stamp [OF one] take_frame [OF one] by auto
  have v1: "valid s1" using take_valid [OF Cons.prems(1) one] .
  have IH: "valid s' \<and> cap s' = cap s1 \<and> rate s' = rate s1 \<and> stamp s1 \<le> stamp s' \<and>
      of_nat (granted gs1) + level s' \<le> level s1 + (stamp s' - stamp s1) * rate s1"
    using Cons.IH [OF v1 _ rest] Cons.prems(2) st by simp
  have "level s1 + (if g then 1 else 0) \<le> level s + (t - stamp s) * rate s"
    using take_level [OF Cons.prems(1) le one] by simp
  then show ?case using IH st fr gs le by (cases g) (auto simp: algebra_simps)
qed

lemma run_stamp:
  "bucket_run take_one ts s = (gs, s') \<Longrightarrow> stamp s' = last (stamp s # ts)"
proof (induction ts arbitrary: s gs)
  case Nil
  then show ?case by simp
next
  case (Cons t ts)
  obtain g s1 where one: "take_one t s = (g, s1)" by fastforce
  then show ?case
    using Cons.IH [of s1] Cons.prems take_stamp [OF one] by (auto split: prod.splits)
qed

lemma run_bound:
  assumes "valid s" "sorted (stamp s # ts)" "bucket_run take_one ts s = (gs, s')"
  shows "of_nat (granted gs) \<le> cap s + (stamp s' - stamp s) * rate s"
proof -
  have "valid s'" and "of_nat (granted gs) + level s' \<le> level s + (stamp s' - stamp s) * rate s"
    using run_accounting [OF assms] by auto
  then show ?thesis using level_range [of s'] level_range [OF assms(1)] by linarith
qed

lemma grant_after_wait:
  assumes "valid s" "1 \<le> cap s" "stamp s + 1 / rate s \<le> t" "take_one t s = (g, s')"
  shows g
proof -
  have r: "0 < rate s" using rate_pos [OF assms(1)] .
  have "1 = (1 / rate s) * rate s" using r by simp
  also have "\<dots> \<le> (t - stamp s) * rate s" using assms(3) r by (intro mult_right_mono) auto
  finally have "1 \<le> level s + (t - stamp s) * rate s" using level_range [OF assms(1)] by linarith
  moreover have "stamp s \<le> t"
  proof -
    have "0 < 1 / rate s" using r by simp
    then show ?thesis using assms(3) by linarith
  qed
  ultimately show ?thesis using take_grant [OF assms(1) _ assms(4)] assms(2) by simp
qed

end

section \<open>TokenBucket\<close>

record token_bucket =
  tb_capacity :: int
  tb_refill :: rat
  tb_tokens :: rat
  tb_last :: rat

definition new_token_bucket :: "int \<Rightarrow> rat \<Rightarrow> rat \<Rightarrow> exn + token_bucket" where
  "new_token_bucket capacity refill_per_sec now =
     (if capacity \<le> 0 then Inl ValueE
      else if refill_per_sec \<le> 0 then Inl ValueE
      else Inr \<lparr>tb_capacity = capacity, tb_refill = refill_per_sec,
                tb_tokens = of_int capacity, tb_last = now\<rparr>)"

definition refresh :: "rat \<Rightarrow> token_bucket \<Rightarrow> token_bucket" where
  "refresh now b =
     (let elapsed = now - tb_last b;
          b1 = (if elapsed > 0
                then b\<lparr>tb_tokens := min (of_int (tb_capacity b)) (tb_tokens b + elapsed * tb_refill b)\<rparr>
                else b)
      in b1\<lparr>tb_last := now\<rparr>)"

definition try_acquire :: "int \<Rightarrow> rat \<Rightarrow> token_bucket \<Rightarrow> bool \<times> token_bucket" where
  "try_acquire n now b =
     (let b1 = refresh now b
      in if tb_tokens b1 \<ge> of_int n then (True, b1\<lparr>tb_tokens := tb_tokens b1 - of_int n\<rparr>)
         else (False, b1))"

definition bucket_wf :: "token_bucket \<Rightarrow> bool" where
  "bucket_wf b \<longleftrightarrow> 0 < tb_capacity b \<and> 0 < tb_refill b \<and>
     0 \<le> tb_tokens b \<and> tb_tokens b \<le> of_int (tb_capacity b)"

lemma new_token_bucket_wf: "new_token_bucket c r t = Inr b \<Longrightarrow> bucket_wf b"
  by (auto simp: new_token_bucket_def bucket_wf_def split: if_splits)

lemma refresh_wf: "bucket_wf b \<Longrightarrow> bucket_wf (refresh t b)"
  by (auto simp: bucket_wf_def refresh_def Let_def)

lemma try_acquire_wf: "bucket_wf b \<Longrightarrow> 0 \<le> n \<Longrightarrow> try_acquire n t b = (g, b') \<Longrightarrow> bucket_wf b'"
  using refresh_wf [of b t]
  by (auto simp: try_acquire_def Let_def bucket_wf_def split: if_splits)

lemma refresh_tokens:
  "bucket_wf b \<Longrightarrow> tb_last b \<le> t \<Longrightarrow>
    tb_tokens (refresh t b) =
      min (of_int (tb_capacity b)) (tb_tokens b + (t - tb_last b) * tb_refill b)"
  by (auto simp: refresh_def Let_def bucket_wf_def)

lemma refresh_frame [simp]:
  "tb_capacity (refresh t b) = tb_capacity b" "tb_refill (refresh t b) = tb_refill b"
  "tb_last (refresh t b) = t"
  by (simp_all add: refresh_def Let_def)

lemma try_acquire_frame:
  "try_acquire n t b = (g, b') \<Longrightarrow>
    tb_capacity b' = tb_capacity b \<and> tb_refill b' = tb_refill b \<and> tb_last b' = t"
  by (auto simp: try_acquire_def Let_def split: if_splits)

interpretation tb: metered_bucket "try_acquire 1" tb_tokens tb_last
  "\<lambda>b. of_int (tb_capacity b)" tb_refill bucket_wf
proof unfold_locales
  fix b b' t g
  assume wf: "bucket_wf b"
  show "0 < tb_refill b" "0 \<le> tb_tokens b \<and> tb_tokens b \<le> of_int (tb_capacity b)"
    using wf by (simp_all add: bucket_wf_def)
  assume eq: "try_acquire 1 t b = (g, b')"
  show "bucket_wf b'" using try_acquire_wf [OF wf _ eq] by simp
  assume le: "tb_last b \<le> t"
  show "g = (1 \<le> min (of_int (tb_capacity b)) (tb_tokens b + (t - tb_last b) * tb_refill b))"
    and "tb_tokens b' = min (of_int (tb_capacity b)) (tb_tokens b + (t - tb_last b) * tb_refill b)
      - (if g then 1 else 0)"
    using eq refresh_tokens [OF wf le] by (auto simp: try_acquire_def Let_def split: if_splits)
qed (auto dest: try_acquire_frame)

section \<open>The Redis script\<close>

text \<open>
  \<open>HMGET\<close> yields either both fields or none (the script writes them together, and expiry removes
  the whole hash), so a hash is an optional pair of tokens and time stamp in milliseconds.  The
  result is the returned 0 or 1 and the fields written by \<open>HSET\<close>.
\<close>

type_synonym lua_hash = "rat \<times> rat"

definition lua_token_bucket ::
    "rat \<Rightarrow> rat \<Rightarrow> rat \<Rightarrow> rat \<Rightarrow> lua_hash option \<Rightarrow> nat \<times> lua_hash" where
  "lua_token_bucket capacity refill now_ms n h =
     (let (tokens, last_ms) = (case h of None \<Rightarrow> (capacity, now_ms) | Some p \<Rightarrow> p);
          elapsed_sec = (now_ms - last_ms) / 1000;
          elapsed_sec = (if elapsed_sec < 0 then 0 else elapsed_sec);
          tokens = min capacity (tokens + elapsed_sec * refill)
      in if tokens < n then (0, (tokens, now_ms))
         else (1, (tokens - n, now_ms)))"

lemma lua_new_bucket:
  "lua_token_bucket c r t n None = lua_token_bucket c r t n (Some (c, t))"
  by (simp add: lua_token_bucket_def)

text \<open>The script on a stored hash, with its capacity and refill rate carried along.\<close>

fun lua_take :: "rat \<Rightarrow> bucket_config \<times> lua_hash \<Rightarrow> bool \<times> (bucket_config \<times> lua_hash)" where
  "lua_take t (c, h) =
     (case lua_token_bucket (of_int (bc_capacity c)) (bc_refill c) t 1 (Some h) of
        (r, h') \<Rightarrow> (r = 1, (c, h')))"

fun lua_wf :: "bucket_config \<times> lua_hash \<Rightarrow> bool" where
  "lua_wf (c, (tokens, last_ms)) \<longleftrightarrow>
     0 < bc_refill c \<and> 0 \<le> tokens \<and> tokens \<le> of_int (bc_capacity c)"

lemma lua_take_simps:
  "lua_take t (c, (tk, l)) =
    (let tk' = min (of_int (bc_capacity c)) (tk + max 0 ((t - l) / 1000) * bc_refill c)
     in if tk' < 1 then (False, (c, (tk', t))) else (True, (c, (tk' - 1, t))))"
  by (auto simp: lua_token_bucket_def Let_def max_def)

interpretation lua: metered_bucket lua_take "\<lambda>s. fst (snd s)" "\<lambda>s. snd (snd s)"
  "\<lambda>s. of_int (bc_capacity (fst s))" "\<lambda>s. bc_refill (fst s) / 1000" lua_wf
proof unfold_locales
  fix s s' :: "bucket_config \<times> lua_hash" and t g
  obtain c tk l where s: "s = (c, (tk, l))" by (metis surj_pair)
  show "lua_wf s \<Longrightarrow> 0 < bc_refill (fst s) / 1000"
    and "lua_wf s \<Longrightarrow> 0 \<le> fst (snd s) \<and> fst (snd s) \<le> of_int (bc_capacity (fst s))"
    by (auto simp: s)
  assume eq: "lua_take t s = (g, s')"
  note eq' = eq [unfolded s lua_take_simps Let_def]
  show "of_int (bc_capacity (fst s')) = of_int (bc_capacity (fst s)) \<and>
      bc_refill (fst s') / 1000 = bc_refill (fst s) / 1000"
    and "snd (snd s') = t"
    using eq' s by (auto split: if_splits)
  assume wf: "lua_wf s"
  show "lua_wf s'" using eq' wf s by (auto simp: not_less split: if_splits)
  assume le: "snd (snd s) \<le> t"
  then have mx: "max 0 ((t - l) / 1000) * bc_refill c = (t - l) * (bc_refill c / 1000)"
    by (simp add: s max_def)
  show "g = (1 \<le> min (of_int (bc_capacity (fst s)))
        (fst (snd s) + (t - snd (snd s)) * (bc_refill (fst s) / 1000)))"
    and "fst (snd s') = min (of_int (bc_capacity (fst s)))
        (fst (snd s) + (t - snd (snd s)) * (bc_refill (fst s) / 1000)) - (if g then 1 else 0)"
    using eq' by (auto simp: s mx split: if_splits)
qed

end
