(* ===== verification/Limiter.thy ===== *)
theory Limiter imports Buckets begin

text \<open>
  \<open>rate_limit/limiter.py\<close>: the \<open>RateLimiter\<close> protocol as an interface and the in-process
  implementation with its tenant and session buckets.  \<open>acquire\<close> runs under one lock, so a run of
  the limiter is a sequence of whole \<open>acquire\<close> calls.
\<close>

section \<open>The protocol\<close>

definition rate_limited_error :: "string \<Rightarrow> string \<Rightarrow> exn" where
  "rate_limited_error msg scope = wazuh_error_init ''rate_limited'' msg 429 (Some scope)"

abbreviation tenant_limited :: exn where
  "tenant_limited \<equiv> rate_limited_error ''tenant rate limit exceeded'' ''rate_limit:tenant''"

abbreviation session_limited :: exn where
  "session_limited \<equiv> rate_limited_error ''session rate limit exceeded'' ''rate_limit:session''"

lemma rate_limited_error_simps [simp]:
  "rate_limited_error m sc =
    WazuhE \<lparr>we_code = ''rate_limited'', we_message = m, we_status = 429, we_scope = Some sc\<rparr>"
  by (simp add: rate_limited_error_def)

declare rate_limited_error_simps [simp del]

lemma tenant_limited_neq [simp]: "tenant_limited \<noteq> session_limited" "session_limited \<noteq> tenant_limited"
  by (simp_all add: rate_limited_error_simps)

locale rate_limiter =
  fixes acquire_op :: "rat \<Rightarrow> string \<Rightarrow> string \<Rightarrow> 's \<Rightarrow> (exn + unit) \<times> 's"
    and good :: "'s \<Rightarrow> bool"
  assumes good_step: "good s \<Longrightarrow> acquire_op t tid sid s = (r, s') \<Longrightarrow> good s'"
    and only_rate_limited: "good s \<Longrightarrow> acquire_op t tid sid s = (Inl e, s') \<Longrightarrow>
      e \<in> {tenant_limited, session_limited}"

section \<open>InProcessRateLimiter\<close>

record limiter =
  lm_default :: rate_limit_config
  lm_per_tenant :: "string \<rightharpoonup> rate_limit_config"
  lm_tenants :: "string \<rightharpoonup> token_bucket"
  lm_sessions :: "string \<times> string \<rightharpoonup> token_bucket"

definition new_limiter :: "rate_limit_config \<Rightarrow> (string \<rightharpoonup> rate_limit_config) \<Rightarrow> limiter" where
  "new_limiter dflt per_tenant =
     \<lparr>lm_default = dflt, lm_per_tenant = per_tenant, lm_tenants = Map.empty, lm_sessions = Map.empty\<rparr>"

definition mk_bucket :: "bucket_config \<Rightarrow> rat \<Rightarrow> exn + token_bucket" where
  "mk_bucket cfg now = new_token_bucket (bc_capacity cfg) (bc_refill cfg) now"

definition limiter_cfg :: "limiter \<Rightarrow> string \<Rightarrow> rate_limit_config" where
  "limiter_cfg st tid = (case lm_per_tenant st tid of None \<Rightarrow> lm_default st | Some c \<Rightarrow> c)"

definition setdefault :: "('k \<rightharpoonup> 'v) \<Rightarrow> 'k \<Rightarrow> 'v \<Rightarrow> 'v" where
  "setdefault m k v = (case m k of None \<Rightarrow> v | Some w \<Rightarrow> w)"

text \<open>The bucket obtained by \<open>setdefault\<close> is stored back after \<open>try_acquire\<close> changed it in place.\<close>

definition acquire :: "rat \<Rightarrow> string \<Rightarrow> string \<Rightarrow> limiter \<Rightarrow> (exn + unit) \<times> limiter" where
  "acquire now tid sid st =
     (let cfg = limiter_cfg st tid in
      case mk_bucket (rl_tenant cfg) now of
        Inl e \<Rightarrow> (Inl e, st)
      | Inr tfresh \<Rightarrow>
          (let (tok, tb') = try_acquire 1 now (setdefault (lm_tenants st) tid tfresh);
               st1 = st\<lparr>lm_tenants := (lm_tenants st)(tid \<mapsto> tb')\<rparr>
           in if \<not> tok then (Inl tenant_limited, st1)
              else case mk_bucket (rl_session cfg) now of
                Inl e \<Rightarrow> (Inl e, st1)
              | Inr sfresh \<Rightarrow>
                  (let (sok, sb') = try_acquire 1 now (setdefault (lm_sessions st1) (tid, sid) sfresh);
                       st2 = st1\<lparr>lm_sessions := (lm_sessions st1)((tid, sid) \<mapsto> sb')\<rparr>
                   in if \<not> sok then (Inl session_limited, st2) else (Inr (), st2))))"

text \<open>A run of calls, each a time, a tenant and a session.\<close>

type_synonym call = "rat \<times> string \<times> string"

fun limiter_run :: "limiter \<Rightarrow> call list \<Rightarrow> (exn + unit) list \<times> limiter" where
  "limiter_run st [] = ([], st)"
| "limiter_run st ((now, tid, sid) # cs) =
     (let (r, st1) = acquire now tid sid st; (rs, st2) = limiter_run st1 cs in (r # rs, st2))"

definition admitted :: "string \<Rightarrow> call list \<Rightarrow> (exn + unit) list \<Rightarrow> nat" where
  "admitted tid cs rs = length (filter (\<lambda>((now, t, s), r). t = tid \<and> r = Inr ()) (zip cs rs))"

section \<open>Invariant\<close>

definition limiter_wf :: "limiter \<Rightarrow> bool" where
  "limiter_wf st \<longleftrightarrow>
     rate_limit_ok (lm_default st) \<and> (\<forall>tid c. lm_per_tenant st tid = Some c \<longrightarrow> rate_limit_ok c) \<and>
     (\<forall>tid b. lm_tenants st tid = Some b \<longrightarrow> bucket_wf b \<and>
        tb_capacity b = bc_capacity (rl_tenant (limiter_cfg st tid)) \<and>
        tb_refill b = bc_refill (rl_tenant (limiter_cfg st tid))) \<and>
     (\<forall>tid sid b. lm_sessions st (tid, sid) = Some b \<longrightarrow> bucket_wf b \<and>
        tb_capacity b = bc_capacity (rl_session (limiter_cfg st tid)) \<and>
        tb_refill b = bc_refill (rl_session (limiter_cfg st tid)))"

lemma limiter_cfg_update [simp]:
  "limiter_cfg (st\<lparr>lm_tenants := a\<rparr>) tid = limiter_cfg st tid"
  "limiter_cfg (st\<lparr>lm_sessions := b\<rparr>) tid = limiter_cfg st tid"
  by (simp_all add: limiter_cfg_def split: option.splits)

lemma limiter_cfg_ok: "limiter_wf st \<Longrightarrow> rate_limit_ok (limiter_cfg st tid)"
  by (auto simp: limiter_wf_def limiter_cfg_def split: option.splits)

definition full_bucket :: "bucket_config \<Rightarrow> rat \<Rightarrow> token_bucket" where
  "full_bucket cfg now = \<lparr>tb_capacity = bc_capacity cfg, tb_refill = bc_refill cfg,
     tb_tokens = of_int (bc_capacity cfg), tb_last = now\<rparr>"

lemma mk_bucket_ok: "bucket_config_ok cfg \<Longrightarrow> mk_bucket cfg now = Inr (full_bucket cfg now)"
  by (simp add: mk_bucket_def new_token_bucket_def bucket_config_ok_def full_bucket_def)

lemma full_bucket_wf: "bucket_config_ok cfg \<Longrightarrow> bucket_wf (full_bucket cfg now)"
  by (simp add: bucket_wf_def bucket_config_ok_def full_bucket_def)

lemma full_bucket_sel [simp]:
  "tb_capacity (full_bucket cfg now) = bc_capacity cfg" "tb_refill (full_bucket cfg now) = bc_refill cfg"
  "tb_tokens (full_bucket cfg now) = of_int (bc_capacity cfg)" "tb_last (full_bucket cfg now) = now"
  by (simp_all add: full_bucket_def)

definition tenant_bucket :: "limiter \<Rightarrow> string \<Rightarrow> rat \<Rightarrow> token_bucket" where
  "tenant_bucket st tid now =
     setdefault (lm_tenants st) tid (full_bucket (rl_tenant (limiter_cfg st tid)) now)"

definition session_bucket :: "limiter \<Rightarrow> string \<Rightarrow> string \<Rightarrow> rat \<Rightarrow> token_bucket" where
  "session_bucket st tid sid now =
     setdefault (lm_sessions st) (tid, sid) (full_bucket (rl_session (limiter_cfg st tid)) now)"

lemma buckets_wf:
  assumes "limiter_wf st"
  shows "bucket_wf (tenant_bucket st tid now)" "bucket_wf (session_bucket st tid sid now)"
    "tb_capacity (tenant_bucket st tid now) = bc_capacity (rl_tenant (limiter_cfg st tid))"
    "tb_refill (tenant_bucket st tid now) = bc_refill (rl_tenant (limiter_cfg st tid))"
    "tb_capacity (session_bucket st tid sid now) = bc_capacity (rl_session (limiter_cfg st tid))"
    "tb_refill (session_bucket st tid sid now) = bc_refill (rl_session (limiter_cfg st tid))"
  using assms limiter_cfg_ok [OF assms, of tid]
  by (auto simp: tenant_bucket_def session_bucket_def setdefault_def limiter_wf_def rate_limit_ok_def
      full_bucket_wf split: option.splits)

text \<open>\<open>acquire\<close> on a well-formed limiter never raises for its configuration.\<close>

lemma acquire_eq:
  assumes "limiter_wf st"
  shows "acquire now tid sid st =
    (let (tok, tb') = try_acquire 1 now (tenant_bucket st tid now);
         st1 = st\<lparr>lm_tenants := (lm_tenants st)(tid \<mapsto> tb')\<rparr>
     in if \<not> tok then (Inl tenant_limited, st1)
        else (let (sok, sb') = try_acquire 1 now (session_bucket st tid sid now);
                  st2 = st1\<lparr>lm_sessions := (lm_sessions st)((tid, sid) \<mapsto> sb')\<rparr>
              in if \<not> sok then (Inl session_limited, st2) else (Inr (), st2)))"
  using limiter_cfg_ok [OF assms, of tid]
  by (simp add: acquire_def Let_def rate_limit_ok_def mk_bucket_ok tenant_bucket_def
      session_bucket_def case_prod_unfold)

lemma limiter_wf_tenants:
  assumes "limiter_wf st" "bucket_wf b" "tb_capacity b = bc_capacity (rl_tenant (limiter_cfg st tid))"
    "tb_refill b = bc_refill (rl_tenant (limiter_cfg st tid))"
  shows "limiter_wf (st\<lparr>lm_tenants := (lm_tenants st)(tid \<mapsto> b)\<rparr>)"
  using assms by (simp add: limiter_wf_def)

lemma limiter_wf_sessions:
  assumes "limiter_wf st" "bucket_wf b" "tb_capacity b = bc_capacity (rl_session (limiter_cfg st tid))"
    "tb_refill b = bc_refill (rl_session (limiter_cfg st tid))"
  shows "limiter_wf (st\<lparr>lm_sessions := (lm_sessions st)((tid, sid) \<mapsto> b)\<rparr>)"
  using assms by (simp add: limiter_wf_def)

lemma acquire_cases:
  assumes wf: "limiter_wf st" and acq: "acquire now tid sid st = (r, st')"
  obtains (tenant_denied) b where "try_acquire 1 now (tenant_bucket st tid now) = (False, b)"
      "r = Inl tenant_limited" "st' = st\<lparr>lm_tenants := (lm_tenants st)(tid \<mapsto> b)\<rparr>"
  | (session_denied) b sb where "try_acquire 1 now (tenant_bucket st tid now) = (True, b)"
      "try_acquire 1 now (session_bucket st tid sid now) = (False, sb)" "r = Inl session_limited"
      "st' = st\<lparr>lm_tenants := (lm_tenants st)(tid \<mapsto> b),
        lm_sessions := (lm_sessions st)((tid, sid) \<mapsto> sb)\<rparr>"
  | (admitted) b sb where "try_acquire 1 now (tenant_bucket st tid now) = (True, b)"
      "try_acquire 1 now (session_bucket st tid sid now) = (True, sb)" "r = Inr ()"
      "st' = st\<lparr>lm_tenants := (lm_tenants st)(tid \<mapsto> b),
        lm_sessions := (lm_sessions st)((tid, sid) \<mapsto> sb)\<rparr>"
  using acq unfolding acquire_eq [OF wf] by (auto simp: Let_def split: prod.splits if_splits)

lemma try_acquire_keeps:
  assumes "bucket_wf b" "try_acquire 1 now b = (g, b')"
  shows "bucket_wf b'" "tb_capacity b' = tb_capacity b" "tb_refill b' = tb_refill b" "tb_last b' = now"
  using assms try_acquire_wf [of b 1] try_acquire_frame by auto

lemma acquire_wf:
  assumes wf: "limiter_wf st" and acq: "acquire now tid sid st = (r, st')"
  shows "limiter_wf st'"
proof -
  have t: "limiter_wf (st\<lparr>lm_tenants := (lm_tenants st)(tid \<mapsto> b)\<rparr>)"
    if "try_acquire 1 now (tenant_bucket st tid now) = (g, b)" for g b
    using limiter_wf_tenants [OF wf] try_acquire_keeps [OF buckets_wf(1) [OF wf] that]
    by (simp add: buckets_wf [OF wf])
  have s: "bucket_wf b \<and> tb_capacity b = bc_capacity (rl_session (limiter_cfg st tid)) \<and>
      tb_refill b = bc_refill (rl_session (limiter_cfg st tid))"
    if "try_acquire 1 now (session_bucket st tid sid now) = (g, b)" for g b
    using try_acquire_keeps [OF buckets_wf(2) [OF wf] that] by (simp add: buckets_wf [OF wf])
  show ?thesis
    using wf acq
  proof (cases rule: acquire_cases)
    case (tenant_denied b)
    then show ?thesis using t [of False b] by simp
  next
    case (session_denied b sb)
    then show ?thesis using limiter_wf_sessions [OF t [of True b], of sb tid sid] s [of False sb] by simp
  next
    case (admitted b sb)
    then show ?thesis using limiter_wf_sessions [OF t [of True b], of sb tid sid] s [of True sb] by simp
  qed
qed

lemma acquire_only_limited:
  "limiter_wf st \<Longrightarrow> acquire now tid sid st = (Inl e, st') \<Longrightarrow> e \<in> {tenant_limited, session_limited}"
  by (auto elim: acquire_cases)

interpretation inproc: rate_limiter acquire limiter_wf
  by unfold_locales (auto dest: acquire_wf acquire_only_limited)

lemma new_limiter_wf:
  "rate_limit_ok d \<Longrightarrow> (\<And>tid c. per tid = Some c \<Longrightarrow> rate_limit_ok c) \<Longrightarrow> limiter_wf (new_limiter d per)"
  by (auto simp: limiter_wf_def new_limiter_def)

section \<open>A tenant's calls are paid from its own bucket\<close>

lemma acquire_tenant_bucket:
  assumes wf: "limiter_wf st" and acq: "acquire now tid sid st = (r, st')"
  obtains g b where "try_acquire 1 now (tenant_bucket st tid now) = (g, b)"
    "lm_tenants st' = (lm_tenants st)(tid \<mapsto> b)" "r = Inr () \<Longrightarrow> g"
  using wf acq by (cases rule: acquire_cases) auto

lemma acquire_cfg:
  assumes "limiter_wf st" "acquire now tid sid st = (r, st')"
  shows "limiter_cfg st' t = limiter_cfg st t"
  using assms by (cases rule: acquire_cases) simp_all

lemma admitted_Cons:
  "admitted t ((now, tid, sid) # cs) (r # rs) =
    (if tid = t \<and> r = Inr () then 1 else 0) + admitted t cs rs"
  by (simp add: admitted_def)

definition call_times :: "string \<Rightarrow> call list \<Rightarrow> rat list" where
  "call_times t cs = map fst (filter (\<lambda>(now, tid, sid). tid = t) cs)"

lemma call_times_simps [simp]:
  "call_times t [] = []"
  "call_times t ((now, tid, sid) # cs) = (if tid = t then now # call_times t cs else call_times t cs)"
  by (simp_all add: call_times_def)

text \<open>Projection of a run to one tenant: its bucket makes a run of its own over the tenant's call
  times, and every admitted call was granted there.\<close>

lemma limiter_run_projection:
  assumes "limiter_wf st" "limiter_run st cs = (rs, st')" "lm_tenants st t = Some b"
  shows "\<exists>gs b'. bucket_run (try_acquire 1) (call_times t cs) b = (gs, b') \<and>
    lm_tenants st' t = Some b' \<and> admitted t cs rs \<le> granted gs"
  using assms
proof (induction cs arbitrary: st rs b)
  case Nil
  then show ?case by (simp add: admitted_def)
next
  case (Cons c cs)
  obtain now tid sid where c: "c = (now, tid, sid)" by (cases c)
  obtain r st1 rs1 where acq: "acquire now tid sid st = (r, st1)"
    and rest: "limiter_run st1 cs = (rs1, st')" and rs: "rs = r # rs1"
    using Cons.prems(2) c by (auto simp: Let_def split: prod.splits)
  have wf1: "limiter_wf st1" using acquire_wf [OF Cons.prems(1) acq] .
  obtain g b1 where step: "try_acquire 1 now (tenant_bucket st tid now) = (g, b1)"
    and tn: "lm_tenants st1 = (lm_tenants st)(tid \<mapsto> b1)" and ok: "r = Inr () \<Longrightarrow> g"
    using acquire_tenant_bucket [OF Cons.prems(1) acq] by metis
  show ?case
  proof (cases "tid = t")
    case True
    then have "tenant_bucket st tid now = b"
      using Cons.prems(3) by (simp add: tenant_bucket_def setdefault_def)
    then show ?thesis
      using Cons.IH [OF wf1 rest, of b1] step tn ok True c rs by (auto simp: admitted_Cons)
  next
    case False
    then show ?thesis
      using Cons.IH [OF wf1 rest, of b] tn Cons.prems(3) c rs by (auto simp: admitted_Cons)
  qed
qed

text \<open>A limiter that has not seen a tenant behaves as if the tenant's bucket were full.\<close>

definition materialise :: "limiter \<Rightarrow> string \<Rightarrow> rat \<Rightarrow> limiter" where
  "materialise st t now = st\<lparr>lm_tenants := (lm_tenants st)(t \<mapsto> tenant_bucket st t now)\<rparr>"

lemma materialise_wf: "limiter_wf st \<Longrightarrow> limiter_wf (materialise st t now)"
  unfolding materialise_def by (rule limiter_wf_tenants) (simp_all add: buckets_wf)

lemma acquire_materialise:
  assumes "limiter_wf st"
  shows "acquire now t sid (materialise st t now) = acquire now t sid st"
proof -
  have "tenant_bucket (materialise st t now) t now = tenant_bucket st t now"
    and "session_bucket (materialise st t now) t sid now = session_bucket st t sid now"
    by (simp_all add: materialise_def tenant_bucket_def session_bucket_def setdefault_def)
  then show ?thesis
    unfolding acquire_eq [OF assms] acquire_eq [OF materialise_wf [OF assms]]
    by (simp add: materialise_def Let_def case_prod_unfold)
qed

lemma run_bound_known:
  assumes wf: "limiter_wf st" and run: "limiter_run st cs = (rs, st')"
    and b: "lm_tenants st t = Some b" and srt: "sorted (tb_last b # call_times t cs)"
    and rng: "\<forall>x \<in> set (tb_last b # call_times t cs). lo \<le> x \<and> x \<le> hi"
  shows "of_nat (admitted t cs rs) \<le> of_int (bc_capacity (rl_tenant (limiter_cfg st t))) +
    (hi - lo) * bc_refill (rl_tenant (limiter_cfg st t))"
proof -
  obtain gs b' where br: "bucket_run (try_acquire 1) (call_times t cs) b = (gs, b')"
    and le: "admitted t cs rs \<le> granted gs"
    using limiter_run_projection [OF wf run b] by blast
  have bw: "bucket_wf b" and bc: "tb_capacity b = bc_capacity (rl_tenant (limiter_cfg st t))"
    and rf: "tb_refill b = bc_refill (rl_tenant (limiter_cfg st t))"
    using wf b by (auto simp: limiter_wf_def)
  have "of_nat (granted gs) \<le> of_int (tb_capacity b) + (tb_last b' - tb_last b) * tb_refill b"
    using tb.run_bound [OF bw srt br] .
  moreover have "tb_last b' \<le> hi" and "lo \<le> tb_last b"
    using tb.run_stamp [OF br] rng last_in_set [of "tb_last b # call_times t cs"]
    by (auto simp del: last.simps)
  then have "(tb_last b' - tb_last b) * tb_refill b \<le> (hi - lo) * tb_refill b"
    using bw by (intro mult_right_mono) (auto simp: bucket_wf_def)
  ultimately have "of_nat (granted gs) \<le> of_int (tb_capacity b) + (hi - lo) * tb_refill b"
    by linarith
  then show ?thesis using le bc rf by (metis of_nat_mono order_trans)
qed

lemma run_bound_unknown:
  assumes "limiter_wf st" "limiter_run st cs = (rs, st')" "lm_tenants st t = None"
    "sorted (call_times t cs)" "\<forall>x \<in> set (call_times t cs). lo \<le> x \<and> x \<le> hi" "lo \<le> hi"
  shows "of_nat (admitted t cs rs) \<le> of_int (bc_capacity (rl_tenant (limiter_cfg st t))) +
    (hi - lo) * bc_refill (rl_tenant (limiter_cfg st t))"
  using assms
proof (induction cs arbitrary: st rs)
  case Nil
  have "bucket_config_ok (rl_tenant (limiter_cfg st t))"
    using limiter_cfg_ok [OF Nil.prems(1)] by (simp add: rate_limit_ok_def)
  then have "0 < bc_capacity (rl_tenant (limiter_cfg st t))"
    and "0 \<le> (hi - lo) * bc_refill (rl_tenant (limiter_cfg st t))"
    using Nil.prems(6) by (auto simp: bucket_config_ok_def)
  then show ?case by (simp add: admitted_def)
next
  case (Cons c cs)
  obtain now tid sid where c: "c = (now, tid, sid)" by (cases c)
  obtain r st1 rs1 where acq: "acquire now tid sid st = (r, st1)"
    and rest: "limiter_run st1 cs = (rs1, st')" and rs: "rs = r # rs1"
    using Cons.prems(2) c by (auto simp: Let_def split: prod.splits)
  show ?case
  proof (cases "tid = t")
    case True
    have "limiter_run (materialise st t now) (c # cs) = (rs, st')"
      using Cons.prems(2) c True by (simp add: acquire_materialise [OF Cons.prems(1)])
    from run_bound_known [OF materialise_wf [OF Cons.prems(1)] this,
        where t = t and b = "tenant_bucket st t now" and lo = lo and hi = hi]
    show ?thesis
      using Cons.prems(3,4,5) c True
      by (simp add: materialise_def tenant_bucket_def setdefault_def)
  next
    case False
    have "lm_tenants st1 t = None" and "limiter_cfg st1 t = limiter_cfg st t"
      using acquire_tenant_bucket [OF Cons.prems(1) acq] acquire_cfg [OF Cons.prems(1) acq]
        Cons.prems(3) False by (metis fun_upd_other)+
    then show ?thesis
      using Cons.IH [OF acquire_wf [OF Cons.prems(1) acq] rest] Cons.prems(4-6) c False rs
      by (simp add: admitted_Cons)
  qed
qed

text \<open>
  A tenant never gets more than its burst plus its refill.  In any run of a freshly built
  in-process limiter, whatever other tenants do and however many sessions the tenant spreads its
  calls over, the calls of the tenant admitted between \<open>lo\<close> and \<open>hi\<close> number at most the capacity
  of its tenant bucket plus the refill of the elapsed time.
\<close>

theorem tenant_rate_bound:
  assumes "rate_limit_ok dflt" "\<forall>tid c. per tid = Some c \<longrightarrow> rate_limit_ok c"
    "limiter_run (new_limiter dflt per) cs = (rs, st')"
    "sorted (call_times t cs)" "\<forall>x \<in> set (call_times t cs). lo \<le> x \<and> x \<le> hi" "lo \<le> hi"
  shows "of_nat (admitted t cs rs) \<le>
    of_int (bc_capacity (rl_tenant (limiter_cfg (new_limiter dflt per) t))) +
    (hi - lo) * bc_refill (rl_tenant (limiter_cfg (new_limiter dflt per) t))"
  by (rule run_bound_unknown [OF new_limiter_wf assms(3) _ assms(4-6)])
    (use assms(1,2) in \<open>auto simp: new_limiter_def\<close>)

definition tiny_limits :: rate_limit_config where
  "tiny_limits = \<lparr>rl_tenant = \<lparr>bc_capacity = 1, bc_refill = 1\<rparr>,
                  rl_session = \<lparr>bc_capacity = 1, bc_refill = 1\<rparr>\<rparr>"

lemma tiny_limits_ok: "rate_limit_ok tiny_limits"
  by (simp add: rate_limit_ok_def tiny_limits_def bucket_config_ok_def)

lemmas limiter_eval = tiny_limits_def new_limiter_def acquire_def limiter_cfg_def mk_bucket_def
  new_token_bucket_def setdefault_def try_acquire_def refresh_def Let_def

text \<open>Two calls at once and one a second later, from three sessions: two are admitted.\<close>

lemma tiny_run:
  "map (\<lambda>r. r = Inr ()) (fst (limiter_run (new_limiter tiny_limits Map.empty)
      [(0, ''a'', ''s1''), (0, ''a'', ''s2''), (1, ''a'', ''s3'')])) = [True, False, True]"
  by (simp add: limiter_eval)

theorem tenant_rate_bound_witness:
  "\<exists>rs st'. limiter_run (new_limiter tiny_limits Map.empty)
      [(0, ''a'', ''s1''), (0, ''a'', ''s2''), (1, ''a'', ''s3'')] = (rs, st') \<and>
    map (\<lambda>r. r = Inr ()) rs = [True, False, True] \<and>
    of_nat (admitted ''a'' [(0, ''a'', ''s1''), (0, ''a'', ''s2''), (1, ''a'', ''s3'')] rs) \<le> (2 :: rat)"
proof -
  obtain rs st' where run: "limiter_run (new_limiter tiny_limits Map.empty)
      [(0, ''a'', ''s1''), (0, ''a'', ''s2''), (1, ''a'', ''s3'')] = (rs, st')"
    by fastforce
  have "of_nat (admitted ''a'' [(0, ''a'', ''s1''), (0, ''a'', ''s2''), (1, ''a'', ''s3'')] rs) \<le> (2 :: rat)"
    using tenant_rate_bound [OF tiny_limits_ok _ run, of "''a''" 0 1]
    by (simp add: new_limiter_def limiter_cfg_def tiny_limits_def)
  then show ?thesis using run tiny_run by simp
qed

section \<open>Isolation and the order of the two checks\<close>

text \<open>
  One call touches only its own tenant's bucket and its own session's bucket, and a call the
  tenant bucket refuses leaves every session bucket as it was.
\<close>

theorem acquire_isolation:
  assumes "limiter_wf st" "acquire now tid sid st = (r, st')"
  shows "(t \<noteq> tid \<longrightarrow> lm_tenants st' t = lm_tenants st t) \<and>
    ((t, s) \<noteq> (tid, sid) \<longrightarrow> lm_sessions st' (t, s) = lm_sessions st (t, s)) \<and>
    (r = Inl tenant_limited \<longrightarrow> lm_sessions st' = lm_sessions st)"
  using assms by (cases rule: acquire_cases) auto

theorem acquire_isolation_witness:
  "limiter_wf (new_limiter tiny_limits Map.empty) \<and>
    (\<exists>r st'. acquire 0 ''a'' ''s'' (new_limiter tiny_limits Map.empty) = (r, st') \<and>
      lm_tenants st' ''b'' = None \<and> lm_tenants st' ''a'' \<noteq> None)"
proof -
  let ?st = "new_limiter tiny_limits Map.empty"
  have wf: "limiter_wf ?st" by (rule new_limiter_wf [OF tiny_limits_ok]) simp
  obtain r st' where acq: "acquire 0 ''a'' ''s'' ?st = (r, st')" by fastforce
  moreover have "lm_tenants st' ''b'' = lm_tenants ?st ''b''"
    using acquire_isolation [OF wf acq, of "''b''"] by simp
  moreover have "lm_tenants st' ''a'' \<noteq> None"
    using acquire_tenant_bucket [OF wf acq] by (metis fun_upd_same option.distinct(1))
  ultimately show ?thesis using wf by (auto simp: new_limiter_def)
qed

text \<open>
  The tenant token is taken before the session bucket is asked and is not given back.  A call
  that its session bucket refuses has consumed one token of the tenant, so a session that keeps
  calling after it ran dry drains the tenant bucket of its siblings.
\<close>

theorem session_denial_costs_tenant:
  assumes "limiter_wf st" "acquire now tid sid st = (Inl session_limited, st')"
  shows "\<exists>b. lm_tenants st' tid = Some b \<and>
    tb_tokens b = tb_tokens (refresh now (tenant_bucket st tid now)) - 1"
  using assms
  by (cases rule: acquire_cases) (auto simp: try_acquire_def Let_def split: if_splits)

definition skewed_limits :: rate_limit_config where
  "skewed_limits = \<lparr>rl_tenant = \<lparr>bc_capacity = 3, bc_refill = 1\<rparr>,
                    rl_session = \<lparr>bc_capacity = 1, bc_refill = 1\<rparr>\<rparr>"

text \<open>One rogue session calls three times: two refusals, and a sibling's first call is refused by
  the tenant bucket.\<close>

theorem session_denial_costs_tenant_witness:
  "\<exists>st1 st2. snd (acquire 0 ''a'' ''rogue'' (new_limiter skewed_limits Map.empty)) = st1 \<and>
    acquire 0 ''a'' ''rogue'' st1 = (Inl session_limited, st2) \<and>
    (\<exists>b. lm_tenants st2 ''a'' = Some b \<and> tb_tokens b = 1) \<and>
    fst (acquire 0 ''a'' ''sibling'' (snd (acquire 0 ''a'' ''rogue'' st2))) = Inl tenant_limited"
proof -
  let ?st0 = "new_limiter skewed_limits Map.empty"
  let ?st1 = "snd (acquire 0 ''a'' ''rogue'' ?st0)"
  let ?st2 = "snd (acquire 0 ''a'' ''rogue'' ?st1)"
  have "rate_limit_ok skewed_limits"
    by (simp add: rate_limit_ok_def skewed_limits_def bucket_config_ok_def)
  then have "limiter_wf ?st0" by (rule new_limiter_wf) simp
  then have wf: "limiter_wf ?st1" by (rule acquire_wf) (rule surjective_pairing)
  have acq: "acquire 0 ''a'' ''rogue'' ?st1 = (Inl session_limited, ?st2)"
    by (simp add: skewed_limits_def limiter_eval)
  have "\<exists>b. lm_tenants ?st2 ''a'' = Some b \<and> tb_tokens b = 1"
    using session_denial_costs_tenant [OF wf acq]
    by (simp add: skewed_limits_def limiter_eval tenant_bucket_def)
  moreover have "fst (acquire 0 ''a'' ''sibling'' (snd (acquire 0 ''a'' ''rogue'' ?st2))) = Inl tenant_limited"
    by (simp add: skewed_limits_def limiter_eval)
  ultimately show ?thesis using acq by blast
qed

end
