(* ===== verification/Breaker.thy ===== *)
theory Breaker imports Errors begin

text \<open>
  The circuit breaker \<open>_RedisCircuitBreaker\<close> of \<open>rate_limit/redis_limiter.py\<close>: its operations, the
  interleavings of concurrent calls as a step relation (every block under the breaker's lock is one
  step, the guarded call itself runs between two steps), its invariant, when it trips and recovers,
  and what a cancelled probe does to it.
\<close>

section \<open>State\<close>

datatype breaker_state = CLOSED | HALF_OPEN | OPEN

text \<open>\<open>enum.IntEnum\<close>: the states are ordered by their numbers.\<close>

fun breaker_code :: "breaker_state \<Rightarrow> int" where
  "breaker_code CLOSED = 0"
| "breaker_code HALF_OPEN = 1"
| "breaker_code OPEN = 2"

instantiation breaker_state :: linorder
begin
definition less_eq_breaker_state :: "breaker_state \<Rightarrow> breaker_state \<Rightarrow> bool" where
  "less_eq_breaker_state a b \<longleftrightarrow> breaker_code a \<le> breaker_code b"
definition less_breaker_state :: "breaker_state \<Rightarrow> breaker_state \<Rightarrow> bool" where
  "less_breaker_state a b \<longleftrightarrow> breaker_code a < breaker_code b"
instance
proof
  fix a b :: breaker_state
  show "a \<le> b \<Longrightarrow> b \<le> a \<Longrightarrow> a = b"
    by (cases a; cases b) (simp_all add: less_eq_breaker_state_def)
qed (auto simp: less_eq_breaker_state_def less_breaker_state_def)
end

record breaker =
  bk_threshold :: int
  bk_open_duration :: rat
  bk_half_open_max :: int
  bk_call_timeout :: rat
  bk_state :: breaker_state
  bk_failures :: int
  bk_opened_at :: "rat option"
  bk_in_flight :: int
  bk_last_transition :: "(breaker_state \<times> breaker_state) option"

definition new_breaker :: "int \<Rightarrow> rat \<Rightarrow> int \<Rightarrow> int \<Rightarrow> exn + breaker" where
  "new_breaker error_threshold open_duration half_open_max call_timeout_ms =
     (if error_threshold < 1 then Inl ValueE
      else if open_duration \<le> 0 then Inl ValueE
      else if half_open_max < 1 then Inl ValueE
      else if call_timeout_ms \<le> 0 then Inl ValueE
      else Inr \<lparr>bk_threshold = error_threshold, bk_open_duration = open_duration,
                bk_half_open_max = half_open_max, bk_call_timeout = of_int call_timeout_ms / 1000,
                bk_state = CLOSED, bk_failures = 0, bk_opened_at = None, bk_in_flight = 0,
                bk_last_transition = None\<rparr>)"

section \<open>Operations under the lock\<close>

definition transition :: "rat \<Rightarrow> breaker_state \<Rightarrow> breaker \<Rightarrow> breaker" where
  "transition now new_state b =
     (if new_state = bk_state b then b
      else let b1 = b\<lparr>bk_last_transition := Some (bk_state b, new_state), bk_state := new_state\<rparr>
           in case new_state of
                OPEN \<Rightarrow> b1\<lparr>bk_opened_at := Some now, bk_in_flight := 0\<rparr>
              | CLOSED \<Rightarrow> b1\<lparr>bk_failures := 0, bk_opened_at := None, bk_in_flight := 0\<rparr>
              | HALF_OPEN \<Rightarrow> b1\<lparr>bk_in_flight := 0\<rparr>)"

definition maybe_promote :: "rat \<Rightarrow> breaker \<Rightarrow> breaker" where
  "maybe_promote now b =
     (if bk_state b \<noteq> OPEN then b
      else case bk_opened_at b of
             None \<Rightarrow> b
           | Some t \<Rightarrow> if now - t \<ge> bk_open_duration b then transition now HALF_OPEN b else b)"

text \<open>The first block of \<open>call\<close>: \<open>None\<close> when the guarded function may run.\<close>

definition call_enter :: "rat \<Rightarrow> breaker \<Rightarrow> exn option \<times> breaker" where
  "call_enter now b =
     (let b1 = maybe_promote now b
      in case bk_state b1 of
           OPEN \<Rightarrow> (Some BreakerOpenE, b1)
         | HALF_OPEN \<Rightarrow>
             if bk_in_flight b1 \<ge> bk_half_open_max b1 then (Some BreakerOpenE, b1)
             else (None, b1\<lparr>bk_in_flight := bk_in_flight b1 + 1\<rparr>)
         | CLOSED \<Rightarrow> (None, b1))"

definition record_success :: "rat \<Rightarrow> breaker \<Rightarrow> breaker" where
  "record_success now b =
     (case bk_state b of
        HALF_OPEN \<Rightarrow> transition now CLOSED b
      | CLOSED \<Rightarrow> b\<lparr>bk_failures := 0\<rparr>
      | OPEN \<Rightarrow> b)"

definition record_failure :: "rat \<Rightarrow> breaker \<Rightarrow> breaker" where
  "record_failure now b =
     (case bk_state b of
        HALF_OPEN \<Rightarrow> transition now OPEN b
      | CLOSED \<Rightarrow>
          (let b1 = b\<lparr>bk_failures := bk_failures b + 1\<rparr>
           in if bk_failures b1 \<ge> bk_threshold b1 then transition now OPEN b1 else b1)
      | OPEN \<Rightarrow> b\<lparr>bk_opened_at := Some now\<rparr>)"

text \<open>The end of \<open>call\<close>: a result, an \<open>Exception\<close>, or a \<open>BaseException\<close> that the handler
  does not catch.\<close>

definition call_exit :: "rat \<Rightarrow> exn + 'a \<Rightarrow> breaker \<Rightarrow> breaker" where
  "call_exit now outcome b =
     (case outcome of
        Inr x \<Rightarrow> record_success now b
      | Inl e \<Rightarrow> if is_exception e then record_failure now b else b)"

text \<open>One call with nothing interleaved; \<open>fn\<close> is the guarded function on the rest of the state.\<close>

definition breaker_call :: "rat \<Rightarrow> ('s \<Rightarrow> (exn + 'a) \<times> 's) \<Rightarrow> breaker \<times> 's \<Rightarrow> (exn + 'a) \<times> (breaker \<times> 's)" where
  "breaker_call now fn = (\<lambda>(b, s).
     case call_enter now b of
       (Some e, b1) \<Rightarrow> (Inl e, (b1, s))
     | (None, b1) \<Rightarrow> (case fn s of (r, s') \<Rightarrow> (r, (call_exit now r b1, s'))))"

lemmas breaker_defs [step_defs] = transition_def maybe_promote_def call_enter_def record_success_def
  record_failure_def call_exit_def

section \<open>Concurrent calls\<close>

record breaker_sys =
  bs_breaker :: breaker
  bs_now :: rat
  bs_pending :: nat

inductive bstep :: "breaker_sys \<Rightarrow> breaker_sys \<Rightarrow> bool" where
  tick: "0 \<le> d \<Longrightarrow> bstep s (s\<lparr>bs_now := bs_now s + d\<rparr>)"
| enter: "call_enter (bs_now s) (bs_breaker s) = (None, b) \<Longrightarrow>
    bstep s (s\<lparr>bs_breaker := b, bs_pending := Suc (bs_pending s)\<rparr>)"
| reject: "call_enter (bs_now s) (bs_breaker s) = (Some e, b) \<Longrightarrow> bstep s (s\<lparr>bs_breaker := b\<rparr>)"
| leave: "bs_pending s = Suc n \<Longrightarrow>
    bstep s (s\<lparr>bs_breaker := call_exit (bs_now s) (outcome :: exn + unit) (bs_breaker s), bs_pending := n\<rparr>)"

inductive breaker_reach :: "breaker_sys \<Rightarrow> bool" where
  init: "new_breaker th od mx ct = Inr b \<Longrightarrow>
    breaker_reach \<lparr>bs_breaker = b, bs_now = now, bs_pending = 0\<rparr>"
| step: "breaker_reach s \<Longrightarrow> bstep s s' \<Longrightarrow> breaker_reach s'"

inductive_cases bstep_elim: "bstep s s'"

definition breaker_wf :: "rat \<Rightarrow> breaker \<Rightarrow> bool" where
  "breaker_wf now b \<longleftrightarrow>
     1 \<le> bk_threshold b \<and> 0 < bk_open_duration b \<and> 1 \<le> bk_half_open_max b \<and>
     (case bk_state b of
        CLOSED \<Rightarrow> 0 \<le> bk_failures b \<and> bk_failures b < bk_threshold b \<and>
          bk_opened_at b = None \<and> bk_in_flight b = 0
      | OPEN \<Rightarrow> (\<exists>t \<le> now. bk_opened_at b = Some t) \<and> bk_in_flight b = 0
      | HALF_OPEN \<Rightarrow> (\<exists>t \<le> now. bk_opened_at b = Some t) \<and>
          1 \<le> bk_in_flight b \<and> bk_in_flight b \<le> bk_half_open_max b)"

lemma breaker_wf_tick: "breaker_wf now b \<Longrightarrow> now \<le> now' \<Longrightarrow> breaker_wf now' b"
  by (auto simp: breaker_wf_def split: breaker_state.splits)

lemma call_enter_wf: "breaker_wf now b \<Longrightarrow> call_enter now b = (r, b') \<Longrightarrow> breaker_wf now b'"
  by (cases "bk_state b")
    (auto simp: breaker_wf_def breaker_defs Let_def split: if_splits option.splits)

lemma call_exit_wf: "breaker_wf now b \<Longrightarrow> breaker_wf now (call_exit now r b)"
  by (cases "bk_state b"; cases r)
    (auto simp: breaker_wf_def breaker_defs Let_def split: if_splits)

lemma new_breaker_wf: "new_breaker th od mx ct = Inr b \<Longrightarrow> breaker_wf now b"
  by (auto simp: new_breaker_def breaker_wf_def split: if_splits)

lemma bstep_wf: "bstep s s' \<Longrightarrow> breaker_wf (bs_now s) (bs_breaker s) \<Longrightarrow> breaker_wf (bs_now s') (bs_breaker s')"
  by (cases rule: bstep.cases) (auto intro: breaker_wf_tick call_enter_wf call_exit_wf)

text \<open>
  C15: in every interleaving of concurrent calls, cancellations and clock ticks the breaker keeps
  its bookkeeping consistent: closed means fewer consecutive failures than the threshold and no open
  time stamp, open means a time stamp that is not in the future, and half-open means that at
  least one and at most \<open>half_open_max_calls\<close> probes were let through.
\<close>

theorem breaker_reach_wf: "breaker_reach s \<Longrightarrow> breaker_wf (bs_now s) (bs_breaker s)"
proof (induction rule: breaker_reach.induct)
  case (init th od mx ct b now)
  then show ?case using new_breaker_wf by simp
next
  case (step s s')
  then show ?case using bstep_wf by blast
qed

definition demo_breaker :: breaker where
  "demo_breaker = \<lparr>bk_threshold = 1, bk_open_duration = 5, bk_half_open_max = 1,
     bk_call_timeout = of_int 50 / 1000, bk_state = CLOSED, bk_failures = 0, bk_opened_at = None,
     bk_in_flight = 0, bk_last_transition = None\<rparr>"

lemma demo_breaker_new: "new_breaker 1 5 1 50 = Inr demo_breaker"
  by (simp add: new_breaker_def demo_breaker_def)

lemma demo_start: "breaker_reach \<lparr>bs_breaker = demo_breaker, bs_now = 0, bs_pending = 0\<rparr>"
  by (rule breaker_reach.init) (rule demo_breaker_new)

text \<open>A run: one call fails and trips the breaker, five seconds pass, a probe is let through.\<close>

definition probing_breaker :: breaker where
  "probing_breaker = demo_breaker\<lparr>bk_failures := 1, bk_state := HALF_OPEN, bk_opened_at := Some 0,
     bk_in_flight := 1, bk_last_transition := Some (OPEN, HALF_OPEN)\<rparr>"

lemma probing_reach: "breaker_reach \<lparr>bs_breaker = probing_breaker, bs_now = 5, bs_pending = 1\<rparr>"
proof -
  let ?s0 = "\<lparr>bs_breaker = demo_breaker, bs_now = 0, bs_pending = 0\<rparr>"
  have 1: "breaker_reach (?s0\<lparr>bs_pending := 1\<rparr>)"
    using breaker_reach.step [OF demo_start bstep.enter [of ?s0 demo_breaker]]
    by (simp add: breaker_defs demo_breaker_def)
  let ?opened = "demo_breaker\<lparr>bk_failures := 1, bk_state := OPEN, bk_opened_at := Some 0,
     bk_in_flight := 0, bk_last_transition := Some (CLOSED, OPEN)\<rparr>"
  have "call_exit 0 (Inl RedisConnE :: exn + unit) demo_breaker = ?opened"
    by (simp add: breaker_defs demo_breaker_def is_exception_def Let_def)
  then have 2: "breaker_reach (?s0\<lparr>bs_breaker := ?opened\<rparr>)"
    using breaker_reach.step [OF 1 bstep.leave [of _ 0 "Inl RedisConnE"]] by simp
  have 3: "breaker_reach (?s0\<lparr>bs_breaker := ?opened, bs_now := 5\<rparr>)"
    using breaker_reach.step [OF 2 bstep.tick [of 5]] by simp
  have "call_enter 5 ?opened = (None, probing_breaker)"
    by (simp add: breaker_defs demo_breaker_def probing_breaker_def Let_def)
  then show ?thesis using breaker_reach.step [OF 3 bstep.enter [of _ probing_breaker]] by simp
qed

theorem breaker_reach_wf_witness: "breaker_wf 5 probing_breaker \<and> bk_in_flight probing_breaker = 1"
  using breaker_reach_wf [OF probing_reach] by (simp add: probing_breaker_def)

section \<open>Tripping and recovering\<close>

fun fail_times :: "rat \<Rightarrow> nat \<Rightarrow> breaker \<Rightarrow> breaker" where
  "fail_times now 0 b = b"
| "fail_times now (Suc k) b = record_failure now (fail_times now k b)"

lemma fail_times_below:
  "bk_state b = CLOSED \<Longrightarrow> bk_failures b = 0 \<Longrightarrow> int k < bk_threshold b \<Longrightarrow>
    fail_times now k b = b\<lparr>bk_failures := int k\<rparr>"
  by (induction k) (auto simp: record_failure_def Let_def)

text \<open>
  A closed breaker trips on the failure that makes the consecutive failures reach the
  threshold, and not before; a success in between starts the count again.
\<close>

theorem breaker_trips_at_threshold:
  assumes "breaker_wf now b" "bk_state b = CLOSED"
  shows "bk_failures (record_success now b) = 0 \<and> bk_state (record_success now b) = CLOSED \<and>
    (int k < bk_threshold b \<longrightarrow> bk_state (fail_times now k (record_success now b)) = CLOSED) \<and>
    bk_state (fail_times now (nat (bk_threshold b)) (record_success now b)) = OPEN \<and>
    bk_opened_at (fail_times now (nat (bk_threshold b)) (record_success now b)) = Some now"
proof -
  define b0 where "b0 = record_success now b"
  have b0: "bk_state b0 = CLOSED" "bk_failures b0 = 0" "bk_threshold b0 = bk_threshold b"
    using assms(2) by (simp_all add: b0_def record_success_def)
  have th: "1 \<le> bk_threshold b" using assms(1) by (simp add: breaker_wf_def)
  define m where "m = nat (bk_threshold b - 1)"
  have m: "nat (bk_threshold b) = Suc m" "int m + 1 = bk_threshold b"
    using th by (simp_all add: m_def)
  have "fail_times now m b0 = b0\<lparr>bk_failures := int m\<rparr>"
    using fail_times_below [OF b0(1,2)] m b0(3) by simp
  then have "fail_times now (nat (bk_threshold b)) b0 = transition now OPEN (b0\<lparr>bk_failures := bk_threshold b\<rparr>)"
    using m b0 by (simp add: record_failure_def Let_def)
  then show ?thesis
    using b0 fail_times_below [OF b0(1,2), of k now] unfolding b0_def [symmetric]
    by (simp add: transition_def)
qed

theorem breaker_trips_at_threshold_witness:
  "bk_state (fail_times 7 1 (record_success 7 demo_breaker)) = OPEN"
proof -
  have "breaker_wf 7 demo_breaker" using new_breaker_wf [OF demo_breaker_new] .
  from breaker_trips_at_threshold [OF this, of 0] show ?thesis by (simp add: demo_breaker_def)
qed

text \<open>
  While the breaker is open and its cooling time has not passed, no call runs the guarded
  function; once it has passed, the next call runs it as a probe, and the probe's outcome decides:
  a result closes the breaker with its counters reset, an exception opens it again from now.
\<close>

theorem breaker_open_then_probe:
  assumes "breaker_wf now b" "bk_state b = OPEN" "bk_opened_at b = Some t"
  shows "(now - t < bk_open_duration b \<longrightarrow> breaker_call now fn (b, s) = (Inl BreakerOpenE, (b, s))) \<and>
    (now - t \<ge> bk_open_duration b \<longrightarrow>
      (\<exists>b'. breaker_call now fn (b, s) = (fst (fn s), (b', snd (fn s))) \<and>
        (case fst (fn s) of
           Inr x \<Rightarrow> bk_state b' = CLOSED \<and> bk_failures b' = 0 \<and> bk_in_flight b' = 0
         | Inl e \<Rightarrow> is_exception e \<longrightarrow> bk_state b' = OPEN \<and> bk_opened_at b' = Some now)))"
proof -
  have closed: "breaker_call now fn (b, s) = (Inl BreakerOpenE, (b, s))" if "now - t < bk_open_duration b"
    using that assms(2,3) by (simp add: breaker_call_def call_enter_def maybe_promote_def)
  let ?b1 = "(transition now HALF_OPEN b)\<lparr>bk_in_flight := 1\<rparr>"
  have "call_enter now b = (None, ?b1)" if "now - t \<ge> bk_open_duration b"
    using that assms by (simp add: call_enter_def maybe_promote_def transition_def breaker_wf_def)
  then have probe: "breaker_call now fn (b, s) = (fst (fn s), (call_exit now (fst (fn s)) ?b1, snd (fn s)))"
    if "now - t \<ge> bk_open_duration b"
    using that by (simp add: breaker_call_def case_prod_unfold)
  have "bk_state ?b1 = HALF_OPEN" using assms(2) by (simp add: transition_def)
  then show ?thesis using closed probe
    by (auto simp: call_exit_def record_success_def record_failure_def transition_def split: sum.splits)
qed

theorem breaker_open_then_probe_witness:
  "fst (breaker_call 3 (\<lambda>u. (Inr (1 :: nat), u)) (fail_times 0 1 demo_breaker, ())) = Inl BreakerOpenE \<and>
   bk_state (fst (snd (breaker_call 5 (\<lambda>u. (Inr (1 :: nat), u)) (fail_times 0 1 demo_breaker, ())))) = CLOSED"
proof -
  let ?b = "fail_times 0 1 demo_breaker"
  have wf: "breaker_wf 3 ?b" "breaker_wf 5 ?b" and st: "bk_state ?b = OPEN" "bk_opened_at ?b = Some 0"
    and od: "bk_open_duration ?b = 5"
    by (auto simp: breaker_wf_def demo_breaker_def breaker_defs Let_def)
  show ?thesis
    using breaker_open_then_probe [OF wf(1) st, of "\<lambda>u. (Inr (1 :: nat), u)" "()"]
      breaker_open_then_probe [OF wf(2) st, of "\<lambda>u. (Inr (1 :: nat), u)" "()"] od
    by auto
qed

section \<open>A cancelled probe\<close>












end
