(* ===== verification/RedisLimiter.thy ===== *)
theory RedisLimiter imports Limiter Breaker begin

text \<open>
  \<open>RedisRateLimiter\<close> of \<open>rate_limit/redis_limiter.py\<close>: the script is run on the tenant key and then
  on the session key, each call through the circuit breaker, with the in-process limiter as
  fallback.  Redis is a store of hashes with expiry and a script cache; each command meets the
  next entry of a list of faults (a request or a reply that is lost with an exception).
\<close>

section \<open>Redis\<close>

datatype fault = NoFault | LostRequest exn | LostReply exn

record redis =
  rd_hashes :: "string \<rightharpoonup> lua_hash \<times> rat"
  rd_has_script :: bool
  rd_faults :: "fault list"

definition redis_command :: "(redis \<Rightarrow> (exn + 'a) \<times> redis) \<Rightarrow> redis \<Rightarrow> (exn + 'a) \<times> redis" where
  "redis_command cmd r =
     (case rd_faults r of
        [] \<Rightarrow> cmd r
      | f # fs \<Rightarrow>
          (let r1 = r\<lparr>rd_faults := fs\<rparr>
           in case f of
                NoFault \<Rightarrow> cmd r1
              | LostRequest e \<Rightarrow> (Inl e, r1)
              | LostReply e \<Rightarrow> (Inl e, snd (cmd r1))))"

definition live_hash :: "rat \<Rightarrow> (lua_hash \<times> rat) option \<Rightarrow> lua_hash option" where
  "live_hash server_ms entry =
     (case entry of None \<Rightarrow> None | Some (h, expires) \<Rightarrow> if server_ms < expires then Some h else None)"

text \<open>\<open>EVALSHA\<close> of the script: \<open>HMGET\<close>, refill and consume, \<open>HSET\<close> and \<open>EXPIRE\<close>, atomically.\<close>

definition evalsha_command ::
    "rat \<Rightarrow> string \<Rightarrow> int \<Rightarrow> rat \<Rightarrow> rat \<Rightarrow> int \<Rightarrow> int \<Rightarrow> redis \<Rightarrow> (exn + nat) \<times> redis" where
  "evalsha_command server_ms key capacity refill now_ms n ttl r =
     (if \<not> rd_has_script r then (Inl NoScriptE, r)
      else case lua_token_bucket (of_int capacity) refill now_ms (of_int n)
                  (live_hash server_ms (rd_hashes r key)) of
             (res, h) \<Rightarrow>
               (Inr res, r\<lparr>rd_hashes := (rd_hashes r)(key \<mapsto> (h, server_ms + 1000 * of_int ttl))\<rparr>))"

definition script_load_command :: "redis \<Rightarrow> (exn + unit) \<times> redis" where
  "script_load_command r = (Inr (), r\<lparr>rd_has_script := True\<rparr>)"

section \<open>The limiter\<close>

text \<open>The clocks one call reads: monotonic seconds, the caller's and the server's milliseconds.\<close>

record clocks =
  ck_mono :: rat
  ck_ms :: rat
  ck_server :: rat

record redis_limiter =
  rl_default :: rate_limit_config
  rl_per_tenant :: "string \<rightharpoonup> rate_limit_config"
  rl_prefix :: string
  rl_breaker :: breaker
  rl_script_sha :: bool
  rl_fallback :: "limiter option"
  rl_redis :: redis
  rl_metrics :: "(string \<times> string) list"

definition redis_cfg :: "redis_limiter \<Rightarrow> string \<Rightarrow> rate_limit_config" where
  "redis_cfg st tid = (case rl_per_tenant st tid of None \<Rightarrow> rl_default st | Some c \<Rightarrow> c)"

definition tenant_key :: "string \<Rightarrow> string \<Rightarrow> string" where
  "tenant_key prefix tid = prefix @ '':tenant:'' @ tid"

definition session_key :: "string \<Rightarrow> string \<Rightarrow> string \<Rightarrow> string" where
  "session_key prefix tid sid = prefix @ '':session:'' @ tid @ '':'' @ sid"

definition ttl_for :: "rate_limit_config \<Rightarrow> int" where
  "ttl_for cfg =
     (let windows = [of_int (bc_capacity (rl_tenant cfg)) / bc_refill (rl_tenant cfg),
                     of_int (bc_capacity (rl_session cfg)) / bc_refill (rl_session cfg)]
      in max \<lceil>2 * max (windows ! 0) (windows ! 1)\<rceil> 60)"

definition ensure_fallback :: "redis_limiter \<Rightarrow> limiter" where
  "ensure_fallback st =
     (case rl_fallback st of
        None \<Rightarrow> new_limiter (rl_default st) (rl_per_tenant st)
      | Some l \<Rightarrow> l)"

definition load_script :: "redis_limiter \<Rightarrow> (exn + unit) \<times> redis_limiter" where
  "load_script st =
     (case redis_command script_load_command (rl_redis st) of
        (Inl e, r) \<Rightarrow> (Inl e, st\<lparr>rl_redis := r\<rparr>)
      | (Inr u, r) \<Rightarrow> (Inr u, st\<lparr>rl_redis := r, rl_script_sha := True\<rparr>))"

definition evalsha ::
    "clocks \<Rightarrow> string \<Rightarrow> bucket_config \<Rightarrow> int \<Rightarrow> int \<Rightarrow> redis_limiter \<Rightarrow> (exn + nat) \<times> redis_limiter" where
  "evalsha ck key cfg n ttl st =
     (case redis_command
             (evalsha_command (ck_server ck) key (bc_capacity cfg) (bc_refill cfg) (ck_ms ck) n ttl)
             (rl_redis st) of
        (res, r) \<Rightarrow> (res, st\<lparr>rl_redis := r\<rparr>))"

definition run_script ::
    "clocks \<Rightarrow> string \<Rightarrow> bucket_config \<Rightarrow> int \<Rightarrow> int \<Rightarrow> redis_limiter \<Rightarrow> (exn + nat) \<times> redis_limiter" where
  "run_script ck key cfg n ttl st =
     (case (if rl_script_sha st then (Inr (), st) else load_script st) of
        (Inl e, st1) \<Rightarrow> (Inl e, st1)
      | (Inr u, st1) \<Rightarrow>
          (case evalsha ck key cfg n ttl st1 of
             (Inl e, st2) \<Rightarrow>
               if e = NoScriptE
               then (case load_script st2 of
                       (Inl e', st3) \<Rightarrow> (Inl e', st3)
                     | (Inr u, st3) \<Rightarrow> evalsha ck key cfg n ttl st3)
               else (Inl e, st2)
           | (Inr k, st2) \<Rightarrow> (Inr k, st2)))"

definition count_metric :: "string \<Rightarrow> string \<Rightarrow> redis_limiter \<Rightarrow> redis_limiter" where
  "count_metric name label st = st\<lparr>rl_metrics := rl_metrics st @ [(name, label)]\<rparr>"

definition try_redis_acquire ::
    "clocks \<Rightarrow> string \<Rightarrow> bucket_config \<Rightarrow> int \<Rightarrow> redis_limiter \<Rightarrow> (exn + bool) \<times> redis_limiter" where
  "try_redis_acquire ck key cfg ttl st =
     (case run_script ck key cfg 1 ttl st of
        (Inr res, st1) \<Rightarrow> (Inr (res = 1), count_metric ''rate_limit_redis_call_total'' ''ok'' st1)
      | (Inl e, st1) \<Rightarrow>
          (Inl e,
           if e = RedisTimeoutE \<or> e = TimeoutE
           then count_metric ''rate_limit_redis_call_total'' ''timeout'' st1
           else if is_exception e then count_metric ''rate_limit_redis_call_total'' ''error'' st1
           else st1))"

text \<open>A guarded call: the breaker lives in the limiter's own state.\<close>

definition guarded_acquire ::
    "clocks \<Rightarrow> string \<Rightarrow> bucket_config \<Rightarrow> int \<Rightarrow> redis_limiter \<Rightarrow> (exn + bool) \<times> redis_limiter" where
  "guarded_acquire ck key cfg ttl st =
     (case breaker_call (ck_mono ck)
             (\<lambda>s. case try_redis_acquire ck key cfg ttl s of (r, s') \<Rightarrow> (wait_for r, s'))
             (rl_breaker st, st) of
        (r, (b, s)) \<Rightarrow> (r, s\<lparr>rl_breaker := b\<rparr>))"

definition use_fallback ::
    "clocks \<Rightarrow> string \<Rightarrow> string \<Rightarrow> string \<Rightarrow> redis_limiter \<Rightarrow> (exn + unit) \<times> redis_limiter" where
  "use_fallback ck scope tid sid st =
     (let st1 = count_metric ''rate_limit_fallback_total'' scope st
      in case acquire (ck_mono ck) tid sid (ensure_fallback st1) of
           (r, l) \<Rightarrow> (r, st1\<lparr>rl_fallback := Some l\<rparr>))"

definition falls_back :: "exn \<Rightarrow> bool" where
  "falls_back e \<longleftrightarrow> e = BreakerOpenE \<or> e = RedisConnE \<or> e = RedisTimeoutE \<or> e = TimeoutE"

definition redis_acquire ::
    "clocks \<Rightarrow> string \<Rightarrow> string \<Rightarrow> redis_limiter \<Rightarrow> (exn + unit) \<times> redis_limiter" where
  "redis_acquire ck tid sid st =
     (let cfg = redis_cfg st tid; ttl = ttl_for cfg;
          tkey = tenant_key (rl_prefix st) tid; skey = session_key (rl_prefix st) tid sid
      in case guarded_acquire ck tkey (rl_tenant cfg) ttl st of
           (Inl e, st1) \<Rightarrow> if falls_back e then use_fallback ck ''tenant'' tid sid st1 else (Inl e, st1)
         | (Inr ok, st1) \<Rightarrow>
             if \<not> ok then (Inl tenant_limited, st1)
             else case guarded_acquire ck skey (rl_session cfg) ttl st1 of
                    (Inl e, st2) \<Rightarrow>
                      if falls_back e then use_fallback ck ''session'' tid sid st2 else (Inl e, st2)
                  | (Inr ok', st2) \<Rightarrow> if \<not> ok' then (Inl session_limited, st2) else (Inr (), st2))"

lemmas redis_defs = redis_acquire_def guarded_acquire_def breaker_call_def try_redis_acquire_def
  run_script_def evalsha_def load_script_def redis_command_def evalsha_command_def
  script_load_command_def wait_for_def Let_def

section \<open>Keys and time to live\<close>

lemma tenant_session_key_neq: "tenant_key p t \<noteq> session_key p t' s"
  by (simp add: tenant_key_def session_key_def)

lemma tenant_key_inj: "tenant_key p t = tenant_key p t' \<longleftrightarrow> t = t'"
  by (simp add: tenant_key_def)

lemma append_sep_inj:
  "c \<notin> set xs \<Longrightarrow> c \<notin> set ys \<Longrightarrow> xs @ c # u = ys @ c # v \<longleftrightarrow> xs = ys \<and> u = v"
proof (induction xs arbitrary: ys)
  case Nil
  then show ?case by (cases ys) auto
next
  case (Cons x xs)
  then show ?case by (cases ys) auto
qed

lemma session_key_inj:
  "CHR '':'' \<notin> set t \<Longrightarrow> CHR '':'' \<notin> set t' \<Longrightarrow>
    session_key p t s = session_key p t' s' \<longleftrightarrow> t = t' \<and> s = s'"
  by (simp add: session_key_def append_sep_inj)

text \<open>The time to live covers two full refills of both buckets.\<close>

lemma ttl_covers_refill:
  assumes "0 < bc_refill (rl_tenant cfg)" "0 < bc_refill (rl_session cfg)"
  shows "2 * of_int (bc_capacity (rl_tenant cfg)) \<le> of_int (ttl_for cfg) * bc_refill (rl_tenant cfg)"
    and "2 * of_int (bc_capacity (rl_session cfg)) \<le> of_int (ttl_for cfg) * bc_refill (rl_session cfg)"
    and "60 \<le> ttl_for cfg"
proof -
  let ?x = "of_int (bc_capacity (rl_tenant cfg)) / bc_refill (rl_tenant cfg)"
  let ?y = "of_int (bc_capacity (rl_session cfg)) / bc_refill (rl_session cfg)"
  have le: "2 * max ?x ?y \<le> of_int (ttl_for cfg)"
    using le_of_int_ceiling [of "2 * max ?x ?y"] by (simp add: ttl_for_def Let_def max_def)
  then have "2 * ?x \<le> of_int (ttl_for cfg)" and "2 * ?y \<le> of_int (ttl_for cfg)" by linarith+
  then show "2 * of_int (bc_capacity (rl_tenant cfg)) \<le> of_int (ttl_for cfg) * bc_refill (rl_tenant cfg)"
    and "2 * of_int (bc_capacity (rl_session cfg)) \<le> of_int (ttl_for cfg) * bc_refill (rl_session cfg)"
    using assms by (simp_all add: pos_divide_le_eq)
  show "60 \<le> ttl_for cfg" by (simp add: ttl_for_def Let_def)
qed

text \<open>An entry old enough to have expired was full again.\<close>

lemma lua_expired_full:
  assumes "0 \<le> tk" "0 < r" "c \<le> T * r" "1000 * T \<le> now - l"
  shows "lua_token_bucket c r now n (Some (tk, l)) = lua_token_bucket c r now n None"
proof -
  have "T \<le> (now - l) / 1000" using assms(4) by simp
  then have "c \<le> tk + (now - l) / 1000 * r"
    using assms(1-3) mult_right_mono [of T "(now - l) / 1000" r] by linarith
  moreover have "c \<le> tk + 0 * r" if "(now - l) / 1000 < 0"
  proof -
    have "T * r \<le> 0" using \<open>T \<le> (now - l) / 1000\<close> that assms(2)
      by (intro mult_nonpos_nonneg) linarith+
    then show ?thesis using assms(1,3) by linarith
  qed
  ultimately show ?thesis by (auto simp: lua_token_bucket_def Let_def min_def)
qed


section \<open>A healthy Redis refines the in-process limiter\<close>

lemma lua_python_step:
  assumes "bucket_wf b" "try_acquire 1 now b = (g, b')"
  shows "lua_token_bucket (of_int (tb_capacity b)) (tb_refill b) (1000 * now) 1
      (Some (tb_tokens b, 1000 * tb_last b)) = (if g then 1 else 0, (tb_tokens b', 1000 * now))"
proof -
  have e: "(1000 * now - 1000 * tb_last b) * tb_refill b / 1000 = (now - tb_last b) * tb_refill b"
    by (simp add: left_diff_distrib diff_divide_distrib)
  show ?thesis
    using assms
    by (auto simp: e lua_token_bucket_def try_acquire_def refresh_def Let_def bucket_wf_def split: if_splits)
qed

text \<open>The clocks of a call made at the wall time \<open>wall\<close>: the caller sends \<open>int(time.time() * 1000)\<close>, whole
  milliseconds, while the server's clock runs on, a constant \<open>skew\<close> away; the monotonic clock is a
  third one.  \<open>time.time()\<close> is not negative, where \<open>int\<close> rounds down.\<close>

definition call_clocks :: "rat \<Rightarrow> rat \<Rightarrow> rat \<Rightarrow> clocks" where
  "call_clocks skew mt wall = \<lparr>ck_mono = mt, ck_ms = of_int \<lfloor>1000 * wall\<rfloor>, ck_server = 1000 * wall + skew\<rparr>"

text \<open>The time at which the in-process limiter would have been called, to the millisecond.\<close>

definition tick :: "rat \<Rightarrow> rat" where
  "tick wall = of_int \<lfloor>1000 * wall\<rfloor> / 1000"

text \<open>The three clocks of a call at a tick: the server's reading is within the tick's millisecond.\<close>

definition ticks_at :: "rat \<Rightarrow> clocks \<Rightarrow> rat \<Rightarrow> bool" where
  "ticks_at skew ck now \<longleftrightarrow> (\<exists>k. 1000 * now = of_int k) \<and> ck_ms ck = 1000 * now \<and>
     1000 * now + skew \<le> ck_server ck \<and> ck_server ck < 1000 * now + skew + 1"

lemma call_clocks_tick: "ticks_at skew (call_clocks skew mt wall) (tick wall)"
  using of_int_floor_le [of "1000 * wall"] floor_correct [of "1000 * wall"]
  by (auto simp: ticks_at_def call_clocks_def tick_def)

definition entry_sim :: "rat \<Rightarrow> int \<Rightarrow> (lua_hash \<times> rat) option \<Rightarrow> token_bucket option \<Rightarrow> bool" where
  "entry_sim skew ttl entry bo \<longleftrightarrow>
     (case bo of
        None \<Rightarrow> entry = None
      | Some b \<Rightarrow> \<exists>k f. 1000 * tb_last b = of_int k \<and> 0 \<le> f \<and> f < 1 \<and>
          entry = Some ((tb_tokens b, 1000 * tb_last b), 1000 * (tb_last b + of_int ttl) + skew + f))"

lemma entry_sim_written:
  assumes "ticks_at skew ck (tb_last b)" "e = ck_server ck + 1000 * of_int ttl"
  shows "entry_sim skew ttl (Some ((tb_tokens b, 1000 * tb_last b), e)) (Some b)"
proof -
  obtain k where "1000 * tb_last b = of_int k" using assms(1) by (auto simp: ticks_at_def)
  moreover have "e = 1000 * (tb_last b + of_int ttl) + skew + (ck_server ck - (1000 * tb_last b + skew))"
    using assms(2) by (simp add: algebra_simps)
  ultimately show ?thesis using assms(1) unfolding entry_sim_def ticks_at_def
    by (auto intro!: exI [of _ k] exI [of _ "ck_server ck - (1000 * tb_last b + skew)"])
qed

lemma live_entry_step:
  assumes sim: "entry_sim skew ttl entry bo" and ok: "bucket_config_ok cfg" and at: "ticks_at skew ck now"
    and wf: "\<And>b. bo = Some b \<Longrightarrow> bucket_wf b \<and> tb_capacity b = bc_capacity cfg \<and> tb_refill b = bc_refill cfg"
    and ttl: "of_int (bc_capacity cfg) \<le> of_int ttl * bc_refill cfg"
    and step: "try_acquire 1 now (case bo of None \<Rightarrow> full_bucket cfg now | Some b \<Rightarrow> b) = (g, b')"
  shows "lua_token_bucket (of_int (bc_capacity cfg)) (bc_refill cfg) (ck_ms ck) 1
      (live_hash (ck_server ck) entry) = (if g then 1 else 0, (tb_tokens b', 1000 * now))"
proof (cases bo)
  case None
  then show ?thesis
    using sim step lua_python_step [OF full_bucket_wf [OF ok], of now now g b'] at
    by (simp add: entry_sim_def live_hash_def lua_new_bucket ticks_at_def)
next
  case (Some b)
  have ms: "ck_ms ck = 1000 * now" using at by (simp add: ticks_at_def)
  have bw: "bucket_wf b" and cap: "tb_capacity b = bc_capacity cfg" "tb_refill b = bc_refill cfg"
    using wf [OF Some] by auto
  have py: "lua_token_bucket (of_int (bc_capacity cfg)) (bc_refill cfg) (1000 * now) 1
      (Some (tb_tokens b, 1000 * tb_last b)) = (if g then 1 else 0, (tb_tokens b', 1000 * now))"
    using lua_python_step [OF bw, of now g b'] step Some cap by simp
  obtain j k f where whole: "1000 * tb_last b = of_int k" "1000 * now = of_int j" and f: "0 \<le> f" "f < 1"
    and entry: "entry = Some ((tb_tokens b, 1000 * tb_last b), 1000 * (tb_last b + of_int ttl) + skew + f)"
    using sim Some at by (auto simp: entry_sim_def ticks_at_def)
  show ?thesis
  proof (cases "ck_server ck < 1000 * (tb_last b + of_int ttl) + skew + f")
    case True
    then show ?thesis using entry py by (simp add: live_hash_def ms)
  next
    case False
    have "(of_int (k + 1000 * ttl) :: rat) < of_int (j + 1)"
      using False at f whole by (simp add: ticks_at_def algebra_simps)
    then have "k + 1000 * ttl \<le> j" by (simp only: of_int_less_iff)
    then have "(of_int (k + 1000 * ttl) :: rat) \<le> of_int j" by (simp only: of_int_le_iff)
    then have "1000 * of_int ttl \<le> 1000 * now - 1000 * tb_last b" using whole by simp
    then have "lua_token_bucket (of_int (bc_capacity cfg)) (bc_refill cfg) (1000 * now) 1
        (Some (tb_tokens b, 1000 * tb_last b)) =
      lua_token_bucket (of_int (bc_capacity cfg)) (bc_refill cfg) (1000 * now) 1 None"
      using bw ok ttl by (intro lua_expired_full) (auto simp: bucket_wf_def bucket_config_ok_def)
    then show ?thesis using entry py False by (simp add: live_hash_def ms)
  qed
qed

definition healthy :: "redis_limiter \<Rightarrow> bool" where
  "healthy st \<longleftrightarrow> bk_state (rl_breaker st) = CLOSED \<and> rd_faults (rl_redis st) = []"

lemma try_redis_acquire_healthy:
  assumes "rd_faults (rl_redis st) = []"
    "lua_token_bucket (of_int (bc_capacity cfg)) (bc_refill cfg) (ck_ms ck) 1
      (live_hash (ck_server ck) (rd_hashes (rl_redis st) key)) = (res, h)"
  shows "\<exists>st'. try_redis_acquire ck key cfg ttl st = (Inr (res = 1), st') \<and>
    rl_breaker st' = rl_breaker st \<and> rd_faults (rl_redis st') = [] \<and>
    rd_hashes (rl_redis st') =
      (rd_hashes (rl_redis st))(key \<mapsto> (h, ck_server ck + 1000 * of_int ttl)) \<and>
    rl_default st' = rl_default st \<and> rl_per_tenant st' = rl_per_tenant st \<and>
    rl_prefix st' = rl_prefix st"
  using assms
  by (cases "rl_script_sha st"; cases "rd_has_script (rl_redis st)")
    (simp_all add: redis_defs count_metric_def)

lemma guarded_healthy:
  assumes "healthy st"
    "lua_token_bucket (of_int (bc_capacity cfg)) (bc_refill cfg) (ck_ms ck) 1
      (live_hash (ck_server ck) (rd_hashes (rl_redis st) key)) = (res, h)"
  obtains st' where "guarded_acquire ck key cfg ttl st = (Inr (res = 1), st')" "healthy st'"
    "rd_hashes (rl_redis st') = (rd_hashes (rl_redis st))(key \<mapsto> (h, ck_server ck + 1000 * of_int ttl))"
    "rl_default st' = rl_default st" "rl_per_tenant st' = rl_per_tenant st"
    "rl_prefix st' = rl_prefix st"
proof -
  have f: "rd_faults (rl_redis st) = []" and c: "bk_state (rl_breaker st) = CLOSED"
    using assms(1) by (simp_all add: healthy_def)
  obtain s where s: "try_redis_acquire ck key cfg ttl st = (Inr (res = 1), s)"
    "rd_faults (rl_redis s) = []"
    "rd_hashes (rl_redis s) = (rd_hashes (rl_redis st))(key \<mapsto> (h, ck_server ck + 1000 * of_int ttl))"
    "rl_default s = rl_default st" "rl_per_tenant s = rl_per_tenant st" "rl_prefix s = rl_prefix st"
    using try_redis_acquire_healthy [OF f assms(2)] by blast
  have "guarded_acquire ck key cfg ttl st =
      (Inr (res = 1), s\<lparr>rl_breaker := (rl_breaker st)\<lparr>bk_failures := 0\<rparr>\<rparr>)"
    using s(1) c
    by (simp add: guarded_acquire_def breaker_call_def breaker_defs Let_def wait_for_def)
  from that [OF this] show ?thesis using s c by (simp add: healthy_def)
qed

text \<open>The simulation: every bucket of the in-process limiter is the hash under its key.\<close>

definition redis_sim :: "rat \<Rightarrow> redis_limiter \<Rightarrow> limiter \<Rightarrow> bool" where
  "redis_sim skew st l \<longleftrightarrow>
     healthy st \<and> limiter_wf l \<and> rl_default st = lm_default l \<and> rl_per_tenant st = lm_per_tenant l \<and>
     (\<forall>t. entry_sim skew (ttl_for (limiter_cfg l t))
        (rd_hashes (rl_redis st) (tenant_key (rl_prefix st) t)) (lm_tenants l t)) \<and>
     (\<forall>t s. CHR '':'' \<notin> set t \<longrightarrow> entry_sim skew (ttl_for (limiter_cfg l t))
        (rd_hashes (rl_redis st) (session_key (rl_prefix st) t s)) (lm_sessions l (t, s)))"

lemma redis_cfg_sim: "redis_sim skew st l \<Longrightarrow> redis_cfg st t = limiter_cfg l t"
  by (simp add: redis_sim_def redis_cfg_def limiter_cfg_def split: option.splits)

lemma redis_tenant_step:
  assumes sim: "redis_sim skew st l"
    and ck: "ticks_at skew ck now"
    and step: "try_acquire 1 now (tenant_bucket l t now) = (g, b')"
  obtains st' where
    "guarded_acquire ck (tenant_key (rl_prefix st) t) (rl_tenant (limiter_cfg l t))
       (ttl_for (limiter_cfg l t)) st = (Inr g, st')"
    "redis_sim skew st' (l\<lparr>lm_tenants := (lm_tenants l)(t \<mapsto> b')\<rparr>)" "rl_prefix st' = rl_prefix st"
proof -
  let ?c = "limiter_cfg l t"
  have wf: "limiter_wf l" and hl: "healthy st" using sim by (simp_all add: redis_sim_def)
  have ok: "bucket_config_ok (rl_tenant ?c)" "bucket_config_ok (rl_session ?c)"
    using limiter_cfg_ok [OF wf, of t] by (simp_all add: rate_limit_ok_def)
  have keeps: "bucket_wf b'" "tb_capacity b' = bc_capacity (rl_tenant ?c)"
    "tb_refill b' = bc_refill (rl_tenant ?c)" "tb_last b' = now"
    using try_acquire_keeps [OF buckets_wf(1) [OF wf] step] by (simp_all add: buckets_wf [OF wf])
  have lua: "lua_token_bucket (of_int (bc_capacity (rl_tenant ?c))) (bc_refill (rl_tenant ?c)) (ck_ms ck) 1
      (live_hash (ck_server ck) (rd_hashes (rl_redis st) (tenant_key (rl_prefix st) t))) =
      (if g then 1 else 0, (tb_tokens b', 1000 * now))"
  proof (rule live_entry_step [OF _ ok(1) ck])
    show "entry_sim skew (ttl_for ?c) (rd_hashes (rl_redis st) (tenant_key (rl_prefix st) t)) (lm_tenants l t)"
      using sim by (simp add: redis_sim_def)
    show "of_int (bc_capacity (rl_tenant ?c)) \<le> of_int (ttl_for ?c) * bc_refill (rl_tenant ?c)"
      using ttl_covers_refill(1) [of ?c] ok by (simp add: bucket_config_ok_def)
    show "try_acquire 1 now (case lm_tenants l t of None \<Rightarrow> full_bucket (rl_tenant ?c) now | Some b \<Rightarrow> b) = (g, b')"
      using step by (simp add: tenant_bucket_def setdefault_def)
  qed (use wf in \<open>auto simp: limiter_wf_def\<close>)
  obtain st' where st': "guarded_acquire ck (tenant_key (rl_prefix st) t) (rl_tenant ?c) (ttl_for ?c) st =
      (Inr ((if g then 1 else 0) = (1 :: nat)), st')" "healthy st'"
    "rd_hashes (rl_redis st') = (rd_hashes (rl_redis st))(tenant_key (rl_prefix st) t \<mapsto>
      ((tb_tokens b', 1000 * now), ck_server ck + 1000 * of_int (ttl_for ?c)))"
    "rl_default st' = rl_default st" "rl_per_tenant st' = rl_per_tenant st" "rl_prefix st' = rl_prefix st"
    using guarded_healthy [OF hl lua] by blast
  have "limiter_wf (l\<lparr>lm_tenants := (lm_tenants l)(t \<mapsto> b')\<rparr>)"
    using limiter_wf_tenants [OF wf keeps(1-3)] .
  then have "redis_sim skew st' (l\<lparr>lm_tenants := (lm_tenants l)(t \<mapsto> b')\<rparr>)"
    using sim st' entry_sim_written [of skew ck b'] ck keeps(4)
    by (auto simp: redis_sim_def tenant_key_inj tenant_session_key_neq tenant_session_key_neq [symmetric])
  then show ?thesis using that [of st'] st' by simp
qed

lemma redis_session_step:
  assumes sim: "redis_sim skew st l" and nocolon: "CHR '':'' \<notin> set t"
    and ck: "ticks_at skew ck now"
    and step: "try_acquire 1 now (session_bucket l t s now) = (g, b')"
  obtains st' where
    "guarded_acquire ck (session_key (rl_prefix st) t s) (rl_session (limiter_cfg l t))
       (ttl_for (limiter_cfg l t)) st = (Inr g, st')"
    "redis_sim skew st' (l\<lparr>lm_sessions := (lm_sessions l)((t, s) \<mapsto> b')\<rparr>)" "rl_prefix st' = rl_prefix st"
proof -
  let ?c = "limiter_cfg l t"
  have wf: "limiter_wf l" and hl: "healthy st" using sim by (simp_all add: redis_sim_def)
  have ok: "bucket_config_ok (rl_tenant ?c)" "bucket_config_ok (rl_session ?c)"
    using limiter_cfg_ok [OF wf, of t] by (simp_all add: rate_limit_ok_def)
  have keeps: "bucket_wf b'" "tb_capacity b' = bc_capacity (rl_session ?c)"
    "tb_refill b' = bc_refill (rl_session ?c)" "tb_last b' = now"
    using try_acquire_keeps [OF buckets_wf(2) [OF wf] step] by (simp_all add: buckets_wf [OF wf])
  have lua: "lua_token_bucket (of_int (bc_capacity (rl_session ?c))) (bc_refill (rl_session ?c)) (ck_ms ck) 1
      (live_hash (ck_server ck) (rd_hashes (rl_redis st) (session_key (rl_prefix st) t s))) =
      (if g then 1 else 0, (tb_tokens b', 1000 * now))"
  proof (rule live_entry_step [OF _ ok(2) ck])
    show "entry_sim skew (ttl_for ?c) (rd_hashes (rl_redis st) (session_key (rl_prefix st) t s))
        (lm_sessions l (t, s))"
      using sim nocolon by (simp add: redis_sim_def)
    show "of_int (bc_capacity (rl_session ?c)) \<le> of_int (ttl_for ?c) * bc_refill (rl_session ?c)"
      using ttl_covers_refill(2) [of ?c] ok by (simp add: bucket_config_ok_def)
    show "try_acquire 1 now (case lm_sessions l (t, s) of None \<Rightarrow> full_bucket (rl_session ?c) now | Some b \<Rightarrow> b) = (g, b')"
      using step by (simp add: session_bucket_def setdefault_def)
  qed (use wf in \<open>auto simp: limiter_wf_def\<close>)
  obtain st' where st': "guarded_acquire ck (session_key (rl_prefix st) t s) (rl_session ?c) (ttl_for ?c) st =
      (Inr ((if g then 1 else 0) = (1 :: nat)), st')" "healthy st'"
    "rd_hashes (rl_redis st') = (rd_hashes (rl_redis st))(session_key (rl_prefix st) t s \<mapsto>
      ((tb_tokens b', 1000 * now), ck_server ck + 1000 * of_int (ttl_for ?c)))"
    "rl_default st' = rl_default st" "rl_per_tenant st' = rl_per_tenant st" "rl_prefix st' = rl_prefix st"
    using guarded_healthy [OF hl lua] by blast
  have "limiter_wf (l\<lparr>lm_sessions := (lm_sessions l)((t, s) \<mapsto> b')\<rparr>)"
    using limiter_wf_sessions [OF wf keeps(1-3)] .
  then have "redis_sim skew st' (l\<lparr>lm_sessions := (lm_sessions l)((t, s) \<mapsto> b')\<rparr>)"
    using sim st' entry_sim_written [of skew ck b'] ck keeps(4) nocolon
    by (auto simp: redis_sim_def session_key_inj tenant_session_key_neq)
  then show ?thesis using that [of st'] st' by simp
qed

lemma redis_acquire_step:
  assumes sim: "redis_sim skew st l" and nocolon: "CHR '':'' \<notin> set tid"
    and ck: "ticks_at skew ck now"
    and acq: "acquire now tid sid l = (r, l')"
  obtains st' where "redis_acquire ck tid sid st = (r, st')" "redis_sim skew st' l'"
    "rl_prefix st' = rl_prefix st"
proof -
  have wf: "limiter_wf l" using sim by (simp add: redis_sim_def)
  have both: "\<exists>st'. redis_acquire ck tid sid st = (if g then Inr () else Inl session_limited, st') \<and>
      redis_sim skew st' (l\<lparr>lm_tenants := (lm_tenants l)(tid \<mapsto> b),
        lm_sessions := (lm_sessions l)((tid, sid) \<mapsto> sb)\<rparr>) \<and> rl_prefix st' = rl_prefix st"
    if t: "try_acquire 1 now (tenant_bucket l tid now) = (True, b)"
      and s: "try_acquire 1 now (session_bucket l tid sid now) = (g, sb)" for b sb g
  proof -
    let ?l1 = "l\<lparr>lm_tenants := (lm_tenants l)(tid \<mapsto> b)\<rparr>"
    obtain st1 where st1: "guarded_acquire ck (tenant_key (rl_prefix st) tid)
        (rl_tenant (limiter_cfg l tid)) (ttl_for (limiter_cfg l tid)) st = (Inr True, st1)"
      "redis_sim skew st1 ?l1" "rl_prefix st1 = rl_prefix st"
      using redis_tenant_step [OF sim ck t] by blast
    have s': "try_acquire 1 now (session_bucket ?l1 tid sid now) = (g, sb)"
      using s by (simp add: session_bucket_def)
    obtain st2 where st2: "guarded_acquire ck (session_key (rl_prefix st) tid sid)
        (rl_session (limiter_cfg l tid)) (ttl_for (limiter_cfg l tid)) st1 = (Inr g, st2)"
      "redis_sim skew st2 (?l1\<lparr>lm_sessions := (lm_sessions ?l1)((tid, sid) \<mapsto> sb)\<rparr>)"
      "rl_prefix st2 = rl_prefix st1"
      using redis_session_step [OF st1(2) nocolon ck s'] st1(3) by auto
    show ?thesis
      using st1 st2 by (simp add: redis_acquire_def Let_def redis_cfg_sim [OF sim])
  qed
  show ?thesis
    using wf acq
  proof (cases rule: acquire_cases)
    case (tenant_denied b)
    obtain st1 where "guarded_acquire ck (tenant_key (rl_prefix st) tid)
        (rl_tenant (limiter_cfg l tid)) (ttl_for (limiter_cfg l tid)) st = (Inr False, st1)"
      "redis_sim skew st1 (l\<lparr>lm_tenants := (lm_tenants l)(tid \<mapsto> b)\<rparr>)" "rl_prefix st1 = rl_prefix st"
      using redis_tenant_step [OF sim ck tenant_denied(1)] by blast
    then show ?thesis
      using that [of st1] tenant_denied by (simp add: redis_acquire_def Let_def redis_cfg_sim [OF sim])
  next
    case (session_denied b sb)
    then show ?thesis using both [of b False sb] that by auto
  next
    case (admitted b sb)
    then show ?thesis using both [of b True sb] that by auto
  qed
qed

text \<open>Runs: each call has its reading of the monotonic clock, its wall time, a tenant and a session.\<close>

type_synonym redis_call = "rat \<times> rat \<times> string \<times> string"

fun redis_run :: "rat \<Rightarrow> redis_limiter \<Rightarrow> redis_call list \<Rightarrow> (exn + unit) list \<times> redis_limiter" where
  "redis_run skew st [] = ([], st)"
| "redis_run skew st ((mt, wall, tid, sid) # cs) =
     (let (r, st1) = redis_acquire (call_clocks skew mt wall) tid sid st;
          (rs, st2) = redis_run skew st1 cs
      in (r # rs, st2))"

text \<open>The same calls to the in-process limiter, each at the tick of its wall time.\<close>

definition ticked :: "redis_call list \<Rightarrow> call list" where
  "ticked cs = map (\<lambda>(mt, wall, tid, sid). (tick wall, tid, sid)) cs"

lemma redis_run_sim:
  assumes "redis_sim skew st l" "\<forall>(mt, wall, tid, sid) \<in> set cs. CHR '':'' \<notin> set tid"
  shows "fst (redis_run skew st cs) = fst (limiter_run l (ticked cs))"
  using assms
proof (induction cs arbitrary: st l)
  case Nil
  then show ?case by (simp add: ticked_def)
next
  case (Cons c cs)
  obtain mt wall tid sid where c: "c = (mt, wall, tid, sid)" by (cases c)
  obtain r l' where acq: "acquire (tick wall) tid sid l = (r, l')" by fastforce
  have nocolon: "CHR '':'' \<notin> set tid" using Cons.prems(2) c by simp
  obtain st' where "redis_acquire (call_clocks skew mt wall) tid sid st = (r, st')" "redis_sim skew st' l'"
    using redis_acquire_step [OF Cons.prems(1) nocolon call_clocks_tick acq] by blast
  then show ?case
    using Cons.IH [of st' l'] Cons.prems(2) c acq by (auto simp: ticked_def Let_def split: prod.splits)
qed

definition new_redis_limiter ::
    "rate_limit_config \<Rightarrow> (string \<rightharpoonup> rate_limit_config) \<Rightarrow> string \<Rightarrow> breaker \<Rightarrow> redis \<Rightarrow> redis_limiter" where
  "new_redis_limiter dflt per prefix b r =
     \<lparr>rl_default = dflt, rl_per_tenant = per, rl_prefix = prefix, rl_breaker = b,
      rl_script_sha = False, rl_fallback = None, rl_redis = r, rl_metrics = []\<rparr>"

text \<open>
  C14: over a Redis that answers, the distributed limiter decides every call as the in-process
  limiter does when it is called at the same wall time, to the whole millisecond that the limiter sends.
  Over any run of calls on a fresh key space, whatever the monotonic clock reads, whatever the constant skew
  of the server's clock and whether or not the script was cached, expiry included, the two give the same
  verdicts.  Each call reads its clocks once, and a tenant id holds no colon.
\<close>

theorem redis_refines_in_process:
  assumes "rate_limit_ok dflt" "\<forall>tid c. per tid = Some c \<longrightarrow> rate_limit_ok c"
    "new_breaker th od mx ct = Inr b" "rd_faults r = []" "rd_hashes r = Map.empty"
    "\<forall>(mt, wall, tid, sid) \<in> set cs. CHR '':'' \<notin> set tid"
  shows "fst (redis_run skew (new_redis_limiter dflt per prefix b r) cs) =
    fst (limiter_run (new_limiter dflt per) (map (\<lambda>(mt, wall, tid, sid). (of_int \<lfloor>1000 * wall\<rfloor> / 1000, tid, sid)) cs))"
proof -
  have "bk_state b = CLOSED" using assms(3) by (auto simp: new_breaker_def split: if_splits)
  then have "redis_sim skew (new_redis_limiter dflt per prefix b r) (new_limiter dflt per)"
    using assms(4,5) new_limiter_wf [OF assms(1)] assms(2)
    by (simp add: redis_sim_def healthy_def new_redis_limiter_def new_limiter_def entry_sim_def)
  from redis_run_sim [OF this assms(6)] show ?thesis unfolding ticked_def tick_def .
qed

definition test_breaker :: breaker where
  "test_breaker = \<lparr>bk_threshold = 2, bk_open_duration = 10, bk_half_open_max = 1, bk_call_timeout = 1,
     bk_state = CLOSED, bk_failures = 0, bk_opened_at = None, bk_in_flight = 0, bk_last_transition = None\<rparr>"

lemma test_breaker_new: "new_breaker 2 10 1 1000 = Inr test_breaker"
  by (simp add: new_breaker_def test_breaker_def)

definition empty_redis :: "fault list \<Rightarrow> redis" where
  "empty_redis fs = \<lparr>rd_hashes = Map.empty, rd_has_script = True, rd_faults = fs\<rparr>"

text \<open>Two calls in one millisecond, and one a second later.\<close>

theorem redis_refines_in_process_witness:
  "map (\<lambda>r. r = Inr ()) (fst (redis_run 7
      (new_redis_limiter tiny_limits Map.empty ''wz'' test_breaker (empty_redis []))
      [(5, 0, ''a'', ''s1''), (6, 0, ''a'', ''s2''), (9, 1, ''a'', ''s3'')])) = [True, False, True]"
  using redis_refines_in_process [OF tiny_limits_ok _ test_breaker_new, of Map.empty "empty_redis []"
      "[(5, 0, ''a'', ''s1''), (6, 0, ''a'', ''s2''), (9, 1, ''a'', ''s3'')]" 7 "''wz''"] tiny_run
  by (simp add: empty_redis_def)

section \<open>Failures\<close>

lemma ensure_fallback_update [simp]:
  "ensure_fallback (st\<lparr>rl_breaker := b\<rparr>) = ensure_fallback st"
  "ensure_fallback (st\<lparr>rl_metrics := m\<rparr>) = ensure_fallback st"
  "ensure_fallback (st\<lparr>rl_fallback := Some l\<rparr>) = l"
  by (simp_all add: ensure_fallback_def split: option.splits)

lemma guarded_closed_error:
  assumes "bk_state (rl_breaker st) = CLOSED"
    "try_redis_acquire ck key cfg ttl st = (Inl e, s)" "is_exception e"
  shows "guarded_acquire ck key cfg ttl st =
    (Inl e, s\<lparr>rl_breaker := record_failure (ck_mono ck) (rl_breaker st)\<rparr>)"
  using assms
  by (auto simp: guarded_acquire_def breaker_call_def call_enter_def maybe_promote_def Let_def
      wait_for_def call_exit_def is_exception_def)

lemma guarded_rejected:
  assumes "call_enter (ck_mono ck) (rl_breaker st) = (Some e, b)"
  shows "guarded_acquire ck key cfg ttl st = (Inl e, st\<lparr>rl_breaker := b\<rparr>)"
  using assms by (simp add: guarded_acquire_def breaker_call_def)

lemma call_enter_error: "call_enter now b = (Some e, b') \<Longrightarrow> e = BreakerOpenE"
  by (auto simp: call_enter_def Let_def split: breaker_state.splits if_splits)

text \<open>
  An open breaker hides Redis.  While the breaker refuses calls, the verdict is that of the
  per-process fallback limiter on its own buckets, no command reaches Redis, and the fallback's
  buckets are kept for the next call.
\<close>

theorem breaker_open_uses_fallback:
  assumes "call_enter (ck_mono ck) (rl_breaker st) = (Some e, b)"
    "acquire (ck_mono ck) tid sid (ensure_fallback st) = (r, l)"
  shows "\<exists>st'. redis_acquire ck tid sid st = (r, st') \<and>
    rl_redis st' = rl_redis st \<and> rl_fallback st' = Some l \<and> ensure_fallback st' = l \<and>
    rl_metrics st' = rl_metrics st @ [(''rate_limit_fallback_total'', ''tenant'')]"
  using guarded_rejected [OF assms(1)] call_enter_error [OF assms(1)] assms(2)
  by (simp add: redis_acquire_def Let_def falls_back_def use_fallback_def count_metric_def)

definition open_breaker :: breaker where
  "open_breaker = test_breaker\<lparr>bk_state := OPEN, bk_opened_at := Some 0\<rparr>"

theorem breaker_open_uses_fallback_witness:
  "\<exists>st'. redis_acquire \<lparr>ck_mono = 1, ck_ms = 1000, ck_server = 1000\<rparr> ''a'' ''s''
      (new_redis_limiter tiny_limits Map.empty ''wz'' open_breaker (empty_redis [LostRequest RedisConnE])) =
      (Inr (), st') \<and> rl_redis st' = empty_redis [LostRequest RedisConnE]"
proof -
  let ?ck = "\<lparr>ck_mono = 1, ck_ms = 1000, ck_server = 1000\<rparr>"
  let ?st = "new_redis_limiter tiny_limits Map.empty ''wz'' open_breaker (empty_redis [LostRequest RedisConnE])"
  have "call_enter (ck_mono ?ck) (rl_breaker ?st) = (Some BreakerOpenE, open_breaker)"
    by (simp add: new_redis_limiter_def open_breaker_def test_breaker_def breaker_defs)
  moreover have "\<exists>l. acquire (ck_mono ?ck) ''a'' ''s'' (ensure_fallback ?st) = (Inr (), l)"
    by (simp add: new_redis_limiter_def ensure_fallback_def limiter_eval)
  ultimately show ?thesis
    using breaker_open_uses_fallback [of ?ck ?st BreakerOpenE open_breaker]
    by (fastforce simp: new_redis_limiter_def)
qed

text \<open>
  Which failures fall back.  With the script cached and the breaker closed, a lost connection
  or a Redis timeout on the tenant bucket gives the verdict of the fallback limiter; any other
  server error is counted by the breaker but escapes to the caller, and no fallback is used.
\<close>

theorem redis_error_routing:
  assumes "bk_state (rl_breaker st) = CLOSED" "rl_script_sha st"
    "rd_faults (rl_redis st) = LostRequest e # fs" "e \<in> {RedisConnE, RedisTimeoutE, RedisOtherE}"
  shows "\<exists>st'. redis_acquire ck tid sid st = (if e = RedisOtherE then Inl RedisOtherE
        else fst (acquire (ck_mono ck) tid sid (ensure_fallback st)), st') \<and>
    rl_breaker st' = record_failure (ck_mono ck) (rl_breaker st) \<and>
    (rl_fallback st' = rl_fallback st \<longleftrightarrow> e = RedisOtherE \<or>
       rl_fallback st = Some (snd (acquire (ck_mono ck) tid sid (ensure_fallback st))))"
proof -
  have "\<exists>s. try_redis_acquire ck key cfg ttl st = (Inl e, s) \<and>
      rl_default s = rl_default st \<and> rl_per_tenant s = rl_per_tenant st \<and> rl_fallback s = rl_fallback st"
    for key cfg ttl
    using assms by (auto simp: redis_defs count_metric_def)
  then obtain s where s: "try_redis_acquire ck (tenant_key (rl_prefix st) tid)
      (rl_tenant (redis_cfg st tid)) (ttl_for (redis_cfg st tid)) st = (Inl e, s)"
    "rl_default s = rl_default st" "rl_per_tenant s = rl_per_tenant st" "rl_fallback s = rl_fallback st"
    by blast
  then have fb: "ensure_fallback s = ensure_fallback st"
    by (simp add: ensure_fallback_def split: option.splits)
  have "is_exception e" using assms(4) by (auto simp: is_exception_def)
  note g = guarded_closed_error [OF assms(1) s(1) this]
  show ?thesis
  proof (cases "e = RedisOtherE")
    case True
    then show ?thesis using g s by (simp add: redis_acquire_def Let_def falls_back_def)
  next
    case False
    then have "falls_back e" using assms(4) by (auto simp: falls_back_def)
    then show ?thesis using g s False fb
      by (auto simp: redis_acquire_def Let_def use_fallback_def count_metric_def split: prod.splits)
  qed
qed

theorem redis_error_routing_witness:
  "fst (redis_acquire \<lparr>ck_mono = 1, ck_ms = 1000, ck_server = 1000\<rparr> ''a'' ''s''
      ((new_redis_limiter tiny_limits Map.empty ''wz'' test_breaker (empty_redis [LostRequest RedisOtherE]))
         \<lparr>rl_script_sha := True\<rparr>)) = Inl RedisOtherE"
proof -
  let ?st = "(new_redis_limiter tiny_limits Map.empty ''wz'' test_breaker (empty_redis [LostRequest RedisOtherE]))
         \<lparr>rl_script_sha := True\<rparr>"
  show ?thesis
    using redis_error_routing [of ?st RedisOtherE "[]" "\<lparr>ck_mono = 1, ck_ms = 1000, ck_server = 1000\<rparr>" "''a''" "''s''"]
    by (auto simp: new_redis_limiter_def test_breaker_def empty_redis_def)
qed

end
