(* ===== verification/AuditTrail.thy ===== *)
theory AuditTrail imports Config Json begin

text \<open>
  The session value (\<open>auth/session.py\<close>), the audit event, and the fan-out emitter
  \<open>MultiSinkAuditEmitter\<close> (\<open>observability/audit.py\<close>, \<open>audit_context.py\<close>).  What the emitter asks
  of a sink is the interface \<open>audit_sink\<close>; the sinks of \<open>Sinks\<close> provide it.
\<close>

section \<open>Session\<close>

datatype auth_method = ConfigAuth | OAuthAuth | ApiKeyAuth

record session =
  user_id :: string
  s_tenant_id :: string
  rbac_role :: string
  auth_method :: auth_method
  wazuh_user :: "string option"

section \<open>Events\<close>

type_synonym args = "(string, json) dict"
type_synonym event = "(string, json) dict"

text \<open>\<open>json.dumps(args, sort_keys=True)\<close> and its digest; the digest function and the text of a
  float are arguments.\<close>

definition hash_args :: "(string \<Rightarrow> string) \<Rightarrow> (rat \<Rightarrow> string) \<Rightarrow> args \<Rightarrow> string" where
  "hash_args sha256 fr a = sha256 (dumps fr '', '' '': '' (sort_keys (JObj a)))"

text \<open>\<open>get_request_id\<close>: the local context variable, else the request of the SDK, else nothing.\<close>

definition get_request_id :: "string option \<Rightarrow> string option \<Rightarrow> string option" where
  "get_request_id local_rid sdk_rid = (case local_rid of Some r \<Rightarrow> Some r | None \<Rightarrow> sdk_rid)"

text \<open>What one \<open>emit\<close> call reads from its surroundings.\<close>

record emit_env =
  ee_sha256 :: "string \<Rightarrow> string"
  ee_float :: "rat \<Rightarrow> string"
  ee_timestamp :: string
  ee_uuid :: string
  ee_local_rid :: "string option"
  ee_sdk_rid :: "string option"

record emit_call =
  ec_session :: session
  ec_tool :: string
  ec_args :: args
  ec_outcome :: string
  ec_count :: nat
  ec_duration :: int
  ec_error_code :: "string option"
  ec_error_reason :: "string option"

definition opt_json :: "string option \<Rightarrow> json" where
  "opt_json v = (case v of None \<Rightarrow> JNull | Some s \<Rightarrow> JStr s)"

definition build_event :: "emit_env \<Rightarrow> emit_call \<Rightarrow> event" where
  "build_event env c =
     [(''timestamp'', JStr (ee_timestamp env)),
      (''tool'', JStr (ec_tool c)),
      (''user'', JStr (user_id (ec_session c))),
      (''tenant'', JStr (s_tenant_id (ec_session c))),
      (''rbac_role'', JStr (rbac_role (ec_session c))),
      (''arg_hash'', JStr (hash_args (ee_sha256 env) (ee_float env) (ec_args c))),
      (''outcome'', JStr (ec_outcome c)),
      (''result_count'', JInt (int (ec_count c))),
      (''duration_ms'', JInt (ec_duration c)),
      (''event_id'', JStr (ee_uuid env)),
      (''request_id'', opt_json (get_request_id (ee_local_rid env) (ee_sdk_rid env)))] @
     (case ec_error_code c of None \<Rightarrow> [] | Some e \<Rightarrow> [(''error_code'', JStr e)]) @
     (case ec_error_reason c of None \<Rightarrow> [] | Some e \<Rightarrow> [(''error_reason'', JStr e)])"

section \<open>The emitter\<close>

text \<open>A sink's state has type \<open>'s\<close>.\<close>

record 's emitter =
  em_globals :: "'s list"
  em_tenants :: "(string, 's list) dict"

definition all_sinks :: "'s emitter \<Rightarrow> 's list" where
  "all_sinks em = em_globals em @ concat (map snd (em_tenants em))"

definition emit :: "(event \<Rightarrow> 's \<Rightarrow> 's) \<Rightarrow> emit_env \<Rightarrow> emit_call \<Rightarrow> 's emitter \<Rightarrow> 's emitter" where
  "emit submit env c em =
     (let ev = build_event env c; tid = s_tenant_id (ec_session c)
      in em\<lparr>em_globals := map (submit ev) (em_globals em),
            em_tenants := (case dget (em_tenants em) tid of
                             None \<Rightarrow> em_tenants em
                           | Some sinks \<Rightarrow> dset tid (map (submit ev) sinks) (em_tenants em))\<rparr>)"

fun emit_all :: "(event \<Rightarrow> 's \<Rightarrow> 's) \<Rightarrow> (emit_env \<times> emit_call) list \<Rightarrow> 's emitter \<Rightarrow> 's emitter" where
  "emit_all submit [] em = em"
| "emit_all submit ((env, c) # cs) em = emit_all submit cs (emit submit env c em)"

text \<open>\<open>start\<close>: in flat order; on a failure the started sinks are stopped in reverse, an
  \<open>Exception\<close> of a \<open>stop\<close> suppressed.  The result pairs the raised exception with the sinks.\<close>

fun rollback :: "('s \<Rightarrow> exn option \<times> 's) \<Rightarrow> exn \<Rightarrow> 's list \<Rightarrow> exn \<times> 's list" where
  "rollback stop e [] = (e, [])"
| "rollback stop e (s # ss) =
     (case stop s of
        (None, s') \<Rightarrow> (case rollback stop e ss of (r, ss') \<Rightarrow> (r, s' # ss'))
      | (Some x, s') \<Rightarrow>
          if is_exception x then (case rollback stop e ss of (r, ss') \<Rightarrow> (r, s' # ss'))
          else (x, s' # ss))"

fun start_sinks ::
    "('s \<Rightarrow> exn option \<times> 's) \<Rightarrow> ('s \<Rightarrow> exn option \<times> 's) \<Rightarrow> 's list \<Rightarrow> 's list \<Rightarrow> exn option \<times> 's list" where
  "start_sinks start stop started [] = (None, rev started)"
| "start_sinks start stop started (s # ss) =
     (case start s of
        (None, s') \<Rightarrow> start_sinks start stop (s' # started) ss
      | (Some e, s') \<Rightarrow>
          (case rollback stop e started of (x, started') \<Rightarrow> (Some x, rev started' @ s' # ss)))"

text \<open>\<open>stop\<close>: every sink is stopped; the failures are raised together afterwards.\<close>

definition stop_sinks :: "('s \<Rightarrow> exn option \<times> 's) \<Rightarrow> 's list \<Rightarrow> exn list \<times> 's list" where
  "stop_sinks stop ss =
     (let rs = map stop ss in (List.map_filter fst rs, map snd rs))"

text \<open>The label under which \<open>_wire_drop_metric\<close> counts the drops of a queued sink; sinks are
  compared by identity.\<close>

definition drop_label :: "nat list \<Rightarrow> (string, nat list) dict \<Rightarrow> nat \<Rightarrow> string" where
  "drop_label globals per_tenant sid =
     (if sid \<in> set globals then ''<global>''
      else case map_of (rev (concat (map (\<lambda>(tid, ids). map (\<lambda>i. (i, tid)) ids) per_tenant))) sid of
             Some tid \<Rightarrow> tid
           | None \<Rightarrow> ''<unknown>'')"

section \<open>What reaches a sink\<close>

text \<open>The interface: whatever is submitted is taken into account, at once and in order, as
  accepted or as dropped with a record; nothing else happens to the account.\<close>

locale audit_sink =
  fixes submit :: "event \<Rightarrow> 's \<Rightarrow> 's"
    and account :: "'s \<Rightarrow> event multiset"
    and ready :: "'s \<Rightarrow> bool"
  assumes submit_ready: "ready s \<Longrightarrow> ready (submit ev s)"
    and submit_account: "ready s \<Longrightarrow> account (submit ev s) = add_mset ev (account s)"
begin

lemma fold_account:
  "ready s \<Longrightarrow> account (fold submit evs s) = account s + mset evs \<and> ready (fold submit evs s)"
  by (induction evs arbitrary: s) (auto simp: submit_account submit_ready)

end

definition events_for :: "string \<Rightarrow> (emit_env \<times> emit_call) list \<Rightarrow> event list" where
  "events_for tid cs =
     map (\<lambda>(env, c). build_event env c) (filter (\<lambda>(env, c). s_tenant_id (ec_session c) = tid) cs)"

lemma emit_fields:
  "em_globals (emit submit env c em) = map (submit (build_event env c)) (em_globals em)"
  "dget (em_tenants (emit submit env c em)) tid =
     (if tid = s_tenant_id (ec_session c)
      then map_option (map (submit (build_event env c))) (dget (em_tenants em) tid)
      else dget (em_tenants em) tid)"
  by (auto simp: emit_def Let_def dget_dset split: option.splits)

lemma emit_all_globals:
  "em_globals (emit_all submit cs em) =
     map (fold submit (map (\<lambda>(env, c). build_event env c) cs)) (em_globals em)"
  by (induction submit cs em rule: emit_all.induct) (auto simp: emit_fields)

lemma emit_all_tenants:
  "dget (em_tenants (emit_all submit cs em)) tid =
     map_option (map (fold submit (events_for tid cs))) (dget (em_tenants em) tid)"
proof (induction submit cs em rule: emit_all.induct)
  case (1 submit em)
  then show ?case by (cases "dget (em_tenants em) tid") (simp_all add: events_for_def)
next
  case (2 submit env c cs em)
  then show ?case
    by (cases "dget (em_tenants em) tid") (auto simp: emit_fields events_for_def)
qed

lemma start_sinks_ok:
  assumes "start_sinks start stop started ss = (None, ss')"
  shows "\<exists>rs. list_all2 (\<lambda>s s'. start s = (None, s')) ss rs \<and> ss' = rev started @ rs"
  using assms
proof (induction ss arbitrary: started)
  case Nil
  then show ?case by simp
next
  case (Cons s ss)
  obtain s1 where s1: "start s = (None, s1)"
    and rest: "start_sinks start stop (s1 # started) ss = (None, ss')"
    using Cons.prems by (auto split: prod.splits option.splits)
  obtain rs where rs: "list_all2 (\<lambda>s s'. start s = (None, s')) ss rs" "ss' = rev (s1 # started) @ rs"
    using Cons.IH [OF rest] by blast
  then have "list_all2 (\<lambda>s s'. start s = (None, s')) (s # ss) (s1 # rs) \<and> ss' = rev started @ (s1 # rs)"
    using s1 by simp
  then show ?case by blast
qed

lemma rollback_stops_all:
  assumes "\<And>s x s'. s \<in> set ss \<Longrightarrow> stop s = (Some x, s') \<Longrightarrow> is_exception x"
  shows "rollback stop e ss = (e, map (snd \<circ> stop) ss)"
  using assms
proof (induction ss)
  case (Cons s ss)
  have "rollback stop e ss = (e, map (snd \<circ> stop) ss)" by (rule Cons.IH) (use Cons.prems in auto)
  then show ?case using Cons.prems [of s] by (auto split: prod.splits option.splits)
qed simp

section \<open>Sample values\<close>

definition sample_session :: session where
  "sample_session = \<lparr>user_id = ''alice'', s_tenant_id = ''a'', rbac_role = ''analyst'',
     auth_method = ConfigAuth, wazuh_user = None\<rparr>"

definition sample_tenant :: "string \<Rightarrow> tenant_config" where
  "sample_tenant tid =
     \<lparr>tenant_id = tid, indexer_url = ''https://idx:9200'', server_api_url = None, verify_tls = True,
      ca_bundle_path = None, default_rbac_role = ''readonly'', oauth_issuer = None, oauth_audience = None,
      wazuh_user_claim = ''wazuh_user'', secret_prefix = None, role_tool_allowlist = None,
      rate_limit = default_rate_limit, audit_sinks = [StderrSinkConfig, WazuhIndexerSinkConfig ''p'' 1 1 1],
      write_allowlist = None, active_response_allowlist = [], agent_group_allowlist = []\<rparr>"

end
