(* ===== verification/Sinks.thy ===== *)
theory Sinks imports AuditTrail "HOL-Library.Sublist" begin

text \<open>
  The sinks of \<open>observability/sinks/\<close>: the bounded queue of \<open>QueuedSink\<close> and its drain task, the
  batching drain task of \<open>HttpSink\<close> and \<open>WazuhIndexerSink\<close>, the rotating \<open>FileSink\<close>.  \<open>submit\<close> runs
  without an \<open>await\<close>, so it is one step; every \<open>await\<close> of a drain task is a step boundary.
\<close>

section \<open>The queue\<close>

text \<open>Where the drain task stands: pulling (with the events pulled so far), sending, waiting to
  retry, or gone.\<close>

datatype drain =
    NoTask
  | Pulling "event list"
  | Sending "event list" nat
  | BackingOff "event list" nat
  | Finished
  | CancelledTask

text \<open>\<open>qs_delivered\<close> and \<open>qs_lost\<close> are history: the events a delivery succeeded for, and those the
  task gave up without calling the drop recorder.\<close>

record queued_sink =
  qs_maxsize :: int
  qs_max_attempts :: int
  qs_buffer :: "event list"
  qs_queue :: "event list option"
  qs_unfinished :: nat
  qs_stop :: bool
  qs_task :: drain
  qs_dropped :: "(event \<times> string) list"
  qs_delivered :: "event list"
  qs_lost :: "event list"

definition new_queued_sink :: "int \<Rightarrow> int \<Rightarrow> queued_sink" where
  "new_queued_sink maxsize max_attempts =
     \<lparr>qs_maxsize = maxsize, qs_max_attempts = max_attempts, qs_buffer = [], qs_queue = None,
      qs_unfinished = 0, qs_stop = False, qs_task = NoTask, qs_dropped = [], qs_delivered = [], qs_lost = []\<rparr>"

definition safe_record_drop :: "event \<Rightarrow> string \<Rightarrow> queued_sink \<Rightarrow> queued_sink" where
  "safe_record_drop ev reason s = s\<lparr>qs_dropped := qs_dropped s @ [(ev, reason)]\<rparr>"

definition record_drops :: "event list \<Rightarrow> string \<Rightarrow> queued_sink \<Rightarrow> queued_sink" where
  "record_drops evs reason s = fold (\<lambda>ev. safe_record_drop ev reason) evs s"

text \<open>\<open>asyncio.Queue\<close>: bounded when \<open>maxsize\<close> is positive.\<close>

definition put_nowait :: "event \<Rightarrow> queued_sink \<Rightarrow> queued_sink option" where
  "put_nowait ev s =
     (case qs_queue s of
        None \<Rightarrow> None
      | Some q \<Rightarrow>
          if 0 < qs_maxsize s \<and> qs_maxsize s \<le> int (length q) then None
          else Some (s\<lparr>qs_queue := Some (q @ [ev]), qs_unfinished := Suc (qs_unfinished s)\<rparr>))"

definition task_done :: "queued_sink \<Rightarrow> queued_sink" where
  "task_done s = s\<lparr>qs_unfinished := qs_unfinished s - 1\<rparr>"

definition evict_oldest :: "queued_sink \<Rightarrow> queued_sink" where
  "evict_oldest s =
     (case qs_queue s of
        Some (evicted # q) \<Rightarrow> task_done (safe_record_drop evicted ''overflow'' (s\<lparr>qs_queue := Some q\<rparr>))
      | _ \<Rightarrow> s)"

text \<open>\<open>pop(0)\<close> on the empty buffer of a sink with no room at all raises.\<close>

definition submit :: "event \<Rightarrow> queued_sink \<Rightarrow> exn option \<times> queued_sink" where
  "submit ev s =
     (case qs_queue s of
        None \<Rightarrow>
          if qs_maxsize s \<le> int (length (qs_buffer s))
          then (case qs_buffer s of
                  [] \<Rightarrow> (Some IndexE, s)
                | evicted # b \<Rightarrow>
                    (None, (safe_record_drop evicted ''overflow'' s)\<lparr>qs_buffer := b @ [ev]\<rparr>))
          else (None, s\<lparr>qs_buffer := qs_buffer s @ [ev]\<rparr>)
      | Some q \<Rightarrow>
          (case put_nowait ev s of
             Some s' \<Rightarrow> (None, s')
           | None \<Rightarrow>
               (case put_nowait ev s of
                  Some s' \<Rightarrow> (None, s')
                | None \<Rightarrow>
                    (let s1 = evict_oldest s
                     in case put_nowait ev s1 of
                          Some s' \<Rightarrow> (None, s')
                        | None \<Rightarrow> (None, safe_record_drop ev ''overflow'' s1)))))"

definition submit_op :: "event \<Rightarrow> queued_sink \<Rightarrow> queued_sink" where
  "submit_op ev s = snd (submit ev s)"

definition start :: "queued_sink \<Rightarrow> queued_sink" where
  "start s =
     (let s1 = s\<lparr>qs_queue := Some [], qs_unfinished := 0, qs_stop := False, qs_buffer := []\<rparr>
      in (fold submit_op (qs_buffer s) s1)\<lparr>qs_task := Pulling []\<rparr>)"

text \<open>The first half of \<open>stop\<close>, before it waits for the queue.\<close>

definition request_stop :: "queued_sink \<Rightarrow> queued_sink" where
  "request_stop s = (if qs_queue s = None then s else s\<lparr>qs_stop := True\<rparr>)"

definition in_flight :: "drain \<Rightarrow> event list" where
  "in_flight t = (case t of Pulling b \<Rightarrow> b | Sending b k \<Rightarrow> b | BackingOff b k \<Rightarrow> b | _ \<Rightarrow> [])"

text \<open>The second half: the task is cancelled, and what it was working on goes nowhere.  The
  \<open>finally\<close> clause of \<open>_drain_loop\<close> still reports the event it held as done; a batching task has
  reported it long before.\<close>

definition cancel_task :: "queued_sink \<Rightarrow> queued_sink" where
  "cancel_task s = s\<lparr>qs_task := CancelledTask, qs_lost := qs_lost s @ in_flight (qs_task s)\<rparr>"

definition cancel_base :: "queued_sink \<Rightarrow> queued_sink" where
  "cancel_base s = (if in_flight (qs_task s) = [] then cancel_task s else task_done (cancel_task s))"

section \<open>The drain task of QueuedSink\<close>

text \<open>\<open>_deliver_with_retry\<close> in pieces: one attempt, and the end of a backoff.  With no attempts
  allowed the loop body never runs.\<close>

definition after_delivery :: "event list \<Rightarrow> nat \<Rightarrow> exn + unit \<Rightarrow> queued_sink \<Rightarrow> queued_sink" where
  "after_delivery evs k outcome s =
     (if qs_max_attempts s \<le> int k
      then task_done (s\<lparr>qs_task := Pulling [], qs_lost := qs_lost s @ evs\<rparr>)
      else case outcome of
        Inr u \<Rightarrow> task_done (s\<lparr>qs_task := Pulling [], qs_delivered := qs_delivered s @ evs\<rparr>)
      | Inl e \<Rightarrow>
          if qs_max_attempts s \<le> int (Suc k)
          then task_done ((record_drops evs ''delivery_failed'' s)\<lparr>qs_task := Pulling []\<rparr>)
          else s\<lparr>qs_task := BackingOff evs (Suc k)\<rparr>)"

definition after_backoff :: "event list \<Rightarrow> nat \<Rightarrow> queued_sink \<Rightarrow> queued_sink" where
  "after_backoff evs k s =
     (if qs_stop s then task_done (s\<lparr>qs_task := Pulling [], qs_lost := qs_lost s @ evs\<rparr>)
      else s\<lparr>qs_task := Sending evs k\<rparr>)"

inductive qstep :: "queued_sink \<Rightarrow> queued_sink \<Rightarrow> bool" where
  get: "qs_task s = Pulling [] \<Longrightarrow> qs_queue s = Some (ev # q) \<Longrightarrow>
    qstep s (s\<lparr>qs_queue := Some q, qs_task := Sending [ev] 0\<rparr>)"
| exit: "qs_task s = Pulling [] \<Longrightarrow> qs_stop s \<Longrightarrow> qs_queue s = Some [] \<Longrightarrow>
    qstep s (s\<lparr>qs_task := Finished\<rparr>)"
| delivery: "qs_task s = Sending evs k \<Longrightarrow>
    (\<And>e. outcome = Inl e \<Longrightarrow> is_exception e) \<Longrightarrow> qstep s (after_delivery evs k outcome s)"
| backoff: "qs_task s = BackingOff evs k \<Longrightarrow> qstep s (after_backoff evs k s)"
| starting: "qs_queue s = None \<Longrightarrow> qs_task s = NoTask \<Longrightarrow> qstep s (start s)"
| stopping: "qstep s (request_stop s)"
| cancelling: "qs_stop s \<Longrightarrow> qs_task s \<notin> {NoTask, Finished, CancelledTask} \<Longrightarrow> qstep s (cancel_base s)"

text \<open>Reachable sinks, with the list of everything submitted so far.\<close>

inductive sink_reach :: "int \<Rightarrow> int \<Rightarrow> event list \<Rightarrow> queued_sink \<Rightarrow> bool" for maxsize max_attempts where
  init: "sink_reach maxsize max_attempts [] (new_queued_sink maxsize max_attempts)"
| submitted: "sink_reach maxsize max_attempts evs s \<Longrightarrow> submit ev s = (None, s') \<Longrightarrow>
    sink_reach maxsize max_attempts (evs @ [ev]) s'"
| step: "sink_reach maxsize max_attempts evs s \<Longrightarrow> qstep s s' \<Longrightarrow> sink_reach maxsize max_attempts evs s'"

section \<open>Accounting\<close>

definition queued :: "queued_sink \<Rightarrow> event list" where
  "queued s = (case qs_queue s of None \<Rightarrow> qs_buffer s | Some q \<Rightarrow> q)"

definition sink_account :: "queued_sink \<Rightarrow> event multiset" where
  "sink_account s = mset (qs_delivered s) + mset (in_flight (qs_task s)) + mset (queued s) +
     mset (map fst (qs_dropped s)) + mset (qs_lost s)"

definition sink_ok :: "queued_sink \<Rightarrow> bool" where
  "sink_ok s \<longleftrightarrow> 0 < qs_maxsize s \<and> int (length (queued s)) \<le> qs_maxsize s \<and>
     (qs_queue s \<noteq> None \<longrightarrow> qs_buffer s = []) \<and> (qs_queue s = None \<longrightarrow> qs_task s = NoTask \<and> \<not> qs_stop s)"

text \<open>\<open>submit\<close> in normal form: append, or evict the oldest with a record and append.\<close>

definition same_task :: "queued_sink \<Rightarrow> queued_sink \<Rightarrow> bool" where
  "same_task s s' \<longleftrightarrow> qs_maxsize s' = qs_maxsize s \<and> qs_max_attempts s' = qs_max_attempts s \<and>
     qs_stop s' = qs_stop s \<and> qs_task s' = qs_task s \<and> qs_delivered s' = qs_delivered s \<and>
     qs_lost s' = qs_lost s"

lemma submit_queue_full:
  assumes "qs_queue s = Some q" "0 < qs_maxsize s" "int (length q) \<le> qs_maxsize s"
    "qs_maxsize s \<le> int (length q)"
  shows "submit ev s = (None, s\<lparr>qs_queue := Some (tl q @ [ev]),
    qs_dropped := qs_dropped s @ [(hd q, ''overflow'')], qs_unfinished := Suc (qs_unfinished s - 1)\<rparr>)"
proof -
  obtain x q' where q: "q = x # q'" using assms by (cases q) auto
  show ?thesis
    using assms by (simp add: q submit_def put_nowait_def evict_oldest_def task_done_def safe_record_drop_def Let_def)
qed

lemma submit_cases:
  assumes "sink_ok s"
  obtains (room) s' where "submit ev s = (None, s')" "queued s' = queued s @ [ev]"
      "qs_dropped s' = qs_dropped s"
      "same_task s s'"
      "qs_unfinished s' = (if qs_queue s = None then qs_unfinished s else Suc (qs_unfinished s))"
      "int (length (queued s)) < qs_maxsize s" "(qs_queue s' = None) = (qs_queue s = None)"
      "qs_queue s \<noteq> None \<longrightarrow> qs_buffer s' = []"
  | (full) x q s' where "submit ev s = (None, s')" "queued s = x # q" "queued s' = q @ [ev]"
      "qs_dropped s' = qs_dropped s @ [(x, ''overflow'')]"
      "same_task s s'"
      "qs_unfinished s' = (if qs_queue s = None then qs_unfinished s else Suc (qs_unfinished s - 1))"
      "int (length (queued s)) = qs_maxsize s" "(qs_queue s' = None) = (qs_queue s = None)"
      "qs_queue s \<noteq> None \<longrightarrow> qs_buffer s' = []"
proof (cases "qs_queue s")
  case None
  show thesis
  proof (cases "qs_maxsize s \<le> int (length (qs_buffer s))")
    case True
    then obtain x b where "qs_buffer s = x # b"
      using assms None by (cases "qs_buffer s") (auto simp: sink_ok_def queued_def)
    then show thesis
      using full [of "(safe_record_drop x ''overflow'' s)\<lparr>qs_buffer := b @ [ev]\<rparr>" x b] None True assms
      by (simp add: submit_def queued_def safe_record_drop_def sink_ok_def same_task_def)
  next
    case False
    then show thesis
      using room [of "s\<lparr>qs_buffer := qs_buffer s @ [ev]\<rparr>"] None
      by (simp add: submit_def queued_def same_task_def)
  qed
next
  case (Some q)
  show thesis
  proof (cases "qs_maxsize s \<le> int (length q)")
    case True
    have len: "int (length q) \<le> qs_maxsize s" "0 < qs_maxsize s" and b: "qs_buffer s = []"
      using assms Some by (auto simp: sink_ok_def queued_def)
    then obtain x q' where q: "q = x # q'" using True by (cases q) auto
    show thesis
      using full [of "s\<lparr>qs_queue := Some (tl q @ [ev]), qs_dropped := qs_dropped s @ [(hd q, ''overflow'')],
          qs_unfinished := Suc (qs_unfinished s - 1)\<rparr>" x q']
        submit_queue_full [OF Some len(2,1) True] True len b
      by (simp add: queued_def Some q same_task_def)
  next
    case False
    then show thesis
      using room [of "s\<lparr>qs_queue := Some (q @ [ev]), qs_unfinished := Suc (qs_unfinished s)\<rparr>"] Some assms
      by (simp add: submit_def put_nowait_def queued_def sink_ok_def same_task_def)
  qed
qed

lemma submit_ok:
  assumes ok: "sink_ok s" and eq: "submit ev s = (r, s')"
  shows "r = None \<and> sink_ok s'"
  by (rule submit_cases [OF ok, of ev]) (use ok eq in \<open>auto simp: sink_ok_def same_task_def\<close>)

lemma queued_submit_account:
  assumes ok: "sink_ok s" and eq: "submit ev s = (r, s')"
  shows "sink_account s' = add_mset ev (sink_account s)"
  by (rule submit_cases [OF ok, of ev]) (use eq in \<open>auto simp: sink_account_def same_task_def\<close>)

interpretation qsink: audit_sink submit_op sink_account sink_ok
  by unfold_locales (auto simp: submit_op_def intro: submit_ok queued_submit_account [OF _ surjective_pairing]
      dest: submit_ok [OF _ surjective_pairing])

text \<open>Flushing the buffer at the start evicts nothing.\<close>

lemma flush_buffer:
  assumes "sink_ok s" "qs_queue s \<noteq> None" "int (length (queued s) + length b) \<le> qs_maxsize s"
  shows "sink_ok (fold submit_op b s) \<and> queued (fold submit_op b s) = queued s @ b \<and>
    qs_dropped (fold submit_op b s) = qs_dropped s \<and> same_task s (fold submit_op b s) \<and>
    qs_unfinished (fold submit_op b s) = qs_unfinished s + length b \<and>
    qs_queue (fold submit_op b s) \<noteq> None"
  using assms
proof (induction b arbitrary: s)
  case Nil
  then show ?case by (simp add: same_task_def)
next
  case (Cons ev b)
  show ?case
    using Cons.prems(1)
  proof (cases rule: submit_cases [where ev = ev])
    case (room s')
    then have "sink_ok s'" using submit_ok [OF Cons.prems(1) room(1)] by simp
    then show ?thesis
      using Cons.IH [of s'] room Cons.prems by (auto simp: submit_op_def same_task_def)
  next
    case (full x q s')
    then show ?thesis using Cons.prems by simp
  qed
qed

section \<open>The invariant of QueuedSink\<close>

definition task_ok :: "int \<Rightarrow> drain \<Rightarrow> bool" where
  "task_ok ma t \<longleftrightarrow>
     (case t of
        Pulling b \<Rightarrow> b = []
      | Sending b k \<Rightarrow> length b = 1 \<and> int k < ma
      | BackingOff b k \<Rightarrow> length b = 1 \<and> int k < ma
      | _ \<Rightarrow> True)"

definition sink_inv :: "int \<Rightarrow> event list \<Rightarrow> queued_sink \<Rightarrow> bool" where
  "sink_inv ma evs s \<longleftrightarrow>
     sink_ok s \<and> qs_max_attempts s = ma \<and> task_ok ma (qs_task s) \<and> sink_account s = mset evs \<and>
     subseq (qs_delivered s @ in_flight (qs_task s) @ queued s) evs \<and>
     (\<not> qs_stop s \<longrightarrow> qs_lost s = []) \<and>
     (qs_queue s \<noteq> None \<longrightarrow> qs_unfinished s = length (queued s) + length (in_flight (qs_task s)))"

lemma subseq_drop_middle: "subseq (xs @ ys @ zs) ws \<Longrightarrow> subseq (xs @ zs) ws"
  by (rule subseq_order.trans [of _ "xs @ ys @ zs"])
    (simp_all add: list_emb_append_mono subseq_drop_many)

lemma subseq_snoc: "subseq xs ys \<Longrightarrow> subseq (xs @ [a]) (ys @ [a])"
  by (simp add: subseq_append)

lemma sink_inv_init: "0 < ms \<Longrightarrow> sink_inv ma [] (new_queued_sink ms ma)"
  by (simp add: sink_inv_def new_queued_sink_def sink_ok_def queued_def task_ok_def sink_account_def in_flight_def)

lemma sink_inv_submit:
  assumes inv: "sink_inv ma evs s" and eq: "submit ev s = (r, s')"
  shows "sink_inv ma (evs @ [ev]) s'"
proof -
  have ok: "sink_ok s" using inv by (simp add: sink_inv_def)
  have acc: "sink_ok s'" "sink_account s' = mset (evs @ [ev])"
    using submit_ok [OF ok eq] queued_submit_account [OF ok eq] inv by (simp_all add: sink_inv_def)
  have sub: "subseq (qs_delivered s @ in_flight (qs_task s) @ queued s) evs"
    using inv by (simp add: sink_inv_def)
  show ?thesis
    using ok
  proof (cases rule: submit_cases [where ev = ev])
    case (room s'')
    then show ?thesis using inv acc eq subseq_snoc [OF sub, of ev]
      by (auto simp: sink_inv_def same_task_def)
  next
    case (full x q s'')
    have "subseq (qs_delivered s @ in_flight (qs_task s) @ q) evs"
      using subseq_drop_middle [of "qs_delivered s @ in_flight (qs_task s)" "[x]" q] sub full by simp
    from subseq_snoc [OF this, of ev] show ?thesis using inv acc eq full
      by (auto simp: sink_inv_def same_task_def)
  qed
qed

lemma start_facts:
  assumes ok: "sink_ok s" and new: "qs_queue s = None" "qs_task s = NoTask"
  shows "sink_ok (start s) \<and> qs_max_attempts (start s) = qs_max_attempts s \<and>
    qs_task (start s) = Pulling [] \<and> sink_account (start s) = sink_account s \<and>
    queued (start s) = queued s \<and> qs_delivered (start s) = qs_delivered s \<and>
    qs_lost (start s) = qs_lost s \<and> \<not> qs_stop (start s) \<and> qs_unfinished (start s) = length (queued s)"
proof -
  let ?s1 = "s\<lparr>qs_queue := Some [], qs_unfinished := 0, qs_stop := False, qs_buffer := []\<rparr>"
  let ?s2 = "fold submit_op (qs_buffer s) ?s1"
  have "sink_ok ?s1" "int (length (queued ?s1) + length (qs_buffer s)) \<le> qs_maxsize ?s1"
    using ok new by (auto simp: sink_ok_def queued_def)
  from flush_buffer [OF this(1) _ this(2)] have fl: "sink_ok ?s2" "queued ?s2 = qs_buffer s"
    "qs_dropped ?s2 = qs_dropped s" "same_task ?s1 ?s2" "qs_unfinished ?s2 = length (qs_buffer s)"
    "qs_queue ?s2 \<noteq> None"
    by (auto simp: queued_def)
  have st: "start s = ?s2\<lparr>qs_task := Pulling []\<rparr>" by (simp add: start_def Let_def)
  have "queued (start s) = queued ?s2" by (simp add: st queued_def split: option.splits)
  then show ?thesis using new fl
    by (auto simp: st sink_ok_def same_task_def sink_account_def in_flight_def queued_def)
qed

lemma sink_inv_start:
  assumes inv: "sink_inv ma evs s" and new: "qs_queue s = None" "qs_task s = NoTask"
  shows "sink_inv ma evs (start s)"
  using inv new start_facts [of s] by (auto simp: sink_inv_def task_ok_def in_flight_def sink_ok_def)

lemma record_drops_simps [simp]:
  "qs_dropped (record_drops evs r s) = qs_dropped s @ map (\<lambda>e. (e, r)) evs"
  "qs_queue (record_drops evs r s) = qs_queue s" "qs_buffer (record_drops evs r s) = qs_buffer s"
  "qs_maxsize (record_drops evs r s) = qs_maxsize s" "qs_stop (record_drops evs r s) = qs_stop s"
  "qs_max_attempts (record_drops evs r s) = qs_max_attempts s"
  "qs_delivered (record_drops evs r s) = qs_delivered s" "qs_lost (record_drops evs r s) = qs_lost s"
  "qs_unfinished (record_drops evs r s) = qs_unfinished s" "qs_task (record_drops evs r s) = qs_task s"
  unfolding record_drops_def
  by (induction evs arbitrary: s) (simp_all add: safe_record_drop_def)

lemmas sink_unfold = sink_inv_def sink_ok_def sink_account_def task_ok_def in_flight_def queued_def

lemma sink_inv_delivery:
  assumes inv: "sink_inv ma evs s" and t: "qs_task s = Sending b k"
  shows "sink_inv ma evs (after_delivery b k outcome s)"
proof -
  have k: "int k < ma" "qs_max_attempts s = ma" "length b = 1"
    using inv t by (auto simp: sink_inv_def task_ok_def)
  obtain e where b: "b = [e]" using k(3) by (cases b) auto
  have sub: "subseq (qs_delivered s @ b @ queued s) evs" using inv t by (simp add: sink_inv_def in_flight_def)
  then have sub': "subseq (qs_delivered s @ queued s) evs" by (rule subseq_drop_middle)
  have q: "qs_queue s \<noteq> None" using inv t by (auto simp: sink_inv_def sink_ok_def)
  show ?thesis
    using inv t k sub sub' q b
    by (cases outcome) (auto simp: after_delivery_def sink_unfold task_done_def comp_def)
qed

lemma sink_inv_backoff:
  assumes inv: "sink_inv ma evs s" and t: "qs_task s = BackingOff b k"
  shows "sink_inv ma evs (after_backoff b k s)"
proof -
  have sub: "subseq (qs_delivered s @ b @ queued s) evs" using inv t by (simp add: sink_inv_def in_flight_def)
  then have sub': "subseq (qs_delivered s @ queued s) evs" by (rule subseq_drop_middle)
  have "length b = 1" using inv t by (auto simp: sink_inv_def task_ok_def)
  then obtain e where "b = [e]" by (cases b) auto
  then show ?thesis using inv t sub sub' by (auto simp: after_backoff_def sink_unfold task_done_def)
qed

lemma sink_inv_cancel:
  assumes inv: "sink_inv ma evs s" and stop: "qs_stop s"
  shows "sink_inv ma evs (cancel_base s)"
proof -
  have sub': "subseq (qs_delivered s @ queued s) evs"
    using inv by (auto simp: sink_inv_def intro: subseq_drop_middle)
  have l: "length (in_flight (qs_task s)) \<le> 1"
    using inv by (auto simp: sink_inv_def task_ok_def in_flight_def split: drain.splits)
  show ?thesis
  proof (cases "in_flight (qs_task s)")
    case Nil
    then show ?thesis using inv sub' stop
      by (auto simp: cancel_base_def cancel_task_def sink_inv_def sink_ok_def sink_account_def
          queued_def task_ok_def in_flight_def split: drain.splits)
  next
    case (Cons e es)
    then have e: "in_flight (qs_task s) = [e]" using l by simp
    then show ?thesis using inv sub' stop
      by (auto simp: cancel_base_def cancel_task_def task_done_def sink_inv_def sink_ok_def
          sink_account_def queued_def task_ok_def in_flight_def split: drain.splits)
  qed
qed

lemma sink_inv_step:
  assumes inv: "sink_inv ma evs s" and ma: "1 \<le> ma" and step: "qstep s s'"
  shows "sink_inv ma evs s'"
  using step
proof cases
  case (get ev q)
  then show ?thesis using inv ma by (auto simp: sink_unfold)
next
  case exit
  then show ?thesis using inv by (auto simp: sink_unfold)
next
  case (delivery b k outcome)
  then show ?thesis using sink_inv_delivery [OF inv] by simp
next
  case (backoff b k)
  then show ?thesis using sink_inv_backoff [OF inv] by simp
next
  case starting
  then show ?thesis using sink_inv_start [OF inv] by simp
next
  case stopping
  then show ?thesis using inv by (auto simp: request_stop_def sink_unfold)
next
  case cancelling
  then show ?thesis using sink_inv_cancel [OF inv] by simp
qed

lemma sink_reach_inv:
  assumes "sink_reach ms ma evs s" "0 < ms" "1 \<le> ma"
  shows "sink_inv ma evs s"
  using assms
  by (induction rule: sink_reach.induct)
    (auto intro: sink_inv_init sink_inv_submit sink_inv_step)

text \<open>
  C12: a queued sink keeps account of every audit event.  In every reachable state, however
  submissions, deliveries, retries and shutdown interleave, the submitted events are exactly those
  delivered, in flight, queued, dropped with a record, or lost; the queue respects its bound; and
  until a stop is requested nothing is lost without a record.
\<close>

theorem queued_sink_accounting:
  assumes "sink_reach ms ma evs s" "0 < ms" "1 \<le> ma"
  shows "sink_account s = mset evs \<and> int (length (queued s)) \<le> ms \<and>
    (\<not> qs_stop s \<longrightarrow> qs_lost s = [])"
proof -
  have "qs_maxsize s = ms" using assms
  proof (induction rule: sink_reach.induct)
    case (submitted evs s ev s')
    then have ok: "sink_ok s" using sink_reach_inv by (auto simp: sink_inv_def)
    show ?case
      by (rule submit_cases [OF ok, of ev]) (use submitted in \<open>auto simp: same_task_def\<close>)
  next
    case (step evs s s')
    from step(2) show ?case
    proof cases
      case starting
      have "sink_inv ma evs s" using sink_reach_inv [OF step(1)] step.prems by simp
      then have "int (length (qs_buffer s)) \<le> qs_maxsize s" "0 < qs_maxsize s"
        using starting by (auto simp: sink_inv_def sink_ok_def queued_def)
      then have "same_task (s\<lparr>qs_queue := Some [], qs_unfinished := 0, qs_stop := False, qs_buffer := []\<rparr>)
          (fold submit_op (qs_buffer s) (s\<lparr>qs_queue := Some [], qs_unfinished := 0, qs_stop := False, qs_buffer := []\<rparr>))"
        using starting by (intro flush_buffer [THEN conjunct2, THEN conjunct2, THEN conjunct2, THEN conjunct1])
          (auto simp: sink_ok_def queued_def)
      then show ?thesis using starting step by (simp add: start_def Let_def same_task_def)
    qed (use step in \<open>auto simp: after_delivery_def after_backoff_def task_done_def request_stop_def
        cancel_base_def cancel_task_def split: sum.splits\<close>)
  qed (simp add: new_queued_sink_def)
  then show ?thesis
    using sink_reach_inv [OF assms] by (auto simp: sink_inv_def sink_ok_def)
qed

definition ev1 :: event where "ev1 = [(''tool'', JStr ''a'')]"
definition ev2 :: event where "ev2 = [(''tool'', JStr ''b'')]"

text \<open>A queue of one: the second event evicts the first, then the sink starts.\<close>

definition started_pair :: queued_sink where
  "started_pair = start (submit_op ev2 (submit_op ev1 (new_queued_sink 1 5)))"

lemma started_pair_eq:
  "started_pair = \<lparr>qs_maxsize = 1, qs_max_attempts = 5, qs_buffer = [], qs_queue = Some [ev2],
     qs_unfinished = 1, qs_stop = False, qs_task = Pulling [], qs_dropped = [(ev1, ''overflow'')],
     qs_delivered = [], qs_lost = []\<rparr>"
  by (simp add: started_pair_def start_def Let_def submit_op_def submit_def put_nowait_def
      new_queued_sink_def safe_record_drop_def)

lemma started_pair_reach: "sink_reach 1 5 [ev1, ev2] started_pair"
proof -
  let ?s1 = "submit_op ev1 (new_queued_sink 1 5)"
  let ?s2 = "submit_op ev2 ?s1"
  have r1: "sink_reach 1 5 [ev1] ?s1"
    using sink_reach.submitted [OF sink_reach.init, where ev = ev1 and s' = ?s1]
    by (simp add: submit_op_def submit_def new_queued_sink_def)
  have r2: "sink_reach 1 5 [ev1, ev2] ?s2"
    using sink_reach.submitted [OF r1, where ev = ev2 and s' = ?s2]
    by (simp add: submit_op_def submit_def new_queued_sink_def safe_record_drop_def)
  have s2: "qs_queue ?s2 = None" "qs_task ?s2 = NoTask"
    by (simp_all add: submit_op_def submit_def new_queued_sink_def safe_record_drop_def)
  show ?thesis unfolding started_pair_def by (rule sink_reach.step [OF r2 qstep.starting [OF s2]])
qed

theorem queued_sink_accounting_witness:
  "sink_reach 1 5 [ev1, ev2] started_pair \<and> qs_dropped started_pair = [(ev1, ''overflow'')] \<and>
    sink_account started_pair = mset [ev1, ev2] \<and> qs_lost started_pair = []"
  using queued_sink_accounting [OF started_pair_reach] started_pair_reach
  by (simp add: started_pair_eq)

text \<open>
  Order and shutdown.  A sink delivers in submission order, and when \<open>Queue.join\<close> returns
  (no unfinished task) nothing is left in the queue or in the hands of the drain task.
\<close>

theorem queued_sink_order_join:
  assumes "sink_reach ms ma evs s" "0 < ms" "1 \<le> ma"
  shows "subseq (qs_delivered s) evs \<and>
    (qs_queue s \<noteq> None \<and> qs_unfinished s = 0 \<longrightarrow> queued s = [] \<and> in_flight (qs_task s) = [])"
proof -
  have inv: "sink_inv ma evs s" using sink_reach_inv [OF assms] .
  have "subseq (qs_delivered s) (qs_delivered s @ in_flight (qs_task s) @ queued s)"
    by (rule prefix_imp_subseq) simp
  then show ?thesis using inv subseq_order.trans by (auto simp: sink_inv_def)
qed

theorem queued_sink_order_join_witness:
  "\<exists>s. sink_reach 1 5 [ev1, ev2] s \<and> qs_delivered s = [ev2] \<and> qs_unfinished s = 0 \<and>
    queued s = [] \<and> in_flight (qs_task s) = []"
proof -
  let ?s1 = "started_pair\<lparr>qs_queue := Some [], qs_task := Sending [ev2] 0\<rparr>"
  let ?s2 = "after_delivery [ev2] 0 (Inr ()) ?s1"
  have "sink_reach 1 5 [ev1, ev2] ?s1"
    by (rule sink_reach.step [OF started_pair_reach qstep.get]) (simp_all add: started_pair_eq)
  then have r: "sink_reach 1 5 [ev1, ev2] ?s2"
    by (rule sink_reach.step) (rule qstep.delivery, simp_all)
  have "qs_delivered ?s2 = [ev2]" "qs_unfinished ?s2 = 0" "qs_queue ?s2 = Some []"
    by (simp_all add: after_delivery_def task_done_def started_pair_eq)
  moreover have "queued ?s2 = [] \<and> in_flight (qs_task ?s2) = []"
    using queued_sink_order_join [OF r] calculation by simp
  ultimately show ?thesis using r by blast
qed

section \<open>The emitter on queued sinks\<close>

text \<open>
  Fan-out.  Over any sequence of emitted events, every global sink takes account of each of
  them, and every sink of a tenant takes account of exactly the events of sessions of that tenant:
  no event reaches another tenant's sinks.
\<close>

theorem emitter_fan_out:
  assumes "\<forall>s \<in> set (all_sinks em). sink_ok s"
    "dget (em_tenants em) tid = Some sinks" "em' = emit_all submit_op cs em"
  shows "map sink_account (em_globals em') =
      map (\<lambda>s. sink_account s + mset (map (\<lambda>(env, c). build_event env c) cs)) (em_globals em) \<and>
    (\<exists>sinks'. dget (em_tenants em') tid = Some sinks' \<and>
      map sink_account sinks' = map (\<lambda>s. sink_account s + mset (events_for tid cs)) sinks)"
proof -
  have g: "\<forall>s \<in> set (em_globals em). sink_ok s" using assms(1) by (simp add: all_sinks_def)
  have t: "\<forall>s \<in> set sinks. sink_ok s"
    using assms(1) map_of_SomeD [OF assms(2)] by (force simp: all_sinks_def)
  show ?thesis
    using g t assms(2)
    by (auto simp: assms(3) emit_all_globals emit_all_tenants qsink.fold_account)
qed

definition two_tenant_emitter :: "queued_sink emitter" where
  "two_tenant_emitter = \<lparr>em_globals = [new_queued_sink 10 5],
     em_tenants = [(''a'', [new_queued_sink 10 5]), (''b'', [new_queued_sink 10 5])]\<rparr>"

definition sample_env :: emit_env where
  "sample_env = \<lparr>ee_sha256 = (\<lambda>s. s), ee_float = (\<lambda>r. []), ee_timestamp = ''t'', ee_uuid = ''u'',
     ee_local_rid = None, ee_sdk_rid = Some ''7''\<rparr>"

definition sample_call :: emit_call where
  "sample_call = \<lparr>ec_session = sample_session, ec_tool = ''alerts.search_alerts'', ec_args = [],
     ec_outcome = ''ok'', ec_count = 0, ec_duration = 1, ec_error_code = None, ec_error_reason = None\<rparr>"

theorem emitter_fan_out_witness:
  "\<exists>sinks'. dget (em_tenants (emit_all submit_op [(sample_env, sample_call)] two_tenant_emitter)) ''b'' = Some sinks' \<and>
    map sink_account sinks' = [{#}]"
proof -
  have ok: "\<forall>s \<in> set (all_sinks two_tenant_emitter). sink_ok s"
    by (simp add: all_sinks_def two_tenant_emitter_def new_queued_sink_def sink_ok_def queued_def)
  have b: "dget (em_tenants two_tenant_emitter) ''b'' = Some [new_queued_sink 10 5]"
    by (simp add: two_tenant_emitter_def)
  show ?thesis
    using emitter_fan_out [OF ok b refl, of "[(sample_env, sample_call)]"]
    by (simp add: events_for_def sample_call_def sample_session_def sink_account_def
        new_queued_sink_def in_flight_def queued_def)
qed

text \<open>
  The argument hash does not depend on the order in which a client lists its arguments.
\<close>

theorem arg_hash_key_order:
  assumes "distinct (map fst a)" "mset a = mset b"
  shows "hash_args sha fr a = hash_args sha fr b"
  unfolding hash_args_def sort_keys_perm [OF assms] ..

theorem arg_hash_key_order_witness:
  "hash_args id (\<lambda>r. []) [(''b'', JInt 2), (''a'', JInt 1)] =
    hash_args id (\<lambda>r. []) [(''a'', JInt 1), (''b'', JInt 2)]"
  by (rule arg_hash_key_order) simp_all

end
