(* ===== verification/SinkDrivers.thy ===== *)
theory SinkDrivers imports Sinks begin

text \<open>
  The batching sinks (\<open>sinks/http.py\<close>, \<open>sinks/wazuh_indexer.py\<close>), the rotating file
  (\<open>sinks/file.py\<close>), and the construction of sinks from configuration (\<open>server.py\<close>).
\<close>

section \<open>HttpSink and WazuhIndexerSink\<close>

text \<open>One POST: a status outside 200..299 is raised as an error.\<close>

definition http_attempt :: "exn + int \<Rightarrow> exn + unit" where
  "http_attempt resp =
     (case resp of Inl e \<Rightarrow> Inl e
      | Inr status \<Rightarrow> if 200 \<le> status \<and> status < 300 then Inr () else Inl OtherE)"

text \<open>One \<open>_bulk\<close> attempt: template (once), pool, bulk call; its \<open>errors\<close> flag is raised.  The flag
  of the installed template is returned.\<close>

definition indexer_attempt ::
    "bool \<Rightarrow> exn + unit \<Rightarrow> exn + unit \<Rightarrow> exn + unit \<Rightarrow> exn + bool \<Rightarrow> (exn + unit) \<times> bool" where
  "indexer_attempt template_installed acquire_template put_template acquire_bulk bulk =
     (case (if template_installed then Inr True
            else bind_res acquire_template (\<lambda>_. bind_res put_template (\<lambda>_. Inr True))) of
        Inl e \<Rightarrow> (Inl e, template_installed)
      | Inr inst \<Rightarrow>
          (bind_res acquire_bulk (\<lambda>_. bind_res bulk (\<lambda>errors.
             if errors then Inl RuntimeE else Inr ())), inst))"

definition bulk_action :: "string \<Rightarrow> event \<Rightarrow> json" where
  "bulk_action index ev =
     JObj [(''index'', JObj ((''_index'', JStr index) #
        (case dget ev ''event_id'' of
           None \<Rightarrow> [] | Some i \<Rightarrow> if i = JNull then [] else [(''_id'', i)])))]"

definition build_bulk_body :: "(rat \<Rightarrow> string) \<Rightarrow> string \<Rightarrow> event list \<Rightarrow> string" where
  "build_bulk_body fr index events =
     join_with [CHR 0x0A] (concat (map (\<lambda>ev.
        [dumps fr '', '' '': '' (bulk_action index ev), dumps fr '', '' '': '' (JObj ev)]) events))
     @ [CHR 0x0A]"

definition batch_after_send :: "event list \<Rightarrow> nat \<Rightarrow> exn + unit \<Rightarrow> queued_sink \<Rightarrow> queued_sink" where
  "batch_after_send evs k outcome s =
     (if qs_max_attempts s \<le> int k
      then s\<lparr>qs_task := Pulling [], qs_lost := qs_lost s @ evs\<rparr>
      else case outcome of
        Inr u \<Rightarrow> s\<lparr>qs_task := Pulling [], qs_delivered := qs_delivered s @ evs\<rparr>
      | Inl e \<Rightarrow>
          if qs_max_attempts s \<le> int (Suc k)
          then (record_drops evs ''delivery_failed'' s)\<lparr>qs_task := Pulling []\<rparr>
          else s\<lparr>qs_task := BackingOff evs (Suc k)\<rparr>)"

definition batch_after_backoff :: "event list \<Rightarrow> nat \<Rightarrow> queued_sink \<Rightarrow> queued_sink" where
  "batch_after_backoff evs k s =
     (if qs_stop s then (record_drops evs ''delivery_failed'' s)\<lparr>qs_task := Pulling []\<rparr>
      else s\<lparr>qs_task := Sending evs k\<rparr>)"

inductive batch_step :: "nat \<Rightarrow> queued_sink \<Rightarrow> queued_sink \<Rightarrow> bool" for batch where
  pull: "qs_task s = Pulling b \<Longrightarrow> length b < batch \<Longrightarrow> qs_queue s = Some (ev # q) \<Longrightarrow>
    batch_step batch s (task_done (s\<lparr>qs_queue := Some q, qs_task := Pulling (b @ [ev])\<rparr>))"
| flush: "qs_task s = Pulling b \<Longrightarrow> b \<noteq> [] \<Longrightarrow> batch_step batch s (s\<lparr>qs_task := Sending b 0\<rparr>)"
| exit: "qs_task s = Pulling [] \<Longrightarrow> qs_stop s \<Longrightarrow> qs_queue s = Some [] \<Longrightarrow>
    batch_step batch s (s\<lparr>qs_task := Finished\<rparr>)"
| send: "qs_task s = Sending b k \<Longrightarrow>
    (\<And>e. outcome = Inl e \<Longrightarrow> is_exception e) \<Longrightarrow> batch_step batch s (batch_after_send b k outcome s)"
| backoff: "qs_task s = BackingOff b k \<Longrightarrow> batch_step batch s (batch_after_backoff b k s)"
| starting: "qs_queue s = None \<Longrightarrow> qs_task s = NoTask \<Longrightarrow> batch_step batch s (start s)"
| stopping: "batch_step batch s (request_stop s)"
| cancelling: "qs_stop s \<Longrightarrow> qs_task s \<notin> {NoTask, Finished, CancelledTask} \<Longrightarrow>
    batch_step batch s (cancel_task s)"

inductive batch_reach :: "int \<Rightarrow> int \<Rightarrow> nat \<Rightarrow> event list \<Rightarrow> queued_sink \<Rightarrow> bool" for ms ma batch where
  init: "batch_reach ms ma batch [] (new_queued_sink ms ma)"
| submitted: "batch_reach ms ma batch evs s \<Longrightarrow> submit ev s = (None, s') \<Longrightarrow>
    batch_reach ms ma batch (evs @ [ev]) s'"
| step: "batch_reach ms ma batch evs s \<Longrightarrow> batch_step batch s s' \<Longrightarrow> batch_reach ms ma batch evs s'"

definition batch_task_ok :: "int \<Rightarrow> nat \<Rightarrow> drain \<Rightarrow> bool" where
  "batch_task_ok ma batch t \<longleftrightarrow>
     (case t of
        Pulling b \<Rightarrow> length b \<le> batch
      | Sending b k \<Rightarrow> b \<noteq> [] \<and> length b \<le> batch \<and> int k < ma
      | BackingOff b k \<Rightarrow> b \<noteq> [] \<and> length b \<le> batch \<and> int k < ma
      | _ \<Rightarrow> True)"

definition batch_inv :: "int \<Rightarrow> nat \<Rightarrow> event list \<Rightarrow> queued_sink \<Rightarrow> bool" where
  "batch_inv ma batch evs s \<longleftrightarrow>
     sink_ok s \<and> qs_max_attempts s = ma \<and> batch_task_ok ma batch (qs_task s) \<and>
     sink_account s = mset evs \<and>
     subseq (qs_delivered s @ in_flight (qs_task s) @ queued s) evs \<and>
     (\<not> qs_stop s \<longrightarrow> qs_lost s = [])"

lemma batch_inv_init: "0 < ms \<Longrightarrow> batch_inv ma batch [] (new_queued_sink ms ma)"
  by (simp add: batch_inv_def new_queued_sink_def sink_ok_def queued_def batch_task_ok_def
      sink_account_def in_flight_def)

lemma batch_inv_submit:
  assumes inv: "batch_inv ma batch evs s" and eq: "submit ev s = (r, s')"
  shows "batch_inv ma batch (evs @ [ev]) s'"
proof -
  have ok: "sink_ok s" using inv by (simp add: batch_inv_def)
  have acc: "sink_ok s'" "sink_account s' = mset (evs @ [ev])"
    using submit_ok [OF ok eq] queued_submit_account [OF ok eq] inv by (simp_all add: batch_inv_def)
  have sub: "subseq (qs_delivered s @ in_flight (qs_task s) @ queued s) evs"
    using inv by (simp add: batch_inv_def)
  show ?thesis
    using ok
  proof (cases rule: submit_cases [where ev = ev])
    case (room s'')
    then show ?thesis using inv acc eq subseq_snoc [OF sub, of ev]
      by (auto simp: batch_inv_def same_task_def)
  next
    case (full x q s'')
    have "subseq (qs_delivered s @ in_flight (qs_task s) @ q) evs"
      using subseq_drop_middle [of "qs_delivered s @ in_flight (qs_task s)" "[x]" q] sub full by simp
    from subseq_snoc [OF this, of ev] show ?thesis using inv acc eq full
      by (auto simp: batch_inv_def same_task_def)
  qed
qed

lemma batch_inv_send:
  assumes inv: "batch_inv ma batch evs s" and t: "qs_task s = Sending b k"
  shows "batch_inv ma batch evs (batch_after_send b k outcome s)"
proof -
  have sub: "subseq (qs_delivered s @ b @ queued s) evs" using inv t by (simp add: batch_inv_def in_flight_def)
  then have sub': "subseq (qs_delivered s @ queued s) evs" by (rule subseq_drop_middle)
  have "qs_queue s \<noteq> None" "int k < ma" "qs_max_attempts s = ma"
    using inv t by (auto simp: batch_inv_def sink_ok_def batch_task_ok_def)
  then show ?thesis
    using inv t sub sub'
    by (cases outcome) (auto simp: batch_after_send_def batch_inv_def sink_ok_def sink_account_def
        batch_task_ok_def in_flight_def queued_def comp_def multiset.map_comp ac_simps)
qed

lemma batch_inv_backoff:
  assumes inv: "batch_inv ma batch evs s" and t: "qs_task s = BackingOff b k"
  shows "batch_inv ma batch evs (batch_after_backoff b k s)"
proof -
  have sub: "subseq (qs_delivered s @ b @ queued s) evs" using inv t by (simp add: batch_inv_def in_flight_def)
  then have sub': "subseq (qs_delivered s @ queued s) evs" by (rule subseq_drop_middle)
  have "qs_queue s \<noteq> None" using inv t by (auto simp: batch_inv_def sink_ok_def)
  then show ?thesis
    using inv t sub sub'
    by (auto simp: batch_after_backoff_def batch_inv_def sink_ok_def sink_account_def
        batch_task_ok_def in_flight_def queued_def comp_def multiset.map_comp ac_simps)
qed

lemma batch_inv_cancel:
  assumes inv: "batch_inv ma batch evs s" and stop: "qs_stop s"
  shows "batch_inv ma batch evs (cancel_task s)"
proof -
  have "subseq (qs_delivered s @ queued s) evs"
    using inv by (auto simp: batch_inv_def intro: subseq_drop_middle)
  then show ?thesis using inv stop
    by (auto simp: cancel_task_def batch_inv_def sink_ok_def sink_account_def queued_def
        batch_task_ok_def in_flight_def [of CancelledTask] ac_simps)
qed

lemma batch_inv_step:
  assumes inv: "batch_inv ma batch evs s" and ma: "1 \<le> ma" and step: "batch_step batch s s'"
  shows "batch_inv ma batch evs s'"
  using step
proof cases
  case (pull b ev q)
  then show ?thesis using inv
    by (auto simp: batch_inv_def sink_ok_def sink_account_def queued_def batch_task_ok_def
        in_flight_def task_done_def)
next
  case (flush b)
  then show ?thesis using inv ma
    by (auto simp: batch_inv_def sink_ok_def sink_account_def queued_def batch_task_ok_def in_flight_def)
next
  case exit
  then show ?thesis using inv
    by (auto simp: batch_inv_def sink_ok_def sink_account_def queued_def batch_task_ok_def in_flight_def)
next
  case (send b k outcome)
  then show ?thesis using batch_inv_send [OF inv] by simp
next
  case (backoff b k)
  then show ?thesis using batch_inv_backoff [OF inv] by simp
next
  case starting
  then show ?thesis using inv start_facts [of s]
    by (auto simp: batch_inv_def batch_task_ok_def in_flight_def sink_ok_def)
next
  case stopping
  then show ?thesis using inv
    by (auto simp: request_stop_def batch_inv_def sink_ok_def sink_account_def queued_def)
next
  case cancelling
  then show ?thesis using batch_inv_cancel [OF inv] by simp
qed

lemma batch_reach_inv:
  assumes "batch_reach ms ma batch evs s" "0 < ms" "1 \<le> ma"
  shows "batch_inv ma batch evs s"
  using assms
  by (induction rule: batch_reach.induct)
    (auto intro: batch_inv_init batch_inv_submit batch_inv_step)

text \<open>
  C29: The batching sinks keep the same account, and a failed or interrupted batch is recorded as
  dropped: an event leaves the task undelivered and unrecorded only when the task is cancelled.
  In particular nothing is lost before a stop is requested.
\<close>

theorem batch_sink_accounting:
  assumes "batch_reach ms ma batch evs s" "0 < ms" "1 \<le> ma"
  shows "sink_account s = mset evs \<and> subseq (qs_delivered s) evs \<and> (\<not> qs_stop s \<longrightarrow> qs_lost s = []) \<and>
    (\<forall>b k. qs_task s = Sending b k \<longrightarrow> length b \<le> batch \<and> int k < ma) \<and>
    (batch_step batch s s' \<and> qs_task s' \<noteq> CancelledTask \<longrightarrow> qs_lost s' = qs_lost s)"
proof -
  have inv: "batch_inv ma batch evs s" using batch_reach_inv [OF assms] .
  have "subseq (qs_delivered s) (qs_delivered s @ in_flight (qs_task s) @ queued s)"
    by (rule prefix_imp_subseq) simp
  then have "subseq (qs_delivered s) evs"
    using inv subseq_order.trans by (auto simp: batch_inv_def)
  moreover have "qs_lost s' = qs_lost s" if "batch_step batch s s'" "qs_task s' \<noteq> CancelledTask"
    using that
  proof cases
    case starting
    then show ?thesis using start_facts [of s] inv by (simp add: batch_inv_def)
  qed (use inv in \<open>auto simp: batch_inv_def batch_task_ok_def task_done_def batch_after_send_def
      batch_after_backoff_def request_stop_def cancel_task_def split: sum.splits\<close>)
  ultimately show ?thesis using inv by (auto simp: batch_inv_def batch_task_ok_def)
qed

text \<open>One event pulled into a batch of two, and a stop requested.\<close>

definition pulled_one :: queued_sink where
  "pulled_one = started_pair\<lparr>qs_queue := Some [], qs_unfinished := 0,
     qs_task := Pulling [ev2], qs_stop := True\<rparr>"

lemma started_pair_batch: "batch_reach 1 5 2 [ev1, ev2] started_pair"
proof -
  let ?s1 = "submit_op ev1 (new_queued_sink 1 5)"
  let ?s2 = "submit_op ev2 ?s1"
  have r1: "batch_reach 1 5 2 [ev1] ?s1"
    using batch_reach.submitted [OF batch_reach.init, where ev = ev1 and s' = ?s1]
    by (simp add: submit_op_def submit_def new_queued_sink_def)
  have r2: "batch_reach 1 5 2 [ev1, ev2] ?s2"
    using batch_reach.submitted [OF r1, where ev = ev2 and s' = ?s2]
    by (simp add: submit_op_def submit_def new_queued_sink_def safe_record_drop_def)
  have s2: "qs_queue ?s2 = None" "qs_task ?s2 = NoTask"
    by (simp_all add: submit_op_def submit_def new_queued_sink_def safe_record_drop_def)
  show ?thesis unfolding started_pair_def by (rule batch_reach.step [OF r2 batch_step.starting [OF s2]])
qed

lemma pulled_one_reach: "batch_reach 1 5 2 [ev1, ev2] pulled_one"
proof -
  let ?s1 = "task_done (started_pair\<lparr>qs_queue := Some [], qs_task := Pulling ([] @ [ev2])\<rparr>)"
  have "batch_reach 1 5 2 [ev1, ev2] ?s1"
    by (rule batch_reach.step [OF started_pair_batch batch_step.pull]) (simp_all add: started_pair_eq)
  then have "batch_reach 1 5 2 [ev1, ev2] (request_stop ?s1)"
    by (rule batch_reach.step [OF _ batch_step.stopping])
  moreover have "request_stop ?s1 = pulled_one"
    by (simp add: request_stop_def task_done_def started_pair_eq pulled_one_def)
  ultimately show ?thesis by simp
qed

theorem batch_sink_accounting_witness:
  "batch_reach 1 5 2 [ev1, ev2] pulled_one \<and> sink_account pulled_one = mset [ev1, ev2]"
  using batch_sink_accounting [OF pulled_one_reach, of pulled_one] pulled_one_reach by simp

text \<open>
  The wait of \<open>stop\<close> does not cover a batch.  A batching sink reports an event as done when it
  is pulled, not when it is sent, so there is a reachable stopping state in which \<open>Queue.join\<close> returns
  at once while an event is still in the batch; the cancellation that follows loses it unrecorded.
\<close>

theorem batch_join_misses_batch:
  "\<exists>s. batch_reach 1 5 2 [ev1, ev2] s \<and> qs_stop s \<and> qs_unfinished s = 0 \<and>
    in_flight (qs_task s) = [ev2] \<and>
    batch_reach 1 5 2 [ev1, ev2] (cancel_task s) \<and> qs_lost (cancel_task s) = [ev2] \<and>
    qs_dropped (cancel_task s) = [(ev1, ''overflow'')]"
proof -
  have "batch_reach 1 5 2 [ev1, ev2] (cancel_task pulled_one)"
    by (rule batch_reach.step [OF pulled_one_reach batch_step.cancelling]) (simp_all add: pulled_one_def)
  then show ?thesis
    using pulled_one_reach
    by (intro exI [of _ pulled_one])
      (simp add: pulled_one_def started_pair_eq in_flight_def cancel_task_def)
qed

section \<open>FileSink\<close>

text \<open>The files of one sink: index 0 is the current file, \<open>i\<close> its archive \<open>.i\<close>.\<close>

type_synonym files = "nat \<rightharpoonup> string"

definition rename_file :: "nat \<Rightarrow> nat \<Rightarrow> files \<Rightarrow> files" where
  "rename_file src dst fs = fs(dst := fs src, src := None)"

definition shift_archive :: "nat \<Rightarrow> nat \<Rightarrow> files \<Rightarrow> files" where
  "shift_archive keep i fs =
     (if fs i = None then fs
      else if i = keep then fs(i := None)
      else rename_file i (i + 1) fs)"

definition rotate_if_needed :: "nat \<Rightarrow> nat \<Rightarrow> files \<Rightarrow> files" where
  "rotate_if_needed rotate_size keep fs =
     (case fs 0 of
        None \<Rightarrow> fs
      | Some content \<Rightarrow>
          if length content < rotate_size then fs
          else rename_file 0 1 (fold (shift_archive keep) (rev [1..<keep + 1]) fs))"

definition event_line :: "event \<Rightarrow> string" where
  "event_line ev = dumps (\<lambda>r. []) '', '' '': '' (JObj ev) @ [CHR 0x0A]"

definition file_deliver :: "nat \<Rightarrow> nat \<Rightarrow> string \<Rightarrow> files \<Rightarrow> files" where
  "file_deliver rotate_size keep line fs =
     (let fs1 = rotate_if_needed rotate_size keep fs
      in fs1(0 \<mapsto> (case fs1 0 of None \<Rightarrow> line | Some c \<Rightarrow> c @ line)))"

definition content_of :: "files \<Rightarrow> nat \<Rightarrow> string" where
  "content_of fs i = (case fs i of None \<Rightarrow> [] | Some c \<Rightarrow> c)"

text \<open>What the files hold, oldest archive first.\<close>

definition log_text :: "nat \<Rightarrow> files \<Rightarrow> string" where
  "log_text keep fs = concat (map (content_of fs) (rev [0..<keep + 1]))"

lemma shift_archive_apply:
  "fs (Suc i) = None \<or> i = keep \<Longrightarrow>
    shift_archive keep i fs j =
      (if j = i then None else if j = Suc i \<and> i \<noteq> keep then fs i else fs j)"
  by (auto simp: shift_archive_def rename_file_def)

lemma shift_all:
  "n \<le> keep \<Longrightarrow> fs (Suc n) = None \<or> n = keep \<Longrightarrow>
    fold (shift_archive keep) (rev [1..<Suc n]) fs i =
      (if 1 \<le> i \<and> i \<le> Suc n \<and> (n \<noteq> keep \<or> i \<noteq> Suc n) then (if i = 1 then None else fs (i - 1)) else fs i)"
proof (induction n arbitrary: fs i)
  case 0
  then show ?case by (cases "keep = 0") auto
next
  case (Suc n)
  let ?fs = "shift_archive keep (Suc n) fs"
  note ap = shift_archive_apply [where fs = fs and i = "Suc n" and keep = keep, OF Suc.prems(2)]
  have "fold (shift_archive keep) (rev [1..<Suc n]) ?fs i =
      (if 1 \<le> i \<and> i \<le> Suc n \<and> (n \<noteq> keep \<or> i \<noteq> Suc n) then (if i = 1 then None else ?fs (i - 1)) else ?fs i)"
    using Suc.prems by (intro Suc.IH) (simp_all add: ap)
  moreover have "fold (shift_archive keep) (rev [1..<Suc (Suc n)]) fs = fold (shift_archive keep) (rev [1..<Suc n]) ?fs"
    by simp
  moreover have "n \<noteq> keep" using Suc.prems(1) by simp
  ultimately show ?case
    by (cases "i \<le> Suc n"; cases "i = Suc (Suc n)") (auto simp add: ap)
qed

lemma rotate_spec:
  assumes "fs 0 = Some c" "rotate_size \<le> length c" "1 \<le> keep"
  shows "rotate_if_needed rotate_size keep fs i =
    (if i = 0 then None else if i \<le> keep then fs (i - 1) else fs i)"
  using assms shift_all [of keep keep fs]
  by (auto simp: rotate_if_needed_def rename_file_def)

lemma log_text_Suc: "log_text (Suc k) fs = content_of fs (Suc k) @ log_text k fs"
  by (simp add: log_text_def)

lemma deliver_text:
  assumes keep: "1 \<le> keep"
  shows "(j \<le> keep \<longrightarrow> log_text j (file_deliver sz keep line fs) = log_text j fs @ line) \<or>
    (log_text 0 (file_deliver sz keep line fs) = line \<and>
     (\<forall>i < keep. log_text (Suc i) (file_deliver sz keep line fs) = log_text i fs @ line))"
proof (cases "\<exists>c. fs 0 = Some c \<and> sz \<le> length c")
  case True
  then obtain c where c: "fs 0 = Some c" "sz \<le> length c" by blast
  obtain k where k: "keep = Suc k" using keep by (cases keep) auto
  note rot = rotate_spec [where fs = fs and c = c and rotate_size = sz and keep = keep, OF c keep]
  have "log_text (Suc i) (file_deliver sz keep line fs) = log_text i fs @ line" if "i < keep" for i
    using that
  proof (induction i)
    case 0
    then show ?case
      by (simp add: log_text_def content_of_def file_deliver_def Let_def rot)
  next
    case (Suc i)
    then show ?case
      by (simp add: log_text_Suc [of "Suc i"] log_text_Suc [of i] content_of_def file_deliver_def Let_def rot)
  qed
  moreover have "log_text 0 (file_deliver sz keep line fs) = line"
    by (simp add: log_text_def content_of_def file_deliver_def Let_def rot)
  ultimately show ?thesis by blast
next
  case False
  then have "rotate_if_needed sz keep fs = fs"
    by (auto simp: rotate_if_needed_def split: option.splits)
  then have fs': "file_deliver sz keep line fs = fs(0 \<mapsto> content_of fs 0 @ line)"
    by (auto simp: file_deliver_def Let_def content_of_def split: option.splits)
  have "log_text j (fs(0 \<mapsto> content_of fs 0 @ line)) = log_text j fs @ line" for j
  proof (induction j)
    case 0
    then show ?case by (simp add: log_text_def content_of_def)
  next
    case (Suc j)
    then show ?case by (simp add: log_text_Suc) (simp add: content_of_def)
  qed
  then show ?thesis using fs' by simp
qed

definition run_file :: "nat \<Rightarrow> nat \<Rightarrow> event list \<Rightarrow> files" where
  "run_file sz keep evs = fold (\<lambda>ev. file_deliver sz keep (event_line ev)) evs Map.empty"

lemma run_file_suffix:
  assumes keep: "1 \<le> keep"
  shows "j \<le> keep \<Longrightarrow> \<exists>n. log_text j (run_file sz keep evs) = concat (map event_line (drop n evs))"
proof (induction evs arbitrary: j rule: rev_induct)
  case Nil
  have "log_text j Map.empty = []" by (induction j) (simp_all add: log_text_def content_of_def)
  then show ?case by (simp add: run_file_def)
next
  case (snoc ev evs)
  let ?fs = "run_file sz keep evs"
  have run: "run_file sz keep (evs @ [ev]) = file_deliver sz keep (event_line ev) ?fs"
    by (simp add: run_file_def)
  have ext: "\<exists>n. concat (map event_line (drop m evs)) @ event_line ev =
      concat (map event_line (drop n (evs @ [ev])))" for m
    by (rule exI [of _ "min m (length evs)"]) (simp add: min_def)
  from deliver_text [OF keep, of j sz "event_line ev" ?fs] show ?case
  proof (elim disjE conjE)
    assume "j \<le> keep \<longrightarrow> log_text j (file_deliver sz keep (event_line ev) ?fs) = log_text j ?fs @ event_line ev"
    then show ?case using snoc.IH [OF snoc.prems] ext snoc.prems run by metis
  next
    assume z: "log_text 0 (file_deliver sz keep (event_line ev) ?fs) = event_line ev"
      and rot: "\<forall>i < keep. log_text (Suc i) (file_deliver sz keep (event_line ev) ?fs) = log_text i ?fs @ event_line ev"
    show ?case
    proof (cases j)
      case 0
      then show ?thesis using z run by (intro exI [of _ "length evs"]) simp
    next
      case (Suc i)
      then have "\<exists>n. log_text i ?fs = concat (map event_line (drop n evs))"
        and "log_text j (file_deliver sz keep (event_line ev) ?fs) = log_text i ?fs @ event_line ev"
        using snoc.IH [of i] snoc.prems rot by auto
      then show ?thesis using ext run by metis
    qed
  qed
qed

lemma no_float_event: "no_float (JObj (build_event env c))"
  by (simp add: build_event_def opt_json_def split: option.splits)

lemma split_lines:
  assumes "\<forall>ev \<in> set evs. no_float (JObj ev)"
  shows "split_on (CHR 0x0A) (concat (map event_line evs)) =
    map (\<lambda>ev. dumps (\<lambda>r. []) '', '' '': '' (JObj ev)) evs @ [[]]"
  using assms
proof (induction evs)
  case Nil
  then show ?case by simp
next
  case (Cons ev evs)
  have "printable (dumps (\<lambda>r. []) '', '' '': '' (JObj ev))"
    using Cons.prems by (intro dumps_printable) (simp_all add: printable_def)
  then have "CHR 0x0A \<notin> set (dumps (\<lambda>r. []) '', '' '': '' (JObj ev))"
    by (rule printable_no_newline)
  then show ?case
    using Cons by (simp add: event_line_def split_on_append del: dumps.simps)
qed

text \<open>
  C34: the rotated audit log is readable and in order.  Whatever the rotation sz, the archives
  from the oldest to the current file, put together and split into lines, are the JSON texts of the
  last events in their order, one event per line; a rotation never cuts an event or leaves a gap.
\<close>

theorem file_log_lines:
  assumes "1 \<le> keep"
  shows "\<exists>n. split_on (CHR 0x0A) (log_text keep (run_file sz keep (map (\<lambda>(env, c). build_event env c) cs))) =
    map (\<lambda>(env, c). dumps (\<lambda>r. []) '', '' '': '' (JObj (build_event env c))) (drop n cs) @ [[]]"
proof -
  let ?evs = "map (\<lambda>(env, c). build_event env c) cs"
  obtain n where n: "log_text keep (run_file sz keep ?evs) = concat (map event_line (drop n ?evs))"
    using run_file_suffix [OF assms order.refl] by blast
  have "\<forall>ev \<in> set (drop n ?evs). no_float (JObj ev)"
    by (auto dest!: in_set_dropD simp del: no_float.simps simp: no_float_event)
  from split_lines [OF this] show ?thesis
    unfolding n by (intro exI [of _ n]) (simp add: drop_map case_prod_unfold del: dumps.simps)
qed

theorem file_log_lines_witness:
  "\<exists>n. split_on (CHR 0x0A) (log_text 2 (run_file 100 2
      (map (\<lambda>(env, c). build_event env c) (replicate 5 (sample_env, sample_call))))) =
    replicate (5 - n) (dumps (\<lambda>r. []) '', '' '': '' (JObj (build_event sample_env sample_call))) @ [[]]"
  using file_log_lines [of 2 100 "replicate 5 (sample_env, sample_call)"]
  by (simp del: dumps.simps)

section \<open>Construction from configuration\<close>

datatype sink_object =
    StderrSink
  | StdoutSink
  | FileSink string int int
  | HttpSink string int int int
  | WazuhIndexerSink string string int int int

fun build_sink :: "bool \<Rightarrow> tenant_config \<Rightarrow> audit_sink_config \<Rightarrow> exn + sink_object" where
  "build_sink has_pool t StderrSinkConfig = Inr StderrSink"
| "build_sink has_pool t StdoutSinkConfig = Inr StdoutSink"
| "build_sink has_pool t (FileSinkConfig path rotate_size_mb keep) =
     Inr (FileSink path (rotate_size_mb * 1024 * 1024) keep)"
| "build_sink has_pool t (HttpSinkConfig url batch flush_ms max_attempts) =
     Inr (HttpSink url batch flush_ms max_attempts)"
| "build_sink has_pool t (WazuhIndexerSinkConfig index_prefix batch flush_ms max_attempts) =
     (if \<not> has_pool then Inl RuntimeE
      else Inr (WazuhIndexerSink (tenant_id t) index_prefix batch flush_ms max_attempts))"

definition build_sinks :: "bool \<Rightarrow> tenant_config \<Rightarrow> exn + sink_object list" where
  "build_sinks has_pool t = map_res (build_sink has_pool t) (audit_sinks t)"

fun build_per_tenant_sinks ::
    "bool \<Rightarrow> tenant_config list \<Rightarrow> (string, sink_object list) dict \<Rightarrow> exn + (string, sink_object list) dict" where
  "build_per_tenant_sinks has_pool [] out = Inr out"
| "build_per_tenant_sinks has_pool (t # ts) out =
     (case build_sinks has_pool t of
        Inl e \<Rightarrow> Inl RuntimeE
      | Inr sinks \<Rightarrow> build_per_tenant_sinks has_pool ts (dset (tenant_id t) sinks out))"

text \<open>Which sink an entry of a tenant's \<open>audit_sinks\<close> asks for.\<close>

fun sink_of :: "string \<Rightarrow> audit_sink_config \<Rightarrow> sink_object \<Rightarrow> bool" where
  "sink_of tid StderrSinkConfig s \<longleftrightarrow> s = StderrSink"
| "sink_of tid StdoutSinkConfig s \<longleftrightarrow> s = StdoutSink"
| "sink_of tid (FileSinkConfig path mb keep) s \<longleftrightarrow> s = FileSink path (mb * 2 ^ 20) keep"
| "sink_of tid (HttpSinkConfig url batch flush_ms attempts) s \<longleftrightarrow> s = HttpSink url batch flush_ms attempts"
| "sink_of tid (WazuhIndexerSinkConfig index_prefix batch flush_ms attempts) s \<longleftrightarrow>
     s = WazuhIndexerSink tid index_prefix batch flush_ms attempts"

lemma build_sink_of: "build_sink has_pool t c = Inr s \<Longrightarrow> sink_of (tenant_id t) c s"
  by (cases c) (auto split: if_splits)

lemma sink_of_unique: "sink_of tid c s \<Longrightarrow> sink_of tid c s' \<Longrightarrow> s = s'"
  by (cases c) simp_all

lemma build_sinks_of:
  assumes "build_sinks has_pool t = Inr ss"
  shows "list_all2 (sink_of (tenant_id t)) (audit_sinks t) ss"
proof -
  have "map_res (build_sink has_pool t) cs = Inr xs \<Longrightarrow> list_all2 (sink_of (tenant_id t)) cs xs" for cs xs
    by (induction cs arbitrary: xs) (auto simp: bind_res_eq_Inr build_sink_of)
  then show ?thesis using assms by (simp add: build_sinks_def)
qed

lemma sinks_of_unique: "list_all2 (sink_of tid) cs ss \<Longrightarrow> list_all2 (sink_of tid) cs ss' \<Longrightarrow> ss = ss'"
proof (induction cs arbitrary: ss ss')
  case (Cons c cs)
  then show ?case by (auto simp: list_all2_Cons1 dest: sink_of_unique)
qed simp

lemma build_sinks_pool:
  "build_sinks False t = Inr ss \<Longrightarrow> WazuhIndexerSinkConfig p b f m \<notin> set (audit_sinks t)"
  unfolding build_sinks_def by (auto dest!: map_res_mem)

lemma build_per_tenant_Cons:
  assumes "build_per_tenant_sinks has_pool (t # ts) out = Inr d"
  obtains sinks where "build_sinks has_pool t = Inr sinks"
    "build_per_tenant_sinks has_pool ts (dset (tenant_id t) sinks out) = Inr d"
  using assms by (auto split: sum.splits)

lemma build_per_tenant_get:
  assumes "build_per_tenant_sinks has_pool ts out = Inr d" "distinct (map tenant_id ts)"
  shows "dget d tid = Some ss \<longleftrightarrow> (\<exists>t \<in> set ts. tenant_id t = tid \<and> build_sinks has_pool t = Inr ss) \<or>
    tid \<notin> tenant_id ` set ts \<and> dget out tid = Some ss"
  using assms
proof (induction ts arbitrary: out)
  case (Cons t ts)
  obtain sinks where b: "build_sinks has_pool t = Inr sinks"
    and rest: "build_per_tenant_sinks has_pool ts (dset (tenant_id t) sinks out) = Inr d"
    using Cons.prems(1) by (rule build_per_tenant_Cons)
  have "distinct (map tenant_id ts)" "tenant_id t \<notin> tenant_id ` set ts" using Cons.prems(2) by simp_all
  then show ?case using Cons.IH [OF rest] b by (auto simp: dget_dset)
qed simp

lemma build_per_tenant_built:
  "build_per_tenant_sinks has_pool ts out = Inr d \<Longrightarrow> t \<in> set ts \<Longrightarrow> \<exists>ss. build_sinks has_pool t = Inr ss"
  by (induction ts arbitrary: out) (auto split: sum.splits)

lemma build_per_tenant_pool:
  assumes "build_per_tenant_sinks False ts out = Inr d"
  shows "\<forall>t \<in> set ts. WazuhIndexerSinkConfig p b f m \<notin> set (audit_sinks t)"
  using assms
proof (induction ts arbitrary: out)
  case (Cons t ts)
  obtain sinks where "build_sinks False t = Inr sinks"
    "build_per_tenant_sinks False ts (dset (tenant_id t) sinks out) = Inr d"
    using Cons.prems by (rule build_per_tenant_Cons)
  then show ?case using Cons.IH build_sinks_pool by simp
qed simp

text \<open>
  A tenant's sinks are exactly those its own configuration asks for, in its order, whatever the
  kinds; the tenants with sinks are the configured ones, and a configuration naming the indexer without
  a pool is refused as a whole.
\<close>

theorem per_tenant_sinks_isolated:
  assumes "build_per_tenant_sinks has_pool ts [] = Inr d" "distinct (map tenant_id ts)"
  shows "(dget d tid = Some ss \<longleftrightarrow> (\<exists>t \<in> set ts. tenant_id t = tid \<and> list_all2 (sink_of tid) (audit_sinks t) ss)) \<and>
    (\<not> has_pool \<longrightarrow> (\<forall>t \<in> set ts. \<forall>p b f m. WazuhIndexerSinkConfig p b f m \<notin> set (audit_sinks t)))"
proof (intro conjI impI)
  note built = build_per_tenant_built [OF assms(1)]
  note get = build_per_tenant_get [OF assms, of tid ss]
  show "dget d tid = Some ss \<longleftrightarrow> (\<exists>t \<in> set ts. tenant_id t = tid \<and> list_all2 (sink_of tid) (audit_sinks t) ss)"
  proof
    assume "dget d tid = Some ss"
    then show "\<exists>t \<in> set ts. tenant_id t = tid \<and> list_all2 (sink_of tid) (audit_sinks t) ss"
      using get build_sinks_of by auto
  next
    assume "\<exists>t \<in> set ts. tenant_id t = tid \<and> list_all2 (sink_of tid) (audit_sinks t) ss"
    then obtain t where t: "t \<in> set ts" "tenant_id t = tid" "list_all2 (sink_of tid) (audit_sinks t) ss" by blast
    obtain ss' where ss': "build_sinks has_pool t = Inr ss'" using built [OF t(1)] by blast
    then have "ss' = ss" using build_sinks_of [OF ss'] t(2,3) sinks_of_unique by blast
    then show "dget d tid = Some ss" using get t(1,2) ss' by blast
  qed
  show "\<not> has_pool \<Longrightarrow> \<forall>t \<in> set ts. \<forall>p b f m. WazuhIndexerSinkConfig p b f m \<notin> set (audit_sinks t)"
    using build_per_tenant_pool [of ts "[]" d] assms(1) by (cases has_pool) auto
qed

theorem per_tenant_sinks_isolated_witness:
  "\<exists>d. build_per_tenant_sinks True [sample_tenant ''a'', sample_tenant ''b''] [] = Inr d \<and>
    dget d ''b'' = Some [StderrSink, WazuhIndexerSink ''b'' ''p'' 1 1 1] \<and> dget d ''c'' = None"
proof -
  let ?ss = "\<lambda>t. [StderrSink, WazuhIndexerSink t ''p'' 1 1 1]"
  have eq: "build_per_tenant_sinks True [sample_tenant ''a'', sample_tenant ''b''] [] =
      Inr [(''a'', ?ss ''a''), (''b'', ?ss ''b'')]"
    by (simp add: build_sinks_def sample_tenant_def)
  have dist: "distinct (map tenant_id [sample_tenant ''a'', sample_tenant ''b''])" by (simp add: sample_tenant_def)
  show ?thesis
    using per_tenant_sinks_isolated [OF eq dist, of "''b''" "?ss ''b''"] eq
    by (simp add: sample_tenant_def)
qed

end
