(* ===== verification/Rbac.thy ===== *)
theory Rbac imports AuditTrail begin

text \<open>
  Who may call which tool: the pattern match of \<open>rbac/filter.py\<close>, the default roles of
  \<open>rbac/policy.py\<close>, the tenant registries of \<open>tenancy/registry.py\<close> with the interface their clients
  use, the resolvers of \<open>rbac/resolver.py\<close>, and the issuer index of \<open>tenancy/issuer_index.py\<close>.
\<close>

section \<open>Patterns\<close>

fun tool_matches :: "string \<Rightarrow> string list \<Rightarrow> bool" where
  "tool_matches tool_name [] = False"
| "tool_matches tool_name (pattern # ps) =
     (if pattern = ''*'' then True
      else if pattern = tool_name then True
      else if endswith pattern ''.*'' \<and>
              startswith tool_name (take (length pattern - 2) pattern @ ''.'') then True
      else tool_matches tool_name ps)"

definition is_allowed :: "session \<Rightarrow> string \<Rightarrow> (string, string list) dict \<Rightarrow> bool" where
  "is_allowed s tool_name effective_allowlist =
     (case dget effective_allowlist (rbac_role s) of
        None \<Rightarrow> False
      | Some patterns \<Rightarrow> tool_matches tool_name patterns)"

text \<open>
  What a pattern admits.  A tool is matched exactly when the list holds the wildcard, the
  tool's own name, or \<open>d.*\<close> for a dotted domain \<open>d\<close> the name starts with.
\<close>

theorem tool_matches_iff:
  "tool_matches t ps \<longleftrightarrow>
    ''*'' \<in> set ps \<or> t \<in> set ps \<or> (\<exists>d rest. t = d @ ''.'' @ rest \<and> d @ ''.*'' \<in> set ps)"
proof (induction t ps rule: tool_matches.induct)
  case (1 t)
  then show ?case by simp
next
  case (2 t p ps)
  have "endswith p ''.*'' \<and> startswith t (take (length p - 2) p @ ''.'') \<longleftrightarrow>
      (\<exists>d rest. t = d @ ''.'' @ rest \<and> p = d @ ''.*'')"
    by (auto simp: endswith_iff startswith_iff)
  then show ?case using 2 by (cases "p = ''*''"; cases "p = t") auto
qed

section \<open>Default roles and tenant overrides\<close>

definition DEFAULT_ROLE_TOOL_ALLOWLIST :: "(string, string list) dict" where
  "DEFAULT_ROLE_TOOL_ALLOWLIST =
     [(''admin'', [''*'']),
      (''analyst'', [''alerts.*'', ''agents.*'', ''vulnerabilities.*'', ''mitre.*'', ''hunt.*'', ''fim.*'']),
      (''readonly'', [''alerts.*'', ''agents.get_agent'', ''agents.list_agents'', ''vulnerabilities.*'',
                      ''mitre.*'', ''fim.*''])]"

definition effective_allowlist_for :: "(string, string list) dict option \<Rightarrow> (string, string list) dict" where
  "effective_allowlist_for tenant_override =
     (case tenant_override of
        None \<Rightarrow> DEFAULT_ROLE_TOOL_ALLOWLIST
      | Some ov \<Rightarrow> dupdate DEFAULT_ROLE_TOOL_ALLOWLIST ov)"

lemma effective_allowlist_get:
  assumes "\<And>ov. tenant_override = Some ov \<Longrightarrow> distinct (map fst ov)"
  shows "dget (effective_allowlist_for tenant_override) role =
    (case Option.bind tenant_override (\<lambda>ov. dget ov role) of
       Some ps \<Rightarrow> Some ps | None \<Rightarrow> dget DEFAULT_ROLE_TOOL_ALLOWLIST role)"
  using assms
  by (auto simp: effective_allowlist_for_def dget_dupdate split: option.splits)

lemma default_role_cases:
  "dget DEFAULT_ROLE_TOOL_ALLOWLIST role = Some ps \<Longrightarrow> role \<in> {''admin'', ''analyst'', ''readonly''}"
  by (auto simp: DEFAULT_ROLE_TOOL_ALLOWLIST_def split: if_splits)

lemma default_write_admin:
  assumes "dget DEFAULT_ROLE_TOOL_ALLOWLIST role = Some ps" "tool_matches (''write.'' @ op) ps"
  shows "role = ''admin''"
  using assms(2) default_role_cases [OF assms(1)] assms(1)
  by (auto simp: DEFAULT_ROLE_TOOL_ALLOWLIST_def startswith_def endswith_def)

text \<open>
  Without an override only an administrator reaches a write tool, and an override decides
  alone for the roles it names.  A role the tenant does not name and the defaults do not know is
  refused every tool.
\<close>

theorem write_tools_need_admin_or_override:
  assumes "\<forall>ov. tenant_override = Some ov \<longrightarrow> distinct (map fst ov)"
    "is_allowed s (''write.'' @ op) (effective_allowlist_for tenant_override)"
  shows "rbac_role s = ''admin'' \<or>
    (\<exists>ov ps. tenant_override = Some ov \<and> dget ov (rbac_role s) = Some ps \<and> tool_matches (''write.'' @ op) ps)"
proof -
  show ?thesis
    using assms effective_allowlist_get [of tenant_override "rbac_role s"] default_write_admin
    by (auto simp: is_allowed_def split: option.splits bind_splits)
qed


theorem write_tools_need_admin_or_override_witness:
  "is_allowed sample_session (''write.'' @ ''create_rule'')
      (effective_allowlist_for (Some [(''analyst'', [''write.*''])])) \<and>
    tool_matches (''write.'' @ ''create_rule'') [''write.*'']"
proof -
  have al: "is_allowed sample_session (''write.'' @ ''create_rule'')
      (effective_allowlist_for (Some [(''analyst'', [''write.*''])]))"
    by (simp add: is_allowed_def sample_session_def effective_allowlist_for_def dupdate_def
        DEFAULT_ROLE_TOOL_ALLOWLIST_def startswith_def endswith_def)
  show ?thesis
    using write_tools_need_admin_or_override [OF _ al] al
    by (simp add: sample_session_def)
qed

section \<open>Tenant registries\<close>

text \<open>The interface: \<open>get\<close> and \<open>all_tenants\<close> tell one story, keyed by the tenant's own id.\<close>

locale tenant_registry =
  fixes get :: "'r \<Rightarrow> string \<Rightarrow> exn + tenant_config"
    and all_tenants :: "'r \<Rightarrow> tenant_config list"
    and valid :: "'r \<Rightarrow> bool"
  assumes get_listed: "valid r \<Longrightarrow> get r tid = Inr c \<Longrightarrow> tenant_id c = tid \<and> c \<in> set (all_tenants r)"
    and get_unknown: "valid r \<Longrightarrow> get r tid = Inl e \<Longrightarrow> e = KeyE"
    and listed_get: "valid r \<Longrightarrow> c \<in> set (all_tenants r) \<Longrightarrow> get r (tenant_id c) = Inr c"
begin

lemma get_iff: "valid r \<Longrightarrow> get r tid = Inr c \<longleftrightarrow> c \<in> set (all_tenants r) \<and> tenant_id c = tid"
  using get_listed listed_get by blast

lemma unknown_iff: "valid r \<Longrightarrow> get r tid = Inl KeyE \<longleftrightarrow> tid \<notin> tenant_id ` set (all_tenants r)"
  using get_listed [of r tid] get_unknown [of r tid] listed_get [of r]
  by (cases "get r tid") auto

end

text \<open>\<open>YamlTenantRegistry\<close>: the entries are validated and added in order.\<close>

fun yaml_load ::
    "(string \<Rightarrow> bool) \<Rightarrow> tenant_config list \<Rightarrow> (string, tenant_config) dict \<Rightarrow> exn + (string, tenant_config) dict" where
  "yaml_load url_ok [] ts = Inr ts"
| "yaml_load url_ok (entry # es) ts =
     bind_res (model_validate url_ok entry) (\<lambda>cfg.
       if dget ts (tenant_id cfg) \<noteq> None then Inl ValueE
       else yaml_load url_ok es (dset (tenant_id cfg) cfg ts))"

definition yaml_get :: "(string, tenant_config) dict \<Rightarrow> string \<Rightarrow> exn + tenant_config" where
  "yaml_get ts tid = (case dget ts tid of None \<Rightarrow> Inl KeyE | Some c \<Rightarrow> Inr c)"

definition yaml_all :: "(string, tenant_config) dict \<Rightarrow> tenant_config list" where
  "yaml_all ts = map snd ts"

definition yaml_wf :: "(string, tenant_config) dict \<Rightarrow> bool" where
  "yaml_wf ts \<longleftrightarrow> distinct (map fst ts) \<and> (\<forall>(tid, c) \<in> set ts. tenant_id c = tid)"

interpretation yaml: tenant_registry yaml_get yaml_all yaml_wf
proof unfold_locales
  fix ts tid c
  assume wf: "yaml_wf ts"
  show "yaml_get ts tid = Inr c \<Longrightarrow> tenant_id c = tid \<and> c \<in> set (yaml_all ts)"
    using wf by (force simp: yaml_get_def yaml_wf_def yaml_all_def dest: map_of_SomeD split: option.splits)
  show "c \<in> set (yaml_all ts) \<Longrightarrow> yaml_get ts (tenant_id c) = Inr c"
    using wf by (auto simp: yaml_get_def yaml_wf_def yaml_all_def)
qed (simp add: yaml_get_def split: option.splits)

definition single_get :: "tenant_config \<Rightarrow> string \<Rightarrow> exn + tenant_config" where
  "single_get t tid = (if tid \<noteq> tenant_id t then Inl KeyE else Inr t)"

definition single_all :: "tenant_config \<Rightarrow> tenant_config list" where
  "single_all t = [t]"

interpretation single: tenant_registry single_get single_all "\<lambda>_. True"
  by unfold_locales (auto simp: single_get_def single_all_def split: if_splits)

lemma yaml_load_wf:
  assumes "yaml_load url_ok es ts = Inr ts'" "yaml_wf ts"
  shows "yaml_wf ts' \<and> map snd ts' = map snd ts @ es"
  using assms
proof (induction es arbitrary: ts)
  case Nil
  then show ?case by simp
next
  case (Cons e es)
  have ok: "model_validate url_ok e = Inr e" and new: "dget ts (tenant_id e) = None"
    and rest: "yaml_load url_ok es (dset (tenant_id e) e ts) = Inr ts'"
    using Cons.prems(1) model_validate_sound(1) by (auto simp: bind_res_eq_Inr split: if_splits)
  have "tenant_id e \<notin> set (map fst ts)" using new by (simp add: map_of_eq_None_iff)
  then have app: "dset (tenant_id e) e ts = ts @ [(tenant_id e, e)]"
    by (induction ts) auto
  have "yaml_wf (dset (tenant_id e) e ts)"
    using Cons.prems(2) \<open>tenant_id e \<notin> _\<close> by (auto simp: app yaml_wf_def)
  then show ?case using Cons.IH [OF rest] by (simp add: app)
qed

text \<open>
  A registry that loads holds exactly the entries of the file, each valid, under distinct
  tenant ids; \<open>get\<close> finds a tenant by its id and by nothing else.
\<close>

theorem yaml_registry_sound:
  assumes "yaml_load url_ok es [] = Inr ts"
  shows "yaml_all ts = es \<and> distinct (map tenant_id es) \<and>
    (\<forall>tid c. yaml_get ts tid = Inr c \<longleftrightarrow> c \<in> set es \<and> tenant_id c = tid)"
proof -
  have "yaml_wf []" by (simp add: yaml_wf_def)
  then have wf: "yaml_wf ts" and eq: "map snd ts = es"
    using yaml_load_wf [OF assms] by auto
  have "map tenant_id (map snd ts) = map fst ts" using wf by (auto simp: yaml_wf_def)
  then have "distinct (map tenant_id es)" using wf eq by (simp add: yaml_wf_def)
  then show ?thesis using yaml.get_iff [OF wf] eq by (simp add: yaml_all_def)
qed

definition two_tenants :: "tenant_config list" where
  "two_tenants = [(sample_tenant ''a'')\<lparr>audit_sinks := []\<rparr>, (sample_tenant ''b'')\<lparr>audit_sinks := []\<rparr>]"

lemma two_tenants_load:
  "\<exists>ts. yaml_load (\<lambda>_. True) two_tenants [] = Inr ts"
  by (simp add: two_tenants_def sample_tenant_def model_validate_def tenant_id_match_def is_lower_def
      is_digit_def opt_ok_def rate_limit_ok_def default_rate_limit_def bucket_config_ok_def
      validate_writes_def validate_ar_def validate_ar_groups_def validate_ar_groups_max_def)

theorem yaml_registry_sound_witness:
  "\<exists>ts c. yaml_load (\<lambda>_. True) two_tenants [] = Inr ts \<and> yaml_get ts ''b'' = Inr c \<and> tenant_id c = ''b''"
proof -
  obtain ts where ts: "yaml_load (\<lambda>_. True) two_tenants [] = Inr ts" using two_tenants_load by blast
  have "yaml_get ts ''b'' = Inr ((sample_tenant ''b'')\<lparr>audit_sinks := []\<rparr>)"
    using yaml_registry_sound [OF ts] by (simp add: two_tenants_def sample_tenant_def)
  then show ?thesis using ts by (intro exI [of _ ts]) (simp add: sample_tenant_def)
qed

section \<open>Resolvers\<close>

text \<open>Each resolver returns its value and the events it emitted.  \<open>KeyError\<close> is the only exception
  it catches; any other leaves it.\<close>

definition resolve_miss :: "session \<Rightarrow> emit_call" where
  "resolve_miss s =
     \<lparr>ec_session = s, ec_tool = ''<rbac.resolve>'', ec_args = [], ec_outcome = ''error'', ec_count = 0,
      ec_duration = 0, ec_error_code = Some ''forbidden'', ec_error_reason = Some ''tenant_not_registered''\<rparr>"

definition resolve_with ::
    "(string \<Rightarrow> exn + tenant_config) \<Rightarrow> 'a \<Rightarrow> (tenant_config \<Rightarrow> 'a) \<Rightarrow> session \<Rightarrow> (exn + 'a) \<times> emit_call list" where
  "resolve_with get deny proj s =
     (case get (s_tenant_id s) of
        Inl e \<Rightarrow> if e = KeyE then (Inr deny, [resolve_miss s]) else (Inl e, [])
      | Inr cfg \<Rightarrow> (Inr (proj cfg), []))"

definition make_rbac_policy ::
    "(string \<Rightarrow> exn + tenant_config) \<Rightarrow> session \<Rightarrow> (exn + (string, string list) dict) \<times> emit_call list" where
  "make_rbac_policy get = resolve_with get [] (\<lambda>cfg. effective_allowlist_for (role_tool_allowlist cfg))"

definition make_write_allowlist ::
    "(string \<Rightarrow> exn + tenant_config) \<Rightarrow> session \<Rightarrow> (exn + string list option) \<times> emit_call list" where
  "make_write_allowlist get = resolve_with get (Some []) write_allowlist"

definition make_ar_allowlist ::
    "(string \<Rightarrow> exn + tenant_config) \<Rightarrow> session \<Rightarrow> (exn + string list) \<times> emit_call list" where
  "make_ar_allowlist get = resolve_with get [] active_response_allowlist"

definition make_ar_group_allowlist ::
    "(string \<Rightarrow> exn + tenant_config) \<Rightarrow> session \<Rightarrow> (exn + string list) \<times> emit_call list" where
  "make_ar_group_allowlist get = resolve_with get [] agent_group_allowlist"

lemmas resolver_defs = make_rbac_policy_def make_write_allowlist_def make_ar_allowlist_def
  make_ar_group_allowlist_def

context tenant_registry
begin

lemma resolve_unknown:
  assumes "valid r" "s_tenant_id s \<notin> tenant_id ` set (all_tenants r)"
  shows "resolve_with (get r) deny proj s = (Inr deny, [resolve_miss s])"
proof -
  have "get r (s_tenant_id s) = Inl KeyE" using unknown_iff [OF assms(1)] assms(2) by simp
  then show ?thesis by (simp add: resolve_with_def)
qed

lemma resolve_known:
  assumes "valid r" "c \<in> set (all_tenants r)" "s_tenant_id s = tenant_id c"
  shows "resolve_with (get r) deny proj s = (Inr (proj c), [])"
  using listed_get [OF assms(1,2)] assms(3) by (simp add: resolve_with_def)

end

text \<open>
  C37: a session of a tenant that is not registered is refused everything.  No tool is allowed to
  it, no write tool, command or group is on its lists, and each resolution leaves one audit event
  that says why.
\<close>

theorem unknown_tenant_denied:
  assumes "yaml_wf ts" "s_tenant_id s \<notin> tenant_id ` set (yaml_all ts)"
  shows "(\<exists>p. make_rbac_policy (yaml_get ts) s = (Inr p, [resolve_miss s]) \<and> (\<forall>t. \<not> is_allowed s t p)) \<and>
    make_write_allowlist (yaml_get ts) s = (Inr (Some []), [resolve_miss s]) \<and>
    make_ar_allowlist (yaml_get ts) s = (Inr [], [resolve_miss s]) \<and>
    make_ar_group_allowlist (yaml_get ts) s = (Inr [], [resolve_miss s])"
  by (simp add: resolver_defs is_allowed_def yaml.resolve_unknown [OF assms])

theorem unknown_tenant_denied_witness:
  "make_ar_allowlist (yaml_get [(''b'', sample_tenant ''b'')]) sample_session = (Inr [], [resolve_miss sample_session])"
  using unknown_tenant_denied [of "[(''b'', sample_tenant ''b'')]" sample_session]
  by (simp add: yaml_wf_def yaml_all_def sample_tenant_def sample_session_def)

section \<open>The issuer index\<close>

definition canonicalise :: "string \<Rightarrow> string" where
  "canonicalise issuer = rstrip_char (CHR ''/'') issuer"

record issuer_index =
  ix_by_issuer :: "(string, tenant_config option) dict"
  ix_by_tenant :: "(string, tenant_config) dict"

definition index_add :: "issuer_index \<Rightarrow> tenant_config \<Rightarrow> issuer_index" where
  "index_add ix t =
     (let ix1 = ix\<lparr>ix_by_tenant := dset (tenant_id t) t (ix_by_tenant ix)\<rparr>
      in case oauth_issuer t of
           None \<Rightarrow> ix1
         | Some iss \<Rightarrow>
             (let key = canonicalise iss
              in if dget (ix_by_issuer ix) key \<noteq> None
                 then ix1\<lparr>ix_by_issuer := dset key None (ix_by_issuer ix)\<rparr>
                 else ix1\<lparr>ix_by_issuer := dset key (Some t) (ix_by_issuer ix)\<rparr>))"

definition new_issuer_index :: "tenant_config list \<Rightarrow> issuer_index" where
  "new_issuer_index ts = foldl index_add \<lparr>ix_by_issuer = [], ix_by_tenant = []\<rparr> ts"

definition issuer_get :: "issuer_index \<Rightarrow> string \<Rightarrow> tenant_config option" where
  "issuer_get ix issuer =
     (case dget (ix_by_issuer ix) (canonicalise issuer) of None \<Rightarrow> None | Some v \<Rightarrow> v)"

definition get_by_tenant_id :: "issuer_index \<Rightarrow> string \<Rightarrow> tenant_config option" where
  "get_by_tenant_id ix tid = dget (ix_by_tenant ix) tid"

definition known_issuers :: "issuer_index \<Rightarrow> string list" where
  "known_issuers ix = map fst (ix_by_issuer ix)"

definition has_issuer :: "string \<Rightarrow> tenant_config \<Rightarrow> bool" where
  "has_issuer key t \<longleftrightarrow> (case oauth_issuer t of None \<Rightarrow> False | Some iss \<Rightarrow> canonicalise iss = key)"

lemma new_issuer_index_snoc: "new_issuer_index (ts @ [t]) = index_add (new_issuer_index ts) t"
  by (simp add: new_issuer_index_def)

lemma issuer_index_lookup:
  "dget (ix_by_issuer (new_issuer_index ts)) key =
    (case filter (has_issuer key) ts of [] \<Rightarrow> None | [t] \<Rightarrow> Some (Some t) | _ \<Rightarrow> Some None)"
proof (induction ts rule: rev_induct)
  case Nil
  then show ?case by (simp add: new_issuer_index_def)
next
  case (snoc t ts)
  then show ?case
    by (auto simp: new_issuer_index_snoc index_add_def Let_def has_issuer_def dget_dset
        split: option.splits list.splits)
qed

lemma get_by_tenant_last:
  "get_by_tenant_id (new_issuer_index ts) tid = find (\<lambda>t. tenant_id t = tid) (rev ts)"
proof (induction ts rule: rev_induct)
  case Nil
  then show ?case by (simp add: new_issuer_index_def get_by_tenant_id_def)
next
  case (snoc t ts)
  then show ?case
    by (auto simp: new_issuer_index_snoc get_by_tenant_id_def index_add_def Let_def dget_dset
        split: option.splits)
qed

text \<open>
  An issuer names a tenant exactly when one tenant alone is configured with it, up to trailing
  slashes.  A shared issuer and an unknown one both give nothing, but a shared one is still listed
  among the known issuers.
\<close>

theorem issuer_get_unique:
  "(issuer_get (new_issuer_index ts) iss = Some t \<longleftrightarrow> filter (has_issuer (canonicalise iss)) ts = [t]) \<and>
    (iss' \<in> set (known_issuers (new_issuer_index ts)) \<longleftrightarrow> (\<exists>t \<in> set ts. has_issuer iss' t))"
proof
  show "issuer_get (new_issuer_index ts) iss = Some t \<longleftrightarrow> filter (has_issuer (canonicalise iss)) ts = [t]"
    by (auto simp: issuer_get_def issuer_index_lookup split: list.splits)
  have "iss' \<in> set (known_issuers (new_issuer_index ts)) \<longleftrightarrow>
      dget (ix_by_issuer (new_issuer_index ts)) iss' \<noteq> None"
    by (simp add: known_issuers_def map_of_eq_None_iff)
  also have "\<dots> \<longleftrightarrow> filter (has_issuer iss') ts \<noteq> []"
    by (simp add: issuer_index_lookup split: list.splits)
  finally show "iss' \<in> set (known_issuers (new_issuer_index ts)) \<longleftrightarrow> (\<exists>t \<in> set ts. has_issuer iss' t)"
    by (simp add: filter_empty_conv)
qed

end
