(* ===== verification/Instrument.thy ===== *)
theory Instrument imports Rbac RedisLimiter begin

text \<open>
  \<open>@instrumented_tool\<close> (\<open>observability/decorators.py\<close>): the RBAC guard, the rate limit, the audit
  trail and the metrics around every tool handler, and the list/call hooks of \<open>server.py\<close>.  The
  limiter enters through the \<open>rate_limiter\<close> interface.
\<close>

section \<open>The world of a tool call\<close>

text \<open>\<open>wd_calls\<close> is \<open>mcp_tool_calls_total\<close> (tenant, tool, outcome), \<open>wd_limited\<close> is
  \<open>rate_limited_total\<close> (tenant, scope), \<open>wd_durations\<close> the histogram (tenant, tool, seconds).\<close>

record ('l, 'w) world =
  wd_events :: "emit_call list"
  wd_calls :: "(string \<times> string \<times> string) list"
  wd_limited :: "(string \<times> string) list"
  wd_durations :: "(string \<times> string \<times> rat) list"
  wd_limiter :: 'l
  wd_app :: 'w

type_synonym result = "(string, json) dict"
type_synonym policy = "session \<Rightarrow> (exn + (string, string list) dict) \<times> emit_call list"
type_synonym ('l, 'w) handler = "args \<Rightarrow> ('l, 'w) world \<Rightarrow> (exn + result) \<times> ('l, 'w) world"

definition emit_events :: "emit_call list \<Rightarrow> ('l, 'w) world \<Rightarrow> ('l, 'w) world" where
  "emit_events evs w = w\<lparr>wd_events := wd_events w @ evs\<rparr>"

definition count_call :: "session \<Rightarrow> string \<Rightarrow> string \<Rightarrow> ('l, 'w) world \<Rightarrow> ('l, 'w) world" where
  "count_call s tool outcome w = w\<lparr>wd_calls := wd_calls w @ [(s_tenant_id s, tool, outcome)]\<rparr>"

definition record_duration :: "session \<Rightarrow> string \<Rightarrow> rat \<Rightarrow> ('l, 'w) world \<Rightarrow> ('l, 'w) world" where
  "record_duration s tool elapsed w =
     w\<lparr>wd_durations := wd_durations w @ [(s_tenant_id s, tool, elapsed)]\<rparr>"

definition tool_event ::
    "session \<Rightarrow> string \<Rightarrow> args \<Rightarrow> string \<Rightarrow> nat \<Rightarrow> int \<Rightarrow> string option \<Rightarrow> emit_call" where
  "tool_event s tool a outcome n dur code =
     \<lparr>ec_session = s, ec_tool = tool, ec_args = a, ec_outcome = outcome, ec_count = n,
      ec_duration = dur, ec_error_code = code, ec_error_reason = None\<rparr>"

section \<open>The decorator\<close>

text \<open>The first list-valued attribute among the known names gives the result count.\<close>

definition COUNTED_ATTRS :: "string list" where
  "COUNTED_ATTRS =
     [''alerts'', ''agents'', ''items'', ''results'', ''vulnerabilities'', ''techniques'', ''events'']"

fun count_first_list :: "string list \<Rightarrow> result \<Rightarrow> nat" where
  "count_first_list [] r = 0"
| "count_first_list (a # as) r =
     (case dget r a of
        Some (JList xs) \<Rightarrow> length xs
      | _ \<Rightarrow> count_first_list as r)"

text \<open>The four \<open>except\<close> clauses, in their order: the outcome label and the audited error code.\<close>

definition classify :: "exn \<Rightarrow> string \<times> string" where
  "classify e =
     (case e of
        WazuhE we \<Rightarrow> (we_code we, we_code we)
      | ValidationE \<Rightarrow> (''parse_error'', ''parse_error'')
      | _ \<Rightarrow> if is_exception e then (''error'', ''internal'') else (''cancelled'', ''cancelled''))"

definition forbidden_error :: "string \<Rightarrow> session \<Rightarrow> exn" where
  "forbidden_error tool s =
     wazuh_error_init ''forbidden'' (tool @ '' not permitted for role '' @ py_repr (rbac_role s)) 403 None"

definition run_handler ::
    "string \<Rightarrow> ('l, 'w) handler \<Rightarrow> rat \<Rightarrow> session \<Rightarrow> args \<Rightarrow> ('l, 'w) world \<Rightarrow>
     (exn + result) \<times> ('l, 'w) world" where
  "run_handler tool handler elapsed s a w =
     (let w1 = (if startswith tool ''write.''
                then emit_events [tool_event s tool a ''write.requested'' 0 0 None] w else w)
      in case handler a w1 of
           (Inl e, w2) \<Rightarrow>
             (case classify e of (label, code) \<Rightarrow>
               (Inl e, emit_events [tool_event s tool a ''error'' 0 \<lfloor>elapsed * 1000\<rfloor> (Some code)]
                 (record_duration s tool elapsed (count_call s tool label w2))))
         | (Inr r, w2) \<Rightarrow>
             (Inr r, emit_events [tool_event s tool a ''ok'' (count_first_list COUNTED_ATTRS r)
                        \<lfloor>elapsed * 1000\<rfloor> None]
               (record_duration s tool elapsed (count_call s tool ''ok'' w2))))"

definition instrumented_tool ::
    "string \<Rightarrow> policy \<Rightarrow> (string \<Rightarrow> string \<Rightarrow> 'l \<Rightarrow> (exn + unit) \<times> 'l) \<Rightarrow> ('l, 'w) handler \<Rightarrow> rat \<Rightarrow>
     session option \<Rightarrow> args \<Rightarrow> ('l, 'w) world \<Rightarrow> (exn + result) \<times> ('l, 'w) world" where
  "instrumented_tool tool rbac_policy acquire_op handler elapsed current a w =
     (case current of
        None \<Rightarrow> (Inl LookupE, w)
      | Some s \<Rightarrow>
         (case rbac_policy s of
            (Inl e, evs) \<Rightarrow> (Inl e, emit_events evs w)
          | (Inr pol, evs) \<Rightarrow>
             (let w1 = emit_events evs w
              in if \<not> is_allowed s tool pol
                 then (Inl (forbidden_error tool s),
                       count_call s tool ''forbidden''
                         (emit_events [tool_event s tool a ''error'' 0 0 (Some ''forbidden'')] w1))
                 else case acquire_op (s_tenant_id s) (user_id s) (wd_limiter w1) of
                   (Inl (WazuhE rle), l) \<Rightarrow>
                     (let w2 = w1\<lparr>wd_limiter := l\<rparr>;
                          scope = (if we_scope rle = Some ''rate_limit:tenant'' then ''tenant'' else ''session'')
                      in (Inl (WazuhE rle),
                          emit_events [tool_event s tool a ''error'' 0 0 (Some ''rate_limited'')]
                            (count_call s tool ''rate_limited''
                              (w2\<lparr>wd_limited := wd_limited w2 @ [(s_tenant_id s, scope)]\<rparr>))))
                 | (Inl e, l) \<Rightarrow> (Inl e, w1\<lparr>wd_limiter := l\<rparr>)
                 | (Inr u, l) \<Rightarrow> run_handler tool handler elapsed s a (w1\<lparr>wd_limiter := l\<rparr>))))"

lemmas world_defs = emit_events_def count_call_def record_duration_def

section \<open>The hooks of the server\<close>

definition rbac_list_tools ::
    "policy \<Rightarrow> string list \<Rightarrow> session option \<Rightarrow> ('l, 'w) world \<Rightarrow> (exn + string list) \<times> ('l, 'w) world" where
  "rbac_list_tools rbac_policy all_tools current w =
     (case current of
        None \<Rightarrow> (Inr all_tools, w)
      | Some s \<Rightarrow>
         (case rbac_policy s of
            (Inl e, evs) \<Rightarrow> (Inl e, emit_events evs w)
          | (Inr pol, evs) \<Rightarrow> (Inr (filter (\<lambda>t. is_allowed s t pol) all_tools), emit_events evs w)))"

definition rbac_call_tool ::
    "policy \<Rightarrow> (string \<Rightarrow> ('l, 'w) handler) \<Rightarrow> session option \<Rightarrow> string \<Rightarrow> args \<Rightarrow> ('l, 'w) world \<Rightarrow>
     (exn + result) \<times> ('l, 'w) world" where
  "rbac_call_tool rbac_policy call_tool current name a w =
     (case current of
        None \<Rightarrow> (Inl LookupE, w)
      | Some s \<Rightarrow>
         (case rbac_policy s of
            (Inl e, evs) \<Rightarrow> (Inl e, emit_events evs w)
          | (Inr pol, evs) \<Rightarrow>
             (let w1 = emit_events evs w
              in if \<not> is_allowed s name pol
                 then (Inl (ToolE (''Unknown tool: '' @ name)),
                       emit_events [tool_event s name a ''error'' 0 0 (Some ''forbidden'')] w1)
                 else call_tool name a w1)))"

section \<open>What a call leaves behind\<close>

text \<open>Between two states only events with a property were emitted.\<close>

definition emits :: "(emit_call \<Rightarrow> bool) \<Rightarrow> ('l, 'w) world \<Rightarrow> ('l, 'w) world \<Rightarrow> bool" where
  "emits P w w' \<longleftrightarrow> (\<exists>evs. wd_events w' = wd_events w @ evs \<and> (\<forall>e \<in> set evs. P e))"

lemma emits_same: "wd_events w' = wd_events w \<Longrightarrow> emits P w w'"
  by (auto simp: emits_def intro: exI [of _ "[]"])

lemma emits_trans: "emits P w w1 \<Longrightarrow> emits P w1 w2 \<Longrightarrow> emits P w w2"
  unfolding emits_def by (metis append.assoc UnE set_append)

lemma emits_emit: "\<forall>e \<in> set evs. P e \<Longrightarrow> emits P w (emit_events evs w)"
  by (auto simp: emits_def emit_events_def)

lemma emits_mono: "emits P w w' \<Longrightarrow> (\<And>e. P e \<Longrightarrow> Q e) \<Longrightarrow> emits Q w w'"
  unfolding emits_def by blast

text \<open>What a policy resolver writes when it denies: an event of the session under the resolver's name.\<close>

definition resolver_note :: "session \<Rightarrow> emit_call \<Rightarrow> bool" where
  "resolver_note s e \<longleftrightarrow> ec_session e = s \<and> ec_tool e = ''<rbac.resolve>''"

text \<open>A handler leaves the meters and the limiter to the decorator and writes no event but a resolver's.\<close>

definition leaves_trail :: "session \<Rightarrow> args \<Rightarrow> ('l, 'w) handler \<Rightarrow> bool" where
  "leaves_trail s a h \<longleftrightarrow>
     (\<forall>w. emits (resolver_note s) w (snd (h a w)) \<and> wd_calls (snd (h a w)) = wd_calls w \<and>
        wd_durations (snd (h a w)) = wd_durations w \<and> wd_limiter (snd (h a w)) = wd_limiter w)"

definition completion :: "session \<Rightarrow> string \<Rightarrow> args \<Rightarrow> exn + result \<Rightarrow> emit_call \<Rightarrow> bool" where
  "completion s tool a r ev \<longleftrightarrow>
     ec_session ev = s \<and> ec_tool ev = tool \<and> ec_args ev = a \<and>
     (case r of
        Inr x \<Rightarrow> ec_outcome ev = ''ok'' \<and> ec_error_code ev = None \<and>
                 ec_count ev = count_first_list COUNTED_ATTRS x
      | Inl e \<Rightarrow> ec_outcome ev = ''error'' \<and> ec_error_code ev = Some (snd (classify e)) \<and> ec_count ev = 0)"

text \<open>The outcome label under which a call is counted.\<close>

definition outcome_label :: "exn + result \<Rightarrow> string" where
  "outcome_label r = (case r of Inr x \<Rightarrow> ''ok'' | Inl e \<Rightarrow> fst (classify e))"

text \<open>The event a write tool leaves before its handler runs.\<close>

definition intent :: "session \<Rightarrow> string \<Rightarrow> args \<Rightarrow> emit_call list" where
  "intent s tool a = (if startswith tool ''write.'' then [tool_event s tool a ''write.requested'' 0 0 None] else [])"

lemma intent_emitted:
  "(if startswith tool ''write.'' then emit_events [tool_event s tool a ''write.requested'' 0 0 None] w else w) =
     emit_events (intent s tool a) w"
  by (simp add: intent_def emit_events_def)

text \<open>A run of the handler is counted, timed and completed once, under its own outcome.\<close>

lemma run_handler_audit:
  assumes "leaves_trail s a handler" "run_handler tool handler elapsed s a w = (r, w')"
  shows "\<exists>own ev. completion s tool a r ev \<and> ec_duration ev = \<lfloor>elapsed * 1000\<rfloor> \<and> (\<forall>e \<in> set own. resolver_note s e) \<and>
    wd_events w' = wd_events w @ intent s tool a @ own @ [ev]"
    and "wd_calls w' = wd_calls w @ [(s_tenant_id s, tool, outcome_label r)]"
    and "wd_durations w' = wd_durations w @ [(s_tenant_id s, tool, elapsed)]" and "wd_limiter w' = wd_limiter w"
proof -
  let ?w1 = "emit_events (intent s tool a) w"
  obtain x w2 where h: "handler a ?w1 = (x, w2)" by fastforce
  obtain own where own: "wd_events w2 = wd_events w @ intent s tool a @ own" "\<forall>e \<in> set own. resolver_note s e"
    and same: "wd_calls w2 = wd_calls w" "wd_durations w2 = wd_durations w" "wd_limiter w2 = wd_limiter w"
    using assms(1) h unfolding leaves_trail_def emits_def
    by (metis (no_types, lifting) append.assoc emit_events_def select_convs(1,2,4,5) simps(7) snd_conv surjective update_convs(1))
  define ev where "ev = (case x of
      Inl e \<Rightarrow> tool_event s tool a ''error'' 0 \<lfloor>elapsed * 1000\<rfloor> (Some (snd (classify e)))
    | Inr y \<Rightarrow> tool_event s tool a ''ok'' (count_first_list COUNTED_ATTRS y) \<lfloor>elapsed * 1000\<rfloor> None)"
  have r: "r = x" and w': "w' = emit_events [ev] (record_duration s tool elapsed (count_call s tool (outcome_label x) w2))"
    using assms(2) h
    by (cases x; auto simp: run_handler_def intent_emitted Let_def ev_def outcome_label_def split: prod.splits)+
  have "completion s tool a r ev" "ec_duration ev = \<lfloor>elapsed * 1000\<rfloor>"
    by (cases x; simp add: r ev_def completion_def tool_event_def)+
  moreover have "wd_events w' = wd_events w @ intent s tool a @ own @ [ev]" using own(1) by (simp add: w' world_defs)
  ultimately show "\<exists>own ev. completion s tool a r ev \<and> ec_duration ev = \<lfloor>elapsed * 1000\<rfloor> \<and> (\<forall>e \<in> set own. resolver_note s e) \<and>
    wd_events w' = wd_events w @ intent s tool a @ own @ [ev]" using own(2) by blast
  show "wd_calls w' = wd_calls w @ [(s_tenant_id s, tool, outcome_label r)]"
    "wd_durations w' = wd_durations w @ [(s_tenant_id s, tool, elapsed)]" "wd_limiter w' = wd_limiter w"
    using same by (simp_all add: w' r world_defs)
qed

lemma classify_limited [simp]:
  "classify (WazuhE we) = (we_code we, we_code we)" "classify ValidationE = (''parse_error'', ''parse_error'')"
  by (simp_all add: classify_def)

lemma limited_errors:
  "e \<in> {tenant_limited, session_limited} \<Longrightarrow>
    \<exists>we. e = WazuhE we \<and> we_code we = ''rate_limited''"
  by (auto simp: rate_limited_error_simps)

lemma forbidden_error_eq:
  "\<exists>we. forbidden_error tool s = WazuhE we \<and> we_code we = ''forbidden'' \<and> we_status we = 403"
  by (simp add: forbidden_error_def)

text \<open>The three ways a call goes once its policy is known.\<close>

lemma instrumented_cases:
  assumes "rbac_policy s = (Inr pol, pevs)"
    and "instrumented_tool tool rbac_policy acq handler elapsed (Some s) a w = (r, w')"
  obtains (denied) "\<not> is_allowed s tool pol" "r = Inl (forbidden_error tool s)"
      "w' = w\<lparr>wd_events := wd_events w @ pevs @ [tool_event s tool a ''error'' 0 0 (Some ''forbidden'')],
              wd_calls := wd_calls w @ [(s_tenant_id s, tool, ''forbidden'')]\<rparr>"
  | (limited) rle l where "is_allowed s tool pol"
      "acq (s_tenant_id s) (user_id s) (wd_limiter w) = (Inl (WazuhE rle), l)" "r = Inl (WazuhE rle)"
      "wd_events w' = wd_events w @ pevs @ [tool_event s tool a ''error'' 0 0 (Some ''rate_limited'')]"
      "wd_calls w' = wd_calls w @ [(s_tenant_id s, tool, ''rate_limited'')]"
      "wd_limited w' = wd_limited w @ [(s_tenant_id s,
         if we_scope rle = Some ''rate_limit:tenant'' then ''tenant'' else ''session'')]"
      "wd_durations w' = wd_durations w" "wd_limiter w' = l" "wd_app w' = wd_app w"
  | (limiter_failed) e l where "is_allowed s tool pol" "\<forall>we. e \<noteq> WazuhE we"
      "acq (s_tenant_id s) (user_id s) (wd_limiter w) = (Inl e, l)" "r = Inl e"
      "w' = w\<lparr>wd_events := wd_events w @ pevs, wd_limiter := l\<rparr>"
  | (ran) l where "is_allowed s tool pol"
      "acq (s_tenant_id s) (user_id s) (wd_limiter w) = (Inr (), l)"
      "run_handler tool handler elapsed s a (w\<lparr>wd_events := wd_events w @ pevs, wd_limiter := l\<rparr>) = (r, w')"
proof (cases "is_allowed s tool pol")
  case False
  then show thesis using denied assms
    by (auto simp: instrumented_tool_def world_defs)
next
  case allowed: True
  obtain x l where x: "acq (s_tenant_id s) (user_id s) (wd_limiter w) = (x, l)" by fastforce
  have wl: "wd_limiter (emit_events pevs w) = wd_limiter w" by (simp add: emit_events_def)
  show thesis
  proof (cases x)
    case (Inr u)
    then show thesis using ran [of l] allowed x assms
      by (simp add: instrumented_tool_def wl Let_def) (simp add: emit_events_def)
  next
    case (Inl e)
    show thesis
    proof (cases "\<exists>we. e = WazuhE we")
      case True
      then obtain we where "e = WazuhE we" by blast
      then show thesis using limited [of we l] allowed x assms Inl
        by (auto simp: instrumented_tool_def wl Let_def world_defs)
    next
      case False
      then show thesis using limiter_failed [of e l] allowed x assms Inl
        by (cases e) (auto simp: instrumented_tool_def wl Let_def emit_events_def)
    qed
  qed
qed

text \<open>The trail of a call, whatever the limiter.  It is complete unless an error that is no
  \<open>WazuhError\<close> escapes the limiter.\<close>

definition limiter_escaped :: "exn + unit \<Rightarrow> bool" where
  "limiter_escaped v \<longleftrightarrow> (\<exists>e. v = Inl e \<and> (\<forall>we. e \<noteq> WazuhE we))"

lemma instrumented_trail:
  assumes "leaves_trail s a handler" "rbac_policy s = (Inr pol, pevs)"
    and "instrumented_tool tool rbac_policy acq handler elapsed (Some s) a w = (r, w')"
    and "\<And>we. fst (acq (s_tenant_id s) (user_id s) (wd_limiter w)) = Inl (WazuhE we) \<Longrightarrow> we_code we = ''rate_limited''"
  shows "let v = fst (acq (s_tenant_id s) (user_id s) (wd_limiter w)); allowed = is_allowed s tool pol in
    if allowed \<and> limiter_escaped v
    then r = Inl (projl v) \<and> wd_events w' = wd_events w @ pevs \<and> wd_calls w' = wd_calls w \<and>
      wd_durations w' = wd_durations w \<and> wd_app w' = wd_app w
    else \<exists>ev. completion s tool a r ev \<and> wd_calls w' = wd_calls w @ [(s_tenant_id s, tool, outcome_label r)] \<and>
      (if allowed \<and> v = Inr ()
       then wd_durations w' = wd_durations w @ [(s_tenant_id s, tool, elapsed)] \<and>
         (\<exists>own. (\<forall>e \<in> set own. resolver_note s e) \<and> wd_events w' = wd_events w @ pevs @ intent s tool a @ own @ [ev])
       else outcome_label r = (if allowed then ''rate_limited'' else ''forbidden'') \<and> wd_durations w' = wd_durations w \<and>
         wd_app w' = wd_app w \<and> wd_events w' = wd_events w @ pevs @ [ev])"
  using assms(2,3)
proof (cases rule: instrumented_cases)
  case denied
  then show ?thesis using forbidden_error_eq [of tool s]
    by (auto simp: completion_def tool_event_def outcome_label_def)
next
  case (limited rle l)
  then have "we_code rle = ''rate_limited''" using assms(4) by simp
  then show ?thesis using limited by (auto simp: completion_def tool_event_def outcome_label_def limiter_escaped_def)
next
  case (limiter_failed e l)
  then show ?thesis by (simp add: limiter_escaped_def)
next
  case (ran l)
  from run_handler_audit [OF assms(1) ran(3)] show ?thesis using ran(1,2) by (auto simp: limiter_escaped_def)
qed

lemma run_handler_limiter:
  assumes "\<And>a w. wd_limiter (snd (handler a w)) = wd_limiter w"
    "run_handler tool handler elapsed s a w = (r, w')"
  shows "wd_limiter w' = wd_limiter w"
proof -
  let ?w1 = "if startswith tool ''write.''
     then emit_events [tool_event s tool a ''write.requested'' 0 0 None] w else w"
  obtain x w2 where h: "handler a ?w1 = (x, w2)" by fastforce
  have "wd_limiter w2 = wd_limiter ?w1" using assms(1) [of a ?w1] h by simp
  also have "\<dots> = wd_limiter w" by (simp add: emit_events_def)
  finally show ?thesis
    using assms(2) h
    by (cases x) (auto simp: run_handler_def Let_def world_defs split: prod.splits)
qed

context rate_limiter
begin

text \<open>With a limiter of the interface, every call whose policy resolves ends in one completion
  event and one count.\<close>

lemma instrumented_audit:
  assumes g: "good (wd_limiter w)" and q: "leaves_trail s a handler" and p: "rbac_policy s = (Inr pol, pevs)"
    and run: "instrumented_tool tool rbac_policy (acquire_op now) handler elapsed (Some s) a w = (r, w')"
  shows "\<exists>ev own. completion s tool a r ev \<and> wd_events w' = wd_events w @ pevs @ own @ [ev] \<and>
    wd_calls w' = wd_calls w @ [(s_tenant_id s, tool, outcome_label r)]"
proof -
  let ?v = "fst (acquire_op now (s_tenant_id s) (user_id s) (wd_limiter w))"
  have *: "\<exists>we. e = WazuhE we \<and> we_code we = ''rate_limited''" if v: "?v = Inl e" for e
  proof -
    obtain l where "acquire_op now (s_tenant_id s) (user_id s) (wd_limiter w) = (Inl e, l)" using v by (metis prod.collapse)
    from limited_errors [OF only_rate_limited [OF g this]] show ?thesis .
  qed
  then have 1: "\<And>we. ?v = Inl (WazuhE we) \<Longrightarrow> we_code we = ''rate_limited''" and 2: "\<not> limiter_escaped ?v"
    by (fastforce simp: limiter_escaped_def)+
  show ?thesis
    using instrumented_trail [OF q p run 1] 2 unfolding Let_def
    by (auto split: if_splits)
qed

lemma instrumented_good:
  assumes g: "good (wd_limiter w)" and p: "rbac_policy s = (Inr pol, pevs)"
    and h: "\<And>a w. wd_limiter (snd (handler a w)) = wd_limiter w"
    and run: "instrumented_tool tool rbac_policy (acquire_op now) handler elapsed (Some s) a w = (r, w')"
  shows "good (wd_limiter w')"
  using p run
proof (cases rule: instrumented_cases)
  case (limited rle l)
  then show ?thesis using good_step [OF g limited(2)] by simp
next
  case (limiter_failed e l)
  then show ?thesis using good_step [OF g limiter_failed(3)] by simp
next
  case (ran l)
  have "wd_limiter w' = l" using run_handler_limiter [OF h ran(3)] by simp
  then show ?thesis using good_step [OF g ran(2)] by simp
qed (use g in simp)

end

definition empty_world :: "'l \<Rightarrow> ('l, unit) world" where
  "empty_world l = \<lparr>wd_events = [], wd_calls = [], wd_limited = [], wd_durations = [],
     wd_limiter = l, wd_app = ()\<rparr>"

text \<open>A handler that is cancelled.\<close>

definition cancelled_handler :: "('l, 'w) handler" where
  "cancelled_handler a w = (Inl CancelledE, w)"

definition admin_policy :: policy where
  "admin_policy s = (Inr [(''analyst'', [''*''])], [])"

text \<open>
  An admitted write call leaves two events of the tool, the request before the handler runs and the
  completion after it, with only a resolver's in between, and a refused one leaves a single refusal; a call that is not allowed neither
  takes a token nor reaches the handler.
\<close>

theorem write_call_events:
  assumes "startswith tool ''write.''" "rbac_policy s = (Inr pol, pevs)" "leaves_trail s a handler"
    "instrumented_tool tool rbac_policy acq handler elapsed (Some s) a w = (r, w')"
  shows "(\<not> is_allowed s tool pol \<longrightarrow> r = Inl (forbidden_error tool s) \<and>
      wd_limiter w' = wd_limiter w \<and> wd_app w' = wd_app w \<and>
      wd_events w' = wd_events w @ pevs @ [tool_event s tool a ''error'' 0 0 (Some ''forbidden'')]) \<and>
    (is_allowed s tool pol \<and>
      fst (acq (s_tenant_id s) (user_id s) (wd_limiter w)) = Inr () \<longrightarrow>
      (\<exists>own ev. completion s tool a r ev \<and> (\<forall>e \<in> set own. resolver_note s e) \<and> wd_events w' = wd_events w @ pevs @
        tool_event s tool a ''write.requested'' 0 0 None # own @ [ev]))"
  using assms(2,4)
proof (cases rule: instrumented_cases)
  case (ran l)
  then show ?thesis
    using run_handler_audit(1) [OF assms(3) ran(3)] assms(1) by (auto simp: intent_def)
qed auto

theorem write_call_events_witness:
  "\<exists>w' ev. instrumented_tool ''write.x'' admin_policy (\<lambda>_ _ l. (Inr (), l)) cancelled_handler 2
      (Some sample_session) [] (empty_world ()) = (Inl CancelledE, w') \<and>
    (\<exists>own. wd_events w' = tool_event sample_session ''write.x'' [] ''write.requested'' 0 0 None # own @ [ev]) \<and>
    completion sample_session ''write.x'' [] (Inl CancelledE) ev"
proof -
  let ?run = "instrumented_tool ''write.x'' admin_policy (\<lambda>_ _ l. (Inr (), l)) cancelled_handler 2
      (Some sample_session) [] (empty_world ())"
  have q: "leaves_trail sample_session [] (cancelled_handler :: (unit, unit) handler)"
    by (simp add: leaves_trail_def cancelled_handler_def emits_same)
  have "fst ?run = Inl CancelledE"
    by (simp add: instrumented_tool_def admin_policy_def is_allowed_def sample_session_def empty_world_def
        emit_events_def run_handler_def startswith_def Let_def cancelled_handler_def classify_def is_exception_def)
  then obtain w' where run: "?run = (Inl CancelledE, w')" by (metis prod.collapse)
  have al: "is_allowed sample_session ''write.x'' [(''analyst'', [''*''])]"
    by (simp add: is_allowed_def sample_session_def)
  show ?thesis
    using write_call_events [OF _ _ q run] run al
    by (fastforce simp: admin_policy_def empty_world_def startswith_def)
qed

text \<open>
  The tools a session sees are the tools it can call.  Under one policy, a tool is in the
  filtered list exactly when it exists and the call hook passes it on; the hook refuses every other
  name with the words used for a tool that does not exist, and records the refusal.
\<close>

theorem listed_iff_callable:
  assumes "rbac_policy s = (Inr pol, pevs)"
  shows "\<exists>ts. rbac_list_tools rbac_policy all_tools (Some s) w = (Inr ts, emit_events pevs w) \<and>
    (\<forall>t. (t \<in> set ts \<longleftrightarrow> t \<in> set all_tools \<and> is_allowed s t pol) \<and>
      (is_allowed s t pol \<longrightarrow>
        rbac_call_tool rbac_policy call_tool (Some s) t a w = call_tool t a (emit_events pevs w)) \<and>
      (\<not> is_allowed s t pol \<longrightarrow>
        rbac_call_tool rbac_policy call_tool (Some s) t a w =
          (Inl (ToolE (''Unknown tool: '' @ t)),
           emit_events (pevs @ [tool_event s t a ''error'' 0 0 (Some ''forbidden'')]) w)))"
  using assms by (auto simp: rbac_list_tools_def rbac_call_tool_def emit_events_def)

theorem listed_iff_callable_witness:
  "\<exists>ts. rbac_list_tools admin_policy [''alerts.search_alerts''] (Some sample_session) (empty_world ()) =
    (Inr ts, emit_events [] (empty_world ()))"
  using listed_iff_callable [of admin_policy sample_session "[(''analyst'', [''*''])]" "[]"
      "[''alerts.search_alerts'']" "empty_world ()" "\<lambda>_. cancelled_handler" "[]"]
  by (auto simp: admin_policy_def)

text \<open>
  With the Redis limiter a call can vanish from the trail.  When a server error escapes the
  limiter, an allowed call raises it with nothing recorded: no audit event, no count.
\<close>

theorem limiter_failure_unaudited:
  assumes "rbac_policy s = (Inr pol, pevs)" "is_allowed s tool pol"
    "fst (redis_acquire ck (s_tenant_id s) (user_id s) (wd_limiter w)) = Inl RedisOtherE"
  shows "\<exists>w'. instrumented_tool tool rbac_policy (redis_acquire ck) handler elapsed (Some s) a w =
      (Inl RedisOtherE, w') \<and> wd_events w' = wd_events w @ pevs \<and> wd_calls w' = wd_calls w \<and>
      wd_app w' = wd_app w"
proof -
  obtain l where "redis_acquire ck (s_tenant_id s) (user_id s) (wd_limiter w) = (Inl RedisOtherE, l)"
    using assms(3) by (metis prod.collapse)
  then show ?thesis
    using assms(1,2) by (simp add: instrumented_tool_def emit_events_def Let_def)
qed

definition failing_redis :: redis_limiter where
  "failing_redis = (new_redis_limiter tiny_limits Map.empty ''wz'' test_breaker
     (empty_redis [LostRequest RedisOtherE]))\<lparr>rl_script_sha := True\<rparr>"

lemma failing_redis_raises:
  "fst (redis_acquire \<lparr>ck_mono = 1, ck_ms = 1000, ck_server = 1000\<rparr> tid sid failing_redis) = Inl RedisOtherE"
  by (simp add: failing_redis_def redis_defs new_redis_limiter_def test_breaker_def empty_redis_def
      breaker_defs is_exception_def falls_back_def count_metric_def)

theorem limiter_failure_unaudited_witness:
  "\<exists>w'. instrumented_tool ''alerts.search_alerts'' admin_policy
      (redis_acquire \<lparr>ck_mono = 1, ck_ms = 1000, ck_server = 1000\<rparr>) cancelled_handler 2
      (Some sample_session) [] (empty_world failing_redis) = (Inl RedisOtherE, w') \<and> wd_events w' = []"
proof -
  have al: "is_allowed sample_session ''alerts.search_alerts'' [(''analyst'', [''*''])]"
    by (simp add: is_allowed_def sample_session_def)
  show ?thesis
    using limiter_failure_unaudited [of admin_policy sample_session "[(''analyst'', [''*''])]" "[]"
        "''alerts.search_alerts''" "\<lparr>ck_mono = 1, ck_ms = 1000, ck_server = 1000\<rparr>"
        "empty_world failing_redis" cancelled_handler 2 "[]"] al failing_redis_raises
    by (auto simp: admin_policy_def empty_world_def)
qed

end
