(* ===== verification/Auth.thy ===== *)
theory Auth imports Rbac begin

text \<open>
  How a request becomes a session (\<open>auth/\<close>): the bearer token, the key cache with its rate of
  refreshes, the OAuth factory with its tenant resolution, API keys, the chain of both, and the
  fixed session of the stdio mode.  Base64 and JSON decoding, the JWT library, the password hasher
  and the reader of dates are arguments.
\<close>

section \<open>Requests\<close>

type_synonym headers = "(string, string) dict"

definition header_or :: "headers \<Rightarrow> string" where
  "header_or hs =
     (let pick = (\<lambda>k. case dget hs k of None \<Rightarrow> [] | Some v \<Rightarrow> v)
      in if pick ''Authorization'' \<noteq> [] then pick ''Authorization'' else pick ''authorization'')"

definition extract_bearer :: "headers \<Rightarrow> exn + string" where
  "extract_bearer hs =
     (if \<not> startswith (header_or hs) ''Bearer '' then Inl (AuthE InvalidToken)
      else Inr (py_strip (drop (length ''Bearer '') (header_or hs))))"

section \<open>The key cache\<close>

text \<open>\<open>jw_feed\<close> holds the answers the identity provider will give, in order; \<open>jw_last\<close> is \<open>None\<close>
  for minus infinity.\<close>

record jwks_cache =
  jw_issuer :: string
  jw_uri :: "string option"
  jw_keys :: "(json, json) dict"
  jw_ttl :: rat
  jw_last :: "rat option"
  jw_feed :: "(exn + int \<times> json) list"

definition new_jwks_cache :: "string \<Rightarrow> (exn + int \<times> json) list \<Rightarrow> jwks_cache" where
  "new_jwks_cache issuer feed =
     \<lparr>jw_issuer = rstrip_char (CHR ''/'') issuer, jw_uri = None, jw_keys = [], jw_ttl = 600,
      jw_last = None, jw_feed = feed\<rparr>"

definition http_get :: "jwks_cache \<Rightarrow> (exn + int \<times> json) \<times> jwks_cache" where
  "http_get c =
     (case jw_feed c of [] \<Rightarrow> (Inl OtherE, c) | r # rs \<Rightarrow> (r, c\<lparr>jw_feed := rs\<rparr>))"

text \<open>A value as the key of a Python dictionary: equal numbers are one key, a list or an object is none.\<close>

definition dict_key :: "json \<Rightarrow> exn + json" where
  "dict_key v =
     (case v of
        JList _ \<Rightarrow> Inl TypeE
      | JObj _ \<Rightarrow> Inl TypeE
      | JBool b \<Rightarrow> Inr (JInt (if b then 1 else 0))
      | JFloat r \<Rightarrow> Inr (if r = of_int \<lfloor>r\<rfloor> then JInt \<lfloor>r\<rfloor> else JFloat r)
      | _ \<Rightarrow> Inr v)"

text \<open>One entry of the \<open>keys\<close> list, as the comprehension treats it: skipped, taken, or raising.\<close>

definition jwk_entry :: "json \<Rightarrow> exn + (json \<times> json) option" where
  "jwk_entry k =
     bind_res (py_in ''kid'' k) (\<lambda>has.
       if \<not> has then Inr None
       else bind_res (py_index k ''kid'') (\<lambda>kid. bind_res (dict_key kid) (\<lambda>d. Inr (Some (d, k)))))"

definition parse_jwks :: "json \<Rightarrow> exn + (json, json) dict" where
  "parse_jwks body =
     (case body of
        JObj kvs \<Rightarrow>
          bind_res (py_iter (case dget kvs ''keys'' of None \<Rightarrow> JList [] | Some v \<Rightarrow> v)) (\<lambda>ks.
          bind_res (map_res jwk_entry ks) (\<lambda>es.
            Inr (dupdate [] (List.map_filter id es))))
      | _ \<Rightarrow> Inl OtherE)"

definition refresh_keys :: "jwks_cache \<Rightarrow> (exn + unit) \<times> jwks_cache" where
  "refresh_keys c =
     (if jw_uri c = None then (Inr (), c)
      else case http_get c of
             (Inl e, c1) \<Rightarrow> (Inl e, c1)
           | (Inr (status, body), c1) \<Rightarrow>
               if status \<noteq> 200 then (Inr (), c1)
               else case parse_jwks body of
                      Inl e \<Rightarrow> (Inl e, c1)
                    | Inr ks \<Rightarrow> (Inr (), c1\<lparr>jw_keys := ks\<rparr>))"

definition ensure_discovered :: "jwks_cache \<Rightarrow> (exn + unit) \<times> jwks_cache" where
  "ensure_discovered c =
     (if jw_uri c \<noteq> None then (Inr (), c)
      else case http_get c of
             (Inl e, c1) \<Rightarrow> (Inl e, c1)
           | (Inr (status, body), c1) \<Rightarrow>
               if status \<noteq> 200 then (Inl RuntimeE, c1)
               else case body of
                      JObj kvs \<Rightarrow>
                        (case jget kvs ''jwks_uri'' of
                           JStr u \<Rightarrow> if u = [] then (Inl RuntimeE, c1)
                                     else refresh_keys (c1\<lparr>jw_uri := Some u\<rparr>)
                         | v \<Rightarrow> if truthy v then (Inl OtherE, c1) else (Inl RuntimeE, c1))
                    | _ \<Rightarrow> (Inl OtherE, c1))"

definition lookup_kid :: "jwks_cache \<Rightarrow> json \<Rightarrow> exn + json option" where
  "lookup_kid c kid = bind_res (dict_key kid) (\<lambda>d. Inr (dget (jw_keys c) d))"

definition may_refresh :: "rat \<Rightarrow> jwks_cache \<Rightarrow> bool" where
  "may_refresh now c = (case jw_last c of None \<Rightarrow> True | Some t \<Rightarrow> jw_ttl c \<le> now - t)"

definition get_key :: "rat \<Rightarrow> json \<Rightarrow> jwks_cache \<Rightarrow> (exn + json option) \<times> jwks_cache" where
  "get_key now kid c =
     (case ensure_discovered c of
        (Inl e, c1) \<Rightarrow> (Inl e, c1)
      | (Inr u, c1) \<Rightarrow>
          (case lookup_kid c1 kid of
             Inl e \<Rightarrow> (Inl e, c1)
           | Inr (Some k) \<Rightarrow> (Inr (Some k), c1)
           | Inr None \<Rightarrow>
               (if may_refresh now c1
                then case refresh_keys (c1\<lparr>jw_last := Some now\<rparr>) of
                       (Inl e, c2) \<Rightarrow> (Inl e, c2)
                     | (Inr u, c2) \<Rightarrow> (lookup_kid c2 kid, c2)
                else (lookup_kid c1 kid, c1))))"

fun get_keys :: "(rat \<times> json) list \<Rightarrow> jwks_cache \<Rightarrow> jwks_cache" where
  "get_keys [] c = c"
| "get_keys ((now, kid) # rs) c = get_keys rs (snd (get_key now kid c))"

section \<open>How often the provider is asked\<close>

lemma http_get_feed:
  "http_get c = (r, c') \<Longrightarrow> length (jw_feed c) \<le> Suc (length (jw_feed c')) \<and>
    length (jw_feed c') \<le> length (jw_feed c) \<and> jw_uri c' = jw_uri c \<and> jw_ttl c' = jw_ttl c \<and>
    jw_last c' = jw_last c \<and> jw_keys c' = jw_keys c"
  by (auto simp: http_get_def split: list.splits)

lemma refresh_keys_feed:
  assumes "refresh_keys c = (r, c')"
  shows "length (jw_feed c) \<le> Suc (length (jw_feed c')) \<and> jw_uri c' = jw_uri c \<and>
    jw_ttl c' = jw_ttl c \<and> jw_last c' = jw_last c"
  using assms http_get_feed [of c]
  by (auto simp: refresh_keys_def split: prod.splits sum.splits if_splits)

lemma get_key_discovered:
  assumes "jw_uri c \<noteq> None" "get_key now kid c = (r, c')"
  shows "(c' = c \<or> (may_refresh now c \<and> jw_last c' = Some now \<and> jw_uri c' = jw_uri c \<and>
    jw_ttl c' = jw_ttl c \<and> length (jw_feed c) \<le> Suc (length (jw_feed c'))))"
proof -
  have d: "ensure_discovered c = (Inr (), c)" using assms(1) by (simp add: ensure_discovered_def)
  obtain x c2 where rk: "refresh_keys (c\<lparr>jw_last := Some now\<rparr>) = (x, c2)" by fastforce
  from refresh_keys_feed [OF rk] show ?thesis
    using assms(2) d rk
    by (auto simp: get_key_def split: sum.splits option.splits if_splits)
qed

text \<open>After the last refresh at time \<open>t\<close>, a run up to \<open>hi\<close> asks at most once per elapsed period.\<close>

lemma get_keys_bound:
  assumes "jw_uri c = Some u" "0 < jw_ttl c" "jw_last c = Some t" "t \<le> hi"
    "\<forall>(now, kid) \<in> set rs. now \<le> hi"
  shows "of_nat (length (jw_feed c)) \<le> of_nat (length (jw_feed (get_keys rs c))) + (hi - t) / jw_ttl c"
  using assms
proof (induction rs arbitrary: c t)
  case Nil
  then show ?case by simp
next
  case (Cons q rs)
  obtain now kid where q: "q = (now, kid)" by (cases q)
  obtain r c' where g: "get_key now kid c = (r, c')" by fastforce
  have uri: "jw_uri c \<noteq> None" using Cons.prems(1) by simp
  from get_key_discovered [OF uri g] show ?case
  proof (elim disjE conjE)
    assume "c' = c"
    then show ?thesis using Cons.IH [OF Cons.prems(1-4)] Cons.prems(5) q g by simp
  next
    assume m: "may_refresh now c" and c': "jw_last c' = Some now" "jw_uri c' = jw_uri c"
      "jw_ttl c' = jw_ttl c" and len: "length (jw_feed c) \<le> Suc (length (jw_feed c'))"
    have ttl: "jw_ttl c \<le> now - t" using m Cons.prems(3) by (simp add: may_refresh_def)
    have IH: "of_nat (length (jw_feed c')) \<le>
        of_nat (length (jw_feed (get_keys rs c'))) + (hi - now) / jw_ttl c"
      using Cons.IH [of c' now] Cons.prems c' q by simp
    have "1 \<le> (now - t) / jw_ttl c" using ttl Cons.prems(2) by simp
    moreover have "(hi - now) / jw_ttl c + (now - t) / jw_ttl c = (hi - t) / jw_ttl c"
      by (simp add: add_divide_distrib [symmetric])
    moreover have "(of_nat (length (jw_feed c)) :: rat) \<le> 1 + of_nat (length (jw_feed c'))"
      using len by (metis of_nat_Suc of_nat_mono)
    ultimately show ?thesis using IH q g by simp
  qed
qed

text \<open>
  C36: forged key identifiers cannot make the server hammer the identity provider.  Once the
  provider is discovered, any run of lookups between \<open>lo\<close> and \<open>hi\<close>, whatever the identifiers, sends
  it at most one request plus one per full period elapsed.
\<close>

theorem jwks_refresh_bound:
  assumes "jw_uri c = Some u" "0 < jw_ttl c" "lo \<le> hi" "\<forall>(now, kid) \<in> set rs. lo \<le> now \<and> now \<le> hi"
  shows "of_nat (length (jw_feed c) - length (jw_feed (get_keys rs c))) \<le> 1 + (hi - lo) / jw_ttl c"
  using assms
proof (induction rs arbitrary: c)
  case Nil
  then show ?case by simp
next
  case (Cons q rs)
  obtain now kid where q: "q = (now, kid)" by (cases q)
  obtain r c' where g: "get_key now kid c = (r, c')" by fastforce
  have uri: "jw_uri c \<noteq> None" using Cons.prems(1) by simp
  from get_key_discovered [OF uri g] show ?case
  proof (elim disjE conjE)
    assume "c' = c"
    then show ?thesis using Cons.IH [OF Cons.prems(1-3)] Cons.prems(4) q g by simp
  next
    assume c': "jw_last c' = Some now" "jw_uri c' = jw_uri c" "jw_ttl c' = jw_ttl c"
      and len: "length (jw_feed c) \<le> Suc (length (jw_feed c'))"
    have b: "of_nat (length (jw_feed c')) \<le>
        of_nat (length (jw_feed (get_keys rs c'))) + (hi - now) / jw_ttl c"
      using get_keys_bound [of c' u now hi rs] Cons.prems c' q by fastforce
    have "(hi - now) / jw_ttl c \<le> (hi - lo) / jw_ttl c"
      using Cons.prems(2,4) q by (intro divide_right_mono) auto
    moreover have "(of_nat (length (jw_feed c)) :: rat) \<le> 1 + of_nat (length (jw_feed c'))"
      using len by (metis of_nat_Suc of_nat_mono)
    moreover have "(of_nat (length (jw_feed c) - length (jw_feed (get_keys rs c'))) :: rat) \<le>
        max 0 (of_nat (length (jw_feed c)) - of_nat (length (jw_feed (get_keys rs c'))))"
      by (simp add: of_nat_diff max_def not_le)
    moreover have "0 \<le> (hi - lo) / jw_ttl c" using Cons.prems(2,3) by simp
    ultimately show ?thesis using b q g by (simp add: max_def split: if_splits)
  qed
qed

definition discovered_cache :: jwks_cache where
  "discovered_cache = \<lparr>jw_issuer = ''https://idp'', jw_uri = Some ''https://idp/jwks'', jw_keys = [],
     jw_ttl = 600, jw_last = None, jw_feed = replicate 5 (Inr (500, JNull))\<rparr>"

theorem jwks_refresh_bound_witness:
  "of_nat (length (jw_feed discovered_cache) - length (jw_feed (get_keys
      [(0, JStr ''k1''), (1, JStr ''k2''), (300, JStr ''k3'')] discovered_cache))) \<le> (3 / 2 :: rat)"
  using jwks_refresh_bound [of discovered_cache "''https://idp/jwks''" 0 300
      "[(0, JStr ''k1''), (1, JStr ''k2''), (300, JStr ''k3'')]"]
  by (simp add: discovered_cache_def)

section \<open>OAuth\<close>

text \<open>What the JWT library offers: \<open>jl_segment\<close> decodes one base64 segment to JSON (or raises),
  \<open>jl_import\<close> makes a key, \<open>jl_decode\<close> checks the signature and yields the claims.\<close>

datatype jwt_error = ExpiredTokenError | BadSignatureError | OtherJwtError

record 'k jwt_lib =
  jl_segment :: "string \<Rightarrow> json option"
  jl_import :: "json \<Rightarrow> exn + 'k"
  jl_decode :: "string \<Rightarrow> 'k \<Rightarrow> string list \<Rightarrow> jwt_error + (string, json) dict"
  jl_float :: "rat \<Rightarrow> string"

record oauth_factory =
  oa_issuer :: string
  oa_audience :: string
  oa_algorithms :: "string list"
  oa_rbac_claims :: "string list"
  oa_index :: issuer_index
  oa_skew :: int
  oa_caches :: "(string, jwks_cache) dict"
  oa_valid_issuers :: "string set"

type_synonym feeds = "string \<Rightarrow> (exn + int \<times> json) list"

definition new_oauth_factory ::
    "feeds \<Rightarrow> string \<Rightarrow> string \<Rightarrow> string list \<Rightarrow> string list \<Rightarrow> issuer_index \<Rightarrow> int \<Rightarrow> exn + oauth_factory" where
  "new_oauth_factory feeds issuer audience algorithms rbac_claims index skew =
     (if \<exists>a \<in> set algorithms. lower a = ''none'' then Inl ValueE
      else if algorithms = [] then Inl ValueE
      else let iss = rstrip_char (CHR ''/'') issuer in
        Inr \<lparr>oa_issuer = iss, oa_audience = audience, oa_algorithms = algorithms,
             oa_rbac_claims = rbac_claims, oa_index = index, oa_skew = skew,
             oa_caches = [(iss, new_jwks_cache iss (feeds iss))],
             oa_valid_issuers = insert iss (set (known_issuers index))\<rparr>)"

definition unverified_header :: "'k jwt_lib \<Rightarrow> string \<Rightarrow> exn + json" where
  "unverified_header lib token =
     (case jl_segment lib (hd (split_on (CHR ''.'') token)) of
        None \<Rightarrow> Inl (AuthE InvalidToken) | Some h \<Rightarrow> Inr h)"

definition unverified_iss :: "'k jwt_lib \<Rightarrow> string \<Rightarrow> exn + string" where
  "unverified_iss lib token =
     (case split_on (CHR ''.'') token of
        _ # payload # _ \<Rightarrow>
          (case jl_segment lib payload of
             Some (JObj claims) \<Rightarrow>
               Inr (case jget claims ''iss'' of JNull \<Rightarrow> [] | v \<Rightarrow> json_str (jl_float lib) v)
           | _ \<Rightarrow> Inl (AuthE InvalidToken))
      | _ \<Rightarrow> Inl (AuthE InvalidToken))"

definition jwks_for :: "feeds \<Rightarrow> string \<Rightarrow> oauth_factory \<Rightarrow> jwks_cache" where
  "jwks_for feeds iss fac =
     (case dget (oa_caches fac) iss of None \<Rightarrow> new_jwks_cache iss (feeds iss) | Some c \<Rightarrow> c)"

definition issuer_trusted :: "oauth_factory \<Rightarrow> json \<Rightarrow> exn + bool" where
  "issuer_trusted fac iss =
     (case iss of
        JStr i \<Rightarrow> Inr (i \<in> oa_valid_issuers fac)
      | JList _ \<Rightarrow> Inl TypeE
      | JObj _ \<Rightarrow> Inl TypeE
      | _ \<Rightarrow> Inr False)"

definition check_times :: "int \<Rightarrow> oauth_factory \<Rightarrow> (string, json) dict \<Rightarrow> exn + unit" where
  "check_times now fac claims =
     (case json_num (jget claims ''exp'') of
        None \<Rightarrow> Inl (AuthE InvalidToken)
      | Some ex \<Rightarrow>
          if ex < of_int (now - oa_skew fac) then Inl (AuthE ExpiredToken)
          else if opt_ok (\<lambda>nbf. nbf \<le> of_int (now + oa_skew fac)) (json_num (jget claims ''nbf''))
          then if opt_ok (\<lambda>iat. iat \<le> of_int (now + oa_skew fac)) (json_num (jget claims ''iat''))
               then Inr () else Inl (AuthE InvalidToken)
          else Inl (AuthE InvalidToken))"

definition validate_claims :: "int \<Rightarrow> oauth_factory \<Rightarrow> (string, json) dict \<Rightarrow> exn + unit" where
  "validate_claims now fac claims =
     bind_res (issuer_trusted fac (jget claims ''iss'')) (\<lambda>trusted.
     if \<not> trusted then Inl (AuthE InvalidToken)
     else case jget claims ''aud'' of
       JStr a \<Rightarrow> if a \<noteq> oa_audience fac then Inl (AuthE InvalidToken) else check_times now fac claims
     | JList as \<Rightarrow> if JStr (oa_audience fac) \<notin> set as then Inl (AuthE InvalidToken)
                   else check_times now fac claims
     | _ \<Rightarrow> Inl (AuthE InvalidToken))"

fun pick_rbac :: "(rat \<Rightarrow> string) \<Rightarrow> (string, json) dict \<Rightarrow> string list \<Rightarrow> string option" where
  "pick_rbac fr claims [] = None"
| "pick_rbac fr claims (key # ks) =
     (case jget claims key of
        JNull \<Rightarrow> pick_rbac fr claims ks
      | JList [] \<Rightarrow> pick_rbac fr claims ks
      | JList (x # xs) \<Rightarrow> Some (json_str fr x)
      | v \<Rightarrow> Some (json_str fr v))"

definition pick_wazuh_user ::
    "(rat \<Rightarrow> string) \<Rightarrow> (string, json) dict \<Rightarrow> tenant_config option \<Rightarrow> string option" where
  "pick_wazuh_user fr claims cfg =
     (case cfg of
        None \<Rightarrow> None
      | Some c \<Rightarrow>
          (case jget claims (wazuh_user_claim c) of
             JNull \<Rightarrow> None
           | JList [] \<Rightarrow> None
           | JList (x # xs) \<Rightarrow> Some (json_str fr x)
           | v \<Rightarrow> (let s = py_strip (json_str fr v) in if s = [] then None else Some s)))"

text \<open>Tenant resolution: the claim wins, after the check against the issuer's own tenant.\<close>

definition resolve_tenant ::
    "(rat \<Rightarrow> string) \<Rightarrow> issuer_index \<Rightarrow> (string, json) dict \<Rightarrow> exn + string \<times> tenant_config option" where
  "resolve_tenant fr index claims =
     (let claim_tenant = jget claims ''tenant_id'';
          iss_cfg = issuer_get index (case dget claims ''iss'' of None \<Rightarrow> [] | Some v \<Rightarrow> json_str fr v)
      in if claim_tenant \<noteq> JNull
         then (case iss_cfg of
                 Some c \<Rightarrow>
                   if claim_tenant \<noteq> JStr (tenant_id c) \<and>
                      get_by_tenant_id index (json_str fr claim_tenant) \<noteq> None
                   then Inl (AuthE InvalidToken)
                   else Inr (json_str fr claim_tenant, iss_cfg)
               | None \<Rightarrow> Inr (json_str fr claim_tenant, iss_cfg))
         else (case iss_cfg of
                 Some c \<Rightarrow> Inr (tenant_id c, iss_cfg)
               | None \<Rightarrow> Inl (AuthE (MissingClaim ''tenant_id''))))"

definition build_session ::
    "(rat \<Rightarrow> string) \<Rightarrow> oauth_factory \<Rightarrow> (string, json) dict \<Rightarrow> exn + session" where
  "build_session fr fac claims =
     (if \<not> truthy (jget claims ''sub'') then Inl (AuthE (MissingClaim ''sub''))
      else bind_res (resolve_tenant fr (oa_index fac) claims) (\<lambda>(tid, iss_cfg).
        (let cfg = (case get_by_tenant_id (oa_index fac) tid of None \<Rightarrow> iss_cfg | Some c \<Rightarrow> Some c)
         in bind_res (case pick_rbac fr claims (oa_rbac_claims fac) of
                        Some r \<Rightarrow> Inr r
                      | None \<Rightarrow> (case cfg of
                                   Some c \<Rightarrow> Inr (default_rbac_role c)
                                 | None \<Rightarrow> Inl (AuthE (MissingClaim ''rbac_role''))))
             (\<lambda>role. Inr \<lparr>user_id = json_str fr (jget claims ''sub''), s_tenant_id = tid,
                rbac_role = role, auth_method = OAuthAuth, wazuh_user = pick_wazuh_user fr claims cfg\<rparr>))))"

definition decode_claims ::
    "'k jwt_lib \<Rightarrow> string \<Rightarrow> 'k \<Rightarrow> string list \<Rightarrow> exn + (string, json) dict" where
  "decode_claims lib token key algs =
     (case jl_decode lib token key algs of
        Inl ExpiredTokenError \<Rightarrow> Inl (AuthE ExpiredToken)
      | Inl _ \<Rightarrow> Inl (AuthE InvalidToken)
      | Inr claims \<Rightarrow> Inr claims)"

text \<open>\<open>build\<close>, up to the routed key cache and from the key on.\<close>

definition oauth_route ::
    "'k jwt_lib \<Rightarrow> oauth_factory \<Rightarrow> headers \<Rightarrow> exn + string \<times> json \<times> string" where
  "oauth_route lib fac hs =
     bind_res (extract_bearer hs) (\<lambda>token.
     bind_res (unverified_header lib token) (\<lambda>header.
     case header of
       JObj h \<Rightarrow>
         if \<not> truthy (jget h ''kid'') then Inl (AuthE InvalidToken)
         else if jget h ''alg'' \<notin> JStr ` set (oa_algorithms fac) then Inl (AuthE InvalidToken)
         else bind_res (unverified_iss lib token) (\<lambda>iss.
           if iss \<notin> oa_valid_issuers fac then Inl (AuthE InvalidToken)
           else Inr (token, jget h ''kid'', iss))
     | _ \<Rightarrow> Inl OtherE))"

definition oauth_finish ::
    "'k jwt_lib \<Rightarrow> int \<Rightarrow> oauth_factory \<Rightarrow> string \<Rightarrow> json option \<Rightarrow> exn + session" where
  "oauth_finish lib now fac token jwk =
     (case jwk of
        None \<Rightarrow> Inl (AuthE InvalidToken)
      | Some k \<Rightarrow>
          bind_res (jl_import lib k) (\<lambda>key.
          bind_res (decode_claims lib token key (oa_algorithms fac)) (\<lambda>claims.
          bind_res (validate_claims now fac claims) (\<lambda>u.
          build_session (jl_float lib) fac claims))))"

definition oauth_build ::
    "'k jwt_lib \<Rightarrow> feeds \<Rightarrow> rat \<Rightarrow> int \<Rightarrow> headers \<Rightarrow> oauth_factory \<Rightarrow> (exn + session) \<times> oauth_factory" where
  "oauth_build lib feeds mono_now now hs fac =
     (case oauth_route lib fac hs of
        Inl e \<Rightarrow> (Inl e, fac)
      | Inr (token, kid, iss) \<Rightarrow>
          (case get_key mono_now kid (jwks_for feeds iss fac) of
             (res, cache) \<Rightarrow>
               (bind_res res (oauth_finish lib now fac token),
                fac\<lparr>oa_caches := dset iss cache (oa_caches fac)\<rparr>)))"

section \<open>What a session proves\<close>

lemma validate_claims_sound:
  assumes "validate_claims now fac claims = Inr u"
  shows "\<exists>i. jget claims ''iss'' = JStr i \<and> i \<in> oa_valid_issuers fac"
    and "jget claims ''aud'' = JStr (oa_audience fac) \<or>
      (\<exists>as. jget claims ''aud'' = JList as \<and> JStr (oa_audience fac) \<in> set as)"
    and "\<exists>ex. json_num (jget claims ''exp'') = Some ex \<and> of_int (now - oa_skew fac) \<le> ex"
    and "json_num (jget claims ''nbf'') = Some t \<Longrightarrow> t \<le> of_int (now + oa_skew fac)"
    and "json_num (jget claims ''iat'') = Some t \<Longrightarrow> t \<le> of_int (now + oa_skew fac)"
  using assms
  by (auto simp: validate_claims_def issuer_trusted_def bind_res_eq_Inr check_times_def not_less opt_ok_def
      split: json.splits if_splits option.splits)

lemma oauth_route_sound:
  assumes "oauth_route lib fac hs = Inr (token, kid, iss)"
  shows "extract_bearer hs = Inr token \<and> unverified_iss lib token = Inr iss \<and>
    iss \<in> oa_valid_issuers fac"
proof -
  obtain t header where "extract_bearer hs = Inr t" "unverified_header lib t = Inr header"
    and rest: "(case header of
       JObj h \<Rightarrow>
         if \<not> truthy (jget h ''kid'') then Inl (AuthE InvalidToken)
         else if jget h ''alg'' \<notin> JStr ` set (oa_algorithms fac) then Inl (AuthE InvalidToken)
         else bind_res (unverified_iss lib t) (\<lambda>iss.
           if iss \<notin> oa_valid_issuers fac then Inl (AuthE InvalidToken)
           else Inr (t, jget h ''kid'', iss))
     | _ \<Rightarrow> Inl OtherE) = Inr (token, kid, iss)"
    using assms unfolding oauth_route_def bind_res_eq_Inr by blast
  then show ?thesis by (cases header) (auto simp: bind_res_eq_Inr split: if_splits)
qed

lemma oauth_build_cases:
  assumes "oauth_build lib feeds mono_now now hs fac = (Inr s, fac')"
  obtains token kid iss k key claims where "extract_bearer hs = Inr token"
    "iss \<in> oa_valid_issuers fac" "fst (get_key mono_now kid (jwks_for feeds iss fac)) = Inr (Some k)"
    "jl_import lib k = Inr key" "jl_decode lib token key (oa_algorithms fac) = Inr claims"
    "validate_claims now fac claims = Inr ()" "build_session (jl_float lib) fac claims = Inr s"
proof -
  obtain token kid iss where route: "oauth_route lib fac hs = Inr (token, kid, iss)"
    using assms by (auto simp: oauth_build_def split: sum.splits)
  obtain res c where gk: "get_key mono_now kid (jwks_for feeds iss fac) = (res, c)" by fastforce
  have "bind_res res (oauth_finish lib now fac token) = Inr s"
    using assms route gk by (simp add: oauth_build_def)
  then obtain k key claims where "res = Inr (Some k)" "jl_import lib k = Inr key"
    "decode_claims lib token key (oa_algorithms fac) = Inr claims"
    "validate_claims now fac claims = Inr ()" "build_session (jl_float lib) fac claims = Inr s"
    by (auto simp: oauth_finish_def bind_res_eq_Inr split: option.splits)
  moreover from this(3) have "jl_decode lib token key (oa_algorithms fac) = Inr claims"
    by (auto simp: decode_claims_def split: sum.splits jwt_error.splits)
  moreover have "extract_bearer hs = Inr token" "iss \<in> oa_valid_issuers fac"
    using oauth_route_sound [OF route] by simp_all
  ultimately show thesis using that [of token iss kid k key claims] gk by simp
qed

text \<open>A request touches at most the key cache of one trusted issuer, and that only by asking it for the
  key of a bearer token.\<close>

lemma oauth_build_frame:
  assumes "oauth_build lib feeds mono_now now hs fac = (r, fac')"
  shows "fac' = fac \<or> (\<exists>token kid iss. extract_bearer hs = Inr token \<and> iss \<in> oa_valid_issuers fac \<and>
    fac' = fac\<lparr>oa_caches := dset iss (snd (get_key mono_now kid (jwks_for feeds iss fac))) (oa_caches fac)\<rparr>)"
proof (cases "oauth_route lib fac hs")
  case (Inl e)
  then show ?thesis using assms by (simp add: oauth_build_def)
next
  case (Inr p)
  obtain token kid iss where p: "p = (token, kid, iss)" by (cases p)
  from oauth_route_sound [OF Inr [unfolded p]] show ?thesis
    using assms Inr p by (auto simp: oauth_build_def split: prod.splits intro!: exI [of _ kid])
qed

text \<open>What a claim says: nothing when it is absent or an empty list, the first entry of a list, else its
  text; for the Wazuh user a text is stripped and an empty one says nothing.\<close>

definition claim_text :: "(rat \<Rightarrow> string) \<Rightarrow> json \<Rightarrow> string option" where
  "claim_text fr v =
     (case v of
        JNull \<Rightarrow> None
      | JList xs \<Rightarrow> if xs = [] then None else Some (json_str fr (hd xs))
      | _ \<Rightarrow> Some (json_str fr v))"

definition user_text :: "(rat \<Rightarrow> string) \<Rightarrow> json \<Rightarrow> string option" where
  "user_text fr v =
     (if \<exists>xs. v = JList xs then claim_text fr v
      else case claim_text fr v of None \<Rightarrow> None | Some t \<Rightarrow> if py_strip t = [] then None else Some (py_strip t))"

text \<open>The first of the role claims that says anything.\<close>

lemma pick_rbac_first:
  "pick_rbac fr claims ks =
     (case List.map_filter (\<lambda>k. claim_text fr (jget claims k)) ks of [] \<Rightarrow> None | r # rs \<Rightarrow> Some r)"
proof (induction ks)
  case (Cons k ks)
  show ?case
  proof (cases "jget claims k")
    case (JList xs)
    then show ?thesis using Cons.IH by (cases xs) (simp_all add: claim_text_def map_filter_simps)
  qed (use Cons.IH in \<open>simp_all add: claim_text_def map_filter_simps\<close>)
qed (simp add: map_filter_simps)

lemma pick_wazuh_user_text:
  "pick_wazuh_user fr claims cfg =
     (case cfg of None \<Rightarrow> None | Some c \<Rightarrow> user_text fr (jget claims (wazuh_user_claim c)))"
proof (cases cfg)
  case (Some c)
  show ?thesis
  proof (cases "jget claims (wazuh_user_claim c)")
    case (JList xs)
    then show ?thesis using Some by (cases xs) (simp_all add: pick_wazuh_user_def user_text_def claim_text_def)
  qed (simp_all add: Some pick_wazuh_user_def user_text_def claim_text_def Let_def)
qed (simp add: pick_wazuh_user_def)

lemma resolve_tenant_cases:
  assumes "resolve_tenant fr index claims = Inr (tid, iss_cfg)" "jget claims ''iss'' = JStr i"
  shows "iss_cfg = issuer_get index i"
    and "jget claims ''tenant_id'' = JNull \<Longrightarrow> \<exists>c. issuer_get index i = Some c \<and> tid = tenant_id c"
    and "jget claims ''tenant_id'' \<noteq> JNull \<Longrightarrow> tid = json_str fr (jget claims ''tenant_id'') \<and>
      (\<forall>c. issuer_get index i = Some c \<longrightarrow> jget claims ''tenant_id'' = JStr (tenant_id c) \<or> get_by_tenant_id index tid = None)"
proof -
  have iss: "(case dget claims ''iss'' of None \<Rightarrow> [] | Some v \<Rightarrow> json_str fr v) = i"
    using assms(2) by (auto simp: jget_def json_str_def split: option.splits)
  show "iss_cfg = issuer_get index i"
    and "jget claims ''tenant_id'' = JNull \<Longrightarrow> \<exists>c. issuer_get index i = Some c \<and> tid = tenant_id c"
    and "jget claims ''tenant_id'' \<noteq> JNull \<Longrightarrow> tid = json_str fr (jget claims ''tenant_id'') \<and>
      (\<forall>c. issuer_get index i = Some c \<longrightarrow> jget claims ''tenant_id'' = JStr (tenant_id c) \<or> get_by_tenant_id index tid = None)"
    using assms(1) unfolding resolve_tenant_def iss Let_def by (auto split: option.splits if_splits) metis+
qed

text \<open>
  C13: an OAuth session is what a verified token says.  The token's claims passed the signature check
  under a key that the trusted issuer's own key set served and under a configured algorithm, never
  \<open>none\<close>; issuer, audience, expiry, not-before and issue time hold of these claims.  The session is the
  claims': its user is the subject; its tenant is the one claimed, which must be the issuer's own or
  unregistered where the issuer belongs to one tenant, and the issuer's tenant where none is claimed; its
  role is what the first telling role claim says, else the tenant's default; and its Wazuh user is
  what the tenant's user claim says, none without a tenant.
\<close>

theorem oauth_session_sound:
  assumes "new_oauth_factory feeds issuer audience algorithms rbac_claims index skew = Inr fac"
    "oauth_build lib feeds mono_now now hs fac = (Inr s, fac')"
  shows "\<exists>token iss kid k key claims ex i cfg.
    extract_bearer hs = Inr token \<and>
    iss \<in> insert (canonicalise issuer) (set (known_issuers index)) \<and>
    fst (get_key mono_now kid (jwks_for feeds iss fac)) = Inr (Some k) \<and> jl_import lib k = Inr key \<and>
    jl_decode lib token key algorithms = Inr claims \<and> ''none'' \<notin> lower ` set algorithms \<and>
    json_num (jget claims ''exp'') = Some ex \<and> of_int (now - skew) \<le> ex \<and>
    (\<forall>t. json_num (jget claims ''nbf'') = Some t \<or> json_num (jget claims ''iat'') = Some t \<longrightarrow> t \<le> of_int (now + skew)) \<and>
    jget claims ''iss'' = JStr i \<and> i \<in> insert (canonicalise issuer) (set (known_issuers index)) \<and>
    (jget claims ''aud'' = JStr audience \<or> (\<exists>as. jget claims ''aud'' = JList as \<and> JStr audience \<in> set as)) \<and>
    truthy (jget claims ''sub'') \<and> user_id s = json_str (jl_float lib) (jget claims ''sub'') \<and>
    (if jget claims ''tenant_id'' = JNull then \<exists>c. issuer_get index i = Some c \<and> s_tenant_id s = tenant_id c
     else s_tenant_id s = json_str (jl_float lib) (jget claims ''tenant_id'') \<and>
       (\<forall>c. issuer_get index i = Some c \<longrightarrow>
          jget claims ''tenant_id'' = JStr (tenant_id c) \<or> get_by_tenant_id index (s_tenant_id s) = None)) \<and>
    cfg = (case get_by_tenant_id index (s_tenant_id s) of None \<Rightarrow> issuer_get index i | Some c \<Rightarrow> Some c) \<and>
    (case List.map_filter (\<lambda>c. claim_text (jl_float lib) (jget claims c)) rbac_claims of
       r # rs \<Rightarrow> rbac_role s = r
     | [] \<Rightarrow> \<exists>c. cfg = Some c \<and> rbac_role s = default_rbac_role c) \<and>
    wazuh_user s = (case cfg of None \<Rightarrow> None | Some c \<Rightarrow> user_text (jl_float lib) (jget claims (wazuh_user_claim c))) \<and>
    auth_method s = OAuthAuth"
proof -
  have fac: "oa_algorithms fac = algorithms" "oa_audience fac = audience" "oa_skew fac = skew"
    "oa_index fac = index" "oa_rbac_claims fac = rbac_claims"
    "oa_valid_issuers fac = insert (canonicalise issuer) (set (known_issuers index))"
    and none: "''none'' \<notin> lower ` set algorithms"
    using assms(1)
    by (auto simp: new_oauth_factory_def Let_def canonicalise_def split: if_splits)
  obtain token kid iss k key claims where b: "extract_bearer hs = Inr token"
    "iss \<in> oa_valid_issuers fac" "fst (get_key mono_now kid (jwks_for feeds iss fac)) = Inr (Some k)"
    "jl_import lib k = Inr key" "jl_decode lib token key (oa_algorithms fac) = Inr claims"
    "validate_claims now fac claims = Inr ()" "build_session (jl_float lib) fac claims = Inr s"
    using oauth_build_cases [OF assms(2)] by metis
  note valid = validate_claims_sound [OF b(6), unfolded fac]
  obtain i ex where i: "jget claims ''iss'' = JStr i" "i \<in> insert (canonicalise issuer) (set (known_issuers index))"
    and ex: "json_num (jget claims ''exp'') = Some ex" "of_int (now - skew) \<le> ex"
    using valid(1,3) by blast
  obtain tid iss_cfg role where sub: "truthy (jget claims ''sub'')"
    and t: "resolve_tenant (jl_float lib) index claims = Inr (tid, iss_cfg)"
    and role: "(case pick_rbac (jl_float lib) claims rbac_claims of Some r \<Rightarrow> Inr r
      | None \<Rightarrow> (case (case get_by_tenant_id index tid of None \<Rightarrow> iss_cfg | Some c \<Rightarrow> Some c) of
                   Some c \<Rightarrow> Inr (default_rbac_role c) | None \<Rightarrow> Inl (AuthE (MissingClaim ''rbac_role'')))) = Inr role"
    and s: "s = \<lparr>user_id = json_str (jl_float lib) (jget claims ''sub''), s_tenant_id = tid, rbac_role = role,
      auth_method = OAuthAuth, wazuh_user = pick_wazuh_user (jl_float lib) claims
        (case get_by_tenant_id index tid of None \<Rightarrow> iss_cfg | Some c \<Rightarrow> Some c)\<rparr>"
    using b(7) fac(4,5) by (auto simp: build_session_def bind_res_eq_Inr Let_def split: if_splits)
  have tid: "s_tenant_id s = tid" using s by simp
  note tenant = resolve_tenant_cases [OF t i(1)]
  let ?cfg = "case get_by_tenant_id index (s_tenant_id s) of None \<Rightarrow> issuer_get index i | Some c \<Rightarrow> Some c"
  have fields: "user_id s = json_str (jl_float lib) (jget claims ''sub'')" "rbac_role s = role" "auth_method s = OAuthAuth"
    "wazuh_user s = pick_wazuh_user (jl_float lib) claims ?cfg"
    unfolding s tenant(1) [symmetric] by simp_all
  have "(case List.map_filter (\<lambda>c. claim_text (jl_float lib) (jget claims c)) rbac_claims of
       r # rs \<Rightarrow> rbac_role s = r | [] \<Rightarrow> \<exists>c. ?cfg = Some c \<and> rbac_role s = default_rbac_role c)"
    using role tenant(1) fields(2) unfolding pick_rbac_first tid tenant(1)
    by (auto split: list.splits option.splits)
  moreover have "\<forall>t. json_num (jget claims ''nbf'') = Some t \<or> json_num (jget claims ''iat'') = Some t \<longrightarrow> t \<le> of_int (now + skew)"
    using valid(4,5) by blast
  moreover have "if jget claims ''tenant_id'' = JNull then \<exists>c. issuer_get index i = Some c \<and> s_tenant_id s = tenant_id c
     else s_tenant_id s = json_str (jl_float lib) (jget claims ''tenant_id'') \<and>
       (\<forall>c. issuer_get index i = Some c \<longrightarrow>
          jget claims ''tenant_id'' = JStr (tenant_id c) \<or> get_by_tenant_id index (s_tenant_id s) = None)"
  proof (cases "jget claims ''tenant_id'' = JNull")
    case True
    show ?thesis unfolding if_P [OF True] tid by (rule tenant(2) [OF True])
  next
    case False
    show ?thesis unfolding if_not_P [OF False] tid by (rule tenant(3) [OF False])
  qed
  ultimately show ?thesis
    using b(1,3,4) b(2,5) [unfolded fac] valid(2) i ex none sub fields(1,3) fields(4) [unfolded pick_wazuh_user_text] refl [of ?cfg]
    by (intro exI conjI)
qed

text \<open>A provider, a token with three segments, and the factory that trusts the provider.\<close>

definition demo_claims :: "(string, json) dict" where
  "demo_claims = [(''iss'', JStr ''https://idp''), (''sub'', JStr ''alice''), (''aud'', JStr ''mcp''),
     (''exp'', JInt 1000), (''tenant_id'', JStr ''b''), (''role'', JStr ''analyst'')]"

definition demo_lib :: "unit jwt_lib" where
  "demo_lib = \<lparr>jl_segment = (\<lambda>seg. if seg = ''h'' then Some (JObj [(''kid'', JStr ''k''), (''alg'', JStr ''RS256'')])
                              else if seg = ''p'' then Some (JObj demo_claims) else None),
     jl_import = (\<lambda>k. Inr ()), jl_decode = (\<lambda>t k algs. Inr demo_claims), jl_float = (\<lambda>r. [])\<rparr>"

definition demo_feeds :: feeds where
  "demo_feeds iss = [Inr (200, JObj [(''jwks_uri'', JStr ''u'')]),
     Inr (200, JObj [(''keys'', JList [JObj [(''kid'', JStr ''k'')]])])]"

definition demo_factory :: "tenant_config list \<Rightarrow> oauth_factory" where
  "demo_factory ts = \<lparr>oa_issuer = ''https://idp'', oa_audience = ''mcp'', oa_algorithms = [''RS256''],
     oa_rbac_claims = [''role''], oa_index = new_issuer_index ts, oa_skew = 30,
     oa_caches = [(''https://idp'', new_jwks_cache ''https://idp'' (demo_feeds ''https://idp''))],
     oa_valid_issuers = insert ''https://idp'' (set (known_issuers (new_issuer_index ts)))\<rparr>"

lemma demo_factory_new:
  "new_oauth_factory demo_feeds ''https://idp/'' ''mcp'' [''RS256''] [''role''] (new_issuer_index ts) 30 =
    Inr (demo_factory ts)"
  by (simp add: new_oauth_factory_def demo_factory_def rstrip_char_def lower_def lower_char_def
      is_upper_def Let_def)

lemma demo_key:
  "fst (get_key 0 (JStr ''k'') (new_jwks_cache ''https://idp'' (demo_feeds ''https://idp''))) =
    Inr (Some (JObj [(''kid'', JStr ''k'')]))"
  by (simp add: new_jwks_cache_def demo_feeds_def get_key_def ensure_discovered_def http_get_def
      refresh_keys_def parse_jwks_def py_access jwk_entry_def dict_key_def dupdate_def jget_def lookup_kid_def
      List.map_filter_def)

lemma demo_route:
  "oauth_route demo_lib (demo_factory ts) [(''Authorization'', ''Bearer h.p.s'')] =
    Inr (''h.p.s'', JStr ''k'', ''https://idp'')"
  by (simp add: oauth_route_def extract_bearer_def header_or_def startswith_def py_strip_def py_space_def
      unverified_header_def unverified_iss_def demo_lib_def demo_claims_def jget_def json_str_def
      demo_factory_def Let_def)

lemma demo_finish:
  "oauth_finish demo_lib 900 (demo_factory []) ''h.p.s'' (Some (JObj [(''kid'', JStr ''k'')])) =
    Inr \<lparr>user_id = ''alice'', s_tenant_id = ''b'', rbac_role = ''analyst'', auth_method = OAuthAuth,
      wazuh_user = None\<rparr>"
  by (simp add: oauth_finish_def demo_lib_def decode_claims_def validate_claims_def issuer_trusted_def
      demo_claims_def jget_def check_times_def opt_ok_def demo_factory_def build_session_def
      resolve_tenant_def issuer_get_def new_issuer_index_def get_by_tenant_id_def json_str_def
      pick_wazuh_user_def Let_def)

lemma demo_build:
  "fst (oauth_build demo_lib demo_feeds 0 900 [(''Authorization'', ''Bearer h.p.s'')] (demo_factory [])) =
    Inr \<lparr>user_id = ''alice'', s_tenant_id = ''b'', rbac_role = ''analyst'', auth_method = OAuthAuth,
      wazuh_user = None\<rparr>"
proof -
  have "jwks_for demo_feeds ''https://idp'' (demo_factory []) =
      new_jwks_cache ''https://idp'' (demo_feeds ''https://idp'')"
    by (simp add: jwks_for_def demo_factory_def)
  then show ?thesis
    using demo_key demo_finish
    by (simp add: oauth_build_def demo_route split: prod.splits) (auto split: prod.splits)
qed

theorem oauth_session_sound_witness:
  "\<exists>s fac'. oauth_build demo_lib demo_feeds 0 900 [(''Authorization'', ''Bearer h.p.s'')] (demo_factory []) =
      (Inr s, fac') \<and> auth_method s = OAuthAuth"
proof -
  obtain s fac' where b: "oauth_build demo_lib demo_feeds 0 900
      [(''Authorization'', ''Bearer h.p.s'')] (demo_factory []) = (Inr s, fac')"
    using demo_build by (metis prod.collapse)
  show ?thesis using oauth_session_sound [OF demo_factory_new b] b by blast
qed

section \<open>Which tenant a token reaches\<close>

text \<open>
  C38: a token of a tenant's own issuer cannot enter another tenant.  When exactly one tenant
  carries the token's issuer, the session is that tenant's, or names a tenant that is not
  registered at all and is refused later.
\<close>

theorem dedicated_issuer_binds_tenant:
  assumes "oa_index fac = new_issuer_index ts" "jget claims ''iss'' = JStr i"
    "issuer_get (new_issuer_index ts) i = Some t" "build_session fr fac claims = Inr s"
  shows "s_tenant_id s = tenant_id t \<or> s_tenant_id s \<notin> tenant_id ` set ts"
proof -
  have iss: "(case dget claims ''iss'' of None \<Rightarrow> [] | Some v \<Rightarrow> json_str fr v) = i"
    using assms(2) by (auto simp: jget_def json_str_def split: option.splits)
  obtain cfg where r: "resolve_tenant fr (new_issuer_index ts) claims = Inr (s_tenant_id s, cfg)"
    using assms(1,4) by (auto simp: build_session_def bind_res_eq_Inr Let_def split: if_splits)
  have reg: "get_by_tenant_id (new_issuer_index ts) x = None \<longleftrightarrow> x \<notin> tenant_id ` set ts" for x
    by (auto simp: get_by_tenant_last find_None_iff)
  show ?thesis
    using r assms(3) reg
    by (auto simp: resolve_tenant_def iss Let_def json_str_def split: if_splits)
qed

definition issued :: "string \<Rightarrow> string option \<Rightarrow> tenant_config" where
  "issued tid iss = (sample_tenant tid)\<lparr>oauth_issuer := iss\<rparr>"

theorem dedicated_issuer_binds_tenant_witness:
  "\<exists>s. build_session (\<lambda>r. []) (demo_factory [issued ''b'' (Some ''https://idp/''), issued ''a'' None]) demo_claims =
      Inr s \<and> s_tenant_id s = ''b''"
proof -
  let ?fac = "demo_factory [issued ''b'' (Some ''https://idp/''), issued ''a'' None]"
  have ix: "issuer_get (new_issuer_index [issued ''b'' (Some ''https://idp/''), issued ''a'' None]) ''https://idp'' =
      Some (issued ''b'' (Some ''https://idp/''))"
    by (simp add: issuer_get_unique has_issuer_def issued_def sample_tenant_def canonicalise_def rstrip_char_def)
  have "\<exists>s. build_session (\<lambda>r. []) ?fac demo_claims = Inr s \<and> s_tenant_id s \<in> {''a'', ''b''}"
    using ix
    by (simp add: build_session_def demo_claims_def demo_factory_def jget_def resolve_tenant_def
        json_str_def Let_def issued_def sample_tenant_def)
  then obtain s where s: "build_session (\<lambda>r. []) ?fac demo_claims = Inr s" "s_tenant_id s \<in> {''a'', ''b''}"
    by blast
  have "s_tenant_id s = ''b'' \<or> s_tenant_id s \<notin> {''b'', ''a''}"
    using dedicated_issuer_binds_tenant [OF _ _ ix s(1)]
    by (simp add: demo_factory_def demo_claims_def jget_def issued_def sample_tenant_def)
  then show ?thesis using s by auto
qed

text \<open>
  A shared or global issuer is trusted for every tenant.  When no single tenant carries the
  token's issuer, the claim alone decides: a token of that issuer that names any registered tenant,
  even one whose own dedicated issuer is another, opens a session of that tenant.
\<close>

theorem shared_issuer_enters_any_tenant:
  assumes "oa_index fac = new_issuer_index ts" "jget claims ''iss'' = JStr i"
    "issuer_get (new_issuer_index ts) i = None" "truthy (jget claims ''sub'')"
    "jget claims ''tenant_id'' = JStr v" "v \<in> tenant_id ` set ts"
  shows "\<exists>s. build_session fr fac claims = Inr s \<and> s_tenant_id s = v"
proof -
  have iss: "(case dget claims ''iss'' of None \<Rightarrow> [] | Some x \<Rightarrow> json_str fr x) = i"
    using assms(2) by (auto simp: jget_def json_str_def split: option.splits)
  have "get_by_tenant_id (new_issuer_index ts) v \<noteq> None"
    using assms(6) by (auto simp: get_by_tenant_last find_None_iff)
  then obtain c where c: "get_by_tenant_id (new_issuer_index ts) v = Some c" by blast
  have "resolve_tenant fr (new_issuer_index ts) claims = Inr (v, None)"
    using assms(3,5) by (simp add: resolve_tenant_def iss Let_def json_str_def)
  then show ?thesis
    using assms(1,4) c by (simp add: build_session_def Let_def split: option.splits)
qed

text \<open>Tenant \<open>b\<close> has an issuer of its own, yet a token of the global issuer enters it.\<close>

theorem shared_issuer_enters_any_tenant_witness:
  "\<exists>s. build_session (\<lambda>r. []) (demo_factory [issued ''b'' (Some ''https://own'')]) demo_claims = Inr s \<and>
    s_tenant_id s = ''b''"
proof -
  have ix: "issuer_get (new_issuer_index [issued ''b'' (Some ''https://own'')]) ''https://idp'' = None"
    by (simp add: issuer_get_def issuer_index_lookup has_issuer_def issued_def sample_tenant_def
        canonicalise_def rstrip_char_def)
  show ?thesis
    by (rule shared_issuer_enters_any_tenant [OF _ _ ix])
      (simp_all add: demo_factory_def demo_claims_def jget_def issued_def sample_tenant_def)
qed

lemma dropWhile_hd: "dropWhile P xs = y # ys \<Longrightarrow> \<not> P y"
  by (induction xs) (auto split: if_splits)

lemma rstrip_last:
  assumes "s \<noteq> []" "last s = c"
  shows "rstrip_char c t \<noteq> s"
proof
  assume "rstrip_char c t = s"
  then have "dropWhile (\<lambda>x. x = c) (rev t) = rev s" by (auto simp: rstrip_char_def)
  moreover obtain ys where "rev s = c # ys"
    using assms by (cases s rule: rev_cases) auto
  ultimately show False using dropWhile_hd by fastforce
qed

text \<open>
  An issuer that ends in a slash is never accepted.  The factory keeps only issuers stripped
  of trailing slashes but compares the token's \<open>iss\<close> as it stands, so every token of a provider
  whose issuer identifier ends in a slash is refused, even when the operator configured exactly
  that identifier.
\<close>

theorem slash_issuer_never_accepted:
  assumes "new_oauth_factory feeds issuer audience algorithms rbac_claims (new_issuer_index ts) skew = Inr fac"
    "extract_bearer hs = Inr token" "unverified_iss lib token = Inr iss" "iss \<noteq> []" "last iss = CHR ''/''"
  shows "\<exists>e. fst (oauth_build lib feeds mono_now now hs fac) = Inl e"
proof -
  have "oa_valid_issuers fac = insert (rstrip_char (CHR ''/'') issuer) (set (known_issuers (new_issuer_index ts)))"
    using assms(1) by (auto simp: new_oauth_factory_def Let_def split: if_splits)
  moreover have "\<exists>u. x = rstrip_char (CHR ''/'') u" if "x \<in> set (known_issuers (new_issuer_index ts))" for x
  proof -
    have "\<exists>t \<in> set ts. has_issuer x t" using that issuer_get_unique by blast
    then show ?thesis by (auto simp: has_issuer_def canonicalise_def split: option.splits)
  qed
  ultimately have out: "iss \<notin> oa_valid_issuers fac"
    using rstrip_last [OF assms(4,5)] by force
  show ?thesis
  proof (cases "oauth_route lib fac hs")
    case (Inl e)
    then show ?thesis by (simp add: oauth_build_def)
  next
    case (Inr p)
    obtain tk kid i where p: "p = (tk, kid, i)" by (cases p)
    then show ?thesis
      using oauth_route_sound [of lib fac hs tk kid i] Inr assms(2,3) out by auto
  qed
qed

theorem slash_issuer_never_accepted_witness:
  "\<exists>fac e. new_oauth_factory demo_feeds ''https://idp/'' ''mcp'' [''RS256''] [''role''] (new_issuer_index []) 30 = Inr fac \<and>
    fst (oauth_build (demo_lib\<lparr>jl_segment := (\<lambda>seg. Some (JObj [(''iss'', JStr ''https://idp/'')]))\<rparr>)
      demo_feeds 0 900 [(''Authorization'', ''Bearer h.p.s'')] fac) = Inl e"
proof -
  let ?lib = "demo_lib\<lparr>jl_segment := (\<lambda>seg. Some (JObj [(''iss'', JStr ''https://idp/'')]))\<rparr>"
  have tok: "extract_bearer [(''Authorization'', ''Bearer h.p.s'')] = Inr ''h.p.s''"
    by (simp add: extract_bearer_def header_or_def startswith_def py_strip_def py_space_def Let_def)
  have iss: "unverified_iss ?lib ''h.p.s'' = Inr ''https://idp/''"
    by (simp add: unverified_iss_def jget_def json_str_def)
  show ?thesis
    using slash_issuer_never_accepted [OF demo_factory_new [of "[]"] tok iss] demo_factory_new [of "[]"]
    by auto
qed

end
