(* ===== verification/Access.thy ===== *)
theory Access imports Auth Instrument begin

text \<open>
  API keys (\<open>auth/api_key.py\<close>, \<open>auth/api_key_store.py\<close>), the chain of factories
  (\<open>auth/chain_factory.py\<close>), the stdio session (\<open>auth/config_factory.py\<close>), and the HTTP middleware
  that puts a session around each protected request (\<open>transport/http.py\<close>, \<open>session_ctx.py\<close>).
\<close>

section \<open>The key store\<close>

text \<open>Reading a date gives an instant with or without a zone; the hasher accepts, refuses, or finds
  the stored hash unusable.\<close>

datatype timestamp = Aware rat | Naive rat
datatype argon_result = ArgonMatch | ArgonVerificationError | ArgonInvalidHash | ArgonOther exn

record key_lib =
  kl_fromiso :: "string \<Rightarrow> timestamp option"
  kl_verify :: "string \<Rightarrow> string \<Rightarrow> argon_result"
  kl_float :: "rat \<Rightarrow> string"

record api_key_record =
  ak_key_id :: string
  ak_tenant :: string
  ak_user :: string
  ak_role :: string

type_synonym key_store = "(string, (string, json) dict) dict"

fun load_keys :: "json list \<Rightarrow> key_store \<Rightarrow> exn + key_store" where
  "load_keys [] seen = Inr seen"
| "load_keys (entry # es) seen =
     (case entry of
        JObj e \<Rightarrow>
          (case jget e ''key_id'' of
             JStr kid \<Rightarrow>
               if dget seen kid \<noteq> None then Inl ValueE
               else (case jget e ''hash'' of
                       JStr h \<Rightarrow> if \<not> startswith h ''$argon2id$'' then Inl ValueE
                                 else load_keys es (dset kid e seen)
                     | _ \<Rightarrow> Inl ValueE)
           | _ \<Rightarrow> Inl ValueE)
      | _ \<Rightarrow> Inl ValueE)"

definition replace_z :: "string \<Rightarrow> string" where
  "replace_z s = concat (map (\<lambda>c. if c = CHR ''Z'' then ''+00:00'' else [c]) s)"

text \<open>\<open>entry[k]\<close> of a missing key raises.\<close>

definition item_str :: "key_lib \<Rightarrow> (string, json) dict \<Rightarrow> string \<Rightarrow> exn + string" where
  "item_str lib e k = (case dget e k of None \<Rightarrow> Inl KeyE | Some v \<Rightarrow> Inr (json_str (kl_float lib) v))"

text \<open>The expiry check: expired or unreadable is a refusal, and comparing a date without a zone
  raises.\<close>

definition expiry_check :: "key_lib \<Rightarrow> rat \<Rightarrow> json \<Rightarrow> exn + bool" where
  "expiry_check lib now v =
     (if v = JNull then Inr True
      else case kl_fromiso lib (replace_z (json_str (kl_float lib) v)) of
             None \<Rightarrow> Inr False
           | Some (Aware t) \<Rightarrow> Inr (now < t)
           | Some (Naive t) \<Rightarrow> Inl TypeE)"

definition verify_key :: "key_lib \<Rightarrow> rat \<Rightarrow> key_store \<Rightarrow> string \<Rightarrow> string \<Rightarrow> exn + api_key_record option" where
  "verify_key lib now store key_id plaintext =
     (case dget store key_id of
        None \<Rightarrow> Inr None
      | Some e \<Rightarrow>
          if truthy (jget e ''revoked'') then Inr None
          else bind_res (expiry_check lib now (jget e ''expires_at'')) (\<lambda>fresh.
            if \<not> fresh then Inr None
            else bind_res (item_str lib e ''hash'') (\<lambda>h.
              case kl_verify lib h plaintext of
                ArgonVerificationError \<Rightarrow> Inr None
              | ArgonInvalidHash \<Rightarrow> Inr None
              | ArgonOther x \<Rightarrow> Inl x
              | ArgonMatch \<Rightarrow>
                  bind_res (item_str lib e ''tenant_id'') (\<lambda>t.
                  bind_res (item_str lib e ''user_id'') (\<lambda>u.
                  bind_res (item_str lib e ''rbac_role'') (\<lambda>r.
                    Inr (Some \<lparr>ak_key_id = key_id, ak_tenant = t, ak_user = u, ak_role = r\<rparr>)))))))"

text \<open>\<open>token.rpartition(".")\<close>: around the last dot.\<close>

definition rpartition_dot :: "string \<Rightarrow> string \<times> string" where
  "rpartition_dot s =
     (let parts = split_on (CHR ''.'') s
      in (join_with ''.'' (butlast parts), last parts))"

definition api_key_build :: "key_lib \<Rightarrow> rat \<Rightarrow> key_store \<Rightarrow> headers \<Rightarrow> exn + session" where
  "api_key_build lib now store hs =
     bind_res (extract_bearer hs) (\<lambda>token.
       if \<not> startswith token ''wzk_'' \<or> CHR ''.'' \<notin> set token then Inl (AuthE InvalidToken)
       else case rpartition_dot token of (key_id, plaintext) \<Rightarrow>
         bind_res (verify_key lib now store key_id plaintext) (\<lambda>record.
           case record of
             None \<Rightarrow> Inl (AuthE InvalidToken)
           | Some r \<Rightarrow> Inr \<lparr>user_id = ak_user r, s_tenant_id = ak_tenant r, rbac_role = ak_role r,
                            auth_method = ApiKeyAuth, wazuh_user = None\<rparr>))"

section \<open>The chain and the stdio session\<close>

definition chain_build ::
    "(headers \<Rightarrow> 's \<Rightarrow> (exn + session) \<times> 's) \<Rightarrow> (headers \<Rightarrow> exn + session) \<Rightarrow> headers \<Rightarrow> 's \<Rightarrow>
     (exn + session) \<times> 's" where
  "chain_build oauth api_key hs st =
     (case extract_bearer hs of
        Inl e \<Rightarrow> (Inl e, st)
      | Inr token \<Rightarrow>
          if startswith token ''wzk_'' \<and> CHR ''.'' \<in> set token then (api_key hs, st)
          else if length (filter (\<lambda>c. c = CHR ''.'') token) = 2 then oauth hs st
          else (Inl (AuthE InvalidToken), st))"

definition config_session :: "string \<Rightarrow> tenant_config \<Rightarrow> session" where
  "config_session uid t =
     \<lparr>user_id = uid, s_tenant_id = tenant_id t, rbac_role = default_rbac_role t,
      auth_method = ConfigAuth, wazuh_user = None\<rparr>"

definition config_build :: "string \<Rightarrow> tenant_config \<Rightarrow> headers \<Rightarrow> exn + session" where
  "config_build uid t hs = Inr (config_session uid t)"

section \<open>What an API key proves\<close>

lemma rpartition_key:
  assumes "CHR ''.'' \<notin> set plaintext"
  shows "rpartition_dot (key_id @ ''.'' @ plaintext) = (key_id, plaintext)"
proof -
  have "split_on (CHR ''.'') (key_id @ ''.'' @ plaintext) = split_on (CHR ''.'') key_id @ [plaintext]"
  proof (induction key_id)
    case Nil
    then show ?case using assms by (simp add: split_on_no_sep)
  next
    case (Cons c k)
    then show ?case using split_on_nonempty [of "CHR ''.''" k]
      by (cases "split_on (CHR ''.'') k") auto
  qed
  moreover have "join_with ''.'' (split_on (CHR ''.'') key_id) = key_id"
  proof (induction key_id)
    case (Cons c k)
    then show ?case using split_on_nonempty [of "CHR ''.''" k]
      by (cases "split_on (CHR ''.'') k"; cases "tl (split_on (CHR ''.'') k)") auto
  qed simp
  ultimately show ?thesis by (simp add: rpartition_dot_def Let_def)
qed

lemma load_keys_hashes:
  assumes "load_keys es seen = Inr store"
    "\<And>k e. dget seen k = Some e \<Longrightarrow> \<exists>h. jget e ''hash'' = JStr h \<and> startswith h ''$argon2id$''"
    "dget store k = Some e"
  shows "\<exists>h. jget e ''hash'' = JStr h \<and> startswith h ''$argon2id$''"
  using assms
proof (induction es seen rule: load_keys.induct)
  case (1 seen)
  then show ?case by simp
next
  case (2 entry es seen)
  obtain x kid h where x: "entry = JObj x" "jget x ''key_id'' = JStr kid" "dget seen kid = None"
    "jget x ''hash'' = JStr h" "startswith h ''$argon2id$''"
    "load_keys es (dset kid x seen) = Inr store"
    using 2(2) by (auto split: json.splits if_splits)
  show ?case
    by (rule 2(1) [OF x(1,2) _ x(4)]) (use x 2(3,4) in \<open>auto simp: dget_dset split: if_splits\<close>)
qed

text \<open>
  C32: an API key session is the record of a live key.  A session comes only from a bearer token
  \<open>key_id.secret\<close> whose record is neither revoked nor expired and whose argon2id hash the secret
  matched; tenant, user and role are the record's.
\<close>

theorem api_key_session_sound:
  assumes "load_keys es [] = Inr store" "api_key_build lib now store hs = Inr s"
  shows "\<exists>token key_id secret e h. extract_bearer hs = Inr token \<and> startswith token ''wzk_'' \<and>
    rpartition_dot token = (key_id, secret) \<and> dget store key_id = Some e \<and>
    \<not> truthy (jget e ''revoked'') \<and>
    (jget e ''expires_at'' = JNull \<or>
      (\<exists>t. kl_fromiso lib (replace_z (json_str (kl_float lib) (jget e ''expires_at''))) = Some (Aware t) \<and> now < t)) \<and>
    jget e ''hash'' = JStr h \<and> startswith h ''$argon2id$'' \<and> kl_verify lib h secret = ArgonMatch \<and>
    item_str lib e ''tenant_id'' = Inr (s_tenant_id s) \<and> item_str lib e ''rbac_role'' = Inr (rbac_role s)"
proof -
  obtain token where tok: "extract_bearer hs = Inr token" "startswith token ''wzk_''"
    and rest: "(case rpartition_dot token of (key_id, plaintext) \<Rightarrow>
         bind_res (verify_key lib now store key_id plaintext) (\<lambda>record.
           case record of
             None \<Rightarrow> Inl (AuthE InvalidToken)
           | Some r \<Rightarrow> Inr \<lparr>user_id = ak_user r, s_tenant_id = ak_tenant r, rbac_role = ak_role r,
                            auth_method = ApiKeyAuth, wazuh_user = None\<rparr>)) = Inr s"
    using assms(2) by (auto simp: api_key_build_def bind_res_eq_Inr split: if_splits)
  obtain key_id secret where rp: "rpartition_dot token = (key_id, secret)" by fastforce
  obtain r where v: "verify_key lib now store key_id secret = Inr (Some r)"
    and s: "s_tenant_id s = ak_tenant r" "rbac_role s = ak_role r"
    using rest rp by (auto simp: bind_res_eq_Inr split: option.splits)
  obtain e where e: "dget store key_id = Some e" "\<not> truthy (jget e ''revoked'')"
    using v by (auto simp: verify_key_def split: option.splits if_splits)
  obtain h where h: "jget e ''hash'' = JStr h" "startswith h ''$argon2id$''"
    using load_keys_hashes [OF assms(1) _ e(1)] by auto
  have hash: "item_str lib e ''hash'' = Inr h"
    using h(1) by (auto simp: item_str_def jget_def json_str_def split: option.splits)
  have "expiry_check lib now (jget e ''expires_at'') = Inr True"
    and "kl_verify lib h secret = ArgonMatch"
    and "item_str lib e ''tenant_id'' = Inr (ak_tenant r)" "item_str lib e ''rbac_role'' = Inr (ak_role r)"
    using v e hash
    by (auto simp: verify_key_def bind_res_eq_Inr split: if_splits argon_result.splits)
  moreover have "jget e ''expires_at'' = JNull \<or>
      (\<exists>t. kl_fromiso lib (replace_z (json_str (kl_float lib) (jget e ''expires_at''))) = Some (Aware t) \<and> now < t)"
    using calculation(1) by (auto simp: expiry_check_def split: if_splits option.splits timestamp.splits)
  ultimately show ?thesis using tok rp e h s by auto
qed

definition demo_key_entry :: "json \<Rightarrow> json" where
  "demo_key_entry expires = JObj [(''key_id'', JStr ''wzk_a_001''), (''hash'', JStr ''$argon2id$x''),
     (''tenant_id'', JStr ''a''), (''user_id'', JStr ''bot''), (''rbac_role'', JStr ''readonly''),
     (''expires_at'', expires)]"

definition demo_key_lib :: key_lib where
  "demo_key_lib = \<lparr>kl_fromiso = (\<lambda>s. if s = ''2030-01-01'' then Some (Naive 5) else Some (Aware 5)),
     kl_verify = (\<lambda>h p. if p = ''secret'' then ArgonMatch else ArgonVerificationError), kl_float = (\<lambda>r. [])\<rparr>"

lemma demo_load_keys:
  "\<exists>store. load_keys [demo_key_entry expires] [] = Inr store \<and>
    dget store ''wzk_a_001'' = Some [(''key_id'', JStr ''wzk_a_001''), (''hash'', JStr ''$argon2id$x''),
     (''tenant_id'', JStr ''a''), (''user_id'', JStr ''bot''), (''rbac_role'', JStr ''readonly''),
     (''expires_at'', expires)]"
  by (simp add: demo_key_entry_def jget_def startswith_def)

lemma demo_bearer: "extract_bearer [(''Authorization'', ''Bearer wzk_a_001.secret'')] = Inr ''wzk_a_001.secret''"
  by (simp add: extract_bearer_def header_or_def startswith_def py_strip_def py_space_def Let_def)

theorem api_key_session_sound_witness:
  "\<exists>store s. load_keys [demo_key_entry JNull] [] = Inr store \<and>
    api_key_build demo_key_lib 0 store [(''Authorization'', ''Bearer wzk_a_001.secret'')] = Inr s \<and>
    (\<exists>e. dget store ''wzk_a_001'' = Some e \<and> item_str demo_key_lib e ''tenant_id'' = Inr (s_tenant_id s))"
proof -
  obtain store where st: "load_keys [demo_key_entry JNull] [] = Inr store"
    and e: "dget store ''wzk_a_001'' = Some [(''key_id'', JStr ''wzk_a_001''), (''hash'', JStr ''$argon2id$x''),
     (''tenant_id'', JStr ''a''), (''user_id'', JStr ''bot''), (''rbac_role'', JStr ''readonly''),
     (''expires_at'', JNull)]"
    using demo_load_keys by blast
  have rp: "rpartition_dot ''wzk_a_001.secret'' = (''wzk_a_001'', ''secret'')"
    using rpartition_key [of "''secret''" "''wzk_a_001''"] by simp
  have "\<exists>s. api_key_build demo_key_lib 0 store [(''Authorization'', ''Bearer wzk_a_001.secret'')] = Inr s"
    unfolding api_key_build_def demo_bearer
    by (simp add: startswith_def rp verify_key_def e jget_def expiry_check_def item_str_def json_str_def
        demo_key_lib_def)
  then obtain s where s: "api_key_build demo_key_lib 0 store [(''Authorization'', ''Bearer wzk_a_001.secret'')] = Inr s"
    by blast
  show ?thesis using api_key_session_sound [OF st s] st s demo_bearer rp by auto
qed

text \<open>
  A key with an expiry that has no time zone is not refused but fails.  The comparison raises a
  \<open>TypeError\<close> that no handler of the authentication layer catches, whatever the secret, although the
  store promises a plain refusal on every failure.
\<close>

theorem naive_expiry_escapes:
  assumes "dget store key_id = Some e" "\<not> truthy (jget e ''revoked'')" "jget e ''expires_at'' \<noteq> JNull"
    "kl_fromiso lib (replace_z (json_str (kl_float lib) (jget e ''expires_at''))) = Some (Naive t)"
  shows "verify_key lib now store key_id plaintext = Inl TypeE"
  using assms by (simp add: verify_key_def expiry_check_def)

theorem naive_expiry_escapes_witness:
  "\<exists>store. load_keys [demo_key_entry (JStr ''2030-01-01'')] [] = Inr store \<and>
    verify_key demo_key_lib 0 store ''wzk_a_001'' ''wrong'' = Inl TypeE"
proof -
  obtain store where st: "load_keys [demo_key_entry (JStr ''2030-01-01'')] [] = Inr store"
    and e: "dget store ''wzk_a_001'' = Some [(''key_id'', JStr ''wzk_a_001''), (''hash'', JStr ''$argon2id$x''),
     (''tenant_id'', JStr ''a''), (''user_id'', JStr ''bot''), (''rbac_role'', JStr ''readonly''),
     (''expires_at'', JStr ''2030-01-01'')]"
    using demo_load_keys by blast
  have "verify_key demo_key_lib 0 store ''wzk_a_001'' ''wrong'' = Inl TypeE"
    by (rule naive_expiry_escapes [OF e, where t = 5])
      (simp_all add: jget_def json_str_def replace_z_def demo_key_lib_def)
  then show ?thesis using st by blast
qed

section \<open>The middleware\<close>

definition title_header :: "string \<Rightarrow> string" where
  "title_header name = join_with ''-'' (map capitalize (split_on (CHR ''-'') name))"

definition is_protected :: "string list \<Rightarrow> string \<Rightarrow> bool" where
  "is_protected paths path \<longleftrightarrow>
     (\<exists>p \<in> set paths. path = p \<or> startswith path (rstrip_char (CHR ''/'') p @ ''/''))"

record response =
  rs_status :: int
  rs_body :: json
  rs_challenge :: "string option"

text \<open>\<open>mw_current\<close> is the context variable of the running task, \<open>mw_rest\<close> everything else.\<close>

record 'w task =
  mw_current :: "session option"
  mw_rest :: 'w

definition current_session :: "'w task \<Rightarrow> exn + session" where
  "current_session st = (case mw_current st of None \<Rightarrow> Inl LookupE | Some s \<Rightarrow> Inr s)"

definition challenge :: "string \<Rightarrow> auth_error \<Rightarrow> string" where
  "challenge metadata_url e =
     ''Bearer realm=\"mcp\", error=\"'' @
     (if http_status e = 403 then ''insufficient_scope'' else ''invalid_token'') @ ''\"'' @
     (if metadata_url \<noteq> [] then '', resource_metadata=\"'' @ metadata_url @ ''\"'' else [])"

definition dispatch ::
    "string list \<Rightarrow> string \<Rightarrow> (headers \<Rightarrow> 'w \<Rightarrow> (exn + session) \<times> 'w) \<Rightarrow>
     ('w task \<Rightarrow> (exn + response) \<times> 'w task) \<Rightarrow> string \<Rightarrow> headers \<Rightarrow> 'w task \<Rightarrow>
     (exn + response) \<times> 'w task" where
  "dispatch paths metadata_url build call_next path request_headers st =
     (if \<not> is_protected paths path then call_next st
      else case build (dupdate [] (map (\<lambda>(k, v). (title_header k, v)) request_headers)) (mw_rest st) of
             (Inl (AuthE e), w) \<Rightarrow>
               (Inr \<lparr>rs_status = http_status e,
                     rs_body = JObj [(''error'', JStr (public_message e))],
                     rs_challenge = Some (challenge metadata_url e)\<rparr>, st\<lparr>mw_rest := w\<rparr>)
           | (Inl e, w) \<Rightarrow> (Inl e, st\<lparr>mw_rest := w\<rparr>)
           | (Inr s, w) \<Rightarrow>
               (case call_next (st\<lparr>mw_current := Some s, mw_rest := w\<rparr>) of
                  (r, st') \<Rightarrow> (r, st'\<lparr>mw_current := mw_current st\<rparr>)))"

text \<open>
  C31: no protected request runs without its own session.  On a protected path the application is
  reached only with the session the factory built, and whether it answers or raises, the context
  variable afterwards is what it was before.  An authentication failure is answered with one of the
  two fixed statuses and a fixed public word, and the application is not reached.
\<close>

theorem middleware_guards:
  assumes "is_protected paths path"
    "build (dupdate [] (map (\<lambda>(k, v). (title_header k, v)) hs)) (mw_rest st) = (b, w)"
    "dispatch paths url build call_next path hs st = (r, st')"
  shows "mw_current st' = mw_current st \<and>
    (case b of
       Inr s \<Rightarrow> r = fst (call_next (st\<lparr>mw_current := Some s, mw_rest := w\<rparr>))
     | Inl (AuthE e) \<Rightarrow> mw_rest st' = w \<and> (\<exists>resp. r = Inr resp \<and> rs_status resp \<in> {401, 403} \<and>
         rs_body resp \<in> (\<lambda>m. JObj [(''error'', JStr m)]) ` {''unauthorized'', ''invalid_token'', ''forbidden''})
     | Inl e \<Rightarrow> r = Inl e \<and> mw_rest st' = w)"
proof (cases b)
  case (Inl e)
  show ?thesis
  proof (cases "\<exists>a. e = AuthE a")
    case True
    then obtain a where a: "e = AuthE a" by blast
    show ?thesis using assms Inl a by (cases a) (auto simp: dispatch_def)
  next
    case False
    then show ?thesis using assms Inl by (cases e) (auto simp: dispatch_def)
  qed
next
  case (Inr s)
  then show ?thesis using assms by (auto simp: dispatch_def split: prod.splits)
qed

theorem middleware_guards_witness:
  "\<exists>r st'. dispatch [''/mcp''] [] (\<lambda>hs w. (api_key_build demo_key_lib 0 [] hs, w)) (\<lambda>st. (Inl OtherE, st))
      ''/mcp/x'' [] \<lparr>mw_current = None, mw_rest = ()\<rparr> = (r, st') \<and> mw_current st' = None"
proof -
  let ?b = "\<lambda>hs (w :: unit). (api_key_build demo_key_lib 0 [] hs, w)"
  let ?st = "\<lparr>mw_current = None, mw_rest = ()\<rparr>"
  obtain r st' where d: "dispatch [''/mcp''] [] ?b (\<lambda>st. (Inl OtherE, st)) ''/mcp/x'' [] ?st = (r, st')"
    by fastforce
  have p: "is_protected [''/mcp''] ''/mcp/x''"
    by (simp add: is_protected_def startswith_def rstrip_char_def)
  have "mw_current st' = mw_current ?st" using middleware_guards [OF p refl d] by blast
  then show ?thesis using d by simp
qed

definition rate_limiter_health :: "breaker_state option option \<Rightarrow> string \<times> string" where
  "rate_limiter_health limiter =
     (case limiter of
        None \<Rightarrow> (''none'', ''disabled'')
      | Some None \<Rightarrow> (''in_process'', ''disabled'')
      | Some (Some st) \<Rightarrow> if st = CLOSED then (''redis'', ''ok'') else (''redis'', ''degraded''))"

end
