(* ===== verification/ServerApi.thy ===== *)
theory ServerApi imports Json begin

text \<open>
  \<open>ServerApiClient\<close> (\<open>wazuh/server_api.py\<close>): token minting and refresh, the replay after a 401,
  run-as attribution, and the endpoints the write tools use.  The upstream is a list of answers;
  every request sent is kept in order.
\<close>

section \<open>Requests and the client\<close>

datatype auth = Basic string string | Bearer string

record request =
  rq_method :: string
  rq_path :: string
  rq_params :: "(string, json) dict"
  rq_json :: "json option"
  rq_content :: "(string \<times> string) option"
  rq_auth :: auth

text \<open>An answer is an exception of the transport, or a status with a body (\<open>None\<close>: not JSON).\<close>

type_synonym answer = "exn + int \<times> json option"

datatype verify = VerifyTls bool | CaBundle string

record api_client =
  ac_base :: string
  ac_verify :: verify
  ac_user :: string
  ac_password :: string
  ac_token :: "string option"
  ac_issued :: "rat option"
  ac_exp :: "rat option"
  ac_feed :: "answer list"
  ac_sent :: "request list"

definition tls_verify :: "bool \<Rightarrow> string option \<Rightarrow> verify" where
  "tls_verify verify_flag ca = (case ca of Some p \<Rightarrow> CaBundle p | None \<Rightarrow> VerifyTls verify_flag)"

definition new_api_client ::
    "string \<Rightarrow> string \<Rightarrow> string \<Rightarrow> bool \<Rightarrow> string option \<Rightarrow> answer list \<Rightarrow> api_client" where
  "new_api_client base user password verify_flag ca feed =
     \<lparr>ac_base = rstrip_char (CHR ''/'') base, ac_verify = tls_verify verify_flag ca, ac_user = user,
      ac_password = password, ac_token = None, ac_issued = None, ac_exp = None, ac_feed = feed, ac_sent = []\<rparr>"

text \<open>What one operation reads: the monotonic and the wall clock, a decoder of base64 JSON segments,
  and \<open>float\<close> on text.\<close>

record api_env =
  ae_mono :: rat
  ae_wall :: rat
  ae_segment :: "string \<Rightarrow> json option"
  ae_float :: "string \<Rightarrow> rat option"
  ae_str :: "rat \<Rightarrow> string"

type_synonym 'a api = "api_client \<Rightarrow> (exn + 'a) \<times> api_client"

definition send :: "request \<Rightarrow> (int \<times> json option) api" where
  "send rq c =
     (let c1 = c\<lparr>ac_sent := ac_sent c @ [rq]\<rparr>
      in case ac_feed c of
           [] \<Rightarrow> (Inl OtherE, c1)
         | Inl e # rs \<Rightarrow> (Inl (if e = HttpTimeoutE then map_timeout else e), c1\<lparr>ac_feed := rs\<rparr>)
         | Inr r # rs \<Rightarrow> (Inr r, c1\<lparr>ac_feed := rs\<rparr>))"

definition response_json :: "json option \<Rightarrow> exn + json" where
  "response_json b = (case b of None \<Rightarrow> Inl ValueE | Some j \<Rightarrow> Inr j)"

section \<open>The token\<close>

definition py_float :: "api_env \<Rightarrow> json \<Rightarrow> rat option" where
  "py_float env v = (case v of JStr s \<Rightarrow> ae_float env s | _ \<Rightarrow> json_num v)"

definition parse_exp_seconds :: "api_env \<Rightarrow> string \<Rightarrow> rat" where
  "parse_exp_seconds env token =
     (case split_on (CHR ''.'') token of
        _ # payload # _ # _ \<Rightarrow>
          (case ae_segment env payload of
             Some (JObj claims) \<Rightarrow>
               (case (json_num (jget claims ''exp''),
                      case dget claims ''iat'' of None \<Rightarrow> Some (ae_wall env) | Some v \<Rightarrow> py_float env v) of
                  (Some ex, Some iat) \<Rightarrow> if ex - iat \<le> 0 then 900 else ex - iat
                | _ \<Rightarrow> 900)
           | _ \<Rightarrow> 900)
      | _ \<Rightarrow> 900)"

definition auth_request :: "api_client \<Rightarrow> request" where
  "auth_request c =
     \<lparr>rq_method = ''POST'', rq_path = ''/security/user/authenticate'', rq_params = [], rq_json = None,
      rq_content = None, rq_auth = Basic (ac_user c) (ac_password c)\<rparr>"

definition mint_locked :: "api_env \<Rightarrow> string api" where
  "mint_locked env c =
     bind_st (send (auth_request c) c) (\<lambda>(status, body) c1.
       if status \<ge> 400 then (Inl (map_http_error status), c1)
       else case bind_res (response_json body) (\<lambda>b.
                 bind_res (py_get_or b ''data'' (JObj [])) (\<lambda>d. py_get d ''token'')) of
              Inl e \<Rightarrow> (Inl e, c1)
            | Inr (JStr (t # ts)) \<Rightarrow>
                (Inr (t # ts), c1\<lparr>ac_token := Some (t # ts), ac_issued := Some (ae_mono env),
                                  ac_exp := Some (ae_mono env + parse_exp_seconds env (t # ts))\<rparr>)
            | Inr _ \<Rightarrow> (Inl (map_http_error 500), c1))"

text \<open>The stored token, when all three fields are set (and nonzero) and less than four fifths of its
  life is over.\<close>

definition usable_token :: "rat \<Rightarrow> api_client \<Rightarrow> string option" where
  "usable_token now c =
     (case (ac_token c, ac_issued c, ac_exp c) of
        (Some t, Some issued, Some ex) \<Rightarrow>
          if t \<noteq> [] \<and> issued \<noteq> 0 \<and> ex \<noteq> 0 \<and> now - issued < (ex - issued) * (80 / 100) then Some t else None
      | _ \<Rightarrow> None)"

definition ensure_jwt :: "api_env \<Rightarrow> string api" where
  "ensure_jwt env c =
     (case usable_token (ae_mono env) c of Some t \<Rightarrow> (Inr t, c) | None \<Rightarrow> mint_locked env c)"

section \<open>An authorised request\<close>

definition effective_params :: "(string, json) dict \<Rightarrow> string option \<Rightarrow> (string, json) dict" where
  "effective_params params run_as =
     (case run_as of None \<Rightarrow> params | Some u \<Rightarrow> dset ''run_as'' (JStr u) params)"

definition finish_response :: "int \<times> json option \<Rightarrow> exn + json" where
  "finish_response r =
     (case r of (status, body) \<Rightarrow>
        if status \<ge> 400 then Inl (map_http_error status) else response_json body)"

definition authorised :: "api_env \<Rightarrow> (string \<Rightarrow> request) \<Rightarrow> json api" where
  "authorised env do c =
     bind_st (ensure_jwt env c) (\<lambda>token c1.
     bind_st (send (do token) c1) (\<lambda>r c2.
       if fst r = 401
       then bind_st (mint_locked env c2) (\<lambda>token' c3.
            bind_st (send (do token') c3) (\<lambda>r' c4. (finish_response r', c4)))
       else (finish_response r, c2)))"

definition api_request ::
    "api_env \<Rightarrow> string \<Rightarrow> string \<Rightarrow> (string, json) dict \<Rightarrow> json option \<Rightarrow> string option \<Rightarrow> json api" where
  "api_request env method path params body run_as =
     authorised env (\<lambda>jwt.
       \<lparr>rq_method = method, rq_path = path, rq_params = effective_params params run_as, rq_json = body,
        rq_content = None, rq_auth = Bearer jwt\<rparr>)"

text \<open>The four verbs.\<close>

definition api_get :: "api_env \<Rightarrow> string \<Rightarrow> (string, json) dict \<Rightarrow> string option \<Rightarrow> json api" where
  "api_get env path params run_as = api_request env ''GET'' path params None run_as"

definition api_post :: "api_env \<Rightarrow> string \<Rightarrow> (string, json) dict \<Rightarrow> json option \<Rightarrow> string option \<Rightarrow> json api" where
  "api_post env path params body run_as = api_request env ''POST'' path params body run_as"

definition api_put :: "api_env \<Rightarrow> string \<Rightarrow> (string, json) dict \<Rightarrow> json option \<Rightarrow> string option \<Rightarrow> json api" where
  "api_put env path params body run_as = api_request env ''PUT'' path params body run_as"

definition api_delete :: "api_env \<Rightarrow> string \<Rightarrow> (string, json) dict \<Rightarrow> string option \<Rightarrow> json api" where
  "api_delete env path params run_as = api_request env ''DELETE'' path params None run_as"

lemmas api_verbs = api_get_def api_post_def api_put_def api_delete_def

definition put_raw ::
    "api_env \<Rightarrow> string \<Rightarrow> string \<Rightarrow> string \<Rightarrow> (string, json) dict \<Rightarrow> string option \<Rightarrow> json api" where
  "put_raw env path content content_type params run_as =
     authorised env (\<lambda>jwt.
       \<lparr>rq_method = ''PUT'', rq_path = path, rq_params = effective_params params run_as, rq_json = None,
        rq_content = Some (content, content_type), rq_auth = Bearer jwt\<rparr>)"

section \<open>Endpoints\<close>

definition api_isolate_agent :: "api_env \<Rightarrow> string list \<Rightarrow> string option \<Rightarrow> json api" where
  "api_isolate_agent env agent_ids run_as =
     api_put env ''/active-response'' [(''agents_list'', JStr (join_with '','' agent_ids))]
       (Some (JObj [(''command'', JStr ''isolate'')])) run_as"

definition api_restart_agent :: "api_env \<Rightarrow> string \<Rightarrow> string option \<Rightarrow> json api" where
  "api_restart_agent env agent_id run_as =
     api_put env (''/agents/'' @ agent_id @ ''/restart'') [] None run_as"

definition api_add_agent_to_group :: "api_env \<Rightarrow> string \<Rightarrow> string \<Rightarrow> string option \<Rightarrow> json api" where
  "api_add_agent_to_group env agent_id group_id run_as =
     api_put env (''/agents/'' @ agent_id @ ''/group/'' @ group_id) [] None run_as"

definition api_remove_agent_from_group :: "api_env \<Rightarrow> string \<Rightarrow> string \<Rightarrow> string option \<Rightarrow> json api" where
  "api_remove_agent_from_group env agent_id group_id run_as =
     api_delete env (''/agents/'' @ agent_id @ ''/group/'' @ group_id) [] run_as"

definition api_upload_rule_file :: "api_env \<Rightarrow> string \<Rightarrow> string \<Rightarrow> string option \<Rightarrow> json api" where
  "api_upload_rule_file env filename xml run_as =
     put_raw env (''/rules/files/'' @ filename) xml ''application/octet-stream''
       [(''overwrite'', JStr ''true'')] run_as"

text \<open>\<open>{**(custom_args or {}), "command": command}\<close>: the command is written last.\<close>

definition active_response_body :: "(string, json) dict option \<Rightarrow> string \<Rightarrow> (string, json) dict" where
  "active_response_body custom_args command =
     dset ''command'' (JStr command) (case custom_args of None \<Rightarrow> [] | Some a \<Rightarrow> a)"

definition api_run_active_response ::
    "api_env \<Rightarrow> string list \<Rightarrow> string \<Rightarrow> (string, json) dict option \<Rightarrow> string option \<Rightarrow> json api" where
  "api_run_active_response env agent_ids command custom_args run_as =
     api_put env ''/active-response'' [(''agents_list'', JStr (join_with '','' agent_ids))]
       (Some (JObj (active_response_body custom_args command))) run_as"

text \<open>The agent ids of a group listing; an item without an id is skipped.\<close>

definition group_agent_ids :: "api_env \<Rightarrow> json \<Rightarrow> exn + string list" where
  "group_agent_ids env resp =
     bind_res (py_get resp ''data'') (\<lambda>data.
     bind_res (py_get (py_or data (JObj [])) ''affected_items'') (\<lambda>items.
     bind_res (py_iter (py_or items (JList []))) (\<lambda>xs.
     bind_res (map_res (\<lambda>item.
         bind_res (py_in ''id'' item) (\<lambda>has.
           if has then bind_res (py_index item ''id'') (\<lambda>v. Inr [json_str (ae_str env) v]) else Inr [])) xs)
       (\<lambda>ids. Inr (concat ids)))))"

definition api_run_active_response_on_group ::
    "api_env \<Rightarrow> string \<Rightarrow> string \<Rightarrow> (string, json) dict option \<Rightarrow> string option \<Rightarrow> json api" where
  "api_run_active_response_on_group env group_name command custom_args run_as c =
     bind_st (api_get env ''/agents''
                [(''group'', JStr group_name), (''select'', JStr ''id''), (''limit'', JInt 500)] run_as c)
       (\<lambda>resp c1.
          case group_agent_ids env resp of
            Inl e \<Rightarrow> (Inl e, c1)
          | Inr [] \<Rightarrow> (Inr (JObj [(''data'', JObj [(''affected_items'', JList []), (''failed_items'', JList [])])]), c1)
          | Inr (i # is) \<Rightarrow> api_run_active_response env (i # is) command custom_args run_as c1)"

definition api_restart_cluster :: "api_env \<Rightarrow> string \<Rightarrow> string option \<Rightarrow> json api" where
  "api_restart_cluster env scope run_as =
     api_put env (if scope = ''cluster'' then ''/cluster/restart'' else ''/manager/restart'') [] None run_as"

record cluster_state =
  cs_enabled :: bool
  cs_running :: bool
  cs_nodes :: json

definition status_flags :: "json \<Rightarrow> exn + bool \<times> bool" where
  "status_flags resp =
     bind_res (py_get_or resp ''data'' (JObj [])) (\<lambda>data.
     bind_res (py_get_or data ''enabled'' (JStr ''no'')) (\<lambda>en.
     bind_res (py_get_or data ''running'' (JStr ''no'')) (\<lambda>ru.
       Inr (en = JStr ''yes'', ru = JStr ''yes''))))"

definition node_list :: "json \<Rightarrow> exn + json" where
  "node_list resp =
     bind_res (py_get_or resp ''data'' (JObj [])) (\<lambda>data.
     bind_res (py_get_or data ''affected_items'' (JList [])) (\<lambda>items. Inr (py_or items (JList []))))"

definition api_cluster_status :: "api_env \<Rightarrow> string option \<Rightarrow> cluster_state api" where
  "api_cluster_status env run_as c =
     bind_st (api_get env ''/cluster/status'' [] run_as c) (\<lambda>resp c1.
       case status_flags resp of
         Inl e \<Rightarrow> (Inl e, c1)
       | Inr (enabled, running) \<Rightarrow>
           if \<not> enabled then (Inr \<lparr>cs_enabled = enabled, cs_running = running, cs_nodes = JList []\<rparr>, c1)
           else bind_st (api_get env ''/cluster/nodes'' [] run_as c1) (\<lambda>nresp c2.
             case node_list nresp of
               Inl e \<Rightarrow> (Inl e, c2)
             | Inr nodes \<Rightarrow> (Inr \<lparr>cs_enabled = enabled, cs_running = running, cs_nodes = nodes\<rparr>, c2)))"

section \<open>What is sent\<close>

lemma send_sent:
  "send rq c = (r, c') \<Longrightarrow> ac_sent c' = ac_sent c @ [rq] \<and> ac_user c' = ac_user c \<and>
    ac_password c' = ac_password c \<and> ac_token c' = ac_token c"
  by (auto simp: send_def Let_def split: list.splits sum.splits)

lemma mint_sent:
  "mint_locked env c = (r, c') \<Longrightarrow> ac_sent c' = ac_sent c @ [auth_request c] \<and>
    auth_request c' = auth_request c \<and> (\<forall>t. r = Inr t \<longrightarrow> ac_token c' = Some t \<and> t \<noteq> [])"
proof -
  assume m: "mint_locked env c = (r, c')"
  obtain x c1 where s: "send (auth_request c) c = (x, c1)" by fastforce
  have c1: "ac_sent c1 = ac_sent c @ [auth_request c]" "ac_user c1 = ac_user c"
    "ac_password c1 = ac_password c" using send_sent [OF s] by simp_all
  show ?thesis
  proof (cases x)
    case (Inl e)
    then show ?thesis using m s c1 by (auto simp: mint_locked_def auth_request_def)
  next
    case (Inr p)
    then show ?thesis using m s c1
      by (cases p) (auto simp: mint_locked_def auth_request_def split: if_splits sum.splits json.splits list.splits)
  qed
qed

text \<open>The shape of the requests one call sends: perhaps a mint, the request, and after a 401 a mint
  and the replay.\<close>

definition call_trace :: "request \<Rightarrow> (string \<Rightarrow> request) \<Rightarrow> request list \<Rightarrow> bool" where
  "call_trace mint do rqs \<longleftrightarrow>
     rqs = [mint] \<or>
     (\<exists>t. rqs = [do t] \<or> rqs = [mint, do t] \<or>
       rqs = [do t, mint] \<or> rqs = [mint, do t, mint] \<or>
       (\<exists>t'. rqs = [do t, mint, do t'] \<or> rqs = [mint, do t, mint, do t']))"

lemma ensure_jwt_sent:
  assumes "ensure_jwt env c = (r, c')"
  shows "(ac_sent c' = ac_sent c \<and> (\<exists>t. r = Inr t) \<or> ac_sent c' = ac_sent c @ [auth_request c]) \<and>
    auth_request c' = auth_request c"
  using assms mint_sent [of env c r c']
  by (auto simp: ensure_jwt_def split: option.splits)

lemma send_auth: "send rq c = (r, c') \<Longrightarrow> auth_request c' = auth_request c"
  using send_sent [of rq c r c'] by (simp add: auth_request_def)

lemma authorised_trace:
  assumes "authorised env do c = (r, c')"
  shows "\<exists>rqs. ac_sent c' = ac_sent c @ rqs \<and> call_trace (auth_request c) do rqs"
proof -
  obtain x c1 where e: "ensure_jwt env c = (x, c1)" by fastforce
  note e' = ensure_jwt_sent [OF e]
  show ?thesis
  proof (cases x)
    case (Inl err)
    then show ?thesis using assms e e' by (auto simp: authorised_def call_trace_def)
  next
    case (Inr t)
    obtain y c2 where s: "send (do t) c1 = (y, c2)" by fastforce
    have c2: "ac_sent c2 = ac_sent c1 @ [do t]" "auth_request c2 = auth_request c"
      using send_sent [OF s] send_auth [OF s] e' by auto
    obtain z c3 where m: "mint_locked env c2 = (z, c3)" by fastforce
    have c3: "ac_sent c3 = ac_sent c2 @ [auth_request c]"
      using mint_sent [OF m] c2 by simp
    have step: "ac_sent c' = ac_sent c2 \<or> ac_sent c' = ac_sent c3 \<or>
        (\<exists>t'. ac_sent c' = ac_sent c3 @ [do t'])"
    proof (cases "\<exists>b. y = Inr (401, b)")
      case True
      show ?thesis
      proof (cases z)
        case (Inl err)
        then show ?thesis using assms e Inr s m True by (auto simp: authorised_def)
      next
        case z: (Inr t')
        obtain u c4 where s4: "send (do t') c3 = (u, c4)" by fastforce
        have "c' = c4" using assms e Inr s m True z s4
          by (cases u) (auto simp: authorised_def)
        then show ?thesis using send_sent [OF s4] by auto
      qed
    next
      case False
      then show ?thesis using assms e Inr s by (cases y) (auto simp: authorised_def)
    qed
    then show ?thesis using e' c2 c3 unfolding call_trace_def by fastforce
  qed
qed

lemma call_trace_count:
  assumes "call_trace mint do rqs" "\<And>t. do t \<noteq> mint"
  shows "length (filter (\<lambda>rq. rq \<noteq> mint) rqs) \<le> 2 \<and> (\<forall>rq \<in> set rqs. rq = mint \<or> (\<exists>t. rq = do t))"
  using assms by (auto simp: call_trace_def)

lemma api_request_trace:
  assumes "api_request env method path params body run_as c = (r, c')" "path \<noteq> ''/security/user/authenticate''"
  shows "\<exists>rqs. ac_sent c' = ac_sent c @ rqs \<and>
    length (filter (\<lambda>rq. rq \<noteq> auth_request c) rqs) \<le> 2 \<and>
    (\<forall>rq \<in> set rqs. rq = auth_request c \<or> (rq_method rq = method \<and> rq_path rq = path \<and>
       rq_params rq = effective_params params run_as \<and> rq_json rq = body \<and> (\<exists>t. rq_auth rq = Bearer t)))"
proof -
  let ?do = "\<lambda>jwt. \<lparr>rq_method = method, rq_path = path, rq_params = effective_params params run_as,
    rq_json = body, rq_content = None, rq_auth = Bearer jwt\<rparr>"
  obtain rqs where rqs: "ac_sent c' = ac_sent c @ rqs" "call_trace (auth_request c) ?do rqs"
    using authorised_trace [of env ?do c r c'] assms(1) unfolding api_request_def by blast
  have "?do t \<noteq> auth_request c" for t using assms(2) by (simp add: auth_request_def)
  from call_trace_count [OF rqs(2) this] rqs(1) show ?thesis by fastforce
qed

text \<open>
  C23: a request is replayed at most once and never altered.  Whatever the upstream answers, a call
  sends its request at most twice, besides minting; both copies carry the same method, path, body
  and parameters, and when the session has a Wazuh user, the \<open>run_as\<close> that attributes the action to
  it; the credentials go only to the authentication endpoint.
\<close>

theorem request_replayed_at_most_once:
  assumes "path \<noteq> ''/security/user/authenticate''"
  shows "\<exists>rqs. ac_sent (snd (api_request env method path params body run_as c)) = ac_sent c @ rqs \<and>
    length (filter (\<lambda>rq. rq \<noteq> auth_request c) rqs) \<le> 2 \<and>
    (\<forall>rq \<in> set rqs. rq = auth_request c \<or>
      (rq_method rq = method \<and> rq_path rq = path \<and> rq_json rq = body \<and> (\<exists>t. rq_auth rq = Bearer t) \<and>
       (\<forall>u. run_as = Some u \<longrightarrow> dget (rq_params rq) ''run_as'' = Some (JStr u)) \<and>
       (\<forall>k. k \<noteq> ''run_as'' \<longrightarrow> dget (rq_params rq) k = dget params k)))"
proof -
  obtain r c' where run: "api_request env method path params body run_as c = (r, c')" by fastforce
  have "\<forall>u. run_as = Some u \<longrightarrow> dget (effective_params params run_as) ''run_as'' = Some (JStr u)"
    and "\<forall>k. k \<noteq> ''run_as'' \<longrightarrow> dget (effective_params params run_as) k = dget params k"
    by (auto simp: effective_params_def dget_dset split: option.splits)
  with api_request_trace [OF run assms] run show ?thesis by (metis snd_conv)
qed

text \<open>The token is refused, a new one is minted, the replay is refused again: \<open>auth_expired\<close>.\<close>

definition demo_client :: "answer list \<Rightarrow> api_client" where
  "demo_client feed = \<lparr>ac_base = ''https://m:55000'', ac_verify = VerifyTls True, ac_user = ''u'', ac_password = ''p'', ac_token = Some ''old'', ac_issued = Some 1,
     ac_exp = Some 901, ac_feed = feed, ac_sent = []\<rparr>"

definition demo_env :: api_env where
  "demo_env = \<lparr>ae_mono = 2, ae_wall = 1000, ae_segment = (\<lambda>s. None), ae_float = (\<lambda>s. None), ae_str = (\<lambda>r. [])\<rparr>"

definition minted :: answer where
  "minted = Inr (200, Some (JObj [(''data'', JObj [(''token'', JStr ''new'')])]))"

theorem request_replayed_at_most_once_witness:
  "\<exists>c'. api_request demo_env ''PUT'' ''/agents/001/restart'' [] None (Some ''alice'')
      (demo_client [Inr (401, None), minted, Inr (401, None)]) =
      (Inl (map_http_error 401), c') \<and> length (ac_sent c') = 3 \<and>
    length (filter (\<lambda>rq. rq \<noteq> auth_request (demo_client [Inr (401, None), minted, Inr (401, None)])) (ac_sent c')) \<le> 2"
proof -
  let ?c = "demo_client [Inr (401, None), minted, Inr (401, None)]"
  obtain r c' where run: "api_request demo_env ''PUT'' ''/agents/001/restart'' [] None (Some ''alice'') ?c = (r, c')"
    by fastforce
  then have "r = Inl (map_http_error 401) \<and> length (ac_sent c') = 3"
    by (auto simp: api_request_def authorised_def ensure_jwt_def usable_token_def demo_env_def
        demo_client_def send_def mint_locked_def minted_def response_json_def py_access jget_def
        parse_exp_seconds_def finish_response_def Let_def)
  moreover have "ac_sent ?c = []" by (simp add: demo_client_def)
  ultimately show ?thesis
    using request_replayed_at_most_once [of "''/agents/001/restart''" demo_env "''PUT''" "[]" None "Some ''alice''" ?c] run
    by auto
qed

lemma active_response_body_command:
  "dget (active_response_body custom_args command) ''command'' = Some (JStr command)"
  by (simp add: active_response_body_def dget_dset)

text \<open>
  The command cannot be overridden.  Whatever the caller's custom arguments hold, every request
  that an active response on agents or on a group sends to the active-response endpoint names the
  command that was asked for, the one the allowlist was checked against.
\<close>

theorem active_response_command_fixed:
  "\<exists>rqs. ac_sent (snd (api_run_active_response env agent_ids command custom_args run_as c)) = ac_sent c @ rqs \<and>
    (\<forall>rq \<in> set rqs. rq_path rq = ''/active-response'' \<longrightarrow>
      (\<exists>body. rq_json rq = Some (JObj body) \<and> dget body ''command'' = Some (JStr command)))"
proof -
  obtain r c' where run: "api_run_active_response env agent_ids command custom_args run_as c = (r, c')"
    by fastforce
  have "\<exists>rqs. ac_sent c' = ac_sent c @ rqs \<and> (\<forall>rq \<in> set rqs. rq = auth_request c \<or>
      rq_json rq = Some (JObj (active_response_body custom_args command)))"
    using api_request_trace [OF run [unfolded api_run_active_response_def api_verbs]] by auto
  then obtain rqs where rqs: "ac_sent c' = ac_sent c @ rqs"
    and b: "\<forall>rq \<in> set rqs. rq = auth_request c \<or>
      rq_json rq = Some (JObj (active_response_body custom_args command))"
    by blast
  have "\<forall>rq \<in> set rqs. rq_path rq = ''/active-response'' \<longrightarrow>
      (\<exists>body. rq_json rq = Some (JObj body) \<and> dget body ''command'' = Some (JStr command))"
    using b active_response_body_command by (auto simp: auth_request_def)
  then show ?thesis using rqs run by auto
qed

theorem active_response_command_fixed_witness:
  "\<exists>rq. ac_sent (snd (api_run_active_response demo_env [''001''] ''restart-wazuh''
      (Some [(''command'', JStr ''rm'')]) None (demo_client [Inr (200, Some (JObj []))]))) = [rq] \<and>
    (\<exists>body. rq_json rq = Some (JObj body) \<and> dget body ''command'' = Some (JStr ''restart-wazuh''))"
proof -
  let ?r = "api_run_active_response demo_env [''001''] ''restart-wazuh''
      (Some [(''command'', JStr ''rm'')]) None (demo_client [Inr (200, Some (JObj []))])"
  have "\<exists>rq. ac_sent (snd ?r) = [rq] \<and> rq_path rq = ''/active-response''"
    by (simp add: api_run_active_response_def api_verbs api_request_def authorised_def ensure_jwt_def
        usable_token_def demo_env_def demo_client_def send_def Let_def)
  then obtain rq where rq: "ac_sent (snd ?r) = [rq]" "rq_path rq = ''/active-response''" by blast
  moreover have "ac_sent (demo_client [Inr (200, Some (JObj []))]) = []" by (simp add: demo_client_def)
  ultimately show ?thesis
    using active_response_command_fixed [of demo_env "[''001'']" "''restart-wazuh''"
        "Some [(''command'', JStr ''rm'')]" None "demo_client [Inr (200, Some (JObj []))]"]
    by auto
qed

end
