(* ===== verification/RuleRender.thy ===== *)
theory RuleRender imports Config begin

text \<open>
  The rule definition and its XML renderer (\<open>wazuh/rule_render.py\<close>).  Characters are code points
  below 256, so of the characters XML 1.0 forbids only the C0 controls occur; whether a regular
  expression compiles is an argument.
\<close>

section \<open>The definition and its validators\<close>

record rule_definition =
  rd_id :: int
  rd_level :: int
  rd_description :: string
  rd_if_sid :: "int list option"
  rd_if_matched_sid :: "int option"
  rd_match :: "string option"
  rd_regex :: "string option"
  rd_decoded_as :: "string option"
  rd_field :: "(string, string) dict option"
  rd_srcip :: "string option"
  rd_program_name :: "string option"
  rd_groups :: "string list option"
  rd_options :: "string list option"

definition xml_illegal :: "char \<Rightarrow> bool" where
  "xml_illegal c \<longleftrightarrow> ord c \<le> 8 \<or> ord c = 11 \<or> ord c = 12 \<or> (14 \<le> ord c \<and> ord c \<le> 31)"

definition reject_xml_illegal :: "string \<Rightarrow> exn + string" where
  "reject_xml_illegal v = (if \<exists>c \<in> set v. xml_illegal c then Inl ValueE else Inr v)"

definition check_opt :: "string option \<Rightarrow> exn + unit" where
  "check_opt v = (case v of None \<Rightarrow> Inr () | Some s \<Rightarrow> bind_res (reject_xml_illegal s) (\<lambda>_. Inr ()))"

definition check_group :: "string \<Rightarrow> exn + unit" where
  "check_group g =
     bind_res (reject_xml_illegal g) (\<lambda>_. if CHR '','' \<in> set g then Inl ValueE else Inr ())"

definition check_xml_legal_chars :: "rule_definition \<Rightarrow> exn + unit" where
  "check_xml_legal_chars r =
     bind_res (map_res check_opt [Some (rd_description r), rd_match r, rd_regex r, rd_decoded_as r,
                                  rd_srcip r, rd_program_name r]) (\<lambda>_.
     bind_res (case rd_field r of
                 None \<Rightarrow> Inr []
               | Some fs \<Rightarrow> map_res (\<lambda>(n, x). bind_res (check_opt (Some n)) (\<lambda>_. check_opt (Some x))) fs) (\<lambda>_.
     bind_res (case rd_groups r of None \<Rightarrow> Inr [] | Some gs \<Rightarrow> map_res check_group gs) (\<lambda>_. Inr ())))"

definition validate_rule :: "(string \<Rightarrow> bool) \<Rightarrow> rule_definition \<Rightarrow> exn + rule_definition" where
  "validate_rule compiles r =
     (if rd_id r < 100000 \<or> 999999 < rd_id r \<or> rd_level r < 0 \<or> 15 < rd_level r \<or>
         rd_description r = [] \<or> 512 < length (rd_description r) \<or>
         \<not> opt_ok (\<lambda>os. set os \<subseteq> {''no_log'', ''alert_by_email''}) (rd_options r) \<or>
         \<not> opt_ok compiles (rd_regex r)
      then Inl ValidationE
      else case check_xml_legal_chars r of Inl e \<Rightarrow> Inl ValidationE | Inr u \<Rightarrow> Inr r)"

section \<open>The renderer\<close>

text \<open>\<open>xml.sax.saxutils.escape\<close> and \<open>quoteattr\<close>.\<close>

definition escape_char :: "char \<Rightarrow> string" where
  "escape_char c =
     (if c = CHR ''&'' then ''&amp;'' else if c = CHR ''>'' then ''&gt;''
      else if c = CHR ''<'' then ''&lt;'' else [c])"

definition xml_escape :: "string \<Rightarrow> string" where
  "xml_escape s = concat (map escape_char s)"

definition attr_char :: "char \<Rightarrow> string" where
  "attr_char c =
     (if c = CHR 0x0A then ''&#10;'' else if c = CHR 0x0D then ''&#13;''
      else if c = CHR 0x09 then ''&#9;'' else escape_char c)"

definition xml_quoteattr :: "string \<Rightarrow> string" where
  "xml_quoteattr s =
     (let d = concat (map attr_char s)
      in if CHR 0x22 \<in> set d
         then if CHR 0x27 \<in> set d
              then [CHR 0x22] @ concat (map (\<lambda>c. if c = CHR 0x22 then ''&quot;'' else [c]) d) @ [CHR 0x22]
              else [CHR 0x27] @ d @ [CHR 0x27]
         else [CHR 0x22] @ d @ [CHR 0x22])"

definition el :: "string \<Rightarrow> string \<Rightarrow> string" where
  "el tag txt = ''<'' @ tag @ ''>'' @ xml_escape txt @ ''</'' @ tag @ ''>''"

definition el_with_attr :: "string \<Rightarrow> string \<Rightarrow> string \<Rightarrow> string \<Rightarrow> string" where
  "el_with_attr tag attr_name attr_value txt =
     ''<'' @ tag @ '' '' @ attr_name @ ''='' @ xml_quoteattr attr_value @ ''>'' @ xml_escape txt @
     ''</'' @ tag @ ''>''"

definition opt_part :: "('a \<Rightarrow> string) \<Rightarrow> 'a option \<Rightarrow> string list" where
  "opt_part f v = (case v of None \<Rightarrow> [] | Some x \<Rightarrow> [f x])"

definition render_rule_parts :: "rule_definition \<Rightarrow> string list" where
  "render_rule_parts r =
     [el ''description'' (rd_description r)] @
     opt_part (\<lambda>ss. el ''if_sid'' (join_with '', '' (map show_int ss))) (rd_if_sid r) @
     opt_part (\<lambda>s. el ''if_matched_sid'' (show_int s)) (rd_if_matched_sid r) @
     opt_part (el ''match'') (rd_match r) @
     opt_part (el ''regex'') (rd_regex r) @
     opt_part (el ''decoded_as'') (rd_decoded_as r) @
     (case rd_field r of None \<Rightarrow> [] | Some fs \<Rightarrow> map (\<lambda>(n, x). el_with_attr ''field'' ''name'' n x) fs) @
     opt_part (el ''srcip'') (rd_srcip r) @
     opt_part (el ''program_name'') (rd_program_name r) @
     opt_part (\<lambda>gs. el ''group'' (join_with '','' gs @ '','')) (rd_groups r) @
     (case rd_options r of None \<Rightarrow> [] | Some os \<Rightarrow> map (el ''options'') os)"

definition rule_open :: "rule_definition \<Rightarrow> string" where
  "rule_open r = ''<rule id='' @ xml_quoteattr (show_int (rd_id r)) @ '' level='' @
     xml_quoteattr (show_int (rd_level r)) @ ''>''"

definition render_rule_xml :: "rule_definition \<Rightarrow> string" where
  "render_rule_xml r = rule_open r @ concat (render_rule_parts r) @ ''</rule>''"

section \<open>A reader of rendered elements\<close>

fun xml_unescape :: "string \<Rightarrow> string" where
  "xml_unescape [] = []"
| "xml_unescape (c # cs) =
     (if c \<noteq> CHR ''&'' then c # xml_unescape cs
      else if startswith cs ''amp;'' then CHR ''&'' # xml_unescape (drop 4 cs)
      else if startswith cs ''gt;'' then CHR ''>'' # xml_unescape (drop 3 cs)
      else if startswith cs ''lt;'' then CHR ''<'' # xml_unescape (drop 3 cs)
      else c # xml_unescape cs)"

text \<open>One element: what stands between \<open><\<close> and \<open>>\<close>, the text up to the next \<open><\<close>, and the closing tag
  that fits; then the next element, until the closing tag of the rule.\<close>

function read_elements :: "string \<Rightarrow> ((string \<times> string) list \<times> string) option" where
  "read_elements s =
     (if \<not> startswith s ''<'' \<or> startswith s ''</'' then Some ([], s)
      else let head = takeWhile (\<lambda>c. c \<noteq> CHR ''>'') (drop 1 s);
               rest = drop (length head + 2) s;
               txt = takeWhile (\<lambda>c. c \<noteq> CHR ''<'') rest;
               close_tag = ''</'' @ takeWhile (\<lambda>c. c \<noteq> CHR '' '') head @ ''>'';
               after_txt = drop (length txt) rest
           in if \<not> startswith after_txt close_tag then None
              else map_option (\<lambda>(es, t). ((head, xml_unescape txt) # es, t))
                     (read_elements (drop (length close_tag) after_txt)))"
  by pat_completeness auto
termination
proof (relation "measure length")
  fix s head rest body close_tag after_txt :: string
  assume "\<not> (\<not> startswith s ''<'' \<or> startswith s ''</'')"
    "rest = drop (length head + 2) s" "after_txt = drop (length body) rest"
  then show "(drop (length close_tag) after_txt, s) \<in> measure length"
    by (cases s) (auto simp: startswith_def)
qed simp

declare read_elements.simps [simp del]

lemma unescape_escape [simp]: "xml_unescape (xml_escape s) = s"
proof (induction s)
  case Nil
  then show ?case by (simp add: xml_escape_def)
next
  case (Cons c s)
  then show ?case by (simp add: xml_escape_def escape_char_def startswith_def)
qed

lemma escape_no_angle: "CHR ''<'' \<notin> set (xml_escape s)" "CHR ''>'' \<notin> set (xml_escape s)"
  by (induction s) (auto simp: xml_escape_def escape_char_def)

lemma attr_no_angle: "CHR ''<'' \<notin> set (concat (map attr_char s))" "CHR ''>'' \<notin> set (concat (map attr_char s))"
  by (induction s) (auto simp: attr_char_def escape_char_def)

lemma quoteattr_no_angle: "CHR ''<'' \<notin> set (xml_quoteattr s)" "CHR ''>'' \<notin> set (xml_quoteattr s)"
  using attr_no_angle [of s] by (auto simp: xml_quoteattr_def Let_def)

text \<open>An attribute value cannot close_tag its own quotes.\<close>

lemma quoteattr_shape:
  "\<exists>q body. xml_quoteattr s = q # body @ [q] \<and> q \<in> {CHR 0x22, CHR 0x27} \<and> q \<notin> set body"
proof -
  let ?d = "concat (map attr_char s)"
  let ?e = "concat (map (\<lambda>c. if c = CHR 0x22 then ''&quot;'' else [c]) ?d)"
  have "CHR 0x22 \<notin> set ?e" by (auto split: if_splits)
  then show ?thesis by (cases "CHR 0x22 \<in> set ?d"; cases "CHR 0x27 \<in> set ?d")
      (auto simp: xml_quoteattr_def Let_def)
qed

lemma takeWhile_stop: "d \<notin> set xs \<Longrightarrow> takeWhile (\<lambda>c. c \<noteq> d) (xs @ d # ys) = xs"
  by (induction xs) auto

lemma takeWhile_none: "d \<notin> set xs \<Longrightarrow> takeWhile (\<lambda>c. c \<noteq> d) xs = xs"
  by (induction xs) auto

lemma read_element:
  assumes head: "CHR ''>'' \<notin> set head" "head \<noteq> []" "hd head \<noteq> CHR ''/''"
    and tag: "takeWhile (\<lambda>c. c \<noteq> CHR '' '') head = tag"
  shows "read_elements (''<'' @ head @ ''>'' @ xml_escape txt @ ''</'' @ tag @ ''>'' @ tl_xml) =
    map_option (\<lambda>(es, t). ((head, txt) # es, t)) (read_elements tl_xml)"
proof -
  let ?s = "''<'' @ head @ ''>'' @ xml_escape txt @ ''</'' @ tag @ ''>'' @ tl_xml"
  have st: "startswith ?s ''<''" "\<not> startswith ?s ''</''"
    using head(2,3) by (cases head; simp add: startswith_def)+
  have h: "takeWhile (\<lambda>c. c \<noteq> CHR ''>'') (drop 1 ?s) = head"
    using takeWhile_stop [OF head(1)] by simp
  have rest: "drop (length head + 2) ?s = xml_escape txt @ ''</'' @ tag @ ''>'' @ tl_xml" by simp
  have x: "takeWhile (\<lambda>c. c \<noteq> CHR ''<'') (xml_escape txt @ ''</'' @ tag @ ''>'' @ tl_xml) = xml_escape txt"
    using takeWhile_stop [OF escape_no_angle(1)] by simp
  have close_tag: "startswith (''</'' @ tag @ ''>'' @ tl_xml) (''</'' @ tag @ ''>'')"
    "drop (length (''</'' @ tag @ ''>'')) (''</'' @ tag @ ''>'' @ tl_xml) = tl_xml"
    by (simp_all add: startswith_def)
  have "drop (length (xml_escape txt)) (xml_escape txt @ ''</'' @ tag @ ''>'' @ tl_xml) = ''</'' @ tag @ ''>'' @ tl_xml"
    by simp
  then show ?thesis
    unfolding read_elements.simps [of ?s] Let_def h rest x tag
    using st close_tag by (simp only: if_False if_True not_True_eq_False not_False_eq_True unescape_escape simp_thms)
qed

section \<open>What a rule renders to\<close>

text \<open>The elements a rule should have, as pairs of opening tag and text.\<close>

definition rule_elements :: "rule_definition \<Rightarrow> (string \<times> string) list" where
  "rule_elements r =
     [(''description'', rd_description r)] @
     (case rd_if_sid r of None \<Rightarrow> [] | Some ss \<Rightarrow> [(''if_sid'', join_with '', '' (map show_int ss))]) @
     (case rd_if_matched_sid r of None \<Rightarrow> [] | Some s \<Rightarrow> [(''if_matched_sid'', show_int s)]) @
     (case rd_match r of None \<Rightarrow> [] | Some s \<Rightarrow> [(''match'', s)]) @
     (case rd_regex r of None \<Rightarrow> [] | Some s \<Rightarrow> [(''regex'', s)]) @
     (case rd_decoded_as r of None \<Rightarrow> [] | Some s \<Rightarrow> [(''decoded_as'', s)]) @
     (case rd_field r of None \<Rightarrow> []
      | Some fs \<Rightarrow> map (\<lambda>(n, x). (''field name='' @ xml_quoteattr n, x)) fs) @
     (case rd_srcip r of None \<Rightarrow> [] | Some s \<Rightarrow> [(''srcip'', s)]) @
     (case rd_program_name r of None \<Rightarrow> [] | Some s \<Rightarrow> [(''program_name'', s)]) @
     (case rd_groups r of None \<Rightarrow> [] | Some gs \<Rightarrow> [(''group'', join_with '','' gs @ '','')]) @
     (case rd_options r of None \<Rightarrow> [] | Some os \<Rightarrow> map (\<lambda>x. (''options'', x)) os)"

definition renders :: "string \<Rightarrow> string \<times> string \<Rightarrow> bool" where
  "renders p e \<longleftrightarrow> (case e of (head, body) \<Rightarrow>
     CHR ''>'' \<notin> set head \<and> head \<noteq> [] \<and> hd head \<noteq> CHR ''/'' \<and>
     p = ''<'' @ head @ ''>'' @ xml_escape body @ ''</'' @ takeWhile (\<lambda>c. c \<noteq> CHR '' '') head @ ''>'')"

lemma renders_el:
  "CHR '' '' \<notin> set tag \<Longrightarrow> CHR ''>'' \<notin> set tag \<Longrightarrow> tag \<noteq> [] \<Longrightarrow> hd tag \<noteq> CHR ''/'' \<Longrightarrow>
    renders (el tag body) (tag, body)"
  by (simp add: renders_def el_def takeWhile_none)

lemma renders_field: "renders (el_with_attr ''field'' ''name'' n x) (''field name='' @ xml_quoteattr n, x)"
  using quoteattr_no_angle(2) [of n] by (simp add: renders_def el_with_attr_def)

lemma renders_opt:
  "(\<And>x. renders (f x) (g x)) \<Longrightarrow>
    list_all2 renders (opt_part f v) (case v of None \<Rightarrow> [] | Some x \<Rightarrow> [g x])"
  by (cases v) (simp_all add: opt_part_def)

lemma renders_map:
  "(\<And>x. renders (f x) (g x)) \<Longrightarrow>
    list_all2 renders (case v of None \<Rightarrow> [] | Some xs \<Rightarrow> map f xs) (case v of None \<Rightarrow> [] | Some xs \<Rightarrow> map g xs)"
  by (cases v) (auto simp: list_all2_map1 list_all2_map2 intro: list_all2_refl)

lemma parts_render: "list_all2 renders (render_rule_parts r) (rule_elements r)"
  unfolding render_rule_parts_def rule_elements_def
  by (intro list_all2_appendI renders_opt renders_map list.rel_intros; (rule renders_el)?)
    (auto simp: renders_field [simplified])

lemma read_parts:
  assumes "list_all2 renders ps es"
  shows "read_elements (concat ps @ ''</rule>'') = Some (es, ''</rule>'')"
  using assms
proof (induction rule: list_all2_induct)
  case Nil
  then show ?case by (subst read_elements.simps) (simp add: startswith_def)
next
  case (Cons p ps e es)
  obtain head body where e: "e = (head, body)" by (cases e)
  have p: "p = ''<'' @ head @ ''>'' @ xml_escape body @ ''</'' @ takeWhile (\<lambda>c. c \<noteq> CHR '' '') head @ ''>''"
    and ok: "CHR ''>'' \<notin> set head" "head \<noteq> []" "hd head \<noteq> CHR ''/''"
    using Cons.hyps(1) e by (simp_all add: renders_def)
  show ?case
    using read_element [OF ok refl, of body "concat ps @ ''</rule>''"] Cons.IH e by (simp add: p)
qed

text \<open>
  C20: no rule text can add, close or hide an element.  Read back, the rendered rule is its opening
  tag with the numeric id and level, then exactly the elements the definition asks for, each with
  exactly the caller's text, then the closing tag; a quoted attribute value never ends its quotes.
\<close>

theorem rule_xml_injection_free:
  "\<exists>inner. render_rule_xml r = rule_open r @ inner \<and>
    read_elements inner = Some (rule_elements r, ''</rule>'') \<and>
    (\<exists>q body. xml_quoteattr name = q # body @ [q] \<and> q \<notin> set body \<and> CHR ''<'' \<notin> set body)"
proof -
  obtain q body where "xml_quoteattr name = q # body @ [q]" "q \<notin> set body"
    using quoteattr_shape by blast
  then show ?thesis
    using read_parts [OF parts_render, of r] quoteattr_no_angle(1) [of name]
    by (auto simp: render_rule_xml_def)
qed

end
