(* ===== verification/Secrets.thy ===== *)
theory Secrets imports Json begin

text \<open>
  The secret stores of \<open>secrets/\<close>: the redacting wrapper, the YAML, AWS, Vault and SQLite backends
  behind one interface, and the caching store with its single flight per key as a machine of
  callers, answers, cancellations and invalidations.
\<close>

section \<open>The wrapper\<close>

datatype secret = SecretValue (expose: string)

definition secret_repr :: "secret \<Rightarrow> string" where
  "secret_repr s = ''SecretValue(<redacted>)''"

definition secret_str :: "secret \<Rightarrow> string" where
  "secret_str s = ''<redacted>''"

definition secret_format :: "secret \<Rightarrow> string \<Rightarrow> string" where
  "secret_format s spec = ''<redacted>''"

definition secret_reduce :: "secret \<Rightarrow> exn + string" where
  "secret_reduce s = Inl TypeE"

text \<open>Equality, the hash (of the first eight bytes of the SHA-256 digest, which is an argument), and what copying and
  assigning make of a secret.\<close>

definition secret_eq :: "secret \<Rightarrow> secret \<Rightarrow> bool" where
  "secret_eq a b \<longleftrightarrow> expose a = expose b"

definition secret_hash :: "(string \<Rightarrow> string) \<Rightarrow> secret \<Rightarrow> nat" where
  "secret_hash sha256 s = foldl (\<lambda>n c. 256 * n + of_char c) 0 (take 8 (sha256 (expose s)))"

definition secret_setattr :: "secret \<Rightarrow> string \<Rightarrow> exn + secret" where
  "secret_setattr s name = Inl OtherE"

definition secret_delattr :: "secret \<Rightarrow> string \<Rightarrow> exn + secret" where
  "secret_delattr s name = Inl OtherE"

definition secret_copy :: "secret \<Rightarrow> secret" where
  "secret_copy s = SecretValue (expose s)"

definition secret_deepcopy :: "secret \<Rightarrow> secret" where
  "secret_deepcopy s = SecretValue (expose s)"

lemma big_endian_bound: "foldl (\<lambda>n c. 256 * n + of_char c) k s < (k + 1) * 256 ^ length (s :: string)" for k :: nat
proof (induction s arbitrary: k)
  case (Cons c s)
  have byte: "d < 256 \<Longrightarrow> 256 * k + d + 1 \<le> (k + 1) * 256" for d :: nat by simp
  have "256 * k + of_char c + 1 \<le> (k + 1) * 256" by (rule byte) (rule nat_of_char_less_256)
  then have "(256 * k + of_char c + 1) * 256 ^ length s \<le> (k + 1) * 256 * 256 ^ length s" by (rule mult_right_mono) simp
  then have "foldl (\<lambda>n c. 256 * n + of_char c) (256 * k + of_char c) s < (k + 1) * 256 * 256 ^ length s"
    using Cons [of "256 * k + of_char c"] by (rule less_le_trans [rotated])
  then show ?case by (simp add: algebra_simps)
qed simp

text \<open>
  Secrets are equal when their texts are, equal secrets have one hash, of eight bytes, and every copy of a secret is a
  secret that shows as little of its text.
\<close>

theorem secret_identity:
  "secret_eq a b \<longleftrightarrow> a = b"
  "secret_eq a b \<Longrightarrow> secret_hash sha256 a = secret_hash sha256 b"
  "secret_hash sha256 a < 2 ^ 64"
  "secret_copy a = a \<and> secret_deepcopy a = a \<and> secret_repr (secret_copy a) = secret_repr b"
proof -
  show "secret_eq a b \<longleftrightarrow> a = b" by (auto simp: secret_eq_def secret.expand)
  show "secret_eq a b \<Longrightarrow> secret_hash sha256 a = secret_hash sha256 b" by (simp add: secret_eq_def secret_hash_def)
  have "(256 :: nat) ^ length (take 8 (sha256 (expose a))) \<le> 256 ^ 8" by (rule power_increasing) simp_all
  then show "secret_hash sha256 a < 2 ^ 64"
    using big_endian_bound [of 0 "take 8 (sha256 (expose a))"] unfolding secret_hash_def by simp
  show "secret_copy a = a \<and> secret_deepcopy a = a \<and> secret_repr (secret_copy a) = secret_repr b"
    by (simp add: secret_copy_def secret_deepcopy_def secret_repr_def)
qed

section \<open>The interface\<close>

text \<open>A store answers from what it holds for the tenant and the key, and with \<open>KeyError\<close> where it holds
  nothing.\<close>

locale secret_store =
  fixes secret_get :: "'b \<Rightarrow> string \<Rightarrow> string \<Rightarrow> exn + secret"
    and held :: "'b \<Rightarrow> string \<times> string \<rightharpoonup> string"
  assumes get_held: "secret_get b t k = Inr s \<Longrightarrow> held b (t, k) = Some (expose s)"
    and get_missing: "held b (t, k) = None \<Longrightarrow> \<exists>e. secret_get b t k = Inl e"
begin

text \<open>Credentials a client read came from the tenant's own entries.\<close>

definition credentials :: "'b \<Rightarrow> string \<Rightarrow> string \<Rightarrow> string \<Rightarrow> exn + string \<times> string" where
  "credentials b t user_key password_key =
     bind_res (secret_get b t user_key) (\<lambda>u.
     bind_res (secret_get b t password_key) (\<lambda>p. Inr (expose u, expose p)))"

lemma credentials_held:
  "credentials b t uk pk = Inr (u, p) \<Longrightarrow> held b (t, uk) = Some u \<and> held b (t, pk) = Some p"
  by (auto simp: credentials_def bind_res_eq_Inr dest: get_held)

lemma credentials_missing:
  "held b (t, uk) = None \<or> held b (t, pk) = None \<Longrightarrow> \<exists>e. credentials b t uk pk = Inl e"
  by (cases "credentials b t uk pk") (auto dest: credentials_held)

end

section \<open>The YAML file\<close>

fun yaml_tenant_secrets :: "(string, json) dict \<Rightarrow> (string, string) dict \<Rightarrow> exn + (string, string) dict" where
  "yaml_tenant_secrets [] acc = Inr acc"
| "yaml_tenant_secrets ((k, v) # kvs) acc =
     (case v of JStr s \<Rightarrow> yaml_tenant_secrets kvs (dset k s acc) | _ \<Rightarrow> Inl ValueE)"

type_synonym yaml_secrets = "(string, (string, string) dict) dict"

fun yaml_secrets_entries :: "(string, json) dict \<Rightarrow> yaml_secrets \<Rightarrow> exn + yaml_secrets" where
  "yaml_secrets_entries [] acc = Inr acc"
| "yaml_secrets_entries ((t, kv) # rest) acc =
     (case kv of
        JObj kvs \<Rightarrow> bind_res (yaml_tenant_secrets kvs []) (\<lambda>d. yaml_secrets_entries rest (dset t d acc))
      | _ \<Rightarrow> Inl ValueE)"

text \<open>\<open>yaml.safe_load(f) or {}\<close>: an empty document is an empty mapping.\<close>

definition yaml_secrets_load :: "json \<Rightarrow> exn + yaml_secrets" where
  "yaml_secrets_load doc =
     (case py_or doc (JObj []) of JObj d \<Rightarrow> yaml_secrets_entries d [] | _ \<Rightarrow> Inl ValueE)"

definition yaml_secret_get :: "yaml_secrets \<Rightarrow> string \<Rightarrow> string \<Rightarrow> exn + secret" where
  "yaml_secret_get d t k =
     (case dget d t of
        None \<Rightarrow> Inl KeyE
      | Some kv \<Rightarrow> (case dget kv k of None \<Rightarrow> Inl KeyE | Some v \<Rightarrow> Inr (SecretValue v)))"

definition yaml_held :: "yaml_secrets \<Rightarrow> string \<times> string \<rightharpoonup> string" where
  "yaml_held d p = (case dget d (fst p) of None \<Rightarrow> None | Some kv \<Rightarrow> dget kv (snd p))"

interpretation yaml_store: secret_store yaml_secret_get yaml_held
  by unfold_locales (auto simp: yaml_secret_get_def yaml_held_def split: option.splits)

section \<open>AWS Secrets Manager and Vault\<close>

datatype aws_answer = AwsString string | AwsBinary | AwsClientError "string option"

definition secret_path :: "string \<Rightarrow> string \<Rightarrow> string \<Rightarrow> string" where
  "secret_path prefix t k = prefix @ t @ ''/'' @ k"

definition aws_secret_get :: "string \<times> (string \<Rightarrow> aws_answer) \<Rightarrow> string \<Rightarrow> string \<Rightarrow> exn + secret" where
  "aws_secret_get store t k =
     (case snd store (secret_path (fst store) t k) of
        AwsClientError code \<Rightarrow> Inl (if code = Some ''ResourceNotFoundException'' then KeyE else OtherE)
      | AwsBinary \<Rightarrow> Inl ValueE
      | AwsString s \<Rightarrow> Inr (SecretValue s))"

definition aws_held :: "string \<times> (string \<Rightarrow> aws_answer) \<Rightarrow> string \<times> string \<rightharpoonup> string" where
  "aws_held store p =
     (case snd store (secret_path (fst store) (fst p) (snd p)) of AwsString s \<Rightarrow> Some s | _ \<Rightarrow> None)"

interpretation aws_store: secret_store aws_secret_get aws_held
  by unfold_locales (auto simp: aws_secret_get_def aws_held_def split: aws_answer.splits)

record vault_store =
  vt_prefix :: string
  vt_authenticated :: bool
  vt_read :: "string \<Rightarrow> json option"
  vt_str :: "rat \<Rightarrow> string"

text \<open>The constructor refuses a store without a token and without a complete AppRole pair.\<close>

definition new_vault_store ::
    "string option \<Rightarrow> string option \<Rightarrow> string option \<Rightarrow> vault_store \<Rightarrow> exn + vault_store" where
  "new_vault_store token role_id secret_id st =
     (if token = None \<and> (role_id = None \<or> secret_id = None) then Inl ValueE else Inr st)"

text \<open>\<open>vt_read\<close> answers \<open>None\<close> for \<open>InvalidPath\<close>; \<open>PermissionError\<close> is outside the named classes.\<close>

definition vault_secret_get :: "vault_store \<Rightarrow> string \<Rightarrow> string \<Rightarrow> exn + secret" where
  "vault_secret_get st t k =
     (if \<not> vt_authenticated st then Inl OtherE
      else case vt_read st (secret_path (vt_prefix st) t k) of
        None \<Rightarrow> Inl KeyE
      | Some resp \<Rightarrow>
          bind_res (py_get_or resp ''data'' (JObj [])) (\<lambda>outer.
          bind_res (py_get_or outer ''data'' (JObj [])) (\<lambda>data.
          bind_res (py_in ''value'' data) (\<lambda>has.
            if \<not> has then Inl ValueE
            else bind_res (py_index data ''value'') (\<lambda>v. Inr (SecretValue (json_str (vt_str st) v)))))))"

section \<open>SQLite with age encryption\<close>

text \<open>The table maps a tenant and a key to a ciphertext.  Encryption is done by \<open>pyrage\<close>.\<close>

record 'c age_store =
  db_rows :: "string \<times> string \<rightharpoonup> 'c"
  age_encrypt :: "string \<Rightarrow> 'c"
  age_decrypt :: "'c \<Rightarrow> exn + string"

definition sqlite_put :: "string \<Rightarrow> string \<Rightarrow> string \<Rightarrow> 'c age_store \<Rightarrow> 'c age_store" where
  "sqlite_put t k v st = st\<lparr>db_rows := (db_rows st)((t, k) \<mapsto> age_encrypt st v)\<rparr>"

definition sqlite_secret_get :: "'c age_store \<Rightarrow> string \<Rightarrow> string \<Rightarrow> exn + secret" where
  "sqlite_secret_get st t k =
     (case db_rows st (t, k) of
        None \<Rightarrow> Inl KeyE
      | Some row \<Rightarrow> bind_res (age_decrypt st row) (\<lambda>plain. Inr (SecretValue plain)))"

definition sqlite_held :: "'c age_store \<Rightarrow> string \<times> string \<rightharpoonup> string" where
  "sqlite_held st p =
     (case db_rows st p of
        None \<Rightarrow> None
      | Some row \<Rightarrow> (case age_decrypt st row of Inl _ \<Rightarrow> None | Inr plain \<Rightarrow> Some plain))"

interpretation sqlite_store: secret_store sqlite_secret_get sqlite_held
  by unfold_locales
    (auto simp: sqlite_secret_get_def sqlite_held_def bind_res_eq_Inr split: option.splits sum.splits)

section \<open>Futures of asyncio\<close>

text \<open>
  What a future of the standard library does, as its documentation says, for tasks named by numbers:
  awaiting one that is cancelled raises at once; cancelling one that is pending cancels it and
  schedules every task that awaits it; a result or an exception can be set on a pending one only
  (\<open>InvalidStateError\<close> is \<open>OtherE\<close>), and goes to every task that awaits it; and cancelling a task that
  awaits a future cancels that future.
\<close>

record future =
  fl_waiters :: "nat list"
  fl_cancelled :: bool

definition await_future :: "nat \<Rightarrow> 'x future_scheme \<Rightarrow> exn option \<times> 'x future_scheme" where
  "await_future task f =
     (if fl_cancelled f then (Some CancelledE, f) else (None, f\<lparr>fl_waiters := fl_waiters f @ [task]\<rparr>))"

definition cancel_future :: "'x future_scheme \<Rightarrow> (nat \<times> exn) list \<times> 'x future_scheme" where
  "cancel_future f =
     (if fl_cancelled f then ([], f)
      else (map (\<lambda>t. (t, CancelledE)) (fl_waiters f), f\<lparr>fl_waiters := [], fl_cancelled := True\<rparr>))"

definition set_future :: "'r \<Rightarrow> 'x future_scheme \<Rightarrow> exn + (nat \<times> 'r) list" where
  "set_future r f = (if fl_cancelled f then Inl OtherE else Inr (map (\<lambda>t. (t, r)) (fl_waiters f)))"

definition cancel_task_on :: "nat \<Rightarrow> 'x future_scheme \<Rightarrow> (nat \<times> exn) list \<times> 'x future_scheme" where
  "cancel_task_on task f = (if task \<in> set (fl_waiters f) then cancel_future f else ([], f))"

section \<open>The caching store\<close>

text \<open>One entry of \<open>_inflight\<close>: a future, and the caller that fetches.\<close>

record flight = future +
  fl_owner :: nat

type_synonym secret_key = "string \<times> string"

record secret_cache =
  sc_ttl :: rat
  sc_cache :: "secret_key \<rightharpoonup> rat \<times> secret"
  sc_inflight :: "secret_key \<rightharpoonup> flight"

definition new_secret_cache :: "rat \<Rightarrow> secret_cache" where
  "new_secret_cache ttl = \<lparr>sc_ttl = ttl, sc_cache = Map.empty, sc_inflight = Map.empty\<rparr>"

text \<open>What a step does to the outside: it asks the inner store, or a caller's \<open>get\<close> ends.\<close>

datatype cache_event = Asked secret_key | Ended nat secret_key "exn + secret"

definition live_secret :: "rat \<Rightarrow> secret_key \<Rightarrow> secret_cache \<Rightarrow> secret option" where
  "live_secret now k s =
     (case sc_cache s k of Some (expires, v) \<Rightarrow> if expires > now then Some v else None | None \<Rightarrow> None)"

text \<open>\<open>get\<close> up to its first suspension: a live entry is returned, else the caller starts the flight for
  its key or awaits the one in the air; awaiting a cancelled future raises at once.  The bodies
  under the lock never suspend, so the second look at the cache agrees with the first.\<close>

definition cache_get :: "rat \<Rightarrow> nat \<Rightarrow> secret_key \<Rightarrow> secret_cache \<Rightarrow> cache_event list \<times> secret_cache" where
  "cache_get now caller k s =
     (case live_secret now k s of
        Some v \<Rightarrow> ([Ended caller k (Inr v)], s)
      | None \<Rightarrow>
          (case sc_inflight s k of
             None \<Rightarrow> ([Asked k], s\<lparr>sc_inflight := (sc_inflight s)
                (k \<mapsto> \<lparr>fl_waiters = [], fl_cancelled = False, fl_owner = caller\<rparr>)\<rparr>)
           | Some f \<Rightarrow>
               (case await_future caller f of
                  (Some e, f') \<Rightarrow> ([Ended caller k (Inl e)], s)
                | (None, f') \<Rightarrow> ([], s\<lparr>sc_inflight := (sc_inflight s)(k \<mapsto> f')\<rparr>))))"

text \<open>The owner resumes with the inner store's answer, or with its own cancellation, and sets the future;
  when that raises, the owner fails with it.\<close>

definition cache_answer :: "rat \<Rightarrow> secret_key \<Rightarrow> exn + secret \<Rightarrow> secret_cache \<Rightarrow> cache_event list \<times> secret_cache" where
  "cache_answer now k r s =
     (case sc_inflight s k of
        None \<Rightarrow> ([], s)
      | Some f \<Rightarrow>
          (let s1 = s\<lparr>sc_inflight := (sc_inflight s)(k := None)\<rparr>;
               s2 = (case r of Inl _ \<Rightarrow> s1
                     | Inr v \<Rightarrow> s1\<lparr>sc_cache := (sc_cache s1)(k \<mapsto> (now + sc_ttl s1, v))\<rparr>)
           in (case set_future r f of
                 Inl e \<Rightarrow> ([Ended (fl_owner f) k (Inl e)], s2)
               | Inr woken \<Rightarrow> (Ended (fl_owner f) k r # map (\<lambda>(w, x). Ended w k x) woken, s2))))"

text \<open>An event of the outside: the task of a caller that awaits a flight's future is cancelled.\<close>

definition cancel_waiter :: "nat \<Rightarrow> secret_key \<Rightarrow> secret_cache \<Rightarrow> cache_event list \<times> secret_cache" where
  "cancel_waiter w k s =
     (case sc_inflight s k of
        Some f \<Rightarrow>
          (case cancel_task_on w f of
             (woken, f') \<Rightarrow> (map (\<lambda>(t, e). Ended t k (Inl e)) woken, s\<lparr>sc_inflight := (sc_inflight s)(k \<mapsto> f')\<rparr>))
      | None \<Rightarrow> ([], s))"

definition invalidate :: "secret_key \<Rightarrow> secret_cache \<Rightarrow> secret_cache" where
  "invalidate k s = s\<lparr>sc_cache := (sc_cache s)(k := None)\<rparr>"

datatype cache_op =
    Get nat secret_key
  | Answer secret_key "exn + secret"
  | CancelWaiter nat secret_key
  | Invalidate secret_key

fun cache_step :: "rat \<Rightarrow> cache_op \<Rightarrow> secret_cache \<Rightarrow> cache_event list \<times> secret_cache" where
  "cache_step now (Get c k) s = cache_get now c k s"
| "cache_step now (Answer k r) s = cache_answer now k r s"
| "cache_step now (CancelWaiter w k) s = cancel_waiter w k s"
| "cache_step now (Invalidate k) s = ([], invalidate k s)"

fun cache_run :: "(rat \<times> cache_op) list \<Rightarrow> secret_cache \<Rightarrow> (rat \<times> cache_event) list \<times> secret_cache" where
  "cache_run [] s = ([], s)"
| "cache_run ((now, op) # ops) s =
     (case cache_step now op s of
        (evs, s1) \<Rightarrow> (case cache_run ops s1 of (evs', s2) \<Rightarrow> (map (Pair now) evs @ evs', s2)))"

section \<open>Secrets of two tenants are apart\<close>

lemma split_at_slash:
  assumes "CHR ''/'' \<notin> set t" "CHR ''/'' \<notin> set t'" "t @ ''/'' @ k = t' @ ''/'' @ k'"
  shows "t = t' \<and> k = k'"
  using assms
proof (induction t arbitrary: t')
  case Nil
  then show ?case by (cases t') auto
next
  case (Cons c cs)
  then show ?case by (cases t') auto
qed

text \<open>
  No tenant's secret is reachable under another tenant's name.  With tenant ids that hold no
  slash (the registry's pattern admits none), the AWS and Vault path determines the tenant and the
  key, and writing one SQLite secret changes no other.
\<close>

theorem secrets_of_tenants_apart:
  assumes "CHR ''/'' \<notin> set t" "CHR ''/'' \<notin> set t'" "(t, k) \<noteq> (t', k')"
  shows "secret_path prefix t k \<noteq> secret_path prefix t' k' \<and>
    sqlite_secret_get (sqlite_put t k v st) t' k' = sqlite_secret_get st t' k' \<and>
    (age_decrypt st (age_encrypt st v) = Inr v \<longrightarrow>
       sqlite_secret_get (sqlite_put t k v st) t k = Inr (SecretValue v))"
proof -
  have "secret_path prefix t k \<noteq> secret_path prefix t' k'"
    using split_at_slash [OF assms(1,2)] assms(3) by (auto simp: secret_path_def)
  then show ?thesis
    using assms(3) by (auto simp: sqlite_secret_get_def sqlite_put_def split: option.splits)
qed

definition plain_store :: "string age_store" where
  "plain_store = \<lparr>db_rows = Map.empty, age_encrypt = \<lambda>v. rev v, age_decrypt = \<lambda>c. Inr (rev c)\<rparr>"

theorem secrets_of_tenants_apart_witness:
  "secret_path ''wazuh-mcp/'' ''acme'' ''indexer_user'' \<noteq> secret_path ''wazuh-mcp/'' ''beta'' ''indexer_user'' \<and>
   sqlite_secret_get (sqlite_put ''acme'' ''indexer_user'' ''u'' plain_store) ''acme'' ''indexer_user'' =
     Inr (SecretValue ''u'')"
  using secrets_of_tenants_apart [of "''acme''" "''beta''" "''indexer_user''" "''indexer_user''"
      "''wazuh-mcp/''" "''u''" plain_store]
  by (simp add: plain_store_def)

section \<open>Properties of the caching store\<close>

definition backed :: "rat \<Rightarrow> (rat \<times> cache_op) set \<Rightarrow> secret_cache \<Rightarrow> bool" where
  "backed now hist s \<longleftrightarrow>
     (\<forall>k e v. sc_cache s k = Some (e, v) \<longrightarrow>
        (\<exists>t. (t, Answer k (Inr v)) \<in> hist \<and> t \<le> now \<and> e = t + sc_ttl s))"

definition fresh_end :: "rat \<Rightarrow> (rat \<times> cache_op) set \<Rightarrow> rat \<times> cache_event \<Rightarrow> bool" where
  "fresh_end ttl hist te =
     (case te of
        (t, Ended c k (Inr v)) \<Rightarrow>
          \<exists>t'. (t', Answer k (Inr v)) \<in> hist \<and> t' \<le> t \<and> (t' = t \<or> t < t' + ttl)
      | _ \<Rightarrow> True)"

text \<open>The steps with the operations of the future written out.\<close>

lemmas future_defs = await_future_def cancel_future_def set_future_def cancel_task_on_def

lemma cache_get_unfold:
  "cache_get now caller k s =
     (case live_secret now k s of
        Some v \<Rightarrow> ([Ended caller k (Inr v)], s)
      | None \<Rightarrow>
          (case sc_inflight s k of
             None \<Rightarrow> ([Asked k], s\<lparr>sc_inflight := (sc_inflight s)
                (k \<mapsto> \<lparr>fl_waiters = [], fl_cancelled = False, fl_owner = caller\<rparr>)\<rparr>)
           | Some f \<Rightarrow>
               if fl_cancelled f then ([Ended caller k (Inl CancelledE)], s)
               else ([], s\<lparr>sc_inflight := (sc_inflight s)
                      (k \<mapsto> f\<lparr>fl_waiters := fl_waiters f @ [caller]\<rparr>)\<rparr>)))"
  by (simp add: cache_get_def future_defs split: option.splits)

lemma cache_answer_unfold:
  "cache_answer now k r s =
     (case sc_inflight s k of
        None \<Rightarrow> ([], s)
      | Some f \<Rightarrow>
          (let s1 = s\<lparr>sc_inflight := (sc_inflight s)(k := None)\<rparr>;
               s2 = (case r of Inl _ \<Rightarrow> s1
                     | Inr v \<Rightarrow> s1\<lparr>sc_cache := (sc_cache s1)(k \<mapsto> (now + sc_ttl s1, v))\<rparr>)
           in (if fl_cancelled f then [Ended (fl_owner f) k (Inl OtherE)]
               else Ended (fl_owner f) k r # map (\<lambda>w. Ended w k r) (fl_waiters f), s2)))"
  by (simp add: cache_answer_def future_defs Let_def comp_def split: option.splits)

lemma cancel_waiter_unfold:
  "cancel_waiter w k s =
     (case sc_inflight s k of
        Some f \<Rightarrow>
          if w \<in> set (fl_waiters f) \<and> \<not> fl_cancelled f
          then (map (\<lambda>w'. Ended w' k (Inl CancelledE)) (fl_waiters f),
                s\<lparr>sc_inflight := (sc_inflight s)(k \<mapsto> f\<lparr>fl_waiters := [], fl_cancelled := True\<rparr>)\<rparr>)
          else ([], s)
      | None \<Rightarrow> ([], s))"
  by (auto simp: cancel_waiter_def future_defs comp_def map_upd_triv split: option.splits)

lemmas cache_defs = cache_get_unfold cache_answer_unfold cancel_waiter_unfold invalidate_def live_secret_def Let_def

lemma cache_step_ttl: "cache_step now op s = (evs, s') \<Longrightarrow> sc_ttl s' = sc_ttl s"
  by (cases op) (auto simp: cache_defs split: option.splits if_splits sum.splits prod.splits)

lemma backed_mono: "backed now hist s \<Longrightarrow> now \<le> now' \<Longrightarrow> hist \<subseteq> hist' \<Longrightarrow> backed now' hist' s"
  unfolding backed_def by (meson order_trans subset_iff)

lemma backed_entry:
  "backed now hist s \<Longrightarrow> live_secret now k s = Some v \<Longrightarrow>
    \<exists>t. (t, Answer k (Inr v)) \<in> hist \<and> t \<le> now \<and> now < t + sc_ttl s"
  unfolding backed_def live_secret_def by (fastforce split: option.splits if_splits)

lemma backed_cong: "backed now hist s \<Longrightarrow> sc_cache s' = sc_cache s \<Longrightarrow> sc_ttl s' = sc_ttl s \<Longrightarrow> backed now hist s'"
  by (simp add: backed_def)

lemma backed_put:
  assumes "backed now hist s" "(now, Answer k (Inr v)) \<in> hist"
    and "sc_cache s' = (sc_cache s)(k \<mapsto> (now + sc_ttl s, v))" "sc_ttl s' = sc_ttl s"
  shows "backed now hist s'"
  unfolding backed_def
proof (intro allI impI)
  fix k' e v'
  assume "sc_cache s' k' = Some (e, v')"
  then show "\<exists>t. (t, Answer k' (Inr v')) \<in> hist \<and> t \<le> now \<and> e = t + sc_ttl s'"
    using assms unfolding backed_def by (cases "k' = k") (auto simp del: split_paired_All split_paired_Ex)
qed

lemma backed_drop:
  assumes "backed now hist s" "sc_cache s' = (sc_cache s)(k := None)" "sc_ttl s' = sc_ttl s"
  shows "backed now hist s'"
  unfolding backed_def
proof (intro allI impI)
  fix k' e v'
  assume "sc_cache s' k' = Some (e, v')"
  then show "\<exists>t. (t, Answer k' (Inr v')) \<in> hist \<and> t \<le> now \<and> e = t + sc_ttl s'"
    using assms unfolding backed_def by (cases "k' = k") (auto simp del: split_paired_All split_paired_Ex)
qed

lemma cache_step_backed:
  assumes "cache_step now op s = (evs, s')" "backed now hist s"
  shows "backed now (insert (now, op) hist) s'"
proof -
  have keep: "backed now (insert (now, op) hist) s" using assms(2) by (auto intro: backed_mono)
  show ?thesis
  proof (cases op)
    case (Get c k)
    show ?thesis
      by (rule backed_cong [OF keep])
        (use assms(1) Get in \<open>auto simp: cache_get_unfold split: option.splits if_splits\<close>)
  next
    case (Answer k r)
    show ?thesis
    proof (cases "sc_inflight s k = None \<or> (\<exists>e. r = Inl e)")
      case True
      show ?thesis
        by (rule backed_cong [OF keep])
          (use assms(1) Answer True in \<open>auto simp: cache_answer_unfold Let_def split: option.splits\<close>)
    next
      case False
      then obtain v where v: "r = Inr v" by (cases r) auto
      show ?thesis
        by (rule backed_put [OF keep, where k = k and v = v])
          (use assms(1) Answer False v in \<open>auto simp: cache_answer_unfold Let_def split: option.splits\<close>)
    qed
  next
    case (CancelWaiter w k)
    show ?thesis
      by (rule backed_cong [OF keep])
        (use assms(1) CancelWaiter in \<open>auto simp: cancel_waiter_unfold split: option.splits if_splits\<close>)
  next
    case (Invalidate k)
    show ?thesis
      by (rule backed_drop [OF keep, where k = k])
        (use assms(1) Invalidate in \<open>auto simp: invalidate_def\<close>)
  qed
qed

text \<open>The secrets a step returns: one that is live in the cache, or the answer that just came.\<close>

lemma cache_step_values:
  assumes "cache_step now op s = (evs, s')" "Ended c k (Inr v) \<in> set evs"
  shows "live_secret now k s = Some v \<or> op = Answer k (Inr v)"
  using assms
  by (cases op)
    (auto simp: cache_get_unfold cache_answer_unfold cancel_waiter_unfold Let_def split: option.splits if_splits)

lemma cache_step_fresh:
  assumes "cache_step now op s = (evs, s')" "backed now hist s" "ev \<in> set evs"
  shows "fresh_end (sc_ttl s) (insert (now, op) hist) (now, ev)"
proof (cases ev)
  case (Ended c k r)
  show ?thesis
  proof (cases r)
    case (Inr v)
    then show ?thesis
      using cache_step_values [OF assms(1)] assms(3) backed_entry [OF assms(2)] Ended
      by (fastforce simp: fresh_end_def)
  qed (simp add: fresh_end_def Ended)
qed (simp add: fresh_end_def)

lemma fresh_end_mono: "fresh_end ttl hist te \<Longrightarrow> hist \<subseteq> hist' \<Longrightarrow> fresh_end ttl hist' te"
  unfolding fresh_end_def by (cases te; cases "snd te") (fastforce split: sum.splits)+

lemma cache_run_fresh:
  assumes "cache_run ops s = (evs, s')" "backed now hist s" "sorted (now # map fst ops)" "te \<in> set evs"
  shows "fresh_end (sc_ttl s) (hist \<union> set ops) te"
  using assms
proof (induction ops arbitrary: s now hist evs)
  case Nil
  then show ?case by simp
next
  case (Cons top ops)
  obtain t op where top: "top = (t, op)" by (cases top)
  obtain ev1 s1 where st: "cache_step t op s = (ev1, s1)" by fastforce
  obtain ev2 where run: "cache_run ops s1 = (ev2, s')" and evs: "evs = map (Pair t) ev1 @ ev2"
    using Cons.prems(1) top st by (auto split: prod.splits)
  have b: "backed t hist s" using Cons.prems(2,3) top by (auto intro: backed_mono)
  have "te \<in> set ev2 \<Longrightarrow> fresh_end (sc_ttl s1) (insert (t, op) hist \<union> set ops) te"
    using Cons.IH [OF run cache_step_backed [OF st b]] Cons.prems(3) top by simp
  then show ?case
    using Cons.prems(4) cache_step_fresh [OF st b] cache_step_ttl [OF st] top
    by (auto simp: evs intro: fresh_end_mono)
qed

text \<open>
  C25: a caller is never handed another tenant's secret, nor a stale one.  Whatever the schedule of
  callers, answers, cancellations and invalidations, a secret returned for a tenant and a key was
  given by the inner store for that tenant and key, at that moment or less than the time to live
  ago; a failure of the inner store is never returned later as a cached value.
\<close>

theorem cached_secret_fresh:
  assumes "sorted (map fst ops)"
    and "(t, Ended c k (Inr v)) \<in> set (fst (cache_run ops (new_secret_cache ttl)))"
  shows "\<exists>t'. (t', Answer k (Inr v)) \<in> set ops \<and> t' \<le> t \<and> (t' = t \<or> t < t' + ttl)"
proof -
  obtain evs s' where run: "cache_run ops (new_secret_cache ttl) = (evs, s')" by fastforce
  define t0 where "t0 = (case ops of [] \<Rightarrow> 0 | op # _ \<Rightarrow> fst op)"
  have "backed t0 {} (new_secret_cache ttl)" by (simp add: backed_def new_secret_cache_def)
  moreover have "sorted (t0 # map fst ops)" using assms(1) by (cases ops) (auto simp: t0_def)
  ultimately show ?thesis
    using cache_run_fresh [OF run] assms(2) run
    by (fastforce simp: fresh_end_def new_secret_cache_def)
qed

theorem cached_secret_fresh_witness:
  "\<exists>t'. (t', Answer (''acme'', ''pw'') (Inr (SecretValue ''s''))) \<in>
      {(0, Get 1 (''acme'', ''pw'')), (1, Answer (''acme'', ''pw'') (Inr (SecretValue ''s''))),
       (2, Get 2 (''acme'', ''pw''))} \<and> t' \<le> (2::rat) \<and> (t' = 2 \<or> 2 < t' + 300)"
  using cached_secret_fresh [of "[(0, Get 1 (''acme'', ''pw'')),
      (1, Answer (''acme'', ''pw'') (Inr (SecretValue ''s''))), (2, Get 2 (''acme'', ''pw''))]"
      2 2 "(''acme'', ''pw'')" "SecretValue ''s''" 300]
  by (simp add: new_secret_cache_def cache_defs)

text \<open>Callers of a key who still wait, and what a run asked and answered.\<close>

definition pending :: "secret_key \<Rightarrow> secret_cache \<Rightarrow> nat" where
  "pending k s = (case sc_inflight s k of None \<Rightarrow> 0 | Some f \<Rightarrow> 1 + length (fl_waiters f))"

definition airborne :: "secret_key \<Rightarrow> secret_cache \<Rightarrow> nat" where
  "airborne k s = (case sc_inflight s k of None \<Rightarrow> 0 | Some _ \<Rightarrow> 1)"

fun asks :: "secret_key \<Rightarrow> cache_event \<Rightarrow> bool" where
  "asks k (Asked k') = (k' = k)" | "asks k _ = False"

fun ends :: "secret_key \<Rightarrow> cache_event \<Rightarrow> bool" where
  "ends k (Ended _ k' _) = (k' = k)" | "ends k _ = False"

fun gets :: "secret_key \<Rightarrow> cache_op \<Rightarrow> bool" where
  "gets k (Get _ k') = (k' = k)" | "gets k _ = False"

fun answers :: "secret_key \<Rightarrow> cache_op \<Rightarrow> bool" where
  "answers k (Answer k' _) = (k' = k)" | "answers k _ = False"

definition count_of :: "('a \<Rightarrow> bool) \<Rightarrow> (rat \<times> 'a) list \<Rightarrow> nat" where
  "count_of p xs = length (filter (p \<circ> snd) xs)"

lemma count_of_simps [simp]:
  "count_of p [] = 0" "count_of p (x # xs) = (if p (snd x) then Suc (count_of p xs) else count_of p xs)"
  "count_of p (xs @ ys) = count_of p xs + count_of p ys"
  by (simp_all add: count_of_def)

lemma count_of_ended [simp]:
  "count_of (ends k) (map (Pair now) (map (\<lambda>w. Ended w k' r) ws)) = (if k' = k then length ws else 0)"
  "count_of (asks k) (map (Pair now) (map (\<lambda>w. Ended w k' r) ws)) = 0"
  by (induction ws) auto

lemma airborne_new:
  "airborne k (new_secret_cache ttl) = 0" "pending k (new_secret_cache ttl) = 0"
  by (simp_all add: airborne_def pending_def new_secret_cache_def)

lemma cache_step_asked:
  assumes "cache_step now op s = (evs, s')"
  shows "count_of (asks k) (map (Pair now) evs) + airborne k s
           \<le> count_of (answers k) [(now, op)] + airborne k s'"
proof (cases op)
  case (Get c k')
  with assms show ?thesis
    by (auto simp: airborne_def cache_get_unfold split: option.splits if_splits)
next
  case (Answer k' r)
  with assms show ?thesis
    by (cases "sc_inflight s k'"; cases r) (auto simp: airborne_def cache_answer_unfold simp del: map_map)
next
  case (CancelWaiter w k')
  with assms show ?thesis
    by (auto simp: airborne_def cancel_waiter_unfold simp del: map_map split: option.splits if_splits)
next
  case (Invalidate k')
  with assms show ?thesis by (auto simp: airborne_def invalidate_def)
qed

text \<open>A cancelled future has no waiters left.\<close>

definition flight_ok :: "flight \<Rightarrow> bool" where
  "flight_ok f \<longleftrightarrow> (fl_cancelled f \<longrightarrow> fl_waiters f = [])"

definition flights_ok :: "secret_cache \<Rightarrow> bool" where
  "flights_ok s \<longleftrightarrow> (\<forall>k. pred_option flight_ok (sc_inflight s k))"

lemma flights_ok_upd:
  "flights_ok s \<Longrightarrow> sc_inflight s' = (sc_inflight s)(k := fo) \<Longrightarrow> pred_option flight_ok fo \<Longrightarrow> flights_ok s'"
  unfolding flights_ok_def by simp

lemma flights_ok_cong: "flights_ok s \<Longrightarrow> sc_inflight s' = sc_inflight s \<Longrightarrow> flights_ok s'"
  unfolding flights_ok_def by simp

lemma flights_ok_step:
  assumes "cache_step now op s = (evs, s')" "flights_ok s"
  shows "flights_ok s'"
proof (cases op)
  case (Get c k)
  with assms show ?thesis
    by (auto simp: cache_get_unfold flight_ok_def split: option.splits if_splits
        intro: flights_ok_upd [OF assms(2)])
next
  case (Answer k r)
  with assms show ?thesis
    by (auto simp: cache_answer_unfold Let_def split: option.splits sum.splits
        intro: flights_ok_upd [OF assms(2), where fo = None])
next
  case (CancelWaiter w k)
  with assms show ?thesis
    by (auto simp: cancel_waiter_unfold flight_ok_def split: option.splits if_splits
        intro: flights_ok_upd [OF assms(2)])
next
  case (Invalidate k)
  with assms show ?thesis by (auto simp: invalidate_def intro: flights_ok_cong)
qed

lemma cache_step_ended:
  assumes "cache_step now op s = (evs, s')" "flights_ok s"
  shows "count_of (ends k) (map (Pair now) evs) + pending k s'
           = count_of (gets k) [(now, op)] + pending k s"
proof (cases op)
  case (Get c k')
  with assms show ?thesis
    by (auto simp: pending_def cache_get_unfold split: option.splits if_splits)
next
  case (Answer k' r)
  have "pred_option flight_ok (sc_inflight s k')" using assms(2) by (simp add: flights_ok_def del: split_paired_All)
  with Answer assms(1) show ?thesis
    by (cases "sc_inflight s k'"; cases r)
      (auto simp: pending_def cache_answer_unfold flight_ok_def simp del: map_map)
next
  case (CancelWaiter w k')
  with assms show ?thesis
    by (auto simp: pending_def cancel_waiter_unfold simp del: map_map split: option.splits if_splits)
next
  case (Invalidate k')
  with assms show ?thesis by (auto simp: pending_def invalidate_def)
qed

lemma cache_run_counts:
  assumes "cache_run ops s = (evs, s')" "flights_ok s"
  shows "count_of (asks k) evs + airborne k s \<le> count_of (answers k) ops + airborne k s' \<and>
    count_of (ends k) evs + pending k s' = count_of (gets k) ops + pending k s"
  using assms
proof (induction ops arbitrary: s evs)
  case Nil
  then show ?case by simp
next
  case (Cons top ops)
  obtain t op where top: "top = (t, op)" by (cases top)
  obtain ev1 s1 where st: "cache_step t op s = (ev1, s1)" by fastforce
  obtain ev2 where run: "cache_run ops s1 = (ev2, s')" and evs: "evs = map (Pair t) ev1 @ ev2"
    using Cons.prems(1) top st by (auto split: prod.splits)
  show ?case
    using Cons.IH [OF run flights_ok_step [OF st Cons.prems(2)]] cache_step_asked [OF st, of k]
      cache_step_ended [OF st Cons.prems(2), of k]
    by (auto simp: evs top split: if_splits)
qed

lemma flights_ok_new [simp]: "flights_ok (new_secret_cache ttl)"
  by (simp add: flights_ok_def new_secret_cache_def)

text \<open>
  C26: single flight.  However many callers ask for one secret at once, the inner store is asked
  again only after it has answered, and every caller is accounted for: each \<open>get\<close> has ended or is
  still waiting in the flight of its key.
\<close>

theorem single_flight:
  "count_of (asks k) (fst (cache_run ops (new_secret_cache ttl))) \<le> count_of (answers k) ops + 1 \<and>
   count_of (gets k) ops = count_of (ends k) (fst (cache_run ops (new_secret_cache ttl))) +
     pending k (snd (cache_run ops (new_secret_cache ttl)))"
proof -
  obtain evs s' where run: "cache_run ops (new_secret_cache ttl) = (evs, s')" by fastforce
  have "airborne k s' \<le> 1" by (simp add: airborne_def split: option.splits)
  then show ?thesis
    using cache_run_counts [OF run, of k] unfolding run
    by (simp add: airborne_new)
qed

text \<open>While a cancelled flight is in the air and, at the times \<open>ts\<close>, nothing live is cached, each \<open>get\<close> of its
  key ends cancelled and no secret is returned.\<close>

definition doomed :: "secret_key \<Rightarrow> rat set \<Rightarrow> nat \<Rightarrow> secret_cache \<Rightarrow> bool" where
  "doomed k ts c s \<longleftrightarrow> (\<forall>t \<in> ts. live_secret t k s = None) \<and> (\<exists>f. sc_inflight s k = Some f \<and> fl_cancelled f \<and> fl_waiters f = [] \<and> fl_owner f = c)"

lemma doomed_step:
  assumes "doomed k ts c s" "\<not> answers k op" "now \<in> ts" "cache_step now op s = (evs, s')"
  shows "doomed k ts c s' \<and> (\<forall>ev \<in> set evs. ends k ev \<longrightarrow> (\<exists>d. op = Get d k \<and> ev = Ended d k (Inl CancelledE))) \<and>
    (\<forall>d. op = Get d k \<longrightarrow> Ended d k (Inl CancelledE) \<in> set evs)"
proof (cases op)
  case (Get d k')
  then show ?thesis using assms
    by (cases "k' = k") (auto simp: doomed_def cache_get_unfold live_secret_def split: option.splits if_splits prod.splits)
next
  case (Answer k' r)
  then show ?thesis using assms
    by (auto simp: doomed_def live_secret_def cache_answer_unfold Let_def split: option.splits sum.splits if_splits)
next
  case (CancelWaiter w k')
  then show ?thesis using assms
    by (cases "k' = k") (auto simp: doomed_def live_secret_def cancel_waiter_unfold split: option.splits if_splits)
next
  case (Invalidate k')
  then show ?thesis using assms by (auto simp: doomed_def live_secret_def invalidate_def)
qed

lemma doomed_run:
  assumes "cache_run ops s = (evs, s')" "doomed k ts c s" "\<forall>top \<in> set ops. fst top \<in> ts \<and> \<not> answers k (snd top)"
  shows "doomed k ts c s' \<and> (\<forall>t d r. (t, Ended d k r) \<in> set evs \<longrightarrow> r = Inl CancelledE) \<and>
    (\<forall>t d. (t, Get d k) \<in> set ops \<longrightarrow> (t, Ended d k (Inl CancelledE)) \<in> set evs)"
  using assms
proof (induction ops arbitrary: s evs)
  case (Cons top ops)
  obtain t op where top: "top = (t, op)" by (cases top)
  obtain ev1 s1 where st: "cache_step t op s = (ev1, s1)" by fastforce
  obtain ev2 where run: "cache_run ops s1 = (ev2, s')" and evs: "evs = map (Pair t) ev1 @ ev2"
    using Cons.prems(1) top st by (auto split: prod.splits)
  have one: "doomed k ts c s1" "\<forall>ev \<in> set ev1. ends k ev \<longrightarrow> (\<exists>d. op = Get d k \<and> ev = Ended d k (Inl CancelledE))"
      "\<forall>d. op = Get d k \<longrightarrow> Ended d k (Inl CancelledE) \<in> set ev1"
    using doomed_step [OF Cons.prems(2) _ _ st] Cons.prems(3) top by auto
  have rest: "doomed k ts c s'" "\<forall>t d r. (t, Ended d k r) \<in> set ev2 \<longrightarrow> r = Inl CancelledE"
      "\<forall>t d. (t, Get d k) \<in> set ops \<longrightarrow> (t, Ended d k (Inl CancelledE)) \<in> set ev2"
    using Cons.IH [OF run one(1)] Cons.prems(3) by auto
  have "r = Inl CancelledE" if "(u, Ended d k r) \<in> set evs" for u d r
    using that one(2) rest(2) unfolding evs by (force simp del: split_paired_All)
  moreover have "(u, Ended d k (Inl CancelledE)) \<in> set evs" if "(u, Get d k) \<in> set (top # ops)" for u d
    using that one(3) rest(3) unfolding evs top by auto
  ultimately show ?case using rest(1) by blast
qed simp

lemma cache_run_append:
  "cache_run (ops @ ops') s =
     (case cache_run ops s of (evs, s1) \<Rightarrow> (case cache_run ops' s1 of (evs', s2) \<Rightarrow> (evs @ evs', s2)))"
  by (induction ops arbitrary: s) (auto split: prod.splits)

text \<open>
  C40: One client that gives up makes the others fail.  When one caller that awaits a shared fetch is
  cancelled, then until the inner store answers, as long as no live entry is cached and whatever else
  happens: every other waiter and every later caller of the key ends cancelled, the caller that does the fetching fails at the answer even
  when the inner store brings the secret, and no caller of the key gets the secret.
\<close>

theorem cancelled_waiter_fails_all:
  assumes "sc_inflight s k = Some f" "\<not> fl_cancelled f" "w \<in> set (fl_waiters f)"
    and "\<forall>(u, op) \<in> set ops. live_secret u k s = None \<and> \<not> answers k op"
    and "cache_run ((t, CancelWaiter w k) # ops @ [(t', Answer k r)]) s = (evs, s')"
  shows "(\<forall>w' \<in> set (fl_waiters f). (t, Ended w' k (Inl CancelledE)) \<in> set evs) \<and>
    (\<forall>u d. (u, Get d k) \<in> set ops \<longrightarrow> (u, Ended d k (Inl CancelledE)) \<in> set evs) \<and>
    (t', Ended (fl_owner f) k (Inl OtherE)) \<in> set evs \<and> (\<forall>u d v. (u, Ended d k (Inr v)) \<notin> set evs)"
proof -
  obtain ev1 s1 where st: "cancel_waiter w k s = (ev1, s1)" by fastforce
  obtain ev2 s2 where run: "cache_run ops s1 = (ev2, s2)" by fastforce
  obtain ev3 where ans: "cache_answer t' k r s2 = (ev3, s')" and evs: "evs = map (Pair t) ev1 @ ev2 @ map (Pair t') ev3"
    using assms(5) st run by (auto simp: cache_run_append split: prod.splits)
  have ev1: "ev1 = map (\<lambda>w'. Ended w' k (Inl CancelledE)) (fl_waiters f)" and s1: "sc_cache s1 = sc_cache s"
    and "\<exists>g. sc_inflight s1 k = Some g \<and> fl_cancelled g \<and> fl_waiters g = [] \<and> fl_owner g = fl_owner f"
    using st assms(1-3) by (auto simp: cancel_waiter_unfold)
  moreover have "\<forall>u \<in> fst ` set ops. live_secret u k s1 = None" using assms(4) s1 by (auto simp: live_secret_def)
  ultimately have d1: "doomed k (fst ` set ops) (fl_owner f) s1" by (simp add: doomed_def)
  have "\<forall>top \<in> set ops. fst top \<in> fst ` set ops \<and> \<not> answers k (snd top)" using assms(4) by auto
  note d2 = doomed_run [OF run d1 this]
  then have "ev3 = [Ended (fl_owner f) k (Inl OtherE)]"
    using ans by (auto simp: doomed_def cache_answer_unfold Let_def)
  then show ?thesis using d2 by (fastforce simp: evs ev1)
qed

text \<open>Three callers of one secret: the second gives up, a fourth comes, the answer arrives.\<close>

theorem cancelled_waiter_fails_all_witness:
  "\<exists>evs s'. cache_run [(1, CancelWaiter 2 (''acme'', ''pw'')), (2, Get 4 (''acme'', ''pw'')),
      (3, Answer (''acme'', ''pw'') (Inr (SecretValue ''s'')))]
      (snd (cache_run [(0, Get 1 (''acme'', ''pw'')), (0, Get 2 (''acme'', ''pw'')), (0, Get 3 (''acme'', ''pw''))]
        (new_secret_cache 300))) = (evs, s') \<and>
    (1, Ended 3 (''acme'', ''pw'') (Inl CancelledE)) \<in> set evs \<and> (2, Ended 4 (''acme'', ''pw'') (Inl CancelledE)) \<in> set evs \<and>
    (3, Ended 1 (''acme'', ''pw'') (Inl OtherE)) \<in> set evs"
proof -
  let ?k = "(''acme'', ''pw'')"
  let ?s = "snd (cache_run [(0, Get 1 ?k), (0, Get 2 ?k), (0, Get 3 ?k)] (new_secret_cache 300))"
  let ?f = "\<lparr>fl_waiters = [2, 3], fl_cancelled = False, fl_owner = 1\<rparr> :: flight"
  have s: "sc_inflight ?s ?k = Some ?f" "live_secret u ?k ?s = None" for u
    by (simp_all add: cache_get_unfold live_secret_def new_secret_cache_def)
  obtain evs s' where run: "cache_run ((1, CancelWaiter 2 ?k) # [(2, Get 4 ?k)] @ [(3, Answer ?k (Inr (SecretValue ''s'')))]) ?s = (evs, s')"
    by fastforce
  have "(\<forall>w' \<in> set (fl_waiters ?f). (1, Ended w' ?k (Inl CancelledE)) \<in> set evs) \<and>
      (\<forall>u d. (u, Get d ?k) \<in> set [(2, Get 4 ?k)] \<longrightarrow> (u, Ended d ?k (Inl CancelledE)) \<in> set evs) \<and>
      (3, Ended (fl_owner ?f) ?k (Inl OtherE)) \<in> set evs \<and> (\<forall>u d v. (u, Ended d ?k (Inr v)) \<notin> set evs)"
    by (rule cancelled_waiter_fails_all [OF s(1) _ _ _ run]) (use s(2) in simp_all)
  then show ?thesis using run by simp
qed

end
