(* ===== verification/Pools.thy ===== *)
theory Pools imports ServerApi Secrets Rbac begin

text \<open>
  The indexer client (\<open>wazuh/indexer.py\<close>) and the two per-tenant client pools
  (\<open>wazuh/indexer_pool.py\<close>, \<open>wazuh/server_api_pool.py\<close>), over any tenant registry and any secret
  store.  An acquisition runs under the pool's lock and is one step.
\<close>

section \<open>The indexer client\<close>

record indexer_client =
  ix_base :: string
  ix_user :: string
  ix_password :: string
  ix_verify :: verify
  ix_feed :: "answer list"
  ix_sent :: "request list"

definition new_indexer_client ::
    "string \<Rightarrow> string \<Rightarrow> string \<Rightarrow> bool \<Rightarrow> string option \<Rightarrow> answer list \<Rightarrow> indexer_client" where
  "new_indexer_client base user password verify_flag ca feed =
     \<lparr>ix_base = rstrip_char (CHR ''/'') base, ix_user = user, ix_password = password,
      ix_verify = tls_verify verify_flag ca, ix_feed = feed, ix_sent = []\<rparr>"

type_synonym 'a indexer = "indexer_client \<Rightarrow> (exn + 'a) \<times> indexer_client"

text \<open>A transport exception of \<open>httpx\<close> is not translated here.\<close>

definition ix_send :: "request \<Rightarrow> json indexer" where
  "ix_send rq c =
     (let c1 = c\<lparr>ix_sent := ix_sent c @ [rq]\<rparr>
      in case ix_feed c of
           [] \<Rightarrow> (Inl OtherE, c1)
         | Inl e # rs \<Rightarrow> (Inl e, c1\<lparr>ix_feed := rs\<rparr>)
         | Inr r # rs \<Rightarrow> (finish_response r, c1\<lparr>ix_feed := rs\<rparr>))"

definition basic_auth :: "indexer_client \<Rightarrow> auth" where
  "basic_auth c = Basic (ix_user c) (ix_password c)"

definition safe_name :: "string \<Rightarrow> bool" where
  "safe_name s \<longleftrightarrow> s \<noteq> [] \<and> CHR ''/'' \<notin> set s \<and> \<not> contains_sub ''..'' s"

definition search :: "string \<Rightarrow> json \<Rightarrow> json indexer" where
  "search index query c =
     (if \<not> safe_name index then (Inl ValueE, c)
      else ix_send \<lparr>rq_method = ''POST'', rq_path = ''/'' @ index @ ''/_search'', rq_params = [],
             rq_json = Some query, rq_content = None, rq_auth = basic_auth c\<rparr> c)"

definition bulk :: "string \<Rightarrow> json indexer" where
  "bulk body c =
     ix_send \<lparr>rq_method = ''POST'', rq_path = ''/_bulk'', rq_params = [], rq_json = None,
       rq_content = Some (body, ''application/x-ndjson''), rq_auth = basic_auth c\<rparr> c"

definition put_index_template :: "string \<Rightarrow> json \<Rightarrow> json indexer" where
  "put_index_template name body c =
     (if \<not> safe_name name then (Inl ValueE, c)
      else ix_send \<lparr>rq_method = ''PUT'', rq_path = ''/_index_template/'' @ name, rq_params = [],
             rq_json = Some body, rq_content = None, rq_auth = basic_auth c\<rparr> c)"

lemma ix_send_sent:
  "ix_send rq c = (r, c') \<Longrightarrow> ix_sent c' = ix_sent c @ [rq] \<and> ix_base c' = ix_base c"
  by (auto simp: ix_send_def Let_def split: list.splits sum.splits)

section \<open>Where a tenant's Server API lives\<close>

text \<open>\<open>str.replace\<close>: every occurrence, from the left.\<close>

function replace_all :: "string \<Rightarrow> string \<Rightarrow> string \<Rightarrow> string" where
  "replace_all old new s =
     (if old \<noteq> [] \<and> startswith s old then new @ replace_all old new (drop (length old) s)
      else case s of [] \<Rightarrow> [] | c # cs \<Rightarrow> c # replace_all old new cs)"
  by auto
termination
proof (relation "measure (\<lambda>(old, new, s). length s)")
  fix old new s :: string
  assume "old \<noteq> [] \<and> startswith s old"
  then have "s \<noteq> []" "old \<noteq> []" by (auto simp: startswith_def)
  then show "((old, new, drop (length old) s), old, new, s) \<in> measure (\<lambda>(old, new, s). length s)"
    by simp
qed auto

declare replace_all.simps [simp del]

definition derive_server_api_url :: "tenant_config \<Rightarrow> string" where
  "derive_server_api_url t =
     (let u = rstrip_char (CHR ''/'') (indexer_url t)
      in if contains_sub '':9200'' u then replace_all '':9200'' '':55000'' u else u @ '':55000'')"

definition server_api_base :: "tenant_config \<Rightarrow> string" where
  "server_api_base t =
     (case server_api_url t of
        Some u \<Rightarrow> rstrip_char (CHR ''/'') u
      | None \<Rightarrow> derive_server_api_url t)"

section \<open>The pools\<close>

type_synonym registry_get = "string \<Rightarrow> exn + tenant_config"
type_synonym secrets_get = "string \<Rightarrow> string \<Rightarrow> exn + secret"

text \<open>What a client is constructed with: its address, the user and password, the certificate check.\<close>

record client_args =
  cl_url :: string
  cl_user :: string
  cl_password :: string
  cl_verify_tls :: bool
  cl_ca :: "string option"

type_synonym client_open = "string \<Rightarrow> exn + client_args"

text \<open>\<open>sp_open\<close> and \<open>ip_open\<close> look the tenant up and fetch its credentials, in the order of
  \<open>acquire\<close>.  The stdio server opens its clients another way, so opening is an argument below.\<close>

record server_api_pool =
  sp_clients :: "(string, api_client) dict"
  sp_closed :: bool

definition new_server_api_pool :: server_api_pool where
  "new_server_api_pool = \<lparr>sp_clients = [], sp_closed = False\<rparr>"

definition sp_open :: "registry_get \<Rightarrow> secrets_get \<Rightarrow> client_open" where
  "sp_open reg sec tid =
     bind_res (reg tid) (\<lambda>t.
     bind_res (sec tid ''server_api_user'') (\<lambda>u.
     bind_res (sec tid ''server_api_password'') (\<lambda>pw.
       Inr \<lparr>cl_url = server_api_base t, cl_user = expose u, cl_password = expose pw,
            cl_verify_tls = verify_tls t, cl_ca = ca_bundle_path t\<rparr>)))"

definition sp_fresh :: "client_open \<Rightarrow> (string \<Rightarrow> answer list) \<Rightarrow> string \<Rightarrow> exn + api_client" where
  "sp_fresh opn net tid =
     bind_res (opn tid) (\<lambda>a.
       Inr (new_api_client (cl_url a) (cl_user a) (cl_password a) (cl_verify_tls a) (cl_ca a) (net (cl_url a))))"

definition sp_acquire ::
    "client_open \<Rightarrow> (string \<Rightarrow> answer list) \<Rightarrow> string \<Rightarrow> server_api_pool \<Rightarrow> (exn + api_client) \<times> server_api_pool" where
  "sp_acquire opn net tid p =
     (if sp_closed p then (Inl RuntimeE, p)
      else case dget (sp_clients p) tid of
        Some c \<Rightarrow> (Inr c, p)
      | None \<Rightarrow>
          (case sp_fresh opn net tid
           of Inl e \<Rightarrow> (Inl e, p)
            | Inr c \<Rightarrow> (Inr c, p\<lparr>sp_clients := dset tid c (sp_clients p)\<rparr>)))"

text \<open>The clients are shared objects: what a handler does to one stays in the pool.\<close>

definition sp_store :: "string \<Rightarrow> api_client \<Rightarrow> server_api_pool \<Rightarrow> server_api_pool" where
  "sp_store tid c p = p\<lparr>sp_clients := dset tid c (sp_clients p)\<rparr>"

definition sp_aclose_all :: "server_api_pool \<Rightarrow> server_api_pool" where
  "sp_aclose_all p = (if sp_closed p then p else \<lparr>sp_clients = [], sp_closed = True\<rparr>)"

type_synonym indexer_pool = "(string, indexer_client) dict"

definition ip_open :: "registry_get \<Rightarrow> secrets_get \<Rightarrow> client_open" where
  "ip_open reg sec tid =
     bind_res (reg tid) (\<lambda>t.
     bind_res (sec tid ''indexer_user'') (\<lambda>u.
     bind_res (sec tid ''indexer_password'') (\<lambda>pw.
       Inr \<lparr>cl_url = indexer_url t, cl_user = expose u, cl_password = expose pw,
            cl_verify_tls = verify_tls t, cl_ca = ca_bundle_path t\<rparr>)))"

definition ip_fresh :: "client_open \<Rightarrow> (string \<Rightarrow> answer list) \<Rightarrow> string \<Rightarrow> exn + indexer_client" where
  "ip_fresh opn net tid =
     bind_res (opn tid) (\<lambda>a.
       Inr (new_indexer_client (cl_url a) (cl_user a) (cl_password a) (cl_verify_tls a) (cl_ca a) (net (cl_url a))))"

definition ip_acquire ::
    "client_open \<Rightarrow> (string \<Rightarrow> answer list) \<Rightarrow> string \<Rightarrow> indexer_pool \<Rightarrow> (exn + indexer_client) \<times> indexer_pool" where
  "ip_acquire opn net tid p =
     (case dget p tid of
        Some c \<Rightarrow> (Inr c, p)
      | None \<Rightarrow>
          (case ip_fresh opn net tid
           of Inl e \<Rightarrow> (Inl e, p)
            | Inr c \<Rightarrow> (Inr c, dset tid c p)))"

definition ip_store :: "string \<Rightarrow> indexer_client \<Rightarrow> indexer_pool \<Rightarrow> indexer_pool" where
  "ip_store tid c p = dset tid c p"

definition ip_aclose_all :: "indexer_pool \<Rightarrow> indexer_pool" where
  "ip_aclose_all p = []"

section \<open>The contract of a pool\<close>

text \<open>What a task does with a pool: acquire a client, act through a client the pool shares, close.\<close>

datatype 'c pool_op = Acquire string | Use string "'c \<Rightarrow> 'c" | CloseAll

fun pool_run ::
    "(string \<Rightarrow> 'p \<Rightarrow> (exn + 'c) \<times> 'p) \<Rightarrow> ('p \<Rightarrow> string \<rightharpoonup> 'c) \<Rightarrow> (string \<Rightarrow> 'c \<Rightarrow> 'p \<Rightarrow> 'p) \<Rightarrow> ('p \<Rightarrow> 'p) \<Rightarrow>
      'c pool_op list \<Rightarrow> 'p \<Rightarrow> (string \<times> (exn + 'c)) list \<times> 'p" where
  "pool_run acq cl st cls [] p = ([], p)"
| "pool_run acq cl st cls (Acquire tid # ops) p =
     (case acq tid p of (r, p1) \<Rightarrow>
        (case pool_run acq cl st cls ops p1 of (outs, p2) \<Rightarrow> ((tid, r) # outs, p2)))"
| "pool_run acq cl st cls (Use tid f # ops) p =
     pool_run acq cl st cls ops (case cl p tid of None \<Rightarrow> p | Some c \<Rightarrow> st tid (f c) p)"
| "pool_run acq cl st cls (CloseAll # ops) p = pool_run acq cl st cls ops (cls p)"

text \<open>A pool hands out, per tenant, one client; the first one is made fresh from the tenant's
  configuration and secrets, and what identifies a client (its address and its credentials)
  does not change while it is used.\<close>

locale client_pool =
  fixes acquire :: "string \<Rightarrow> 'p \<Rightarrow> (exn + 'c) \<times> 'p"
    and clients :: "'p \<Rightarrow> string \<rightharpoonup> 'c"
    and store :: "string \<Rightarrow> 'c \<Rightarrow> 'p \<Rightarrow> 'p"
    and close_all :: "'p \<Rightarrow> 'p"
    and fresh :: "string \<Rightarrow> exn + 'c"
    and ident :: "'c \<Rightarrow> 'i"
  assumes acquire_known:
      "clients p tid = Some c \<Longrightarrow> acquire tid p = (r, p') \<Longrightarrow> p' = p \<and> (r = Inr c \<or> (\<exists>e. r = Inl e))"
    and acquire_new:
      "clients p tid = None \<Longrightarrow> acquire tid p = (r, p') \<Longrightarrow>
        p' = p \<and> (\<exists>e. r = Inl e) \<or> (\<exists>c. r = Inr c \<and> fresh tid = Inr c \<and> clients p' = (clients p)(tid \<mapsto> c))"
    and store_clients: "clients (store tid c p) = (clients p)(tid \<mapsto> c)"
    and close_clients: "clients (close_all p) tid = Some c \<Longrightarrow> clients p tid = Some c"
begin

definition pool_ok :: "'p \<Rightarrow> bool" where
  "pool_ok p \<longleftrightarrow> (\<forall>tid c. clients p tid = Some c \<longrightarrow> (\<exists>f. fresh tid = Inr f \<and> ident c = ident f))"

lemma pool_ok_upd:
  "pool_ok p \<Longrightarrow> clients p' = (clients p)(tid \<mapsto> c) \<Longrightarrow> fresh tid = Inr f \<Longrightarrow> ident c = ident f \<Longrightarrow> pool_ok p'"
  by (auto simp: pool_ok_def)

lemma acquire_ok:
  assumes "pool_ok p" "acquire tid p = (r, p')"
  shows "pool_ok p' \<and> (\<forall>c. r = Inr c \<longrightarrow> (\<exists>f. fresh tid = Inr f \<and> ident c = ident f))"
proof (cases "clients p tid")
  case None
  then show ?thesis using acquire_new [OF None assms(2)] assms(1) pool_ok_upd [OF assms(1)] by auto
next
  case (Some c)
  then show ?thesis using acquire_known [OF Some assms(2)] assms(1) by (auto simp: pool_ok_def)
qed

lemma acquire_others:
  "acquire tid p = (r, p') \<Longrightarrow> tid' \<noteq> tid \<Longrightarrow> clients p' tid' = clients p tid'"
  using acquire_new [of p tid r p'] acquire_known [of p tid _ r p'] by (cases "clients p tid") auto

lemma run_identities:
  assumes "pool_ok p" "pool_run acquire clients store close_all ops p = (outs, p')"
    and "\<forall>tid f. Use tid f \<in> set ops \<longrightarrow> (\<forall>c. ident (f c) = ident c)"
    and "(tid, Inr c) \<in> set outs"
  shows "\<exists>f. fresh tid = Inr f \<and> ident c = ident f"
  using assms
proof (induction ops arbitrary: p outs)
  case Nil
  then show ?case by simp
next
  case (Cons op ops)
  show ?case
  proof (cases op)
    case (Acquire t)
    obtain r p1 where a: "acquire t p = (r, p1)" by fastforce
    obtain outs1 where run: "pool_run acquire clients store close_all ops p1 = (outs1, p')"
      and outs: "outs = (t, r) # outs1"
      using Cons.prems(2) Acquire a by (auto split: prod.splits)
    show ?thesis
      using Cons.prems(3,4) outs acquire_ok [OF Cons.prems(1) a] Cons.IH [OF _ run] by auto
  next
    case (Use t g)
    have id: "ident (g x) = ident x" for x using Cons.prems(3) Use by simp
    let ?p1 = "case clients p t of None \<Rightarrow> p | Some c \<Rightarrow> store t (g c) p"
    have "pool_ok ?p1"
      using Cons.prems(1) id by (auto simp: pool_ok_def store_clients split: option.splits)
    moreover have "pool_run acquire clients store close_all ops ?p1 = (outs, p')"
      using Cons.prems(2) Use by simp
    moreover have "\<forall>tid f. Use tid f \<in> set ops \<longrightarrow> (\<forall>c. ident (f c) = ident c)"
      using Cons.prems(3) by simp
    ultimately show ?thesis by (rule Cons.IH [OF _ _ _ Cons.prems(4)])
  next
    case CloseAll
    have "pool_ok (close_all p)" using Cons.prems(1) unfolding pool_ok_def by (meson close_clients)
    moreover have "pool_run acquire clients store close_all ops (close_all p) = (outs, p')"
      using Cons.prems(2) CloseAll by simp
    moreover have "\<forall>tid f. Use tid f \<in> set ops \<longrightarrow> (\<forall>c. ident (f c) = ident c)"
      using Cons.prems(3) by simp
    ultimately show ?thesis by (rule Cons.IH [OF _ _ _ Cons.prems(4)])
  qed
qed

end

definition api_ident :: "api_client \<Rightarrow> string \<times> verify \<times> string \<times> string" where
  "api_ident c = (ac_base c, ac_verify c, ac_user c, ac_password c)"

lemma dget_dset_fun: "dget (dset k v d) = (dget d)(k \<mapsto> v)"
  by (rule ext) (simp add: dget_dset)

lemma sp_acquire_new:
  assumes "dget (sp_clients p) tid = None" "sp_acquire opn net tid p = (r, p')"
  shows "p' = p \<and> (\<exists>e. r = Inl e) \<or>
    (\<exists>c. r = Inr c \<and> sp_fresh opn net tid = Inr c \<and> dget (sp_clients p') = (dget (sp_clients p))(tid \<mapsto> c))"
proof (cases "sp_closed p")
  case open_pool: False
  then show ?thesis
  proof (cases "sp_fresh opn net tid")
    case (Inl e)
    then have "p' = p" "r = Inl e" using assms open_pool by (simp_all add: sp_acquire_def)
    then show ?thesis by simp
  next
    case (Inr c)
    then have "p' = p\<lparr>sp_clients := dset tid c (sp_clients p)\<rparr>" "r = Inr c"
      using assms open_pool by (simp_all add: sp_acquire_def)
    then show ?thesis using Inr dget_dset_fun [of tid c] by auto
  qed
qed (use assms in \<open>simp add: sp_acquire_def\<close>, blast)

lemma ip_acquire_new:
  assumes "dget p tid = None" "ip_acquire opn net tid p = (r, p')"
  shows "p' = p \<and> (\<exists>e. r = Inl e) \<or>
    (\<exists>c. r = Inr c \<and> ip_fresh opn net tid = Inr c \<and> dget p' = (dget p)(tid \<mapsto> c))"
proof (cases "ip_fresh opn net tid")
  case (Inl e)
  then have "p' = p" "r = Inl e" using assms by (simp_all add: ip_acquire_def)
  then show ?thesis by simp
next
  case (Inr c)
  then have "p' = dset tid c p" "r = Inr c" using assms by (simp_all add: ip_acquire_def)
  then show ?thesis using Inr dget_dset_fun [of tid c] by auto
qed

interpretation sp: client_pool "sp_acquire opn net" "\<lambda>p. dget (sp_clients p)" sp_store sp_aclose_all
  "sp_fresh opn net" api_ident
  for opn :: client_open and net :: "string \<Rightarrow> answer list"
proof unfold_locales
  fix p tid c r p'
  show "dget (sp_clients p) tid = Some c \<Longrightarrow> sp_acquire opn net tid p = (r, p') \<Longrightarrow>
      p' = p \<and> (r = Inr c \<or> (\<exists>e. r = Inl e))"
    by (auto simp: sp_acquire_def split: if_splits)
  show "dget (sp_clients p) tid = None \<Longrightarrow> sp_acquire opn net tid p = (r, p') \<Longrightarrow>
      p' = p \<and> (\<exists>e. r = Inl e) \<or> (\<exists>c. r = Inr c \<and> sp_fresh opn net tid = Inr c \<and>
        dget (sp_clients p') = (dget (sp_clients p))(tid \<mapsto> c))"
    by (rule sp_acquire_new)
  show "dget (sp_clients (sp_store tid c p)) = (dget (sp_clients p))(tid \<mapsto> c)"
    using dget_dset_fun [of tid c] by (auto simp: sp_store_def)
  show "dget (sp_clients (sp_aclose_all p)) tid = Some c \<Longrightarrow> dget (sp_clients p) tid = Some c"
    by (simp add: sp_aclose_all_def split: if_splits)
qed

definition indexer_ident :: "indexer_client \<Rightarrow> string \<times> verify \<times> string \<times> string" where
  "indexer_ident c = (ix_base c, ix_verify c, ix_user c, ix_password c)"

interpretation ip: client_pool "ip_acquire opn net" dget ip_store ip_aclose_all
  "ip_fresh opn net" indexer_ident
  for opn :: client_open and net :: "string \<Rightarrow> answer list"
proof unfold_locales
  fix p :: indexer_pool and tid c r p'
  show "dget p tid = Some c \<Longrightarrow> ip_acquire opn net tid p = (r, p') \<Longrightarrow>
      p' = p \<and> (r = Inr c \<or> (\<exists>e. r = Inl e))"
    by (auto simp: ip_acquire_def)
  show "dget p tid = None \<Longrightarrow> ip_acquire opn net tid p = (r, p') \<Longrightarrow>
      p' = p \<and> (\<exists>e. r = Inl e) \<or> (\<exists>c. r = Inr c \<and> ip_fresh opn net tid = Inr c \<and>
        dget p' = (dget p)(tid \<mapsto> c))"
    by (rule ip_acquire_new)
  show "dget (ip_store tid c p) = (dget p)(tid \<mapsto> c)"
    unfolding ip_store_def by (rule dget_dset_fun)
  show "dget (ip_aclose_all p) tid = Some c \<Longrightarrow> dget p tid = Some c"
    by (simp add: ip_aclose_all_def)
qed

section \<open>Using a client does not change whose it is\<close>

lemma send_ident: "api_ident (snd (send rq c)) = api_ident c"
  by (auto simp: send_def api_ident_def Let_def split: list.splits sum.splits)

lemma bind_st_ident:
  assumes "api_ident (snd m) = i" "\<And>x c. api_ident c = i \<Longrightarrow> api_ident (snd (f x c)) = i"
  shows "api_ident (snd (bind_st m f)) = i"
  using assms by (cases m; cases "fst m") (auto simp: bind_st_def)

lemma mint_ident: "api_ident (snd (mint_locked env c)) = api_ident c"
  unfolding mint_locked_def
  by (rule bind_st_ident [OF send_ident])
    (auto simp: api_ident_def split: prod.splits sum.splits json.splits list.splits)

lemma authorised_ident: "api_ident (snd (authorised env do c)) = api_ident c"
proof -
  have e: "api_ident (snd (ensure_jwt env c)) = api_ident c"
    by (auto simp: ensure_jwt_def mint_ident split: option.splits)
  show ?thesis
    unfolding authorised_def
    by (rule bind_st_ident [OF e], rule bind_st_ident)
      (auto simp: send_ident mint_ident intro!: bind_st_ident)
qed

lemma api_request_ident: "api_ident (snd (api_request env m path ps b ra c)) = api_ident c"
  by (simp add: api_request_def authorised_ident)

lemma search_ident: "indexer_ident (snd (search index query c)) = indexer_ident c"
  by (auto simp: search_def ix_send_def indexer_ident_def Let_def split: list.splits sum.splits)

text \<open>
  A pooled client is its tenant's.  In any run of acquisitions, uses and shutdowns, over a YAML
  registry and a YAML secret store, a Server API client handed out for a tenant points at that
  tenant's manager, verifies its certificate as configured there, and carries the credentials the
  secret store holds for that tenant.
\<close>

theorem pooled_client_is_tenants:
  assumes "pool_run (sp_acquire (sp_open (yaml_get ts) (yaml_secret_get d)) net) (\<lambda>p. dget (sp_clients p)) sp_store
      sp_aclose_all ops new_server_api_pool = (outs, p')"
    and "\<forall>tid f. Use tid f \<in> set ops \<longrightarrow> (\<forall>c. api_ident (f c) = api_ident c)"
    and "(tid, Inr c) \<in> set outs"
  shows "\<exists>t. yaml_get ts tid = Inr t \<and> ac_base c = rstrip_char (CHR ''/'') (server_api_base t) \<and>
    ac_verify c = tls_verify (verify_tls t) (ca_bundle_path t) \<and>
    yaml_held d (tid, ''server_api_user'') = Some (ac_user c) \<and>
    yaml_held d (tid, ''server_api_password'') = Some (ac_password c)"
proof -
  have "sp.pool_ok (sp_open (yaml_get ts) (yaml_secret_get d)) net new_server_api_pool"
    by (simp add: sp.pool_ok_def new_server_api_pool_def)
  from sp.run_identities [OF this assms] obtain f
    where f: "sp_fresh (sp_open (yaml_get ts) (yaml_secret_get d)) net tid = Inr f" "api_ident c = api_ident f"
    by blast
  then show ?thesis
    by (auto simp: sp_fresh_def sp_open_def bind_res_eq_Inr new_api_client_def api_ident_def
        dest!: yaml_store.get_held)
qed

definition demo_secrets :: yaml_secrets where
  "demo_secrets = [(''acme'', [(''server_api_user'', ''wui''), (''server_api_password'', ''pw''),
     (''indexer_user'', ''admin''), (''indexer_password'', ''ipw'')])]"

definition demo_tenant :: tenant_config where
  "demo_tenant = (sample_tenant ''acme'')\<lparr>indexer_url := ''https://wazuh:9200/''\<rparr>"

theorem pooled_client_is_tenants_witness:
  "\<exists>c. fst (pool_run (sp_acquire (sp_open (yaml_get [(''acme'', demo_tenant)]) (yaml_secret_get demo_secrets)) (\<lambda>_. []))
      (\<lambda>p. dget (sp_clients p)) sp_store sp_aclose_all
      [Acquire ''acme'', Use ''acme'' (\<lambda>c. snd (api_restart_agent demo_env ''001'' None c)), Acquire ''acme'']
      new_server_api_pool) = [(''acme'', Inr c), (''acme'', Inr (snd (api_restart_agent demo_env ''001'' None c)))] \<and>
    ac_user (snd (api_restart_agent demo_env ''001'' None c)) = ''wui''"
proof -
  let ?acq = "sp_acquire (sp_open (yaml_get [(''acme'', demo_tenant)]) (yaml_secret_get demo_secrets)) (\<lambda>_. [])"
  let ?use = "\<lambda>c. snd (api_restart_agent demo_env ''001'' None c)"
  let ?run = "pool_run ?acq (\<lambda>p. dget (sp_clients p)) sp_store sp_aclose_all
      [Acquire ''acme'', Use ''acme'' ?use, Acquire ''acme''] new_server_api_pool"
  let ?c = "new_api_client (server_api_base demo_tenant) ''wui'' ''pw'' (verify_tls demo_tenant)
      (ca_bundle_path demo_tenant) []"
  have outs: "fst ?run = [(''acme'', Inr ?c), (''acme'', Inr (?use ?c))]"
    by (simp add: sp_acquire_def sp_fresh_def sp_open_def yaml_get_def yaml_secret_get_def demo_secrets_def
        new_server_api_pool_def sp_store_def)
  have keep: "api_ident (?use c) = api_ident c" for c
    by (simp add: api_restart_agent_def api_verbs api_request_ident)
  have "?run = (fst ?run, snd ?run)" by simp
  note * = pooled_client_is_tenants [OF this, of "''acme''" "?use ?c"]
  have "yaml_held demo_secrets (''acme'', ''server_api_user'') = Some (ac_user (?use ?c))"
    using * keep outs by auto
  then show ?thesis using outs by (auto simp: yaml_held_def demo_secrets_def)
qed


text \<open>
  After shutdown the two pools behave differently.  A closed Server API pool refuses every
  acquisition and stays closed; the indexer pool has no closed state, and an acquisition after
  \<open>aclose_all\<close> makes and keeps a new client that no later shutdown step is bound to close.
\<close>

theorem pools_after_shutdown:
  assumes "ip_fresh opn net tid = Inr c"
  shows "sp_acquire opn net tid' (sp_aclose_all sp) = (Inl RuntimeE, sp_aclose_all sp) \<and>
    sp_aclose_all (sp_aclose_all sp) = sp_aclose_all sp \<and>
    ip_acquire opn net tid (ip_aclose_all p) = (Inr c, [(tid, c)])"
  using assms by (simp add: sp_aclose_all_def sp_acquire_def ip_aclose_all_def ip_acquire_def)

theorem pools_after_shutdown_witness:
  "\<exists>c. ip_acquire (ip_open (yaml_get [(''acme'', demo_tenant)]) (yaml_secret_get demo_secrets)) (\<lambda>_. []) ''acme''
    (ip_aclose_all [(''acme'', c)]) = (Inr c, [(''acme'', c)]) \<and> ix_user c = ''admin''"
  using pools_after_shutdown [of "ip_open (yaml_get [(''acme'', demo_tenant)]) (yaml_secret_get demo_secrets)" "\<lambda>_. []" "''acme''"]
  by (auto simp: ip_fresh_def ip_open_def yaml_get_def yaml_secret_get_def demo_secrets_def new_indexer_client_def)

text \<open>An indexer on a port other than 9200 gets a second port in the derived address.\<close>

lemma derived_second_port:
  "derive_server_api_url (demo_tenant\<lparr>indexer_url := ''https://wazuh:9443/''\<rparr>) = ''https://wazuh:9443:55000''"
  "derive_server_api_url demo_tenant = ''https://wazuh:55000''"
  by code_simp+

lemma search_path:
  assumes "search index query c = (r, c')"
  shows "ix_sent c' = ix_sent c \<and> r = Inl ValueE \<and> \<not> safe_name index \<or>
    (\<exists>rq. ix_sent c' = ix_sent c @ [rq] \<and> rq_method rq = ''POST'' \<and> safe_name index \<and>
      rq_path rq = ''/'' @ index @ ''/_search'' \<and> rq_json rq = Some query)"
  using assms ix_send_sent
  by (fastforce simp: search_def split: if_splits)

end
