(* ===== verification/WriteTools.thy ===== *)
theory WriteTools imports Pools RuleRender Instrument begin

text \<open>
  The nine write tools (\<open>tools/write.py\<close>) and their registered handlers with the per-call
  \<open>write_allowlist\<close> guard (\<open>server.py\<close>).  Pydantic's reading of the keyword arguments into typed
  fields is an argument; the constraints the models declare are checked here.
\<close>

section \<open>Arguments\<close>

record isolate_agent_args =
  ia_agent_ids :: "string list"
  ia_confirm :: bool

record restart_agent_args =
  ra_agent_id :: string
  ra_confirm :: bool

record group_args =
  ga_agent_id :: string
  ga_group_id :: string
  ga_confirm :: bool

record create_rule_args =
  cr_rule :: rule_definition
  cr_confirm :: bool

record update_rule_args =
  ur_rule_id :: int
  ur_rule :: rule_definition
  ur_confirm :: bool

record run_ar_args =
  ar_agent_ids :: "string list"
  ar_command_name :: string
  ar_custom_args :: "(string, json) dict option"
  ar_confirm :: bool

record run_ar_group_args =
  ag_group_name :: string
  ag_command_name :: string
  ag_custom_args :: "(string, json) dict option"
  ag_confirm :: bool

record restart_manager_args =
  rm_scope :: string
  rm_confirm :: bool

definition AR_AGENTS_MAX :: nat where
  "AR_AGENTS_MAX = 50"

text \<open>\<open>^[0-9]{3,10}$\<close> and \<open>^[a-zA-Z0-9_-]+$\<close> on pydantic's engine, whose \<open>$\<close> is the end of the text.\<close>

definition agent_id_ok :: "string \<Rightarrow> bool" where
  "agent_id_ok s \<longleftrightarrow> 1 \<le> length s \<and> length s \<le> 16 \<and> 3 \<le> length s \<and> length s \<le> 10 \<and> list_all is_digit s"

definition group_id_ok :: "string \<Rightarrow> bool" where
  "group_id_ok s \<longleftrightarrow> 1 \<le> length s \<and> length s \<le> 128 \<and> list_all (\<lambda>c. alnum c \<or> c \<in> set ''_-'') s"

definition agent_ids_ok :: "string list \<Rightarrow> bool" where
  "agent_ids_ok ids \<longleftrightarrow> 1 \<le> length ids \<and> length ids \<le> AR_AGENTS_MAX"

definition name_ok :: "string \<Rightarrow> bool" where
  "name_ok s \<longleftrightarrow> 1 \<le> length s \<and> length s \<le> 128"

definition checked :: "('a \<Rightarrow> bool) \<Rightarrow> 'a option \<Rightarrow> exn + 'a" where
  "checked p v = (case v of Some a \<Rightarrow> if p a then Inr a else Inl ValidationE | None \<Rightarrow> Inl ValidationE)"

text \<open>What pydantic makes of the keyword arguments: \<open>None\<close> when a field is missing, unknown or ill
  typed.  The compiler of regular expressions comes with it.\<close>

record arg_decoder =
  dc_isolate :: "args \<Rightarrow> isolate_agent_args option"
  dc_restart :: "args \<Rightarrow> restart_agent_args option"
  dc_group :: "args \<Rightarrow> group_args option"
  dc_create :: "args \<Rightarrow> create_rule_args option"
  dc_update :: "args \<Rightarrow> update_rule_args option"
  dc_ar :: "args \<Rightarrow> run_ar_args option"
  dc_ar_group :: "args \<Rightarrow> run_ar_group_args option"
  dc_manager :: "args \<Rightarrow> restart_manager_args option"
  dc_compiles :: "string \<Rightarrow> bool"

definition IsolateAgentArgs :: "arg_decoder \<Rightarrow> args \<Rightarrow> exn + isolate_agent_args" where
  "IsolateAgentArgs d kw = checked (\<lambda>a. agent_ids_ok (ia_agent_ids a) \<and> ia_confirm a) (dc_isolate d kw)"

definition RestartAgentArgs :: "arg_decoder \<Rightarrow> args \<Rightarrow> exn + restart_agent_args" where
  "RestartAgentArgs d kw = checked (\<lambda>a. agent_id_ok (ra_agent_id a) \<and> ra_confirm a) (dc_restart d kw)"

definition AddAgentToGroupArgs :: "arg_decoder \<Rightarrow> args \<Rightarrow> exn + group_args" where
  "AddAgentToGroupArgs d kw =
     checked (\<lambda>a. agent_id_ok (ga_agent_id a) \<and> group_id_ok (ga_group_id a) \<and> ga_confirm a) (dc_group d kw)"

definition RemoveAgentFromGroupArgs :: "arg_decoder \<Rightarrow> args \<Rightarrow> exn + group_args" where
  "RemoveAgentFromGroupArgs d kw =
     checked (\<lambda>a. agent_id_ok (ga_agent_id a) \<and> group_id_ok (ga_group_id a) \<and> ga_confirm a) (dc_group d kw)"

definition rule_ok :: "arg_decoder \<Rightarrow> rule_definition \<Rightarrow> bool" where
  "rule_ok d r \<longleftrightarrow> validate_rule (dc_compiles d) r = Inr r"

definition CreateRuleArgs :: "arg_decoder \<Rightarrow> args \<Rightarrow> exn + create_rule_args" where
  "CreateRuleArgs d kw = checked (\<lambda>a. rule_ok d (cr_rule a) \<and> cr_confirm a) (dc_create d kw)"

text \<open>The model validator: the outer identifier is the rule's.\<close>

definition rule_id_matches :: "update_rule_args \<Rightarrow> bool" where
  "rule_id_matches a \<longleftrightarrow> ur_rule_id a = rd_id (ur_rule a)"

definition UpdateRuleArgs :: "arg_decoder \<Rightarrow> args \<Rightarrow> exn + update_rule_args" where
  "UpdateRuleArgs d kw =
     checked (\<lambda>a. 100000 \<le> ur_rule_id a \<and> ur_rule_id a \<le> 999999 \<and> rule_ok d (ur_rule a) \<and> ur_confirm a \<and>
                  rule_id_matches a) (dc_update d kw)"

definition RunActiveResponseArgs :: "arg_decoder \<Rightarrow> args \<Rightarrow> exn + run_ar_args" where
  "RunActiveResponseArgs d kw =
     checked (\<lambda>a. agent_ids_ok (ar_agent_ids a) \<and> name_ok (ar_command_name a) \<and> ar_confirm a) (dc_ar d kw)"

definition RunActiveResponseOnGroupArgs :: "arg_decoder \<Rightarrow> args \<Rightarrow> exn + run_ar_group_args" where
  "RunActiveResponseOnGroupArgs d kw =
     checked (\<lambda>a. name_ok (ag_group_name a) \<and> name_ok (ag_command_name a) \<and> ag_confirm a) (dc_ar_group d kw)"

definition RestartManagerArgs :: "arg_decoder \<Rightarrow> args \<Rightarrow> exn + restart_manager_args" where
  "RestartManagerArgs d kw =
     checked (\<lambda>a. rm_scope a \<in> {''node'', ''cluster''} \<and> rm_confirm a) (dc_manager d kw)"

section \<open>Results\<close>

record write_result =
  wr_ok :: bool
  wr_affected_agents :: "string list option"
  wr_failed_agents :: "(string \<times> string) list"
  wr_affected_files :: "string list option"

definition strings :: "string list \<Rightarrow> json" where
  "strings xs = JList (map JStr xs)"

definition opt_strings :: "string list option \<Rightarrow> json" where
  "opt_strings v = (case v of None \<Rightarrow> JNull | Some xs \<Rightarrow> strings xs)"

definition write_result_dict :: "string \<Rightarrow> write_result \<Rightarrow> result" where
  "write_result_dict now r =
     [(''ok'', JBool (wr_ok r)), (''affected_agents'', opt_strings (wr_affected_agents r)),
      (''failed_agents'', JList (map (\<lambda>(i, why). JObj [(''agent_id'', JStr i), (''reason'', JStr why)]) (wr_failed_agents r))),
      (''affected_files'', opt_strings (wr_affected_files r)), (''timestamp'', JStr now)]"

definition extract_affected_ids :: "api_env \<Rightarrow> json \<Rightarrow> exn + string list" where
  "extract_affected_ids env resp =
     bind_res (py_get_or resp ''data'' (JObj [])) (\<lambda>data.
     bind_res (py_get data ''affected_items'') (\<lambda>items.
     bind_res (py_iter (py_or items (JList []))) (\<lambda>xs.
       Inr (map (json_str (ae_str env)) xs))))"

definition failed_item :: "api_env \<Rightarrow> json \<Rightarrow> exn + string \<times> string" where
  "failed_item env item =
     bind_res (py_get_or item ''id'' (JStr [])) (\<lambda>i.
     bind_res (py_get item ''error'') (\<lambda>err.
     bind_res (py_get_or (py_or err (JObj [])) ''message'' (JStr ''unknown'')) (\<lambda>m.
       Inr (json_str (ae_str env) i, json_str (ae_str env) m))))"

definition extract_failed_items :: "api_env \<Rightarrow> json \<Rightarrow> exn + (string \<times> string) list" where
  "extract_failed_items env resp =
     bind_res (py_get_or resp ''data'' (JObj [])) (\<lambda>data.
     bind_res (py_get data ''failed_items'') (\<lambda>items.
     bind_res (py_iter (py_or items (JList []))) (map_res (failed_item env))))"

text \<open>The two ways a response becomes a result.\<close>

definition multi_result :: "api_env \<Rightarrow> json \<Rightarrow> exn + write_result" where
  "multi_result env resp =
     bind_res (extract_affected_ids env resp) (\<lambda>affected.
     bind_res (extract_failed_items env resp) (\<lambda>failed.
       Inr \<lparr>wr_ok = (length failed = 0), wr_affected_agents = Some affected, wr_failed_agents = failed,
            wr_affected_files = None\<rparr>))"

definition single_result :: "api_env \<Rightarrow> json \<Rightarrow> exn + write_result" where
  "single_result env resp =
     bind_res (extract_affected_ids env resp) (\<lambda>affected.
       Inr \<lparr>wr_ok = True, wr_affected_agents = Some affected, wr_failed_agents = [], wr_affected_files = None\<rparr>)"

definition answer_with :: "json api \<Rightarrow> (json \<Rightarrow> exn + 'a) \<Rightarrow> 'a api" where
  "answer_with m f c = bind_st (m c) (\<lambda>resp c1. (f resp, c1))"

section \<open>The tools\<close>

definition isolate_agent :: "api_env \<Rightarrow> isolate_agent_args \<Rightarrow> session \<Rightarrow> write_result api" where
  "isolate_agent env a s =
     answer_with (api_isolate_agent env (ia_agent_ids a) (wazuh_user s)) (multi_result env)"

definition restart_agent :: "api_env \<Rightarrow> restart_agent_args \<Rightarrow> session \<Rightarrow> write_result api" where
  "restart_agent env a s =
     answer_with (api_restart_agent env (ra_agent_id a) (wazuh_user s)) (single_result env)"

definition add_agent_to_group :: "api_env \<Rightarrow> group_args \<Rightarrow> session \<Rightarrow> write_result api" where
  "add_agent_to_group env a s =
     answer_with (api_add_agent_to_group env (ga_agent_id a) (ga_group_id a) (wazuh_user s)) (single_result env)"

definition remove_agent_from_group :: "api_env \<Rightarrow> group_args \<Rightarrow> session \<Rightarrow> write_result api" where
  "remove_agent_from_group env a s =
     answer_with (api_remove_agent_from_group env (ga_agent_id a) (ga_group_id a) (wazuh_user s)) (single_result env)"

definition rule_filename :: "int \<Rightarrow> string" where
  "rule_filename i = ''wazuh-mcp-'' @ show_int i @ ''.xml''"

definition rule_file_body :: "rule_definition \<Rightarrow> string" where
  "rule_file_body r =
     ''<group name='' @ [CHR 0x22] @ ''wazuh-mcp'' @ [CHR 0x22] @ ''>'' @ render_rule_xml r @ ''</group>''"

definition file_result :: "string \<Rightarrow> json \<Rightarrow> exn + write_result" where
  "file_result filename resp =
     Inr \<lparr>wr_ok = True, wr_affected_agents = None, wr_failed_agents = [], wr_affected_files = Some [filename]\<rparr>"

definition create_rule :: "api_env \<Rightarrow> create_rule_args \<Rightarrow> session \<Rightarrow> write_result api" where
  "create_rule env a s =
     answer_with (api_upload_rule_file env (rule_filename (rd_id (cr_rule a))) (rule_file_body (cr_rule a)) (wazuh_user s))
       (file_result (rule_filename (rd_id (cr_rule a))))"

definition update_rule :: "api_env \<Rightarrow> update_rule_args \<Rightarrow> session \<Rightarrow> write_result api" where
  "update_rule env a s =
     answer_with (api_upload_rule_file env (rule_filename (ur_rule_id a)) (rule_file_body (ur_rule a)) (wazuh_user s))
       (file_result (rule_filename (ur_rule_id a)))"

definition ar_forbidden :: "string \<Rightarrow> exn" where
  "ar_forbidden command =
     wazuh_error_init ''forbidden'' (''active-response command '' @ py_repr command @ '' not allowlisted for tenant'')
       403 (Some ''ar_allowlist'')"

definition run_active_response :: "api_env \<Rightarrow> run_ar_args \<Rightarrow> session \<Rightarrow> string list \<Rightarrow> write_result api" where
  "run_active_response env a s ar_allowlist c =
     (if ar_command_name a \<notin> set ar_allowlist then (Inl (ar_forbidden (ar_command_name a)), c)
      else answer_with (api_run_active_response env (ar_agent_ids a) (ar_command_name a) (ar_custom_args a) (wazuh_user s))
             (multi_result env) c)"

definition ar_group_forbidden :: "string \<Rightarrow> exn" where
  "ar_group_forbidden group_name =
     wazuh_error_init ''forbidden'' (''agent group '' @ py_repr group_name @ '' not in tenant agent_group_allowlist'')
       403 (Some ''ar_group_allowlist'')"

definition run_active_response_on_group ::
    "api_env \<Rightarrow> run_ar_group_args \<Rightarrow> session \<Rightarrow> string list \<Rightarrow> write_result api" where
  "run_active_response_on_group env a s ar_group_allowlist c =
     (if ag_group_name a \<notin> set ar_group_allowlist then (Inl (ar_group_forbidden (ag_group_name a)), c)
      else answer_with
             (api_run_active_response_on_group env (ag_group_name a) (ag_command_name a) (ag_custom_args a) (wazuh_user s))
             (multi_result env) c)"

definition node_names :: "json \<Rightarrow> exn + json list" where
  "node_names nodes = bind_res (py_iter nodes) (map_res (\<lambda>n. py_index n ''name''))"

definition restart_manager :: "api_env \<Rightarrow> string \<Rightarrow> restart_manager_args \<Rightarrow> session \<Rightarrow> result api" where
  "restart_manager env now a s c =
     bind_st (api_cluster_status env None c) (\<lambda>pre c1.
       if rm_scope a = ''cluster'' \<and> \<not> cs_enabled pre
       then (Inl (wazuh_error_init ''upstream_error''
               ''cluster scope requested but clustering is not enabled on this manager'' 400 None), c1)
       else case node_names (cs_nodes pre) of
         Inl e \<Rightarrow> (Inl e, c1)
       | Inr names \<Rightarrow>
           (let affected = (if names = [] then [JStr ''this-node''] else names)
            in bind_st (api_restart_cluster env (rm_scope a) (wazuh_user s) c1) (\<lambda>resp c2.
                 if list_all (\<lambda>n. case n of JStr _ \<Rightarrow> True | _ \<Rightarrow> False) affected
                 then (Inr [(''ok'', JBool True), (''scope'', JStr (rm_scope a)),
                            (''affected_nodes'', JList affected), (''timestamp'', JStr now)], c2)
                 else (Inl ValidationE, c2))))"

section \<open>The registered handlers\<close>

record write_env =
  we_api :: api_env
  we_now :: string
  we_decoder :: arg_decoder
  we_open :: client_open
  we_net :: "string \<Rightarrow> answer list"
  we_write_policy :: "(session \<Rightarrow> (exn + string list option) \<times> emit_call list) option"
  we_ar_policy :: "(session \<Rightarrow> (exn + string list) \<times> emit_call list) option"
  we_group_policy :: "(session \<Rightarrow> (exn + string list) \<times> emit_call list) option"

definition write_forbidden :: "string \<Rightarrow> exn" where
  "write_forbidden tool =
     wazuh_error_init ''forbidden'' (''tool '' @ py_repr tool @ '' not in tenant write_allowlist'') 403
       (Some ''write_allowlist'')"

definition check_write_allowed :: "write_env \<Rightarrow> session \<Rightarrow> string \<Rightarrow> (exn + unit) \<times> emit_call list" where
  "check_write_allowed env s tool =
     (case we_write_policy env of
        None \<Rightarrow> (Inr (), [])
      | Some policy \<Rightarrow>
          (case policy s of
             (Inl e, evs) \<Rightarrow> (Inl e, evs)
           | (Inr None, evs) \<Rightarrow> (Inr (), evs)
           | (Inr (Some allow), evs) \<Rightarrow> (if tool \<notin> set allow then Inl (write_forbidden tool) else Inr (), evs)))"

definition resolve_list ::
    "(session \<Rightarrow> (exn + string list) \<times> emit_call list) option \<Rightarrow> exn \<Rightarrow> session \<Rightarrow> (exn + string list) \<times> emit_call list" where
  "resolve_list policy missing s = (case policy of None \<Rightarrow> (Inl missing, []) | Some p \<Rightarrow> p s)"

text \<open>\<open>await server_api_pool.acquire(session.tenant_id)\<close>, then the tool on the shared client.\<close>

definition with_client ::
    "write_env \<Rightarrow> session \<Rightarrow> result api \<Rightarrow> ('l, server_api_pool) world \<Rightarrow> (exn + result) \<times> ('l, server_api_pool) world" where
  "with_client env s m w =
     (case sp_acquire (we_open env) (we_net env) (s_tenant_id s) (wd_app w) of
        (Inl e, p) \<Rightarrow> (Inl e, w\<lparr>wd_app := p\<rparr>)
      | (Inr c, p) \<Rightarrow> (case m c of (r, c') \<Rightarrow> (r, w\<lparr>wd_app := sp_store (s_tenant_id s) c' p\<rparr>)))"

definition dict_result :: "write_env \<Rightarrow> write_result api \<Rightarrow> result api" where
  "dict_result env m c = bind_st (m c) (\<lambda>r c1. (Inr (write_result_dict (we_now env) r), c1))"

text \<open>Parse the arguments, check the write allowlist, then go on.\<close>

definition guarded_write ::
    "write_env \<Rightarrow> session \<Rightarrow> string \<Rightarrow> exn + 'a \<Rightarrow>
     ('a \<Rightarrow> ('l, server_api_pool) world \<Rightarrow> (exn + result) \<times> ('l, server_api_pool) world) \<Rightarrow>
     ('l, server_api_pool) world \<Rightarrow> (exn + result) \<times> ('l, server_api_pool) world" where
  "guarded_write env s tool parsed body w =
     (case parsed of
        Inl e \<Rightarrow> (Inl e, w)
      | Inr a \<Rightarrow>
          (case check_write_allowed env s tool of
             (Inl e, evs) \<Rightarrow> (Inl e, emit_events evs w)
           | (Inr u, evs) \<Rightarrow> body a (emit_events evs w)))"

definition isolate_inner :: "write_env \<Rightarrow> session \<Rightarrow> ('l, server_api_pool) handler" where
  "isolate_inner env s kw = guarded_write env s ''write.isolate_agent'' (IsolateAgentArgs (we_decoder env) kw)
     (\<lambda>a. with_client env s (dict_result env (isolate_agent (we_api env) a s)))"

definition restart_inner :: "write_env \<Rightarrow> session \<Rightarrow> ('l, server_api_pool) handler" where
  "restart_inner env s kw = guarded_write env s ''write.restart_agent'' (RestartAgentArgs (we_decoder env) kw)
     (\<lambda>a. with_client env s (dict_result env (restart_agent (we_api env) a s)))"

definition add_group_inner :: "write_env \<Rightarrow> session \<Rightarrow> ('l, server_api_pool) handler" where
  "add_group_inner env s kw = guarded_write env s ''write.add_agent_to_group'' (AddAgentToGroupArgs (we_decoder env) kw)
     (\<lambda>a. with_client env s (dict_result env (add_agent_to_group (we_api env) a s)))"

definition remove_group_inner :: "write_env \<Rightarrow> session \<Rightarrow> ('l, server_api_pool) handler" where
  "remove_group_inner env s kw = guarded_write env s ''write.remove_agent_from_group''
     (RemoveAgentFromGroupArgs (we_decoder env) kw)
     (\<lambda>a. with_client env s (dict_result env (remove_agent_from_group (we_api env) a s)))"

definition create_rule_inner :: "write_env \<Rightarrow> session \<Rightarrow> ('l, server_api_pool) handler" where
  "create_rule_inner env s kw = guarded_write env s ''write.create_rule'' (CreateRuleArgs (we_decoder env) kw)
     (\<lambda>a. with_client env s (dict_result env (create_rule (we_api env) a s)))"

definition update_rule_inner :: "write_env \<Rightarrow> session \<Rightarrow> ('l, server_api_pool) handler" where
  "update_rule_inner env s kw = guarded_write env s ''write.update_rule'' (UpdateRuleArgs (we_decoder env) kw)
     (\<lambda>a. with_client env s (dict_result env (update_rule (we_api env) a s)))"

definition ar_not_configured :: exn where
  "ar_not_configured =
     wazuh_error_init ''forbidden'' ''active-response not configured for this tenant'' 403 (Some ''ar_allowlist'')"

definition run_ar_inner :: "write_env \<Rightarrow> session \<Rightarrow> ('l, server_api_pool) handler" where
  "run_ar_inner env s kw = guarded_write env s ''write.run_active_response'' (RunActiveResponseArgs (we_decoder env) kw)
     (\<lambda>a w. case resolve_list (we_ar_policy env) ar_not_configured s of
        (Inl e, evs) \<Rightarrow> (Inl e, emit_events evs w)
      | (Inr allowed, evs) \<Rightarrow>
          with_client env s (dict_result env (run_active_response (we_api env) a s allowed)) (emit_events evs w))"

definition group_not_configured :: exn where
  "group_not_configured =
     wazuh_error_init ''forbidden'' ''agent_group_allowlist not configured for this tenant'' 403
       (Some ''ar_group_allowlist'')"

definition run_ar_on_group_inner :: "write_env \<Rightarrow> session \<Rightarrow> ('l, server_api_pool) handler" where
  "run_ar_on_group_inner env s kw = guarded_write env s ''write.run_active_response_on_group''
     (RunActiveResponseOnGroupArgs (we_decoder env) kw)
     (\<lambda>a w. case resolve_list (we_group_policy env) group_not_configured s of
        (Inl e, evs) \<Rightarrow> (Inl e, emit_events evs w)
      | (Inr allowed, evs) \<Rightarrow>
          with_client env s (dict_result env (run_active_response_on_group (we_api env) a s allowed)) (emit_events evs w))"

definition restart_manager_inner :: "write_env \<Rightarrow> session \<Rightarrow> ('l, server_api_pool) handler" where
  "restart_manager_inner env s kw = guarded_write env s ''write.restart_manager'' (RestartManagerArgs (we_decoder env) kw)
     (\<lambda>a. with_client env s (restart_manager (we_api env) (we_now env) a s))"

text \<open>The registration table; a name that is not in it has no handler.\<close>

definition write_tools :: "write_env \<Rightarrow> session \<Rightarrow> (string \<times> ('l, server_api_pool) handler) list" where
  "write_tools env s =
     [(''write.isolate_agent'', isolate_inner env s), (''write.restart_agent'', restart_inner env s),
      (''write.add_agent_to_group'', add_group_inner env s),
      (''write.remove_agent_from_group'', remove_group_inner env s),
      (''write.create_rule'', create_rule_inner env s), (''write.update_rule'', update_rule_inner env s),
      (''write.run_active_response'', run_ar_inner env s),
      (''write.run_active_response_on_group'', run_ar_on_group_inner env s),
      (''write.restart_manager'', restart_manager_inner env s)]"

section \<open>What the tools send\<close>

text \<open>An action of a Server API client sends only requests of a kind, and leaves the client's address and
  credentials alone.\<close>

definition sends :: "(request \<Rightarrow> bool) \<Rightarrow> 'a api \<Rightarrow> bool" where
  "sends P m \<longleftrightarrow>
     (\<forall>c. (\<exists>rqs. ac_sent (snd (m c)) = ac_sent c @ rqs \<and> list_all P rqs) \<and> api_ident (snd (m c)) = api_ident c)"

lemma sends_run: "sends P m \<Longrightarrow> m c = (r, c') \<Longrightarrow> \<exists>rqs. ac_sent c' = ac_sent c @ rqs \<and> list_all P rqs"
  unfolding sends_def by (metis snd_conv)

lemma sends_ident: "sends P m \<Longrightarrow> api_ident (snd (m c)) = api_ident c"
  by (simp add: sends_def)

lemma sends_state: "(\<And>c. snd (m' c) = snd (m c)) \<Longrightarrow> sends P m \<Longrightarrow> sends P m'"
  by (simp add: sends_def)

lemma sends_trans:
  assumes "ac_sent c1 = ac_sent c @ rqs" "list_all P rqs"
    and "\<exists>rqs'. ac_sent c2 = ac_sent c1 @ rqs' \<and> list_all P rqs'"
  shows "\<exists>rqs. ac_sent c2 = ac_sent c @ rqs \<and> list_all P rqs"
  using assms by (metis append.assoc list_all_append)

lemma sends_bind:
  assumes "sends P m" "\<And>x. sends P (f x)"
  shows "sends P (\<lambda>c. bind_st (m c) f)"
  unfolding sends_def
proof (intro allI conjI)
  fix c
  show "api_ident (snd (bind_st (m c) f)) = api_ident c"
    by (rule bind_st_ident) (simp_all add: sends_ident [OF assms(1)] sends_ident [OF assms(2)])
  obtain x c1 where m: "m c = (x, c1)" by fastforce
  obtain rqs where rqs: "ac_sent c1 = ac_sent c @ rqs" "list_all P rqs"
    using sends_run [OF assms(1) m] by blast
  show "\<exists>rqs. ac_sent (snd (bind_st (m c) f)) = ac_sent c @ rqs \<and> list_all P rqs"
  proof (cases x)
    case (Inr y)
    obtain r c2 where f: "f y c1 = (r, c2)" by fastforce
    show ?thesis
      using sends_trans [OF rqs sends_run [OF assms(2) f]] m Inr f by simp
  qed (use rqs m in auto)
qed

lemma sends_pure [simp]: "sends P (\<lambda>c. (r, c))"
  by (simp add: sends_def)

lemma sends_authorised:
  assumes "\<And>c. P (auth_request c)" "\<And>t. P (do t)"
  shows "sends P (authorised env do)"
  unfolding sends_def
proof (intro allI conjI authorised_ident)
  fix c
  obtain r c' where run: "authorised env do c = (r, c')" by fastforce
  then obtain rqs where "ac_sent c' = ac_sent c @ rqs" "call_trace (auth_request c) do rqs"
    using authorised_trace [OF run] by blast
  then show "\<exists>rqs. ac_sent (snd (authorised env do c)) = ac_sent c @ rqs \<and> list_all P rqs"
    using assms run by (auto simp: call_trace_def)
qed

text \<open>The requests a write tool may send for a session: the path consists of harmless characters
  and has no two dots, and a change is attributed to the session's Wazuh user.\<close>

definition path_char :: "char \<Rightarrow> bool" where
  "path_char c \<longleftrightarrow> alnum c \<or> c \<in> set ''/-_.''"

definition path_ok :: "string \<Rightarrow> bool" where
  "path_ok p \<longleftrightarrow> list_all path_char p \<and> length (filter ((=) (CHR ''.'')) p) \<le> 1"

lemma startswith_dots:
  "startswith s ''..'' \<Longrightarrow> 2 \<le> length (filter ((=) (CHR ''.'')) s)"
  by (auto simp: startswith_iff)

lemma contains_dots:
  "contains_sub ''..'' s \<Longrightarrow> 2 \<le> length (filter ((=) (CHR ''.'')) s)"
proof (induction s)
  case (Cons c cs)
  then show ?case using startswith_dots [of "c # cs"] by auto
qed simp

lemma path_ok_no_dots: "path_ok p \<Longrightarrow> \<not> contains_sub ''..'' p"
  using contains_dots [of p] by (auto simp: path_ok_def)

definition write_request_ok :: "session \<Rightarrow> request \<Rightarrow> bool" where
  "write_request_ok s rq \<longleftrightarrow> path_ok (rq_path rq) \<and>
     (rq_method rq \<in> {''PUT'', ''DELETE''} \<longrightarrow>
        dget (rq_params rq) ''run_as'' = map_option JStr (wazuh_user s))"

lemma run_as_param:
  "dget ps ''run_as'' = None \<Longrightarrow> dget (effective_params ps ra) ''run_as'' = map_option JStr ra"
  by (simp add: effective_params_def dget_dset split: option.splits)

lemma auth_request_ok: "write_request_ok s (auth_request c)"
  by (simp add: write_request_ok_def auth_request_def path_ok_def path_char_def alnum_def
      is_lower_def is_upper_def is_digit_def)

lemma sends_api_request:
  assumes "path_ok path" "method = ''GET'' \<or> run_as = wazuh_user s \<and> dget ps ''run_as'' = None"
  shows "sends (write_request_ok s) (api_request env method path ps b run_as)"
  unfolding api_request_def
  by (rule sends_authorised, rule auth_request_ok)
    (use assms in \<open>auto simp: write_request_ok_def run_as_param\<close>)

lemma sends_put_raw:
  assumes "path_ok path" "run_as = wazuh_user s" "dget ps ''run_as'' = None"
  shows "sends (write_request_ok s) (put_raw env path x ct ps run_as)"
  unfolding put_raw_def
  by (rule sends_authorised, rule auth_request_ok)
    (use assms in \<open>auto simp: write_request_ok_def run_as_param\<close>)

lemma sends_answer_with: "sends P m \<Longrightarrow> sends P (answer_with m f)"
  unfolding answer_with_def by (rule sends_bind) simp_all

lemma path_ok_simps [simp]:
  "path_ok (p @ q) \<longleftrightarrow> list_all path_char p \<and> list_all path_char q \<and>
     length (filter ((=) (CHR ''.'')) p) + length (filter ((=) (CHR ''.'')) q) \<le> 1"
  by (simp add: path_ok_def)

lemma digits_path: "list_all is_digit s \<Longrightarrow> list_all path_char s \<and> filter ((=) (CHR ''.'')) s = []"
  by (induction s) (auto simp: path_char_def alnum_def is_digit_def)

lemma group_path:
  "list_all (\<lambda>c. alnum c \<or> c \<in> set ''_-'') s \<Longrightarrow> list_all path_char s \<and> filter ((=) (CHR ''.'')) s = []"
  by (induction s) (auto simp: path_char_def alnum_def is_digit_def is_upper_def is_lower_def)

lemmas path_chars = path_char_def alnum_def is_lower_def is_upper_def is_digit_def

lemma rule_filename_path:
  assumes "0 \<le> i"
  shows "path_ok (''/rules/files/'' @ rule_filename i)"
proof -
  have "list_all is_digit (show_int i)"
    using assms by (auto simp: show_int_def list_all_iff dest: show_nat_digits)
  from digits_path [OF this] show ?thesis
    by (simp add: rule_filename_def path_ok_def path_chars)
qed

end
