(* ===== verification/WriteGuard.thy ===== *)
theory WriteGuard imports WriteTools begin

text \<open>
  What the write tools may do, end to end: which calls reach a manager at all, what the requests look
  like, and which allowlist decides about an active response.
\<close>

section \<open>The requests of every tool\<close>

lemma with_path: "list_all path_char p \<Longrightarrow> list_all path_char q \<Longrightarrow> list_all path_char (p @ q)"
  by simp

lemma agent_path: "agent_id_ok i \<Longrightarrow> list_all path_char i \<and> filter ((=) (CHR ''.'')) i = []"
  using digits_path by (auto simp: agent_id_ok_def)

lemma group_id_path: "group_id_ok g \<Longrightarrow> list_all path_char g \<and> filter ((=) (CHR ''.'')) g = []"
  using group_path by (auto simp: group_id_ok_def)

lemma endpoint_paths:
  "path_ok ''/active-response''" "path_ok ''/agents''" "path_ok ''/cluster/restart''"
  "path_ok ''/manager/restart''" "path_ok ''/cluster/status''" "path_ok ''/cluster/nodes''"
  "agent_id_ok i \<Longrightarrow> path_ok (''/agents/'' @ i @ ''/restart'')"
  "agent_id_ok i \<Longrightarrow> group_id_ok g \<Longrightarrow> path_ok (''/agents/'' @ i @ ''/group/'' @ g)"
  using agent_path [of i] group_id_path [of g] by (auto simp: path_ok_def path_chars)

lemma sends_bind_result:
  assumes "sends P m" "\<And>x. sends P (\<lambda>c. f x c)"
  shows "sends P (\<lambda>c. bind_st (m c) (\<lambda>x c1. f x c1))"
  by (rule sends_bind) (use assms in auto)

lemma sends_case_sum:
  "(\<And>e. v = Inl e \<Longrightarrow> sends P (f e)) \<Longrightarrow> (\<And>x. v = Inr x \<Longrightarrow> sends P (g x)) \<Longrightarrow>
    sends P (\<lambda>c. case v of Inl e \<Rightarrow> f e c | Inr x \<Rightarrow> g x c)"
  by (cases v) auto

lemma sends_if: "(b \<Longrightarrow> sends P f) \<Longrightarrow> (\<not> b \<Longrightarrow> sends P g) \<Longrightarrow> sends P (\<lambda>c. if b then f c else g c)"
  by (cases b) auto

lemma sends_isolate: "sends (write_request_ok s) (isolate_agent env a s)"
  unfolding isolate_agent_def api_isolate_agent_def api_verbs
  by (intro sends_answer_with sends_api_request endpoint_paths) simp

lemma sends_restart: "agent_id_ok (ra_agent_id a) \<Longrightarrow> sends (write_request_ok s) (restart_agent env a s)"
  unfolding restart_agent_def api_restart_agent_def api_verbs
  by (intro sends_answer_with sends_api_request endpoint_paths) simp_all

lemma sends_add_group:
  "agent_id_ok (ga_agent_id a) \<Longrightarrow> group_id_ok (ga_group_id a) \<Longrightarrow>
    sends (write_request_ok s) (add_agent_to_group env a s)"
  unfolding add_agent_to_group_def api_add_agent_to_group_def api_verbs
  by (intro sends_answer_with sends_api_request endpoint_paths) simp_all

lemma sends_remove_group:
  "agent_id_ok (ga_agent_id a) \<Longrightarrow> group_id_ok (ga_group_id a) \<Longrightarrow>
    sends (write_request_ok s) (remove_agent_from_group env a s)"
  unfolding remove_agent_from_group_def api_remove_agent_from_group_def api_verbs
  by (intro sends_answer_with sends_api_request endpoint_paths) simp_all

lemma rule_ok_id: "rule_ok d r \<Longrightarrow> 100000 \<le> rd_id r"
  by (auto simp: rule_ok_def validate_rule_def split: if_splits)

lemma sends_create_rule: "rule_ok d (cr_rule a) \<Longrightarrow> sends (write_request_ok s) (create_rule env a s)"
  unfolding create_rule_def api_upload_rule_file_def
  by (intro sends_answer_with sends_put_raw rule_filename_path) (auto dest: rule_ok_id)

lemma sends_update_rule: "100000 \<le> ur_rule_id a \<Longrightarrow> sends (write_request_ok s) (update_rule env a s)"
  unfolding update_rule_def api_upload_rule_file_def
  by (intro sends_answer_with sends_put_raw rule_filename_path) auto

lemma sends_ar: "sends (write_request_ok s) (api_run_active_response env ids cmd ca (wazuh_user s))"
  unfolding api_run_active_response_def api_verbs by (intro sends_api_request endpoint_paths) simp

lemma sends_run_ar: "sends (write_request_ok s) (run_active_response env a s al)"
  unfolding run_active_response_def by (intro sends_if sends_pure sends_answer_with sends_ar)

lemma sends_ar_group:
  "sends (write_request_ok s) (api_run_active_response_on_group env g cmd ca (wazuh_user s))"
  unfolding api_run_active_response_on_group_def api_verbs
proof (rule sends_bind)
  show "sends (write_request_ok s) (api_request env ''GET'' ''/agents''
      [(''group'', JStr g), (''select'', JStr ''id''), (''limit'', JInt 500)] None (wazuh_user s))"
    by (intro sends_api_request endpoint_paths) simp
next
  fix resp
  show "sends (write_request_ok s) (\<lambda>c1. case group_agent_ids env resp of
      Inl e \<Rightarrow> (Inl e, c1)
    | Inr [] \<Rightarrow> (Inr (JObj [(''data'', JObj [(''affected_items'', JList []), (''failed_items'', JList [])])]), c1)
    | Inr (i # is) \<Rightarrow> api_run_active_response env (i # is) cmd ca (wazuh_user s) c1)"
    by (cases "group_agent_ids env resp"; cases "projr (group_agent_ids env resp)") (simp_all add: sends_ar)
qed

lemma sends_run_ar_group: "sends (write_request_ok s) (run_active_response_on_group env a s al)"
  unfolding run_active_response_on_group_def by (intro sends_if sends_pure sends_answer_with sends_ar_group)

lemma sends_cluster_status: "sends (write_request_ok s) (api_cluster_status env ra)"
  unfolding api_cluster_status_def api_verbs
proof (rule sends_bind)
  show "sends (write_request_ok s) (api_request env ''GET'' ''/cluster/status'' [] None ra)"
    by (intro sends_api_request endpoint_paths) simp
next
  fix resp
  have n: "sends (write_request_ok s) (api_request env ''GET'' ''/cluster/nodes'' [] None ra)"
    by (intro sends_api_request endpoint_paths) simp
  show "sends (write_request_ok s) (\<lambda>c1. case status_flags resp of Inl e \<Rightarrow> (Inl e, c1)
    | Inr (enabled, running) \<Rightarrow>
        if \<not> enabled then (Inr \<lparr>cs_enabled = enabled, cs_running = running, cs_nodes = JList []\<rparr>, c1)
        else bind_st (api_request env ''GET'' ''/cluster/nodes'' [] None ra c1) (\<lambda>nresp c2.
          case node_list nresp of Inl e \<Rightarrow> (Inl e, c2)
          | Inr nodes \<Rightarrow> (Inr \<lparr>cs_enabled = enabled, cs_running = running, cs_nodes = nodes\<rparr>, c2)))"
    by (cases "status_flags resp")
      (auto split: prod.splits intro!: sends_if sends_bind [OF n] sends_case_sum)
qed

lemma sends_restart_manager:
  "sends (write_request_ok s) (restart_manager env now a s)"
  unfolding restart_manager_def
proof (rule sends_bind [OF sends_cluster_status])
  fix pre
  have r: "sends (write_request_ok s) (api_restart_cluster env (rm_scope a) (wazuh_user s))"
    unfolding api_restart_cluster_def api_verbs by (intro sends_api_request) (simp_all add: endpoint_paths)
  show "sends (write_request_ok s) (\<lambda>c1.
       if rm_scope a = ''cluster'' \<and> \<not> cs_enabled pre
       then (Inl (wazuh_error_init ''upstream_error''
               ''cluster scope requested but clustering is not enabled on this manager'' 400 None), c1)
       else case node_names (cs_nodes pre) of
         Inl e \<Rightarrow> (Inl e, c1)
       | Inr names \<Rightarrow>
           (let affected = (if names = [] then [JStr ''this-node''] else names)
            in bind_st (api_restart_cluster env (rm_scope a) (wazuh_user s) c1) (\<lambda>resp c2.
                 if list_all (\<lambda>n. case n of JStr _ \<Rightarrow> True | _ \<Rightarrow> False) affected
                 then (Inr [(''ok'', JBool True), (''scope'', JStr (rm_scope a)),
                            (''affected_nodes'', JList affected), (''timestamp'', JStr now)], c2)
                 else (Inl ValidationE, c2))))"
    unfolding Let_def by (intro sends_if sends_pure sends_case_sum sends_bind [OF r])
qed

lemma sends_dict_result: "sends P m \<Longrightarrow> sends P (dict_result env m)"
  unfolding dict_result_def by (rule sends_bind) simp_all

section \<open>The effect of a handler on the world\<close>

text \<open>The requests a tenant's pooled client has sent.\<close>

definition sent_for :: "('l, server_api_pool) world \<Rightarrow> string \<Rightarrow> request list" where
  "sent_for w tid = (case dget (sp_clients (wd_app w)) tid of None \<Rightarrow> [] | Some c \<Rightarrow> ac_sent c)"

definition adds :: "(request \<Rightarrow> bool) \<Rightarrow> string \<Rightarrow> ('l, server_api_pool) world \<Rightarrow> ('l, server_api_pool) world \<Rightarrow> bool" where
  "adds P own w w' \<longleftrightarrow> (\<exists>evs. wd_events w' = wd_events w @ evs) \<and>
     (wd_calls w' = wd_calls w \<and> wd_durations w' = wd_durations w \<and> wd_limiter w' = wd_limiter w) \<and>
     (\<forall>tid. \<exists>rqs. sent_for w' tid = sent_for w tid @ rqs \<and> list_all P rqs \<and> (tid \<noteq> own \<longrightarrow> rqs = []))"

lemma adds_refl: "adds P own w w"
  by (auto simp: adds_def intro: exI [of _ "[]"])

lemma adds_trans:
  assumes "adds P own w w1" "adds P own w1 w2"
  shows "adds P own w w2"
  unfolding adds_def
proof (intro conjI allI)
  show "\<exists>evs. wd_events w2 = wd_events w @ evs"
    using assms unfolding adds_def by (metis append.assoc)
  show "wd_calls w2 = wd_calls w" "wd_durations w2 = wd_durations w" "wd_limiter w2 = wd_limiter w"
    using assms unfolding adds_def by auto
  fix tid
  obtain r1 r2 where "sent_for w1 tid = sent_for w tid @ r1" "list_all P r1" "tid \<noteq> own \<longrightarrow> r1 = []"
    "sent_for w2 tid = sent_for w1 tid @ r2" "list_all P r2" "tid \<noteq> own \<longrightarrow> r2 = []"
    using assms unfolding adds_def by meson
  then show "\<exists>rqs. sent_for w2 tid = sent_for w tid @ rqs \<and> list_all P rqs \<and> (tid \<noteq> own \<longrightarrow> rqs = [])"
    by (intro exI [of _ "r1 @ r2"]) auto
qed

lemma sent_for_cong: "wd_app w' = wd_app w \<Longrightarrow> sent_for w' = sent_for w"
  by (simp add: sent_for_def fun_eq_iff)

lemma adds_app:
  "wd_app w' = wd_app w \<Longrightarrow> wd_events w' = wd_events w @ evs \<Longrightarrow> wd_calls w' = wd_calls w \<Longrightarrow>
    wd_durations w' = wd_durations w \<Longrightarrow> wd_limiter w' = wd_limiter w \<Longrightarrow> adds P own w w'"
  unfolding adds_def by (simp add: sent_for_cong [of w' w])

lemma adds_emit: "adds P own w (emit_events evs w)"
  by (rule adds_app) (simp_all add: emit_events_def)

text \<open>A fresh client has sent nothing.\<close>

lemma sp_fresh_sent: "sp_fresh opn net tid = Inr c \<Longrightarrow> ac_sent c = []"
  by (auto simp: sp_fresh_def bind_res_eq_Inr new_api_client_def)

lemma sp_acquire_sent:
  assumes "sp_acquire opn net own p = (r, p')"
  shows "(\<forall>tid. (case dget (sp_clients p') tid of None \<Rightarrow> [] | Some c \<Rightarrow> ac_sent c) =
      (case dget (sp_clients p) tid of None \<Rightarrow> [] | Some c \<Rightarrow> ac_sent c)) \<and>
    (\<forall>c. r = Inr c \<longrightarrow> dget (sp_clients p') own = Some c)"
proof (cases "dget (sp_clients p) own")
  case None
  show ?thesis
    using sp_acquire_new [OF None assms]
  proof (elim disjE exE conjE)
    fix c assume c: "r = Inr c" "sp_fresh opn net own = Inr c"
      "dget (sp_clients p') = (dget (sp_clients p))(own \<mapsto> c)"
    show ?thesis unfolding c(3) using None sp_fresh_sent [OF c(2)] c(1) by auto
  qed auto
next
  case (Some c)
  then show ?thesis using sp.acquire_known [OF Some assms] by auto
qed

lemma with_client_adds:
  assumes "sends P m" "with_client env s m w = (r, w')"
  shows "adds P (s_tenant_id s) w w'"
proof -
  obtain x p where a: "sp_acquire (we_open env) (we_net env) (s_tenant_id s) (wd_app w) = (x, p)"
    by fastforce
  note acq = sp_acquire_sent [OF a]
  show ?thesis
  proof (cases x)
    case (Inl e)
    then have w': "w' = w\<lparr>wd_app := p\<rparr>" using assms(2) a by (simp add: with_client_def)
    then have "sent_for w' tid = sent_for w tid" for tid using acq by (simp add: sent_for_def)
    with w' show ?thesis by (simp add: adds_def)
  next
    case (Inr c)
    obtain y c' where m: "m c = (y, c')" by fastforce
    have w': "w' = w\<lparr>wd_app := sp_store (s_tenant_id s) c' p\<rparr>"
      using assms(2) a Inr m by (simp add: with_client_def)
    obtain rqs where rqs: "ac_sent c' = ac_sent c @ rqs" "list_all P rqs"
      using sends_run [OF assms(1) m] by blast
    have "dget (sp_clients p) (s_tenant_id s) = Some c" using acq Inr by simp
    then have own: "sent_for w (s_tenant_id s) = ac_sent c"
      using conjunct1 [OF acq, rule_format, of "s_tenant_id s"] by (simp add: sent_for_def)
    have "sent_for w' tid = (if tid = s_tenant_id s then ac_sent c' else sent_for w tid)" for tid
      using conjunct1 [OF acq, rule_format, of tid] by (simp add: w' sent_for_def sp_store_def dget_dset)
    then show ?thesis using rqs own by (simp add: adds_def) (simp add: w')
  qed
qed

text \<open>Every handler either refuses, leaving events only, or leaves events and runs one action on its
  tenant's client.\<close>

definition client_call ::
    "(request \<Rightarrow> bool) \<Rightarrow> write_env \<Rightarrow> session \<Rightarrow> ('l, server_api_pool) world \<Rightarrow>
      (exn + result) \<times> ('l, server_api_pool) world \<Rightarrow> bool" where
  "client_call P env s w out \<longleftrightarrow>
     (\<exists>evs. snd out = emit_events evs w) \<or> (\<exists>evs m. sends P m \<and> out = with_client env s m (emit_events evs w))"

lemma emit_events_append: "emit_events ys (emit_events xs w) = emit_events (xs @ ys) w"
  by (simp add: emit_events_def)

lemma client_call_emitted: "client_call P env s (emit_events evs w) out \<Longrightarrow> client_call P env s w out"
  unfolding client_call_def emit_events_append by blast

lemma client_call_refused: "client_call P env s w (Inl e, emit_events evs w)"
  by (auto simp: client_call_def)

lemma client_call_with: "sends P m \<Longrightarrow> client_call P env s w (with_client env s m w)"
  unfolding client_call_def by (intro disjI2 exI [of _ "[]"] exI [of _ m]) (simp add: emit_events_def)

lemma client_call_adds:
  assumes "client_call P env s w (r, w')"
  shows "adds P (s_tenant_id s) w w'"
  using assms adds_emit adds_trans [OF adds_emit with_client_adds] unfolding client_call_def by (metis snd_conv)

lemma guarded_call:
  assumes "\<And>a w. parsed = Inr a \<Longrightarrow> client_call P env s w (body a w)"
  shows "client_call P env s w (guarded_write env s tool parsed body w)"
proof (cases parsed)
  case (Inl e)
  then show ?thesis using client_call_refused [of P env s w e "[]"] by (simp add: guarded_write_def emit_events_def)
next
  case (Inr a)
  show ?thesis using client_call_refused client_call_emitted [OF assms [OF Inr]]
    by (auto simp: guarded_write_def Inr split: prod.splits sum.splits)
qed

lemma checked_Inr: "checked p v = Inr a \<Longrightarrow> p a"
  by (auto simp: checked_def split: option.splits if_splits)

lemmas arg_models = IsolateAgentArgs_def RestartAgentArgs_def AddAgentToGroupArgs_def
  RemoveAgentFromGroupArgs_def CreateRuleArgs_def UpdateRuleArgs_def RunActiveResponseArgs_def
  RunActiveResponseOnGroupArgs_def RestartManagerArgs_def

lemma guarded_client_call:
  assumes "\<And>a. parsed = Inr a \<Longrightarrow> sends P (m a)"
  shows "client_call P env s w (guarded_write env s tool parsed (\<lambda>a. with_client env s (m a)) w)"
  by (intro guarded_call client_call_with assms)

lemma guarded_list_call:
  assumes "\<And>a al. parsed = Inr a \<Longrightarrow> sends P (m a al)"
  shows "client_call P env s w (guarded_write env s tool parsed (\<lambda>a w. case v of (Inl e, evs) \<Rightarrow> (Inl e, emit_events evs w)
      | (Inr al, evs) \<Rightarrow> with_client env s (m a al) (emit_events evs w)) w)"
proof (rule guarded_call)
  fix a w
  assume a: "parsed = Inr a"
  show "client_call P env s w (case v of (Inl e, evs) \<Rightarrow> (Inl e, emit_events evs w)
      | (Inr al, evs) \<Rightarrow> with_client env s (m a al) (emit_events evs w))"
    using client_call_refused client_call_emitted [OF client_call_with [OF assms [OF a]]]
    by (auto split: prod.splits sum.splits)
qed

lemmas handler_defs = isolate_inner_def restart_inner_def add_group_inner_def remove_group_inner_def
  create_rule_inner_def update_rule_inner_def run_ar_inner_def run_ar_on_group_inner_def
  restart_manager_inner_def

lemmas tool_sends = sends_isolate sends_restart sends_add_group sends_remove_group sends_create_rule
  sends_update_rule sends_run_ar sends_run_ar_group

lemma write_handler_call:
  assumes "(tool, h) \<in> set (write_tools env s)"
  shows "client_call (write_request_ok s) env s w (h kw w)"
proof -
  have "\<forall>(t, g) \<in> set (write_tools env s). client_call (write_request_ok s) env s w (g kw w)"
    unfolding write_tools_def list.set ball_simps prod.case handler_defs
    by (intro conjI guarded_client_call guarded_list_call sends_dict_result sends_isolate sends_run_ar
        sends_run_ar_group sends_restart_manager TrueI;
      auto simp: arg_models dest: checked_Inr intro!: sends_restart sends_add_group sends_remove_group
        sends_update_rule intro: sends_create_rule)
  then show ?thesis using assms by auto
qed

lemma write_handler_adds:
  "(tool, h) \<in> set (write_tools env s) \<Longrightarrow> h kw w = (r, w') \<Longrightarrow> adds (write_request_ok s) (s_tenant_id s) w w'"
  using write_handler_call client_call_adds by metis

section \<open>Who may write\<close>

text \<open>
  C22: The requests of a write tool stay inside its tenant and its endpoints, and are attributed.
  Whatever the arguments and the answers, a write tool sends requests only through the client of the
  session's tenant; every path is made of letters, digits, slashes, dashes, underscores and dots,
  never two dots in a row; and each \<open>PUT\<close> or \<open>DELETE\<close> carries the session's Wazuh user as \<open>run_as\<close>
  exactly when it has one, and no \<open>run_as\<close> at all otherwise.
\<close>

theorem write_requests_attributed:
  assumes "(tool, h) \<in> set (write_tools env s)" "h kw w = (r, w')"
  shows "\<exists>rqs. sent_for w' tid = sent_for w tid @ rqs \<and> (tid \<noteq> s_tenant_id s \<longrightarrow> rqs = []) \<and>
    (\<forall>rq \<in> set rqs. (\<forall>c \<in> set (rq_path rq). alnum c \<or> c \<in> set ''/-_.'') \<and>
      \<not> contains_sub ''..'' (rq_path rq) \<and>
      (rq_method rq \<in> {''PUT'', ''DELETE''} \<longrightarrow>
        dget (rq_params rq) ''run_as'' = map_option JStr (wazuh_user s)))"
proof -
  obtain rqs where rqs: "sent_for w' tid = sent_for w tid @ rqs" "tid \<noteq> s_tenant_id s \<longrightarrow> rqs = []"
    "list_all (write_request_ok s) rqs"
    using write_handler_adds [OF assms] unfolding adds_def by blast
  have "\<forall>rq \<in> set rqs. (\<forall>c \<in> set (rq_path rq). alnum c \<or> c \<in> set ''/-_.'') \<and>
      \<not> contains_sub ''..'' (rq_path rq) \<and>
      (rq_method rq \<in> {''PUT'', ''DELETE''} \<longrightarrow>
        dget (rq_params rq) ''run_as'' = map_option JStr (wazuh_user s))"
    using rqs(3) path_ok_no_dots
    by (simp add: list_all_iff write_request_ok_def path_ok_def path_char_def)
  with rqs(1,2) show ?thesis by blast
qed

lemma guarded_denied:
  "check_write_allowed env s tool = (Inl e, evs) \<Longrightarrow>
    sent_for (snd (guarded_write env s tool parsed body w)) = sent_for w"
  by (cases parsed) (auto simp: guarded_write_def emit_events_def intro!: sent_for_cong)

lemma write_handler_denied:
  assumes "(tool, h) \<in> set (write_tools env s)" "check_write_allowed env s tool = (Inl e, evs)"
  shows "sent_for (snd (h kw w)) = sent_for w"
  using assms unfolding write_tools_def
  by (simp only: list.set insert_iff empty_iff prod.inject)
    (elim disjE conjE FalseE; hypsubst; unfold handler_defs; erule guarded_denied)

lemma write_tool_prefix: "(tool, h) \<in> set (write_tools env s) \<Longrightarrow> startswith tool ''write.''"
  by (auto simp: write_tools_def startswith_def)

lemma run_handler_write:
  assumes "startswith tool ''write.''" "run_handler tool h elapsed s a w = (r, w')"
  obtains w2 where "h a (emit_events [tool_event s tool a ''write.requested'' 0 0 None] w) = (r, w2)"
    "wd_app w' = wd_app w2" "\<exists>evs. wd_events w' = wd_events w2 @ evs"
proof -
  obtain x w2 where h: "h a (emit_events [tool_event s tool a ''write.requested'' 0 0 None] w) = (x, w2)"
    by fastforce
  have "r = x \<and> wd_app w' = wd_app w2 \<and> (\<exists>evs. wd_events w' = wd_events w2 @ evs)"
    using assms h by (cases x) (auto simp: run_handler_def world_defs split: prod.splits)
  then show thesis using that h by blast
qed

text \<open>A request leaves only after the three guards, and after the request event.\<close>

lemma write_sent_only_if:
  assumes tool: "(tool, h) \<in> set (write_tools env s)"
    and pol: "rbac_policy s = (Inr pol, pevs)"
    and run: "instrumented_tool tool rbac_policy acq h elapsed (Some s) kw w = (r, w')"
    and sent: "sent_for w' tid \<noteq> sent_for w tid"
  shows "tid = s_tenant_id s \<and> is_allowed s tool pol \<and>
    (\<exists>l. acq (s_tenant_id s) (user_id s) (wd_limiter w) = (Inr (), l)) \<and>
    (\<exists>evs. check_write_allowed env s tool = (Inr (), evs)) \<and>
    tool_event s tool kw ''write.requested'' 0 0 None \<in> set (wd_events w')"
  using pol run
proof (cases rule: instrumented_cases)
  case (ran l)
  let ?req = "tool_event s tool kw ''write.requested'' 0 0 None"
  let ?w1 = "emit_events [?req] (w\<lparr>wd_events := wd_events w @ pevs, wd_limiter := l\<rparr>)"
  obtain w2 where h: "h kw ?w1 = (r, w2)" and app: "wd_app w' = wd_app w2"
    and evs: "\<exists>evs. wd_events w' = wd_events w2 @ evs"
    using run_handler_write [OF write_tool_prefix [OF tool] ran(3)] by blast
  have same: "sent_for ?w1 = sent_for w" "sent_for w' = sent_for w2"
    using app by (auto intro!: sent_for_cong simp: emit_events_def)
  note add = write_handler_adds [OF tool h, unfolded adds_def]
  have "tid = s_tenant_id s" using add sent same by fastforce
  moreover have "\<exists>evs. check_write_allowed env s tool = (Inr (), evs)"
  proof (cases "check_write_allowed env s tool")
    case (Pair x evs)
    then show ?thesis
      using write_handler_denied [OF tool, of _ evs kw ?w1] h sent same by (cases x) auto
  qed
  moreover have "?req \<in> set (wd_events w')"
    using add evs by (auto simp: emit_events_def)
  ultimately show ?thesis using ran by blast
qed (use sent in \<open>auto simp: sent_for_def\<close>)

text \<open>
  C3: Nothing is changed without authority.  If a call of a write tool makes any tenant's client send
  a request at all, then the tenant is the session's own and registered, its role policy admits the
  tool to the session's role, its \<open>write_allowlist\<close> is unset or names the tool, the rate limiter
  admitted the call, and the intent is on the audit trail.
\<close>

theorem no_write_without_authority:
  assumes "yaml_wf ts" "we_write_policy env = Some (make_write_allowlist (yaml_get ts))"
    and "(tool, h) \<in> set (write_tools env s)"
    and "instrumented_tool tool (make_rbac_policy (yaml_get ts)) acq h elapsed (Some s) kw w = (r, w')"
    and "sent_for w' tid \<noteq> sent_for w tid"
  shows "tid = s_tenant_id s \<and>
    (\<exists>cfg \<in> set (yaml_all ts). tenant_id cfg = tid \<and>
      is_allowed s tool (effective_allowlist_for (role_tool_allowlist cfg)) \<and>
      (\<forall>l. write_allowlist cfg = Some l \<longrightarrow> tool \<in> set l)) \<and>
    (\<exists>l. acq tid (user_id s) (wd_limiter w) = (Inr (), l)) \<and>
    tool_event s tool kw ''write.requested'' 0 0 None \<in> set (wd_events w')"
proof -
  obtain x pevs where p: "make_rbac_policy (yaml_get ts) s = (x, pevs)" by fastforce
  show ?thesis
  proof (cases "yaml_get ts (s_tenant_id s)")
    case (Inl e)
    then have "e = KeyE" by (simp add: yaml_get_def split: option.splits)
    then have pol: "make_rbac_policy (yaml_get ts) s = (Inr [], [resolve_miss s])"
      using Inl by (simp add: make_rbac_policy_def resolve_with_def)
    from write_sent_only_if [where rbac_policy = "make_rbac_policy (yaml_get ts)", OF assms(3) pol assms(4,5)]
    show ?thesis by (simp add: is_allowed_def)
  next
    case (Inr cfg)
    then have cfg: "cfg \<in> set (yaml_all ts)" "tenant_id cfg = s_tenant_id s"
      using yaml.get_iff [OF assms(1)] by auto
    have pol: "make_rbac_policy (yaml_get ts) s = (Inr (effective_allowlist_for (role_tool_allowlist cfg)), [])"
      using Inr by (simp add: make_rbac_policy_def resolve_with_def)
    note sent = write_sent_only_if [where rbac_policy = "make_rbac_policy (yaml_get ts)", OF assms(3) pol assms(4,5)]
    have "check_write_allowed env s tool =
        (case write_allowlist cfg of None \<Rightarrow> Inr ()
         | Some l \<Rightarrow> if tool \<notin> set l then Inl (write_forbidden tool) else Inr (), [])"
      using Inr assms(2)
      by (simp add: check_write_allowed_def make_write_allowlist_def resolve_with_def split: option.splits)
    then have "\<forall>l. write_allowlist cfg = Some l \<longrightarrow> tool \<in> set l"
      using sent by (auto split: if_splits)
    then show ?thesis using sent cfg by auto
  qed
qed

section \<open>Active responses\<close>

lemma with_client_silent:
  assumes "\<And>c. \<exists>r. m c = (r, c)"
  shows "sent_for (snd (with_client env s m w)) = sent_for w"
proof -
  have "sends (\<lambda>_. False) m"
    using assms by (intro sends_state [OF _ sends_pure]) (metis snd_conv)
  then have a: "adds (\<lambda>_. False) (s_tenant_id s) w (snd (with_client env s m w))"
    using with_client_adds by (metis prod.collapse)
  show ?thesis
  proof
    fix tid
    obtain rqs where "sent_for (snd (with_client env s m w)) tid = sent_for w tid @ rqs"
      "list_all (\<lambda>_. False) rqs"
      using a unfolding adds_def by blast
    then show "sent_for (snd (with_client env s m w)) tid = sent_for w tid" by (cases rqs) auto
  qed
qed

text \<open>
  C24: Only allowlisted commands run on agents.  If a call of \<open>write.run_active_response\<close> makes any
  client send a request, then its arguments were valid and confirmed, named at most fifty agents,
  and the command is on the list the resolver gave for the session.
\<close>

theorem ar_command_gated:
  assumes "we_ar_policy env = Some p" "p s = (Inr allowed, evs)"
    and "run_ar_inner env s kw w = (r, w')" "sent_for w' tid \<noteq> sent_for w tid"
  shows "\<exists>a. RunActiveResponseArgs (we_decoder env) kw = Inr a \<and> ar_confirm a \<and>
    length (ar_agent_ids a) \<le> 50 \<and> ar_command_name a \<in> set allowed"
proof (cases "RunActiveResponseArgs (we_decoder env) kw")
  case (Inl e)
  then show ?thesis using assms(3,4) by (auto simp: run_ar_inner_def guarded_write_def)
next
  case (Inr a)
  obtain x cevs where c: "check_write_allowed env s ''write.run_active_response'' = (x, cevs)" by fastforce
  obtain u where u: "x = Inr u"
  proof (cases x)
    case (Inl e)
    have "sent_for (snd (run_ar_inner env s kw w)) = sent_for w"
      unfolding run_ar_inner_def by (rule guarded_denied) (use c Inl in simp)
    then show ?thesis using assms(3,4) by simp
  qed
  let ?m = "dict_result env (run_active_response (we_api env) a s allowed)"
  let ?w1 = "emit_events evs (emit_events cevs w)"
  have run: "with_client env s ?m ?w1 = (r, w')"
    using assms(1-3) Inr c u by (simp add: run_ar_inner_def guarded_write_def resolve_list_def)
  have w1: "sent_for ?w1 = sent_for w" by (rule sent_for_cong) (simp add: emit_events_def)
  have "ar_command_name a \<in> set allowed"
  proof (rule ccontr)
    assume "ar_command_name a \<notin> set allowed"
    then have "\<exists>r. ?m c = (r, c)" for c by (simp add: dict_result_def run_active_response_def)
    from with_client_silent [OF this, of env s ?w1] run w1 assms(4) show False by simp
  qed
  then show ?thesis
    using Inr by (auto simp: RunActiveResponseArgs_def agent_ids_ok_def AR_AGENTS_MAX_def dest!: checked_Inr)
qed

text \<open>
  No list of commands stands before a group response.  The handler of
  \<open>write.run_active_response_on_group\<close> gives the same result whatever the active-response allowlist;
  once the group is allowlisted and has agents, it sends them the command, whichever it is.
\<close>

theorem group_ar_ignores_command_allowlist:
  assumes "ag_group_name a \<in> set groups" "usable_token (ae_mono env) c = Some t"
    and "ac_feed c = Inr (200, Some agents) # Inr (200, Some resp) # rest"
    and "group_agent_ids env agents = Inr (i # is)"
  shows "run_ar_on_group_inner (wenv\<lparr>we_ar_policy := p\<rparr>) s kw w = run_ar_on_group_inner wenv s kw w \<and>
    (\<exists>ask rq body. ac_sent (snd (run_active_response_on_group env a s groups c)) = ac_sent c @ [ask, rq] \<and>
      rq_path rq = ''/active-response'' \<and> rq_json rq = Some (JObj body) \<and>
      dget body ''command'' = Some (JStr (ag_command_name a)))"
proof
  have check: "check_write_allowed (wenv\<lparr>we_ar_policy := p\<rparr>) s tool = check_write_allowed wenv s tool" for tool
    by (simp add: check_write_allowed_def)
  have client: "with_client (wenv\<lparr>we_ar_policy := p\<rparr>) s m v = with_client wenv s m v" for m v
    by (simp add: with_client_def)
  have result: "dict_result (wenv\<lparr>we_ar_policy := p\<rparr>) m = dict_result wenv m" for m
    by (simp add: dict_result_def fun_eq_iff)
  have same: "we_decoder (wenv\<lparr>we_ar_policy := p\<rparr>) = we_decoder wenv"
    "we_group_policy (wenv\<lparr>we_ar_policy := p\<rparr>) = we_group_policy wenv"
    "we_api (wenv\<lparr>we_ar_policy := p\<rparr>) = we_api wenv"
    by simp_all
  show "run_ar_on_group_inner (wenv\<lparr>we_ar_policy := p\<rparr>) s kw w = run_ar_on_group_inner wenv s kw w"
    unfolding run_ar_on_group_inner_def guarded_write_def check client result same by (rule refl)
next
  let ?c1 = "c\<lparr>ac_sent := ac_sent c @ [x], ac_feed := Inr (200, Some resp) # rest\<rparr>"
  have tok: "usable_token (ae_mono env) (c\<lparr>ac_sent := x, ac_feed := y\<rparr>) = Some t" for x y
    using assms(2) by (simp add: usable_token_def)
  show "\<exists>ask rq body. ac_sent (snd (run_active_response_on_group env a s groups c)) = ac_sent c @ [ask, rq] \<and>
      rq_path rq = ''/active-response'' \<and> rq_json rq = Some (JObj body) \<and>
      dget body ''command'' = Some (JStr (ag_command_name a))"
    using assms tok
    by (simp add: run_active_response_on_group_def answer_with_def api_run_active_response_on_group_def
        api_request_def authorised_def ensure_jwt_def send_def Let_def finish_response_def response_json_def
        api_run_active_response_def api_verbs active_response_body_def dget_dset)
qed

text \<open>
  The limit of fifty agents does not bound the agents.  One agent id that holds commas passes
  the limit and makes the same request as the list of its parts, however many there are.
\<close>

theorem agent_limit_bypassed:
  "agent_ids_ok [join_with '','' ids] \<and>
   isolate_agent env \<lparr>ia_agent_ids = [join_with '','' ids], ia_confirm = True\<rparr> s =
     isolate_agent env \<lparr>ia_agent_ids = ids, ia_confirm = True\<rparr> s"
  by (simp add: agent_ids_ok_def AR_AGENTS_MAX_def isolate_agent_def api_isolate_agent_def api_verbs)

section \<open>A server with one tenant\<close>

definition demo_decoder :: arg_decoder where
  "demo_decoder = \<lparr>dc_isolate = \<lambda>_. None, dc_restart = \<lambda>_. Some \<lparr>ra_agent_id = ''001'', ra_confirm = True\<rparr>,
     dc_group = \<lambda>_. None, dc_create = \<lambda>_. None, dc_update = \<lambda>_. None,
     dc_ar = \<lambda>_. Some \<lparr>ar_agent_ids = [''001''], ar_command_name = ''block'', ar_custom_args = None, ar_confirm = True\<rparr>,
     dc_ar_group = \<lambda>_. None, dc_manager = \<lambda>_. None, dc_compiles = \<lambda>_. True\<rparr>"

definition demo_registry :: "(string, tenant_config) dict" where
  "demo_registry = [(''acme'', demo_tenant\<lparr>active_response_allowlist := [''block'']\<rparr>)]"

definition demo_write_env :: write_env where
  "demo_write_env = \<lparr>we_api = demo_env, we_now = ''now'', we_decoder = demo_decoder,
     we_open = sp_open (yaml_get demo_registry) (yaml_secret_get demo_secrets),
     we_net = \<lambda>_. [minted, Inr (200, Some (JObj []))],
     we_write_policy = Some (make_write_allowlist (yaml_get demo_registry)),
     we_ar_policy = Some (make_ar_allowlist (yaml_get demo_registry)), we_group_policy = None\<rparr>"

definition demo_admin :: session where
  "demo_admin = \<lparr>user_id = ''root'', s_tenant_id = ''acme'', rbac_role = ''admin'',
     auth_method = OAuthAuth, wazuh_user = Some ''alice''\<rparr>"

definition demo_world :: "(unit, server_api_pool) world" where
  "demo_world = \<lparr>wd_events = [], wd_calls = [], wd_limited = [], wd_durations = [], wd_limiter = (),
     wd_app = new_server_api_pool\<rparr>"

definition open_limiter :: "string \<Rightarrow> string \<Rightarrow> unit \<Rightarrow> (exn + unit) \<times> unit" where
  "open_limiter tid sid l = (Inr (), l)"

lemma demo_not_sent: "sent_for demo_world tid = []"
  by (simp add: sent_for_def demo_world_def new_server_api_pool_def)

lemma demo_tools:
  "(''write.restart_agent'', restart_inner demo_write_env demo_admin) \<in> set (write_tools demo_write_env demo_admin)"
  by (simp add: write_tools_def)

lemma demo_restart:
  "map rq_path (sent_for (snd (restart_inner demo_write_env demo_admin [] demo_world)) ''acme'') =
    [''/security/user/authenticate'', ''/agents/001/restart'']"
  by code_simp

lemma demo_call:
  "map rq_path (sent_for (snd (instrumented_tool ''write.restart_agent'' (make_rbac_policy (yaml_get demo_registry))
      open_limiter (restart_inner demo_write_env demo_admin) 1 (Some demo_admin) [] demo_world)) ''acme'') =
    [''/security/user/authenticate'', ''/agents/001/restart'']"
  by code_simp

lemma demo_ar:
  "map rq_path (sent_for (snd (run_ar_inner demo_write_env demo_admin [] demo_world)) ''acme'') =
    [''/security/user/authenticate'', ''/active-response'']"
  by code_simp

theorem write_requests_attributed_witness:
  "\<exists>rqs. sent_for (snd (restart_inner demo_write_env demo_admin [] demo_world)) ''acme'' = rqs \<and> length rqs = 2 \<and>
    (\<forall>rq \<in> set rqs. \<not> contains_sub ''..'' (rq_path rq))"
proof -
  let ?w' = "snd (restart_inner demo_write_env demo_admin [] demo_world)"
  have "length (map rq_path (sent_for ?w' ''acme'')) = 2" unfolding demo_restart by simp
  then show ?thesis
    using write_requests_attributed [OF demo_tools, of "[]" demo_world "fst (restart_inner demo_write_env demo_admin [] demo_world)"
        ?w' "''acme''"] demo_not_sent by auto
qed

theorem no_write_without_authority_witness:
  "tool_event demo_admin ''write.restart_agent'' [] ''write.requested'' 0 0 None \<in>
    set (wd_events (snd (instrumented_tool ''write.restart_agent'' (make_rbac_policy (yaml_get demo_registry))
      open_limiter (restart_inner demo_write_env demo_admin) 1 (Some demo_admin) [] demo_world)))"
proof -
  let ?run = "instrumented_tool ''write.restart_agent'' (make_rbac_policy (yaml_get demo_registry))
      open_limiter (restart_inner demo_write_env demo_admin) 1 (Some demo_admin) [] demo_world"
  have wf: "yaml_wf demo_registry"
    by (simp add: yaml_wf_def demo_registry_def demo_tenant_def sample_tenant_def)
  have policy: "we_write_policy demo_write_env = Some (make_write_allowlist (yaml_get demo_registry))"
    by (simp add: demo_write_env_def)
  have "sent_for (snd ?run) ''acme'' \<noteq> []" using demo_call by (metis list.distinct(1) list.map_disc_iff)
  then have sent: "sent_for (snd ?run) ''acme'' \<noteq> sent_for demo_world ''acme''"
    using demo_not_sent by simp
  have run: "?run = (fst ?run, snd ?run)" by simp
  show ?thesis using no_write_without_authority [OF wf policy demo_tools run sent] by simp
qed

theorem ar_command_gated_witness:
  "\<exists>a. RunActiveResponseArgs demo_decoder [] = Inr a \<and> ar_command_name a \<in> set [''block'']"
proof -
  let ?run = "run_ar_inner demo_write_env demo_admin [] demo_world"
  have policy: "we_ar_policy demo_write_env = Some (make_ar_allowlist (yaml_get demo_registry))"
    by (simp add: demo_write_env_def)
  have allowed: "make_ar_allowlist (yaml_get demo_registry) demo_admin = (Inr [''block''], [])"
    by (simp add: make_ar_allowlist_def resolve_with_def yaml_get_def demo_registry_def demo_admin_def)
  have "sent_for (snd ?run) ''acme'' \<noteq> []" using demo_ar by (metis list.distinct(1) list.map_disc_iff)
  then have sent: "sent_for (snd ?run) ''acme'' \<noteq> sent_for demo_world ''acme''"
    using demo_not_sent by simp
  have run: "?run = (fst ?run, snd ?run)" by simp
  show ?thesis
    using ar_command_gated [OF policy allowed run sent] by (auto simp: demo_write_env_def)
qed

definition group_call :: run_ar_group_args where
  "group_call = \<lparr>ag_group_name = ''web'', ag_command_name = ''wipe'', ag_custom_args = None, ag_confirm = True\<rparr>"

definition group_listing :: json where
  "group_listing = JObj [(''data'', JObj [(''affected_items'', JList [JObj [(''id'', JStr ''007'')]])])]"

theorem group_ar_ignores_command_allowlist_witness:
  "\<exists>ask rq body. ac_sent (snd (run_active_response_on_group demo_env group_call demo_admin [''web'']
      (demo_client [Inr (200, Some group_listing), Inr (200, Some (JObj []))]))) = [ask, rq] \<and>
    rq_json rq = Some (JObj body) \<and> dget body ''command'' = Some (JStr ''wipe'')"
proof -
  let ?c = "demo_client [Inr (200, Some group_listing), Inr (200, Some (JObj []))]"
  have "group_agent_ids demo_env group_listing = Inr [''007'']" by code_simp
  moreover have "usable_token (ae_mono demo_env) ?c = Some ''old''" by code_simp
  moreover have "ac_feed ?c = [Inr (200, Some group_listing), Inr (200, Some (JObj []))]" "ac_sent ?c = []"
    by (simp_all add: demo_client_def)
  moreover have "ag_group_name group_call \<in> set [''web'']" "ag_command_name group_call = ''wipe''"
    by (simp_all add: group_call_def)
  ultimately show ?thesis
    using group_ar_ignores_command_allowlist [where a = group_call and groups = "[''web'']" and env = demo_env
        and c = ?c and w = demo_world and s = demo_admin] by fastforce
qed

end
