(* ===== verification/Query.thy ===== *)
theory Query imports Json begin

text \<open>
  The OpenSearch query builders (\<open>wazuh/query.py\<close>): validation of time ranges and identifiers, size
  clamping, and the JSON bodies, which contain nothing but the builder's own keys.  Patterns are
  matched with \<open>re.match\<close>, whose \<open>$\<close> also matches before one trailing newline.
\<close>

section \<open>Constants\<close>

definition MAX_ALERT_SIZE :: int where "MAX_ALERT_SIZE = 100"
definition DEFAULT_ALERT_SIZE :: int where "DEFAULT_ALERT_SIZE = 25"
definition TERMINATE_AFTER :: int where "TERMINATE_AFTER = 10000"

definition DEFAULT_ALERT_FIELDS :: "string list" where
  "DEFAULT_ALERT_FIELDS =
     [''timestamp'', ''@timestamp'', ''agent.id'', ''agent.name'', ''agent.ip'', ''rule.id'',
      ''rule.level'', ''rule.description'', ''rule.mitre.id'', ''rule.mitre.tactic'', ''location'',
      ''decoder.name'']"

definition DEFAULT_VULN_FIELDS :: "string list" where
  "DEFAULT_VULN_FIELDS =
     [''vulnerability.id'', ''vulnerability.severity'', ''vulnerability.scores.base.score'',
      ''vulnerability.published_at'', ''vulnerability.detected_at'', ''vulnerability.status'',
      ''package.name'', ''package.version'', ''agent.id'', ''timestamp'', ''@timestamp'']"

definition DEFAULT_FIM_FIELDS :: "string list" where
  "DEFAULT_FIM_FIELDS =
     [''agent.id'', ''timestamp'', ''@timestamp'', ''syscheck.path'', ''syscheck.event'',
      ''syscheck.sha256_after'', ''syscheck.md5_after'', ''syscheck.size_after'',
      ''syscheck.uid_after'', ''syscheck.gid_after'']"

definition SEVERITIES :: "string list" where
  "SEVERITIES = [''Low'', ''Medium'', ''High'', ''Critical'']"

section \<open>Patterns\<close>

text \<open>\<open>^[0-9]{3,10}$\<close>, \<open>^T[0-9]{4}(\.[0-9]{3})?$\<close>, \<open>^CVE-[0-9]{4}-[0-9]{4,}$\<close> and
  \<open>^([1-9][0-9]*)([mhd])$\<close>.\<close>

definition digits :: "string \<Rightarrow> bool" where
  "digits s \<longleftrightarrow> list_all is_digit s"

definition agent_id_body :: "string \<Rightarrow> bool" where
  "agent_id_body s \<longleftrightarrow> digits s \<and> 3 \<le> length s \<and> length s \<le> 10"

definition agent_id_match :: "string \<Rightarrow> bool" where
  "agent_id_match s \<longleftrightarrow> re_dollar agent_id_body s"

definition mitre_id_body :: "string \<Rightarrow> bool" where
  "mitre_id_body s \<longleftrightarrow>
     startswith s ''T'' \<and>
     (let r = drop 1 s
      in length (take 4 r) = 4 \<and> digits (take 4 r) \<and>
         (drop 4 r = [] \<or>
          (startswith (drop 4 r) ''.'' \<and> length (drop 5 r) = 3 \<and> digits (drop 5 r))))"

definition mitre_id_match :: "string \<Rightarrow> bool" where
  "mitre_id_match s \<longleftrightarrow> re_dollar mitre_id_body s"

definition cve_id_body :: "string \<Rightarrow> bool" where
  "cve_id_body s \<longleftrightarrow>
     startswith s ''CVE-'' \<and>
     (let r = drop 4 s
      in length (take 4 r) = 4 \<and> digits (take 4 r) \<and> startswith (drop 4 r) ''-'' \<and>
         4 \<le> length (drop 5 r) \<and> digits (drop 5 r))"

definition cve_id_match :: "string \<Rightarrow> bool" where
  "cve_id_match s \<longleftrightarrow> re_dollar cve_id_body s"

definition unit_seconds :: "char \<Rightarrow> nat option" where
  "unit_seconds c =
     (if c = CHR ''m'' then Some 60 else if c = CHR ''h'' then Some 3600
      else if c = CHR ''d'' then Some 86400 else None)"

text \<open>The two groups of the pattern: the number and the seconds of its unit.\<close>

definition time_range_body :: "string \<Rightarrow> (nat \<times> nat) option" where
  "time_range_body s =
     (if s = [] then None
      else case unit_seconds (last s) of
        None \<Rightarrow> None
      | Some secs \<Rightarrow>
          (let n = butlast s
           in if n \<noteq> [] \<and> digits n \<and> hd n \<noteq> CHR ''0'' then Some (read_nat n, secs) else None))"

definition time_range_match :: "string \<Rightarrow> (nat \<times> nat) option" where
  "time_range_match s =
     (case time_range_body s of
        Some g \<Rightarrow> Some g
      | None \<Rightarrow> if s \<noteq> [] \<and> last s = CHR 0x0A then time_range_body (butlast s) else None)"

definition MAX_LOOKBACK_SECONDS :: nat where "MAX_LOOKBACK_SECONDS = 30 * 86400"

definition validate_time_range :: "string \<Rightarrow> exn + unit" where
  "validate_time_range tr =
     (case time_range_match tr of
        None \<Rightarrow> Inl ValueE
      | Some (n, secs) \<Rightarrow> if n * secs \<ge> MAX_LOOKBACK_SECONDS then Inl ValueE else Inr ())"

section \<open>Fragments\<close>

type_synonym query = "(string, json) dict"

definition range_since :: "string \<Rightarrow> json" where
  "range_since time_range =
     JObj [(''range'', JObj [(''@timestamp'', JObj [(''gte'', JStr (''now-'' @ time_range))])])]"

definition term_clause :: "string \<Rightarrow> json \<Rightarrow> json" where
  "term_clause f v = JObj [(''term'', JObj [(f, v)])]"

definition str_list :: "string list \<Rightarrow> json" where
  "str_list xs = JList (map JStr xs)"

definition clamp_size :: "int \<Rightarrow> int" where
  "clamp_size n = min (max 1 n) MAX_ALERT_SIZE"

definition query_body :: "json \<Rightarrow> int \<Rightarrow> string \<Rightarrow> string list \<Rightarrow> query" where
  "query_body bool_block n sort_field srcs =
     [(''query'', JObj [(''bool'', bool_block)]), (''size'', JInt n),
      (''sort'', JList [JObj [(sort_field, JStr ''desc'')]]), (''_source'', str_list srcs),
      (''terminate_after'', JInt TERMINATE_AFTER)]"

text \<open>\<open>if cursor\<close>: no cursor and an empty one are the same.\<close>

definition with_cursor :: "json list option \<Rightarrow> query \<Rightarrow> query" where
  "with_cursor cursor q =
     (case cursor of None \<Rightarrow> q | Some [] \<Rightarrow> q | Some xs \<Rightarrow> dset ''search_after'' (JList xs) q)"

definition must_query :: "json list \<Rightarrow> int \<Rightarrow> string \<Rightarrow> string list \<Rightarrow> json list option \<Rightarrow> query" where
  "must_query must n sort_field srcs cursor =
     with_cursor cursor (query_body (JObj [(''must'', JList must)]) (clamp_size n) sort_field srcs)"

section \<open>Builders\<close>

definition build_search_alerts_query ::
    "string \<Rightarrow> int option \<Rightarrow> string option \<Rightarrow> int \<Rightarrow> json list option \<Rightarrow> exn + query" where
  "build_search_alerts_query time_range min_level agent_id n cursor =
     bind_res (validate_time_range time_range) (\<lambda>_.
       if (case min_level of None \<Rightarrow> False | Some l \<Rightarrow> \<not> (0 \<le> l \<and> l \<le> 15)) then Inl ValueE
       else Inr (must_query
         ([range_since time_range] @
          (case min_level of None \<Rightarrow> []
           | Some l \<Rightarrow> [JObj [(''range'', JObj [(''rule.level'', JObj [(''gte'', JInt l)])])]]) @
          (case agent_id of None \<Rightarrow> [] | Some a \<Rightarrow> [term_clause ''agent.id'' (JStr a)]))
         n ''@timestamp'' DEFAULT_ALERT_FIELDS cursor))"

definition build_get_alert_query :: "string \<Rightarrow> exn + query" where
  "build_get_alert_query alert_id =
     (if alert_id = [] \<or> CHR ''/'' \<in> set alert_id \<or> CHR 0x5C \<in> set alert_id then Inl ValueE
      else Inr [(''query'', term_clause ''_id'' (JStr alert_id)), (''size'', JInt 1),
                (''_source'', str_list DEFAULT_ALERT_FIELDS), (''terminate_after'', JInt 10)])"

definition build_alerts_by_agent_query ::
    "string \<Rightarrow> string \<Rightarrow> int \<Rightarrow> json list option \<Rightarrow> exn + query" where
  "build_alerts_by_agent_query agent_id time_range n cursor =
     (if \<not> agent_id_match agent_id then Inl ValueE
      else bind_res (validate_time_range time_range) (\<lambda>_.
        Inr (must_query [range_since time_range, term_clause ''agent.id'' (JStr agent_id)]
               n ''@timestamp'' DEFAULT_ALERT_FIELDS cursor)))"

definition build_alerts_by_mitre_query ::
    "string \<Rightarrow> string \<Rightarrow> int \<Rightarrow> json list option \<Rightarrow> exn + query" where
  "build_alerts_by_mitre_query technique_id time_range n cursor =
     (if \<not> mitre_id_match technique_id then Inl ValueE
      else bind_res (validate_time_range time_range) (\<lambda>_.
        Inr (must_query [range_since time_range, term_clause ''rule.mitre.id'' (JStr technique_id)]
               n ''@timestamp'' DEFAULT_ALERT_FIELDS cursor)))"

text \<open>\<open>_SEVERITIES[_SEVERITIES.index(sev):]\<close>.\<close>

definition severities_from :: "string \<Rightarrow> exn + string list" where
  "severities_from min_severity =
     (let sev = capitalize min_severity
      in if sev \<notin> set SEVERITIES then Inl ValueE else Inr (dropWhile (\<lambda>x. x \<noteq> sev) SEVERITIES))"

definition severity_clause :: "string option \<Rightarrow> exn + json list" where
  "severity_clause min_severity =
     (case min_severity of
        None \<Rightarrow> Inr []
      | Some s \<Rightarrow> bind_res (severities_from s) (\<lambda>allowed.
          Inr [JObj [(''terms'', JObj [(''vulnerability.severity'', str_list allowed)])]]))"

definition build_vulnerabilities_by_agent_query ::
    "string \<Rightarrow> string option \<Rightarrow> int \<Rightarrow> json list option \<Rightarrow> exn + query" where
  "build_vulnerabilities_by_agent_query agent_id min_severity n cursor =
     (if \<not> agent_id_match agent_id then Inl ValueE
      else bind_res (severity_clause min_severity) (\<lambda>sev.
        Inr (must_query ([term_clause ''agent.id'' (JStr agent_id)] @ sev)
               n ''vulnerability.detected_at'' DEFAULT_VULN_FIELDS cursor)))"

definition build_search_vulnerabilities_query ::
    "string option \<Rightarrow> string option \<Rightarrow> int \<Rightarrow> json list option \<Rightarrow> exn + query" where
  "build_search_vulnerabilities_query cve_id min_severity n cursor =
     (if cve_id = None \<and> min_severity = None then Inl ValueE
      else case cve_id of
        None \<Rightarrow> bind_res (severity_clause min_severity) (\<lambda>sev.
          Inr (must_query sev n ''vulnerability.detected_at'' DEFAULT_VULN_FIELDS cursor))
      | Some cve \<Rightarrow>
          if \<not> cve_id_match cve then Inl ValueE
          else bind_res (severity_clause min_severity) (\<lambda>sev.
            Inr (must_query ([term_clause ''vulnerability.id'' (JStr cve)] @ sev)
                   n ''vulnerability.detected_at'' DEFAULT_VULN_FIELDS cursor)))"

definition build_fim_history_for_path_query ::
    "string \<Rightarrow> string \<Rightarrow> int \<Rightarrow> json list option \<Rightarrow> exn + query" where
  "build_fim_history_for_path_query path time_range n cursor =
     (if path = [] \<or> 1024 < length path then Inl ValueE
      else bind_res (validate_time_range time_range) (\<lambda>_.
        Inr (must_query [range_since time_range, term_clause ''syscheck.path'' (JStr path)]
               n ''@timestamp'' DEFAULT_FIM_FIELDS cursor)))"

definition build_fim_changes_by_agent_query ::
    "string \<Rightarrow> string \<Rightarrow> int \<Rightarrow> json list option \<Rightarrow> exn + query" where
  "build_fim_changes_by_agent_query agent_id time_range n cursor =
     (if \<not> agent_id_match agent_id then Inl ValueE
      else bind_res (validate_time_range time_range) (\<lambda>_.
        Inr (must_query
               [range_since time_range, term_clause ''agent.id'' (JStr agent_id),
                JObj [(''exists'', JObj [(''field'', JStr ''syscheck.path'')])]]
               n ''@timestamp'' DEFAULT_FIM_FIELDS cursor)))"

section \<open>What a query may ask\<close>

definition QUERY_KEYS :: "string list" where
  "QUERY_KEYS = [''query'', ''size'', ''sort'', ''_source'', ''terminate_after'', ''search_after'']"

text \<open>A bounded query: only the builder's keys, between one and a hundred hits, a cap on the documents
  a shard may visit.\<close>

definition bounded_query :: "query \<Rightarrow> bool" where
  "bounded_query q \<longleftrightarrow>
     fst ` set q \<subseteq> set QUERY_KEYS \<and>
     (\<exists>n. dget q ''size'' = Some (JInt n) \<and> 1 \<le> n \<and> n \<le> 100) \<and>
     (\<exists>t. dget q ''terminate_after'' = Some (JInt t) \<and> 1 \<le> t \<and> t \<le> 10000)"

lemma clamp_bounds: "1 \<le> clamp_size n \<and> clamp_size n \<le> 100"
  by (auto simp: clamp_size_def MAX_ALERT_SIZE_def)

lemma with_cursor_bounded: "bounded_query q \<Longrightarrow> bounded_query (with_cursor cursor q)"
proof -
  assume b: "bounded_query q"
  have "bounded_query (dset ''search_after'' (JList xs) q)" for xs
    using b by (auto simp: bounded_query_def dget_dset QUERY_KEYS_def dom_update)
  then show ?thesis using b by (auto simp: with_cursor_def split: option.splits list.splits)
qed

lemma query_body_bounded: "1 \<le> n \<Longrightarrow> n \<le> 100 \<Longrightarrow> bounded_query (query_body b n f fs)"
  by (simp add: bounded_query_def query_body_def QUERY_KEYS_def TERMINATE_AFTER_def)

lemma must_query_bounded: "bounded_query (must_query must n f fs cursor)"
  unfolding must_query_def using clamp_bounds by (intro with_cursor_bounded query_body_bounded) auto

lemma builders_bounded:
  "build_search_alerts_query tr lv a n c = Inr q \<Longrightarrow> bounded_query q"
  "build_get_alert_query i = Inr q \<Longrightarrow> bounded_query q"
  "build_alerts_by_agent_query a' tr n c = Inr q \<Longrightarrow> bounded_query q"
  "build_alerts_by_mitre_query m tr n c = Inr q \<Longrightarrow> bounded_query q"
  "build_vulnerabilities_by_agent_query a' sv n c = Inr q \<Longrightarrow> bounded_query q"
  "build_search_vulnerabilities_query cve sv n c = Inr q \<Longrightarrow> bounded_query q"
  "build_fim_history_for_path_query p tr n c = Inr q \<Longrightarrow> bounded_query q"
  "build_fim_changes_by_agent_query a' tr n c = Inr q \<Longrightarrow> bounded_query q"
  by (auto simp: build_search_alerts_query_def build_alerts_by_agent_query_def build_alerts_by_mitre_query_def
      build_vulnerabilities_by_agent_query_def build_search_vulnerabilities_query_def
      build_fim_history_for_path_query_def build_fim_changes_by_agent_query_def bind_res_eq_Inr
      must_query_bounded split: if_splits option.splits)
    (auto simp: build_get_alert_query_def bounded_query_def QUERY_KEYS_def split: if_splits)

section \<open>The lookback window\<close>

lemma digit_char_ord: "is_digit c \<Longrightarrow> digit_char (ord c - 48) = c"
  by (simp add: digit_char_def is_digit_def)

lemma digit_char_0: "digit_char 0 = CHR ''0''"
  by code_simp

lemma digit_char_zero: "n < 10 \<Longrightarrow> digit_char n = CHR ''0'' \<longleftrightarrow> n = 0"
  using ord_digit_char [of n] digit_char_0 by (cases "n = 0") auto

lemma show_nat_0: "show_nat 0 = ''0''"
  by (subst show_nat.simps) (simp add: digit_char_0)

lemma show_read_nat: "digits s \<Longrightarrow> s \<noteq> [] \<Longrightarrow> hd s \<noteq> CHR ''0'' \<Longrightarrow> show_nat (read_nat s) = s"
proof (induction s rule: rev_induct)
  case (snoc c t)
  have c: "is_digit c" "ord c - 48 < 10" using snoc.prems(1) by (auto simp: digits_def is_digit_def)
  show ?case
  proof (cases "t = []")
    case True
    then show ?thesis using c by (subst show_nat.simps) (simp add: read_nat_def digit_char_ord)
  next
    case False
    then have t: "show_nat (read_nat t) = t" using snoc by (simp add: digits_def)
    have "read_nat t \<noteq> 0"
    proof
      assume "read_nat t = 0"
      then have "t = show_nat 0" using t by simp
      then have "hd t = CHR ''0''" by (simp add: show_nat_0)
      then show False using snoc.prems(3) False by simp
    qed
    then show ?thesis using t c
      by (subst show_nat.simps) (simp add: read_nat_snoc digit_char_ord)
  qed
qed simp

lemma show_nat_hd: "0 < n \<Longrightarrow> hd (show_nat n) \<noteq> CHR ''0''"
proof (induction n rule: show_nat.induct)
  case (1 n)
  then show ?case
    by (subst show_nat.simps) (auto simp: digit_char_zero hd_append show_nat_nonempty)
qed

lemma time_range_body_iff:
  "time_range_body s = Some (n, secs) \<longleftrightarrow>
    0 < n \<and> (\<exists>u. s = show_nat n @ [u] \<and> unit_seconds u = Some secs)"
proof
  assume "time_range_body s = Some (n, secs)"
  then have s: "s \<noteq> []" "unit_seconds (last s) = Some secs" "butlast s \<noteq> []" "digits (butlast s)"
    "hd (butlast s) \<noteq> CHR ''0''" "n = read_nat (butlast s)"
    by (auto simp: time_range_body_def Let_def split: if_splits option.splits)
  then have show_n: "show_nat n = butlast s" by (simp add: show_read_nat)
  then have "n \<noteq> 0" using s(5) show_nat_0 by (metis list.sel(1))
  then show "0 < n \<and> (\<exists>u. s = show_nat n @ [u] \<and> unit_seconds u = Some secs)"
    using s show_n by (metis append_butlast_last_id gr0I)
next
  assume "0 < n \<and> (\<exists>u. s = show_nat n @ [u] \<and> unit_seconds u = Some secs)"
  then show "time_range_body s = Some (n, secs)"
    using show_nat_digits [of _ n]
    by (auto simp: time_range_body_def digits_def list_all_iff show_nat_nonempty show_nat_hd)
qed

lemma time_range_newline: "unit_seconds (CHR 0x0A) = None"
  by (simp add: unit_seconds_def)

lemma time_range_match_iff:
  "time_range_match s = Some (n, secs) \<longleftrightarrow>
    0 < n \<and> (\<exists>u nl. s = show_nat n @ [u] @ nl \<and> unit_seconds u = Some secs \<and> nl \<in> {[], [CHR 0x0A]})"
proof (cases "s \<noteq> [] \<and> last s = CHR 0x0A")
  case True
  then obtain t where s: "s = t @ [CHR 0x0A]" by (metis append_butlast_last_id)
  have "time_range_body s = None" unfolding s by (simp add: time_range_body_def time_range_newline)
  then have "time_range_match s = time_range_body t" by (simp add: time_range_match_def s)
  then show ?thesis using s time_range_newline by (auto simp: time_range_body_iff)
next
  case False
  then have "time_range_match s = time_range_body s"
    by (auto simp: time_range_match_def split: option.splits)
  then show ?thesis using False by (auto simp: time_range_body_iff)
qed

text \<open>
  The accepted time ranges.  A lookback is accepted exactly when it is a positive number in plain
  decimal notation and a unit of minutes, hours or days, strictly below thirty days; a line feed
  after the unit is accepted too.
\<close>

theorem lookback_window:
  "validate_time_range tr = Inr () \<longleftrightarrow>
    (\<exists>n u secs nl. tr = show_nat n @ [u] @ nl \<and> 0 < n \<and> n * secs < 2592000 \<and>
      ((u = CHR ''m'' \<and> secs = 60) \<or> (u = CHR ''h'' \<and> secs = 3600) \<or> (u = CHR ''d'' \<and> secs = 86400)) \<and>
      (nl = [] \<or> nl = [CHR 0x0A]))"
proof -
  have secs: "unit_seconds u = Some secs \<longleftrightarrow>
      (u = CHR ''m'' \<and> secs = 60) \<or> (u = CHR ''h'' \<and> secs = 3600) \<or> (u = CHR ''d'' \<and> secs = 86400)" for u secs
    by (auto simp: unit_seconds_def)
  have "validate_time_range tr = Inr () \<longleftrightarrow>
      (\<exists>n secs. time_range_match tr = Some (n, secs) \<and> n * secs < 2592000)"
    by (auto simp: validate_time_range_def MAX_LOOKBACK_SECONDS_def split: option.splits)
  then show ?thesis unfolding time_range_match_iff secs by auto
qed

section \<open>Identifiers and severities\<close>

text \<open>
  A severity is a floor.  A minimum severity, in any capitalisation, selects exactly the known
  severities that are at least as high, and an unknown one is refused.
\<close>

theorem severity_is_a_floor:
  "severities_from s = Inr l \<longleftrightarrow>
    (\<exists>i < 4. capitalize s = [''Low'', ''Medium'', ''High'', ''Critical''] ! i \<and>
      l = drop i [''Low'', ''Medium'', ''High'', ''Critical''])"
proof -
  have "(\<exists>i < (4 :: nat). P i) \<longleftrightarrow> P 0 \<or> P 1 \<or> P 2 \<or> P 3" for P
    by (auto simp: less_Suc_eq numeral_eq_Suc)
  then show ?thesis by (auto simp: severities_from_def Let_def SEVERITIES_def)
qed

end
