(* ===== verification/Hunt.thy ===== *)
theory Hunt imports Query begin

text \<open>
  The hunting grammar (\<open>tools/hunt.py\<close>): clauses over an allowlist of fields, their validators, and
  their rendering as an OpenSearch \<open>bool\<close> query, with what that query selects compared to what the
  clauses say.
\<close>

section \<open>Clauses\<close>

definition FIELD_ALLOWLIST :: "string list" where
  "FIELD_ALLOWLIST =
     [''agent.id'', ''agent.name'', ''agent.ip'', ''rule.id'', ''rule.level'', ''rule.groups'', ''rule.mitre.id'',
      ''rule.mitre.tactic'', ''location'', ''decoder.name'', ''full_log'', ''data.srcip'', ''data.dstip'',
      ''data.srcuser'', ''data.dstuser'', ''data.srcport'', ''data.dstport'', ''data.url'', ''data.hostname'',
      ''syscheck.path'', ''syscheck.sha256_after'', ''syscheck.md5_after'', ''timestamp'', ''@timestamp'']"

datatype hunt_op = OpEq | OpNe | OpGt | OpGte | OpLt | OpLte | OpIn | OpExists | OpPrefix

datatype hunt_scalar = SStr string | SInt int | SFloat rat

datatype hunt_value = VStr string | VInt int | VFloat rat | VBool bool | VList "hunt_scalar list"

definition MAX_CLAUSES :: nat where "MAX_CLAUSES = 20"
definition MAX_IN_LENGTH :: nat where "MAX_IN_LENGTH = 100"
definition MIN_PREFIX_LENGTH :: nat where "MIN_PREFIX_LENGTH = 3"

record hunt_clause =
  hc_field :: string
  hc_op :: hunt_op
  hc_value :: hunt_value

definition field_in_allowlist :: "string \<Rightarrow> bool" where
  "field_in_allowlist f \<longleftrightarrow> f \<in> set FIELD_ALLOWLIST"

definition op_value_consistent :: "hunt_clause \<Rightarrow> bool" where
  "op_value_consistent c =
     (case hc_op c of
        OpIn \<Rightarrow> (case hc_value c of VList xs \<Rightarrow> xs \<noteq> [] \<and> length xs \<le> MAX_IN_LENGTH | _ \<Rightarrow> False)
      | OpExists \<Rightarrow> hc_value c = VBool True
      | OpPrefix \<Rightarrow> (case hc_value c of VStr s \<Rightarrow> MIN_PREFIX_LENGTH \<le> length s | _ \<Rightarrow> False)
      | _ \<Rightarrow> (case hc_value c of VList xs \<Rightarrow> False | _ \<Rightarrow> True))"

text \<open>A clause as the model accepts it; a \<open>ValueError\<close> of a validator becomes a \<open>ValidationError\<close>.\<close>

definition HuntClause :: "hunt_clause \<Rightarrow> exn + hunt_clause" where
  "HuntClause c =
     (if \<not> field_in_allowlist (hc_field c) then Inl ValidationE
      else if \<not> op_value_consistent c then Inl ValidationE else Inr c)"

record hunt_query_args =
  hq_time_range :: string
  hq_must :: "hunt_clause list"
  hq_must_not :: "hunt_clause list"
  hq_size :: int
  hq_cursor :: "json list option"

definition clause_cap :: "hunt_query_args \<Rightarrow> bool" where
  "clause_cap a \<longleftrightarrow>
     length (hq_must a) + length (hq_must_not a) \<le> MAX_CLAUSES \<and> \<not> (hq_must a = [] \<and> hq_must_not a = [])"

definition HuntQueryArgs :: "hunt_query_args \<Rightarrow> exn + hunt_query_args" where
  "HuntQueryArgs a =
     (if validate_time_range (hq_time_range a) \<noteq> Inr () \<or> \<not> (1 \<le> hq_size a \<and> hq_size a \<le> MAX_ALERT_SIZE)
      then Inl ValidationE
      else bind_res (map_res HuntClause (hq_must a)) (\<lambda>_.
           bind_res (map_res HuntClause (hq_must_not a)) (\<lambda>_.
             if clause_cap a then Inr a else Inl ValidationE)))"

section \<open>Rendering\<close>

fun scalar_json :: "hunt_scalar \<Rightarrow> json" where
  "scalar_json (SStr s) = JStr s"
| "scalar_json (SInt i) = JInt i"
| "scalar_json (SFloat r) = JFloat r"

fun value_json :: "hunt_value \<Rightarrow> json" where
  "value_json (VStr s) = JStr s"
| "value_json (VInt i) = JInt i"
| "value_json (VFloat r) = JFloat r"
| "value_json (VBool b) = JBool b"
| "value_json (VList xs) = JList (map scalar_json xs)"

definition leaf :: "string \<Rightarrow> string \<Rightarrow> json \<Rightarrow> json" where
  "leaf kind k v = JObj [(kind, JObj [(k, v)])]"

definition render_clause :: "hunt_clause \<Rightarrow> json" where
  "render_clause c =
     (case hc_op c of
        OpEq \<Rightarrow> leaf ''term'' (hc_field c) (value_json (hc_value c))
      | OpNe \<Rightarrow> leaf ''term'' (hc_field c) (value_json (hc_value c))
      | OpIn \<Rightarrow> leaf ''terms'' (hc_field c) (value_json (hc_value c))
      | OpExists \<Rightarrow> leaf ''exists'' ''field'' (JStr (hc_field c))
      | OpPrefix \<Rightarrow> leaf ''prefix'' (hc_field c) (value_json (hc_value c))
      | OpGt \<Rightarrow> leaf ''range'' (hc_field c) (JObj [(''gt'', value_json (hc_value c))])
      | OpGte \<Rightarrow> leaf ''range'' (hc_field c) (JObj [(''gte'', value_json (hc_value c))])
      | OpLt \<Rightarrow> leaf ''range'' (hc_field c) (JObj [(''lt'', value_json (hc_value c))])
      | OpLte \<Rightarrow> leaf ''range'' (hc_field c) (JObj [(''lte'', value_json (hc_value c))]))"

text \<open>The two loops: \<open>ne\<close> changes sides.\<close>

fun flatten_must :: "hunt_clause list \<Rightarrow> json list \<times> json list \<Rightarrow> json list \<times> json list" where
  "flatten_must [] acc = acc"
| "flatten_must (c # cs) (must, must_not) =
     (if hc_op c = OpNe then flatten_must cs (must, must_not @ [render_clause c])
      else flatten_must cs (must @ [render_clause c], must_not))"

fun flatten_must_not :: "hunt_clause list \<Rightarrow> json list \<times> json list \<Rightarrow> json list \<times> json list" where
  "flatten_must_not [] acc = acc"
| "flatten_must_not (c # cs) (must, must_not) =
     (if hc_op c = OpNe then flatten_must_not cs (must @ [render_clause c], must_not)
      else flatten_must_not cs (must, must_not @ [render_clause c]))"

definition bool_block :: "json list \<times> json list \<Rightarrow> json" where
  "bool_block p =
     JObj ((''must'', JList (fst p)) # (if snd p = [] then [] else [(''must_not'', JList (snd p))]))"

definition build_hunt_dsl :: "hunt_query_args \<Rightarrow> query" where
  "build_hunt_dsl a =
     with_cursor (hq_cursor a)
       (query_body
          (bool_block (flatten_must_not (hq_must_not a)
             (flatten_must (hq_must a) ([range_since (hq_time_range a)], []))))
          (hq_size a) ''@timestamp'' DEFAULT_ALERT_FIELDS)"

section \<open>Pivots\<close>

datatype ioc_kind = IocHash | IocIp | IocUser | IocDomain

fun PIVOT_FIELDS :: "ioc_kind \<Rightarrow> string list" where
  "PIVOT_FIELDS IocHash = [''syscheck.sha256_after'', ''syscheck.md5_after'']"
| "PIVOT_FIELDS IocIp = [''data.srcip'', ''data.dstip'']"
| "PIVOT_FIELDS IocUser = [''data.srcuser'', ''data.dstuser'']"
| "PIVOT_FIELDS IocDomain = [''data.hostname'', ''data.url'']"

record pivot_args =
  pv_kind :: ioc_kind
  pv_value :: string
  pv_time_range :: string
  pv_size :: int
  pv_cursor :: "json list option"

text \<open>The preset over the first field; its arguments are validated again.\<close>

definition pivot_hunt_args :: "pivot_args \<Rightarrow> exn + hunt_query_args" where
  "pivot_hunt_args a =
     bind_res (HuntClause \<lparr>hc_field = hd (PIVOT_FIELDS (pv_kind a)), hc_op = OpEq, hc_value = VStr (pv_value a)\<rparr>)
       (\<lambda>c. HuntQueryArgs \<lparr>hq_time_range = pv_time_range a, hq_must = [c], hq_must_not = [],
              hq_size = pv_size a, hq_cursor = pv_cursor a\<rparr>)"

section \<open>What a query is to the search engine\<close>

definition leaves :: "json \<Rightarrow> string \<Rightarrow> json list" where
  "leaves b k = (case b of JObj kvs \<Rightarrow> (case jget kvs k of JList xs \<Rightarrow> xs | _ \<Rightarrow> []) | _ \<Rightarrow> [])"

definition bool_of :: "query \<Rightarrow> json" where
  "bool_of q = (case dget q ''query'' of Some (JObj kvs) \<Rightarrow> jget kvs ''bool'' | _ \<Rightarrow> JNull)"

definition LEAF_KINDS :: "string list" where
  "LEAF_KINDS = [''term'', ''terms'', ''range'', ''exists'', ''prefix'']"

text \<open>How the engine sees a document: the indexed values of each field, and how a value of a field compares
  to one given in a query (equality, order, prefix), the instant a time stamp denotes, and the present.\<close>

record ('d, 'v) engine =
  en_values :: "'d \<Rightarrow> string \<Rightarrow> 'v list"
  en_eq :: "string \<Rightarrow> 'v \<Rightarrow> hunt_value \<Rightarrow> bool"
  en_cmp :: "string \<Rightarrow> 'v \<Rightarrow> hunt_value \<Rightarrow> int option"
  en_starts :: "string \<Rightarrow> 'v \<Rightarrow> string \<Rightarrow> bool"
  en_time :: "'v \<Rightarrow> rat"
  en_now :: rat

fun read_scalar :: "json \<Rightarrow> hunt_value option" where
  "read_scalar (JStr s) = Some (VStr s)"
| "read_scalar (JInt i) = Some (VInt i)"
| "read_scalar (JFloat r) = Some (VFloat r)"
| "read_scalar (JBool b) = Some (VBool b)"
| "read_scalar j = None"

text \<open>The documented meaning of the query language, for the leaves and the flat \<open>bool\<close> queries at issue: a
  leaf holds of a document when some indexed value of its field satisfies it.\<close>

definition within_bound :: "string \<Rightarrow> int \<Rightarrow> bool" where
  "within_bound b k \<longleftrightarrow> b = ''gt'' \<and> 0 < k \<or> b = ''gte'' \<and> 0 \<le> k \<or> b = ''lt'' \<and> k < 0 \<or> b = ''lte'' \<and> k \<le> 0"

definition reads_leaves :: "('d, 'v) engine \<Rightarrow> (json \<Rightarrow> 'd \<Rightarrow> bool) \<Rightarrow> bool" where
  "reads_leaves en holds \<longleftrightarrow>
     (\<forall>f j v d. read_scalar j = Some v \<longrightarrow>
        holds (JObj [(''term'', JObj [(f, j)])]) d = (\<exists>x \<in> set (en_values en d f). en_eq en f x v)) \<and>
     (\<forall>f js d. holds (JObj [(''terms'', JObj [(f, JList js)])]) d =
        (\<exists>j \<in> set js. \<exists>x \<in> set (en_values en d f). \<exists>v. read_scalar j = Some v \<and> en_eq en f x v)) \<and>
     (\<forall>f d. holds (JObj [(''exists'', JObj [(''field'', JStr f)])]) d = (en_values en d f \<noteq> [])) \<and>
     (\<forall>f p d. holds (JObj [(''prefix'', JObj [(f, JStr p)])]) d = (\<exists>x \<in> set (en_values en d f). en_starts en f x p)) \<and>
     (\<forall>f b j v d. read_scalar j = Some v \<longrightarrow> holds (JObj [(''range'', JObj [(f, JObj [(b, j)])])]) d =
        (\<exists>x \<in> set (en_values en d f). \<exists>k. en_cmp en f x v = Some k \<and> within_bound b k))"

definition reads_bool :: "(json \<Rightarrow> 'd \<Rightarrow> bool) \<Rightarrow> bool" where
  "reads_bool holds \<longleftrightarrow>
     (\<forall>kvs d. (\<forall>l \<in> set (leaves (JObj kvs) ''must'' @ leaves (JObj kvs) ''must_not''). \<exists>k v. l = JObj [(k, v)] \<and> k \<in> set LEAF_KINDS) \<longrightarrow>
        holds (JObj [(''bool'', JObj kvs)]) d =
          ((\<forall>l \<in> set (leaves (JObj kvs) ''must''). holds l d) \<and> (\<forall>l \<in> set (leaves (JObj kvs) ''must_not''). \<not> holds l d)))"

text \<open>Date arithmetic: a time stamp is not before \<open>now-\<close> a range when it is that recent.\<close>

definition reads_date_math :: "('d, 'v) engine \<Rightarrow> bool" where
  "reads_date_math en \<longleftrightarrow>
     (\<forall>tr n secs x. time_range_body tr = Some (n, secs) \<longrightarrow>
        (\<exists>k. en_cmp en ''@timestamp'' x (VStr (''now-'' @ tr)) = Some k \<and> 0 \<le> k) =
        (en_now en - of_nat (n * secs) \<le> en_time en x))"

section \<open>What a hunt means\<close>

text \<open>What one clause says of a document, in terms of the document's own values.\<close>

fun scalar_value :: "hunt_scalar \<Rightarrow> hunt_value" where
  "scalar_value (SStr s) = VStr s"
| "scalar_value (SInt i) = VInt i"
| "scalar_value (SFloat r) = VFloat r"

definition clause_true :: "('d, 'v) engine \<Rightarrow> hunt_clause \<Rightarrow> 'd \<Rightarrow> bool" where
  "clause_true en c d =
     (let f = hc_field c; v = hc_value c; xs = en_values en d f;
          compares = (\<lambda>p. \<exists>x \<in> set xs. \<exists>k. en_cmp en f x v = Some k \<and> p k)
      in case hc_op c of
           OpEq \<Rightarrow> (\<exists>x \<in> set xs. en_eq en f x v)
         | OpNe \<Rightarrow> \<not> (\<exists>x \<in> set xs. en_eq en f x v)
         | OpGt \<Rightarrow> compares (\<lambda>k. 0 < k)
         | OpGte \<Rightarrow> compares (\<lambda>k. 0 \<le> k)
         | OpLt \<Rightarrow> compares (\<lambda>k. k < 0)
         | OpLte \<Rightarrow> compares (\<lambda>k. k \<le> 0)
         | OpIn \<Rightarrow> (case v of VList vs \<Rightarrow> (\<exists>w \<in> set vs. \<exists>x \<in> set xs. en_eq en f x (scalar_value w)) | _ \<Rightarrow> False)
         | OpExists \<Rightarrow> xs \<noteq> []
         | OpPrefix \<Rightarrow> (case v of VStr p \<Rightarrow> (\<exists>x \<in> set xs. en_starts en f x p) | _ \<Rightarrow> False))"

text \<open>A document of the last so many seconds.\<close>

definition in_last :: "('d, 'v) engine \<Rightarrow> nat \<Rightarrow> 'd \<Rightarrow> bool" where
  "in_last en secs d \<longleftrightarrow> (\<exists>x \<in> set (en_values en d ''@timestamp''). en_now en - of_nat secs \<le> en_time en x)"

lemma flatten_must_eq:
  "flatten_must cs (m, n) =
     (m @ map render_clause (filter (\<lambda>c. hc_op c \<noteq> OpNe) cs), n @ map render_clause (filter (\<lambda>c. hc_op c = OpNe) cs))"
  by (induction cs arbitrary: m n) auto

lemma flatten_must_not_eq:
  "flatten_must_not cs (m, n) =
     (m @ map render_clause (filter (\<lambda>c. hc_op c = OpNe) cs), n @ map render_clause (filter (\<lambda>c. hc_op c \<noteq> OpNe) cs))"
  by (induction cs arbitrary: m n) auto

lemma dget_with_cursor: "k \<noteq> ''search_after'' \<Longrightarrow> dget (with_cursor cu q) k = dget q k"
  by (auto simp: with_cursor_def dget_dset split: option.splits list.splits)

lemma hunt_leaves:
  "leaves (bool_of (build_hunt_dsl a)) ''must'' =
     range_since (hq_time_range a) # map render_clause (filter (\<lambda>c. hc_op c \<noteq> OpNe) (hq_must a)) @
       map render_clause (filter (\<lambda>c. hc_op c = OpNe) (hq_must_not a))"
  "leaves (bool_of (build_hunt_dsl a)) ''must_not'' =
     map render_clause (filter (\<lambda>c. hc_op c = OpNe) (hq_must a)) @
       map render_clause (filter (\<lambda>c. hc_op c \<noteq> OpNe) (hq_must_not a))"
  by (auto simp: build_hunt_dsl_def bool_of_def dget_with_cursor query_body_def leaves_def bool_block_def
      flatten_must_eq flatten_must_not_eq jget_def)

lemma read_scalar_value: "read_scalar (scalar_json w) = Some (scalar_value w)"
  by (cases w) simp_all

lemma read_value: "(\<forall>xs. v \<noteq> VList xs) \<Longrightarrow> read_scalar (value_json v) = Some v"
  by (cases v) simp_all

text \<open>An accepted clause is rendered as a leaf that holds when the clause is true, \<open>ne\<close> as its opposite.\<close>

lemma render_means:
  assumes "reads_leaves en holds" "op_value_consistent c"
  shows "holds (render_clause c) d \<longleftrightarrow> (if hc_op c = OpNe then \<not> clause_true en c d else clause_true en c d)"
proof -
  note engine = assms(1) [unfolded reads_leaves_def]
  note eq = engine [THEN conjunct1, rule_format]
    and terms = engine [THEN conjunct2, THEN conjunct1, rule_format]
    and ex = engine [THEN conjunct2, THEN conjunct2, THEN conjunct1, rule_format]
    and pre = engine [THEN conjunct2, THEN conjunct2, THEN conjunct2, THEN conjunct1, rule_format]
    and rng = engine [THEN conjunct2, THEN conjunct2, THEN conjunct2, THEN conjunct2, rule_format]
  have plain: "read_scalar (value_json (hc_value c)) = Some (hc_value c)" if "hc_op c \<noteq> OpIn"
    using that assms(2) by (intro read_value) (auto simp: op_value_consistent_def split: hunt_op.splits)
  note defs = render_clause_def leaf_def clause_true_def Let_def
  show ?thesis
  proof (cases "hc_op c")
    case OpIn
    then obtain vs where "hc_value c = VList vs" using assms(2) by (auto simp: op_value_consistent_def split: hunt_value.splits)
    then show ?thesis using OpIn by (simp add: defs terms read_scalar_value)
  next
    case OpPrefix
    then obtain p where "hc_value c = VStr p" using assms(2) by (auto simp: op_value_consistent_def split: hunt_value.splits)
    then show ?thesis using OpPrefix by (simp add: defs pre)
  qed (use plain in \<open>simp_all add: defs ex eq [OF plain] rng [OF plain] within_bound_def\<close>)
qed

lemma render_leaf: "\<exists>k v. render_clause c = JObj [(k, v)] \<and> k \<in> set LEAF_KINDS"
  by (cases "hc_op c") (simp_all add: render_clause_def leaf_def LEAF_KINDS_def)

lemma HuntClause_Inr: "HuntClause c = Inr d \<longleftrightarrow> d = c \<and> field_in_allowlist (hc_field c) \<and> op_value_consistent c"
  by (auto simp: HuntClause_def)

lemma HuntQueryArgs_Inr:
  assumes "HuntQueryArgs a = Inr b"
  shows "b = a \<and> validate_time_range (hq_time_range a) = Inr () \<and> 1 \<le> hq_size a \<and> hq_size a \<le> 100 \<and>
    (\<forall>c \<in> set (hq_must a @ hq_must_not a). field_in_allowlist (hc_field c) \<and> op_value_consistent c) \<and>
    clause_cap a"
proof -
  obtain xs ys where p: "b = a" "validate_time_range (hq_time_range a) = Inr ()" "1 \<le> hq_size a"
      "hq_size a \<le> 100" "clause_cap a" "map_res HuntClause (hq_must a) = Inr xs"
      "map_res HuntClause (hq_must_not a) = Inr ys"
    using assms by (auto simp: HuntQueryArgs_def bind_res_eq_Inr MAX_ALERT_SIZE_def split: if_splits)
  show ?thesis using p(1-5) map_res_mem [OF p(6)] map_res_mem [OF p(7)] by (auto simp: HuntClause_Inr)
qed

lemma range_since_means:
  assumes "reads_leaves en holds" "reads_date_math en" "time_range_body tr = Some (n, secs)"
  shows "holds (range_since tr) d \<longleftrightarrow> in_last en (n * secs) d"
proof -
  have "holds (range_since tr) d =
      (\<exists>x \<in> set (en_values en d ''@timestamp''). \<exists>k. en_cmp en ''@timestamp'' x (VStr (''now-'' @ tr)) = Some k \<and> within_bound ''gte'' k)"
    using assms(1) unfolding reads_leaves_def range_since_def by simp
  then show ?thesis
    using assms(2,3) unfolding reads_date_math_def in_last_def within_bound_def by simp
qed

lemma hunt_query_bool:
  "\<exists>kvs. dget (build_hunt_dsl a) ''query'' = Some (JObj [(''bool'', JObj kvs)]) \<and> bool_of (build_hunt_dsl a) = JObj kvs"
  by (simp add: build_hunt_dsl_def dget_with_cursor query_body_def bool_of_def bool_block_def jget_def)

text \<open>
  C10: A hunt means what its clauses say.  To any search engine that reads term, terms, range, exists
  and prefix leaves, flat \<open>bool\<close> queries and date arithmetic as documented, the query built from an accepted hunt
  selects a document exactly when it is of the last so many seconds, every \<open>must\<close> clause is true of its values and
  no \<open>must_not\<close> clause is: equal, not equal, above, at least, below, at most, one of, present, prefixed.
\<close>

theorem hunt_means_its_clauses:
  assumes "reads_leaves en holds" "reads_bool holds" "reads_date_math en"
    and "HuntQueryArgs a = Inr b" "time_range_body (hq_time_range b) = Some (n, secs)"
  shows "\<exists>q. dget (build_hunt_dsl b) ''query'' = Some q \<and>
    (holds q d \<longleftrightarrow> in_last en (n * secs) d \<and>
      (\<forall>c \<in> set (hq_must b). clause_true en c d) \<and> (\<forall>c \<in> set (hq_must_not b). \<not> clause_true en c d))"
proof -
  have ok: "\<forall>c \<in> set (hq_must b @ hq_must_not b). op_value_consistent c" using HuntQueryArgs_Inr [OF assms(4)] by simp
  obtain kvs where q: "dget (build_hunt_dsl b) ''query'' = Some (JObj [(''bool'', JObj kvs)])" "bool_of (build_hunt_dsl b) = JObj kvs"
    using hunt_query_bool by blast
  note ls = hunt_leaves [of b, unfolded q(2)]
  have "\<exists>k v. l = JObj [(k, v)] \<and> k \<in> set LEAF_KINDS" if "l \<in> set (leaves (JObj kvs) ''must'' @ leaves (JObj kvs) ''must_not'')" for l
    using that render_leaf unfolding ls by (auto simp: range_since_def LEAF_KINDS_def)
  then have "holds (JObj [(''bool'', JObj kvs)]) d =
      ((\<forall>l \<in> set (leaves (JObj kvs) ''must''). holds l d) \<and> (\<forall>l \<in> set (leaves (JObj kvs) ''must_not''). \<not> holds l d))"
    using assms(2) unfolding reads_bool_def by blast
  also have "\<dots> \<longleftrightarrow> in_last en (n * secs) d \<and>
      (\<forall>c \<in> set (hq_must b). clause_true en c d) \<and> (\<forall>c \<in> set (hq_must_not b). \<not> clause_true en c d)"
    unfolding ls using ok render_means [OF assms(1)] range_since_means [OF assms(1,3,5)] by (auto simp: ball_Un)
  finally show ?thesis using q(1) by blast
qed

section \<open>What a query may contain\<close>

text \<open>A harmless leaf: one of five kinds, about one allowed field, no list above the cap, no short prefix.\<close>

definition leaf_ok :: "json \<Rightarrow> bool" where
  "leaf_ok l =
     (case l of
        JObj [(kind, JObj [(k, v)])] \<Rightarrow>
          kind \<in> set LEAF_KINDS \<and>
          (if kind = ''exists'' then k = ''field'' \<and> (case v of JStr f \<Rightarrow> field_in_allowlist f | _ \<Rightarrow> False)
           else field_in_allowlist k) \<and>
          (case v of JList xs \<Rightarrow> kind = ''terms'' \<and> length xs \<le> 100 | _ \<Rightarrow> True) \<and>
          (kind = ''prefix'' \<longrightarrow> (case v of JStr s \<Rightarrow> 3 \<le> length s | _ \<Rightarrow> False))
      | _ \<Rightarrow> False)"

lemma render_ok: "field_in_allowlist (hc_field c) \<Longrightarrow> op_value_consistent c \<Longrightarrow> leaf_ok (render_clause c)"
  by (cases "hc_value c"; cases "hc_op c")
    (auto simp: op_value_consistent_def render_clause_def leaf_def leaf_ok_def LEAF_KINDS_def MAX_IN_LENGTH_def
      MIN_PREFIX_LENGTH_def)

lemma range_since_ok: "leaf_ok (range_since tr)"
  by (simp add: range_since_def leaf_ok_def LEAF_KINDS_def field_in_allowlist_def FIELD_ALLOWLIST_def)

text \<open>
  C21: No hunt escapes the grammar.  The query of an accepted hunt is bounded, and it consists of at most
  twenty-one leaves, each of one of the five kinds over an allowed field, with at most a hundred listed
  values and no prefix below three characters.
\<close>

theorem hunt_stays_in_grammar:
  assumes "HuntQueryArgs a = Inr b"
  shows "bounded_query (build_hunt_dsl b) \<and>
    (\<forall>l \<in> set (leaves (bool_of (build_hunt_dsl b)) ''must'' @ leaves (bool_of (build_hunt_dsl b)) ''must_not'').
      leaf_ok l) \<and>
    length (leaves (bool_of (build_hunt_dsl b)) ''must'' @ leaves (bool_of (build_hunt_dsl b)) ''must_not'') \<le> 21"
proof (intro conjI)
  note ok = HuntQueryArgs_Inr [OF assms]
  show "bounded_query (build_hunt_dsl b)"
    unfolding build_hunt_dsl_def using ok by (intro with_cursor_bounded query_body_bounded) auto
  show "\<forall>l \<in> set (leaves (bool_of (build_hunt_dsl b)) ''must'' @ leaves (bool_of (build_hunt_dsl b)) ''must_not'').
      leaf_ok l"
    unfolding hunt_leaves using ok range_since_ok render_ok by auto
  have split: "length (filter (\<lambda>c. hc_op c = OpNe) cs) + length (filter (\<lambda>c. hc_op c \<noteq> OpNe) cs) = length cs" for cs
    using sum_length_filter_compl [of "\<lambda>c. hc_op c = OpNe" cs] by simp
  show "length (leaves (bool_of (build_hunt_dsl b)) ''must'' @ leaves (bool_of (build_hunt_dsl b)) ''must_not'') \<le> 21"
    unfolding hunt_leaves using ok split [of "hq_must b"] split [of "hq_must_not b"]
    by (simp add: clause_cap_def MAX_CLAUSES_def)
qed

lemma pivot_in_grammar: "pivot_hunt_args a = Inr b \<Longrightarrow> HuntQueryArgs b = Inr b"
  using HuntQueryArgs_Inr by (auto simp: pivot_hunt_args_def bind_res_eq_Inr)

definition demo_hunt :: hunt_query_args where
  "demo_hunt = \<lparr>hq_time_range = ''24h'', hq_must = [\<lparr>hc_field = ''agent.id'', hc_op = OpNe, hc_value = VStr ''000''\<rparr>],
     hq_must_not = [\<lparr>hc_field = ''rule.level'', hc_op = OpLt, hc_value = VInt 3\<rparr>], hq_size = 10, hq_cursor = None\<rparr>"

lemma demo_hunt_accepted: "HuntQueryArgs demo_hunt = Inr demo_hunt"
proof -
  have "validate_time_range ''24h'' = Inr ()"
    by (simp add: validate_time_range_def time_range_match_def time_range_body_def unit_seconds_def digits_def
        is_digit_def read_nat_def MAX_LOOKBACK_SECONDS_def)
  then show ?thesis
    by (simp add: HuntQueryArgs_def demo_hunt_def MAX_ALERT_SIZE_def HuntClause_def field_in_allowlist_def
        FIELD_ALLOWLIST_def op_value_consistent_def clause_cap_def MAX_CLAUSES_def)
qed

theorem hunt_stays_in_grammar_witness:
  "HuntQueryArgs demo_hunt = Inr demo_hunt \<and> bounded_query (build_hunt_dsl demo_hunt)"
  using hunt_stays_in_grammar [OF demo_hunt_accepted] demo_hunt_accepted by simp

text \<open>An engine over documents whose fields hold numbers; an instant is a number of seconds.\<close>

definition number_engine :: "((string, int list) dict, int) engine" where
  "number_engine =
     \<lparr>en_values = \<lambda>d f. (case dget d f of None \<Rightarrow> [] | Some xs \<Rightarrow> xs),
      en_eq = \<lambda>f x v. v = VInt x,
      en_cmp = \<lambda>f x v. (case v of
          VInt i \<Rightarrow> Some (x - i)
        | VStr s \<Rightarrow> (case time_range_body (drop 4 s) of None \<Rightarrow> None | Some (n, secs) \<Rightarrow> Some (x - (100000 - int (n * secs))))
        | _ \<Rightarrow> None),
      en_starts = \<lambda>f x p. False, en_time = of_int, en_now = 100000\<rparr>"

definition number_leaf :: "json \<Rightarrow> (string, int list) dict \<Rightarrow> bool" where
  "number_leaf l d =
     (case l of
        JObj [(kind, JObj [(f, v)])] \<Rightarrow>
          (let xs = en_values number_engine d f in
           if kind = ''term'' then (case read_scalar v of Some w \<Rightarrow> (\<exists>x \<in> set xs. en_eq number_engine f x w) | None \<Rightarrow> False)
           else if kind = ''terms'' then (case v of
               JList js \<Rightarrow> (\<exists>j \<in> set js. case read_scalar j of Some w \<Rightarrow> (\<exists>x \<in> set xs. en_eq number_engine f x w) | None \<Rightarrow> False)
             | _ \<Rightarrow> False)
           else if kind = ''exists'' then (case v of JStr g \<Rightarrow> en_values number_engine d g \<noteq> [] | _ \<Rightarrow> False)
           else if kind = ''range'' then (case v of
               JObj [(b, j)] \<Rightarrow> (case read_scalar j of
                   Some w \<Rightarrow> (\<exists>x \<in> set xs. case en_cmp number_engine f x w of Some k \<Rightarrow> within_bound b k | None \<Rightarrow> False)
                 | None \<Rightarrow> False)
             | _ \<Rightarrow> False)
           else False)
      | _ \<Rightarrow> False)"

definition number_holds :: "json \<Rightarrow> (string, int list) dict \<Rightarrow> bool" where
  "number_holds q d =
     (case q of
        JObj [(kind, b)] \<Rightarrow>
          if kind = ''bool'' then list_all (\<lambda>l. number_leaf l d) (leaves b ''must'') \<and>
            list_all (\<lambda>l. \<not> number_leaf l d) (leaves b ''must_not'')
          else number_leaf q d
      | _ \<Rightarrow> False)"

lemma number_reads: "reads_leaves number_engine number_holds" "reads_bool number_holds" "reads_date_math number_engine"
proof -
  have "en_starts number_engine f x p = False" for f x p by (simp add: number_engine_def)
  note defs = this number_holds_def number_leaf_def Let_def
  have some: "(case v of None \<Rightarrow> False | Some w \<Rightarrow> P w) = (\<exists>w. v = Some w \<and> P w)" for v and P :: "'x \<Rightarrow> bool"
    by (cases v) simp_all
  show "reads_leaves number_engine number_holds"
    unfolding reads_leaves_def
  proof (intro conjI allI impI)
    fix f b j v d assume "read_scalar j = Some v"
    then show "number_holds (JObj [(''range'', JObj [(f, JObj [(b, j)])])]) d =
        (\<exists>x \<in> set (en_values number_engine d f). \<exists>k. en_cmp number_engine f x v = Some k \<and> within_bound b k)"
      by (simp add: defs some)
  next
    fix f js d
    show "number_holds (JObj [(''terms'', JObj [(f, JList js)])]) d =
        (\<exists>j \<in> set js. \<exists>x \<in> set (en_values number_engine d f). \<exists>v. read_scalar j = Some v \<and> en_eq number_engine f x v)"
      by (simp add: defs some) blast
  qed (simp_all add: defs)
  have leaf: "number_holds (JObj [(k, v)]) d = number_leaf (JObj [(k, v)]) d" if "k \<in> set LEAF_KINDS" for k v d
    using that by (auto simp: number_holds_def LEAF_KINDS_def)
  show "reads_bool number_holds"
    unfolding reads_bool_def
  proof (intro allI impI)
    fix kvs d
    assume flat: "\<forall>l \<in> set (leaves (JObj kvs) ''must'' @ leaves (JObj kvs) ''must_not''). \<exists>k v. l = JObj [(k, v)] \<and> k \<in> set LEAF_KINDS"
    have "\<forall>l \<in> set (leaves (JObj kvs) ''must'' @ leaves (JObj kvs) ''must_not''). number_holds l d = number_leaf l d"
    proof
      fix l assume "l \<in> set (leaves (JObj kvs) ''must'' @ leaves (JObj kvs) ''must_not'')"
      with flat obtain k v where "l = JObj [(k, v)]" "k \<in> set LEAF_KINDS" by fast
      then show "number_holds l d = number_leaf l d" using leaf by simp
    qed
    then show "number_holds (JObj [(''bool'', JObj kvs)]) d =
        ((\<forall>l \<in> set (leaves (JObj kvs) ''must''). number_holds l d) \<and> (\<forall>l \<in> set (leaves (JObj kvs) ''must_not''). \<not> number_holds l d))"
      by (simp add: number_holds_def [of "JObj [(''bool'', JObj kvs)]"] list_all_iff ball_Un)
  qed
  have time: "(100000 - int m \<le> x) = ((100000 :: rat) - of_nat m \<le> of_int x)" for x m
  proof -
    have "((100000 :: rat) - of_nat m \<le> of_int x) = (of_int (100000 - int m) \<le> (of_int x :: rat))" by simp
    also have "\<dots> = (100000 - int m \<le> x)" by (rule of_int_le_iff)
    finally show ?thesis by simp
  qed
  show "reads_date_math number_engine"
    unfolding reads_date_math_def by (simp add: number_engine_def time del: of_nat_mult)
qed

text \<open>A document of level five an hour ago is found, one of level two is not.\<close>

theorem hunt_means_its_clauses_witness:
  "\<exists>q. dget (build_hunt_dsl demo_hunt) ''query'' = Some q \<and>
    number_holds q [(''@timestamp'', [96400]), (''rule.level'', [5])] \<and>
    \<not> number_holds q [(''@timestamp'', [96400]), (''rule.level'', [2])]"
proof -
  have tr: "time_range_body (hq_time_range demo_hunt) = Some (24, 3600)"
    by (simp add: demo_hunt_def time_range_body_def unit_seconds_def digits_def is_digit_def read_nat_def)
  note m = hunt_means_its_clauses [OF number_reads demo_hunt_accepted tr]
  show ?thesis
    using m [of "[(''@timestamp'', [96400]), (''rule.level'', [5])]"] m [of "[(''@timestamp'', [96400]), (''rule.level'', [2])]"]
    by (auto simp: demo_hunt_def in_last_def clause_true_def number_engine_def)
qed

end
