(* ===== verification/Models.thy ===== *)
theory Models imports Json begin

text \<open>
  The documents of the read tools (\<open>wazuh/models.py\<close>): how an indexer hit or a Server API item
  becomes a validated model, and the model's rendering.  What pydantic makes of a JSON value where
  an \<open>int\<close> or a \<open>float\<close> field is declared is an argument.
\<close>

section \<open>Readers\<close>

record read_env =
  re_str :: "rat \<Rightarrow> string"
  re_int :: "json \<Rightarrow> int option"
  re_float :: "json \<Rightarrow> rat option"

text \<open>Pydantic on \<open>str\<close>, \<open>str | None\<close>, \<open>list[str]\<close> and \<open>list[Any] | None\<close> fields.\<close>

definition str_field :: "json \<Rightarrow> exn + string" where
  "str_field v = (case v of JStr s \<Rightarrow> Inr s | _ \<Rightarrow> Inl ValidationE)"

definition opt_str_field :: "json \<Rightarrow> exn + string option" where
  "opt_str_field v = (case v of JNull \<Rightarrow> Inr None | JStr s \<Rightarrow> Inr (Some s) | _ \<Rightarrow> Inl ValidationE)"

definition strs_field :: "json list \<Rightarrow> exn + string list" where
  "strs_field = map_res str_field"

definition opt_list_field :: "json \<Rightarrow> exn + json list option" where
  "opt_list_field v = (case v of JNull \<Rightarrow> Inr None | JList xs \<Rightarrow> Inr (Some xs) | _ \<Rightarrow> Inl ValidationE)"

definition int_field :: "read_env \<Rightarrow> json \<Rightarrow> exn + int" where
  "int_field env v = (case re_int env v of None \<Rightarrow> Inl ValidationE | Some i \<Rightarrow> Inr i)"

definition opt_int_field :: "read_env \<Rightarrow> json \<Rightarrow> exn + int option" where
  "opt_int_field env v = (if v = JNull then Inr None else bind_res (int_field env v) (\<lambda>i. Inr (Some i)))"

definition opt_float_field :: "read_env \<Rightarrow> json \<Rightarrow> exn + rat option" where
  "opt_float_field env v =
     (if v = JNull then Inr None
      else case re_float env v of None \<Rightarrow> Inl ValidationE | Some r \<Rightarrow> Inr (Some r))"

text \<open>\<open>int(text)\<close>: blanks around, a sign, digits with single underscores between them.\<close>

definition read_digits :: "string \<Rightarrow> int option" where
  "read_digits s =
     (let gs = split_on (CHR ''_'') s
      in if list_all (\<lambda>g. g \<noteq> [] \<and> list_all is_digit g) gs then Some (int (read_nat (concat gs))) else None)"

definition int_of_text :: "string \<Rightarrow> int option" where
  "int_of_text t =
     (case py_strip t of
        [] \<Rightarrow> None
      | c # cs \<Rightarrow>
          if c = CHR ''-'' then map_option uminus (read_digits cs)
          else if c = CHR ''+'' then read_digits cs else read_digits (c # cs))"

text \<open>\<open>int(v)\<close> on decoded JSON.\<close>

definition py_int :: "json \<Rightarrow> exn + int" where
  "py_int v =
     (case v of
        JInt i \<Rightarrow> Inr i
      | JBool b \<Rightarrow> Inr (if b then 1 else 0)
      | JFloat r \<Rightarrow> Inr (if r < 0 then \<lceil>r\<rceil> else \<lfloor>r\<rfloor>)
      | JStr s \<Rightarrow> (case int_of_text s of None \<Rightarrow> Inl ValueE | Some i \<Rightarrow> Inr i)
      | _ \<Rightarrow> Inl TypeE)"

text \<open>\<open>v.get(k) or {}\<close>, \<open>str(v.get(k) or "")\<close>, \<open>str(v[k])\<close> and \<open>list(v.get(k) or [])\<close>.\<close>

definition sub_dict :: "json \<Rightarrow> string \<Rightarrow> exn + json" where
  "sub_dict v k = bind_res (py_get v k) (\<lambda>x. Inr (py_or x (JObj [])))"

definition text_or_empty :: "read_env \<Rightarrow> json \<Rightarrow> string \<Rightarrow> exn + string" where
  "text_or_empty env v k = bind_res (py_get v k) (\<lambda>x. Inr (json_str (re_str env) (py_or x (JStr []))))"

definition text_at :: "read_env \<Rightarrow> json \<Rightarrow> string \<Rightarrow> exn + string" where
  "text_at env v k = bind_res (py_index v k) (\<lambda>x. Inr (json_str (re_str env) x))"

definition items_at :: "json \<Rightarrow> string \<Rightarrow> exn + json list" where
  "items_at v k = bind_res (py_get v k) (\<lambda>x. py_iter (py_or x (JList [])))"

section \<open>The models\<close>

record agent_ref =
  aref_id :: "string option"
  aref_name :: "string option"
  aref_ip :: "string option"

record rule_ref =
  rref_id :: string
  rref_level :: int
  rref_description :: string
  rref_mitre_ids :: "string list"

record alert =
  al_id :: string
  al_timestamp :: string
  al_agent :: agent_ref
  al_rule :: rule_ref
  al_location :: "string option"

record agent =
  ag_id :: string
  ag_name :: string
  ag_ip :: "string option"
  ag_status :: "string option"
  ag_os_platform :: "string option"
  ag_os_name :: "string option"
  ag_os_version :: "string option"
  ag_version :: "string option"
  ag_group :: "string list"
  ag_last_keep_alive :: "string option"
  ag_date_add :: "string option"

record vulnerability =
  vu_id :: string
  vu_agent_id :: string
  vu_package_name :: string
  vu_package_version :: string
  vu_severity :: "string option"
  vu_cvss3_score :: "rat option"
  vu_published :: "string option"
  vu_detected_at :: "string option"
  vu_status :: "string option"

record fim_event =
  fe_agent_id :: string
  fe_timestamp :: string
  fe_path :: string
  fe_event :: "string option"
  fe_sha256_after :: "string option"
  fe_md5_after :: "string option"
  fe_size_after :: "int option"
  fe_uid_after :: "string option"
  fe_gid_after :: "string option"

record mitre_technique =
  mt_id :: string
  mt_name :: string
  mt_description :: "string option"
  mt_tactics :: "string list"
  mt_url :: "string option"

section \<open>Reading a document\<close>

definition agent_ref_validate :: "json \<Rightarrow> exn + agent_ref" where
  "agent_ref_validate v =
     (case v of
        JObj kvs \<Rightarrow>
          bind_res (opt_str_field (jget kvs ''id'')) (\<lambda>i.
          bind_res (opt_str_field (jget kvs ''name'')) (\<lambda>n.
          bind_res (opt_str_field (jget kvs ''ip'')) (\<lambda>p.
            Inr \<lparr>aref_id = i, aref_name = n, aref_ip = p\<rparr>)))
      | _ \<Rightarrow> Inl ValidationE)"

definition rule_ref_from_source :: "read_env \<Rightarrow> json \<Rightarrow> exn + rule_ref" where
  "rule_ref_from_source env rule =
     bind_res (sub_dict rule ''mitre'') (\<lambda>mitre.
     bind_res (items_at mitre ''id'') (\<lambda>ids.
     bind_res (text_at env rule ''id'') (\<lambda>i.
     bind_res (bind_res (py_index rule ''level'') py_int) (\<lambda>lv.
     bind_res (text_at env rule ''description'') (\<lambda>d.
     bind_res (strs_field ids) (\<lambda>ms.
       Inr \<lparr>rref_id = i, rref_level = lv, rref_description = d, rref_mitre_ids = ms\<rparr>))))))"

text \<open>Without a rule the model is validated from the source, where the required field is missing.\<close>

definition alert_from_hit :: "read_env \<Rightarrow> json \<Rightarrow> exn + alert" where
  "alert_from_hit env hit =
     bind_res (sub_dict hit ''_source'') (\<lambda>source.
     bind_res (py_get source ''rule'') (\<lambda>rule_raw.
       if rule_raw = JNull then Inl ValidationE
       else
         bind_res (py_get_or hit ''_id'' (JStr [])) (\<lambda>i.
         bind_res (py_get_or source ''timestamp'' (JStr [])) (\<lambda>ts.
         bind_res (bind_res (sub_dict source ''agent'') agent_ref_validate) (\<lambda>ag.
         bind_res (rule_ref_from_source env rule_raw) (\<lambda>ru.
         bind_res (py_get source ''location'') (\<lambda>loc.
         bind_res (opt_str_field loc) (\<lambda>l.
           Inr \<lparr>al_id = json_str (re_str env) i, al_timestamp = json_str (re_str env) ts, al_agent = ag,
                al_rule = ru, al_location = l\<rparr>))))))))"

definition agent_from_api :: "read_env \<Rightarrow> json \<Rightarrow> exn + agent" where
  "agent_from_api env item =
     bind_res (sub_dict item ''os'') (\<lambda>os.
     bind_res (text_at env item ''id'') (\<lambda>i.
     bind_res (text_at env item ''name'') (\<lambda>n.
     bind_res (map_res (py_get item) [''ip'', ''status'']) (\<lambda>front.
     bind_res (map_res (py_get os) [''platform'', ''name'', ''version'']) (\<lambda>oss.
     bind_res (py_get item ''version'') (\<lambda>ver.
     bind_res (items_at item ''group'') (\<lambda>grp.
     bind_res (map_res (py_get item) [''lastKeepAlive'', ''dateAdd'']) (\<lambda>back.
     bind_res (map_res opt_str_field (front @ oss @ [ver] @ back)) (\<lambda>fs.
     bind_res (strs_field grp) (\<lambda>gs.
       Inr \<lparr>ag_id = i, ag_name = n, ag_ip = fs ! 0, ag_status = fs ! 1, ag_os_platform = fs ! 2,
            ag_os_name = fs ! 3, ag_os_version = fs ! 4, ag_version = fs ! 5, ag_group = gs,
            ag_last_keep_alive = fs ! 6, ag_date_add = fs ! 7\<rparr>))))))))))"

definition vulnerability_from_hit :: "read_env \<Rightarrow> json \<Rightarrow> exn + vulnerability" where
  "vulnerability_from_hit env hit =
     bind_res (sub_dict hit ''_source'') (\<lambda>src.
     bind_res (sub_dict src ''vulnerability'') (\<lambda>vuln.
     bind_res (sub_dict src ''package'') (\<lambda>pkg.
     bind_res (sub_dict src ''agent'') (\<lambda>ag.
     bind_res (bind_res (sub_dict vuln ''scores'') (\<lambda>sc. py_get_or sc ''base'' (JObj []))) (\<lambda>cvss.
     bind_res (text_or_empty env vuln ''id'') (\<lambda>i.
     bind_res (text_or_empty env ag ''id'') (\<lambda>ai.
     bind_res (text_or_empty env pkg ''name'') (\<lambda>pn.
     bind_res (text_or_empty env pkg ''version'') (\<lambda>pv.
     bind_res (py_get vuln ''severity'') (\<lambda>sev.
     bind_res (py_get cvss ''score'') (\<lambda>score.
     bind_res (map_res (py_get vuln) [''published_at'', ''detected_at'', ''status'']) (\<lambda>rest.
     bind_res (map_res opt_str_field (sev # rest)) (\<lambda>fs.
     bind_res (opt_float_field env score) (\<lambda>sc.
       Inr \<lparr>vu_id = i, vu_agent_id = ai, vu_package_name = pn, vu_package_version = pv,
            vu_severity = fs ! 0, vu_cvss3_score = sc, vu_published = fs ! 1, vu_detected_at = fs ! 2,
            vu_status = fs ! 3\<rparr>))))))))))))))"

definition fim_event_from_hit :: "read_env \<Rightarrow> json \<Rightarrow> exn + fim_event" where
  "fim_event_from_hit env hit =
     bind_res (sub_dict hit ''_source'') (\<lambda>src.
     bind_res (sub_dict src ''syscheck'') (\<lambda>sys.
     bind_res (sub_dict src ''agent'') (\<lambda>ag.
     bind_res (text_or_empty env ag ''id'') (\<lambda>ai.
     bind_res (text_or_empty env src ''timestamp'') (\<lambda>ts.
     bind_res (text_or_empty env sys ''path'') (\<lambda>p.
     bind_res (map_res (py_get sys) [''event'', ''sha256_after'', ''md5_after'']) (\<lambda>front.
     bind_res (py_get sys ''size_after'') (\<lambda>sz.
     bind_res (map_res (py_get sys) [''uid_after'', ''gid_after'']) (\<lambda>back.
     bind_res (map_res opt_str_field (front @ back)) (\<lambda>fs.
     bind_res (opt_int_field env sz) (\<lambda>n.
       Inr \<lparr>fe_agent_id = ai, fe_timestamp = ts, fe_path = p, fe_event = fs ! 0, fe_sha256_after = fs ! 1,
            fe_md5_after = fs ! 2, fe_size_after = n, fe_uid_after = fs ! 3, fe_gid_after = fs ! 4\<rparr>)))))))))))"

definition mitre_technique_from_api :: "read_env \<Rightarrow> json \<Rightarrow> exn + mitre_technique" where
  "mitre_technique_from_api env item =
     bind_res (text_at env item ''id'') (\<lambda>i.
     bind_res (text_at env item ''name'') (\<lambda>n.
     bind_res (py_get item ''description'') (\<lambda>d.
     bind_res (items_at item ''tactics'') (\<lambda>tac.
     bind_res (py_get item ''url'') (\<lambda>u.
     bind_res (opt_str_field d) (\<lambda>d'.
     bind_res (strs_field tac) (\<lambda>ts.
     bind_res (opt_str_field u) (\<lambda>u'.
       Inr \<lparr>mt_id = i, mt_name = n, mt_description = d', mt_tactics = ts, mt_url = u'\<rparr>))))))))"

section \<open>Rendering a model\<close>

definition opt_text :: "string option \<Rightarrow> json" where
  "opt_text v = (case v of None \<Rightarrow> JNull | Some s \<Rightarrow> JStr s)"

definition texts :: "string list \<Rightarrow> json" where
  "texts xs = JList (map JStr xs)"

definition alert_dump :: "alert \<Rightarrow> json" where
  "alert_dump a =
     JObj [(''id'', JStr (al_id a)), (''timestamp'', JStr (al_timestamp a)),
           (''agent'', JObj [(''id'', opt_text (aref_id (al_agent a))), (''name'', opt_text (aref_name (al_agent a))),
                           (''ip'', opt_text (aref_ip (al_agent a)))]),
           (''rule'', JObj [(''id'', JStr (rref_id (al_rule a))), (''level'', JInt (rref_level (al_rule a))),
                          (''description'', JStr (rref_description (al_rule a))),
                          (''mitre_ids'', texts (rref_mitre_ids (al_rule a)))]),
           (''location'', opt_text (al_location a))]"

definition agent_dump :: "agent \<Rightarrow> json" where
  "agent_dump a =
     JObj [(''id'', JStr (ag_id a)), (''name'', JStr (ag_name a)), (''ip'', opt_text (ag_ip a)),
           (''status'', opt_text (ag_status a)), (''os_platform'', opt_text (ag_os_platform a)),
           (''os_name'', opt_text (ag_os_name a)), (''os_version'', opt_text (ag_os_version a)),
           (''version'', opt_text (ag_version a)), (''group'', texts (ag_group a)),
           (''last_keep_alive'', opt_text (ag_last_keep_alive a)), (''date_add'', opt_text (ag_date_add a))]"

definition vulnerability_dump :: "vulnerability \<Rightarrow> json" where
  "vulnerability_dump v =
     JObj [(''id'', JStr (vu_id v)), (''agent_id'', JStr (vu_agent_id v)),
           (''package_name'', JStr (vu_package_name v)), (''package_version'', JStr (vu_package_version v)),
           (''severity'', opt_text (vu_severity v)),
           (''cvss3_score'', case vu_cvss3_score v of None \<Rightarrow> JNull | Some r \<Rightarrow> JFloat r),
           (''published'', opt_text (vu_published v)), (''detected_at'', opt_text (vu_detected_at v)),
           (''status'', opt_text (vu_status v))]"

definition fim_event_dump :: "fim_event \<Rightarrow> json" where
  "fim_event_dump e =
     JObj [(''agent_id'', JStr (fe_agent_id e)), (''timestamp'', JStr (fe_timestamp e)),
           (''path'', JStr (fe_path e)), (''event'', opt_text (fe_event e)),
           (''sha256_after'', opt_text (fe_sha256_after e)), (''md5_after'', opt_text (fe_md5_after e)),
           (''size_after'', case fe_size_after e of None \<Rightarrow> JNull | Some i \<Rightarrow> JInt i),
           (''uid_after'', opt_text (fe_uid_after e)), (''gid_after'', opt_text (fe_gid_after e))]"

definition mitre_technique_dump :: "mitre_technique \<Rightarrow> json" where
  "mitre_technique_dump t =
     JObj [(''id'', JStr (mt_id t)), (''name'', JStr (mt_name t)), (''description'', opt_text (mt_description t)),
           (''tactics'', texts (mt_tactics t)), (''url'', opt_text (mt_url t))]"

end
