(* ===== verification/ReadTools.thy ===== *)
theory ReadTools imports WriteGuard Hunt Models begin

text \<open>
  The read tools (\<open>tools/alerts.py\<close>, \<open>agents.py\<close>, \<open>vulns.py\<close>, \<open>mitre.py\<close>, \<open>fim.py\<close>, \<open>cluster.py\<close>,
  \<open>hunt.py\<close>) and their registered handlers (\<open>server.py\<close>), over the two client pools.  Pydantic's
  reading of the keyword arguments into typed fields is an argument; the constraints the models
  declare are checked here.
\<close>

section \<open>Arguments\<close>

record search_alerts_args =
  sa_time_range :: string
  sa_min_level :: "int option"
  sa_agent_id :: "string option"
  sa_size :: int
  sa_cursor :: "json list option"

record alerts_by_agent_args =
  ba_agent_id :: string
  ba_time_range :: string
  ba_size :: int
  ba_cursor :: "json list option"

record alerts_by_mitre_args =
  bm_technique_id :: string
  bm_time_range :: string
  bm_size :: int
  bm_cursor :: "json list option"

record list_vulns_args =
  lv_agent_id :: string
  lv_min_severity :: "string option"
  lv_size :: int
  lv_cursor :: "json list option"

record search_vulns_args =
  sv_cve_id :: "string option"
  sv_min_severity :: "string option"
  sv_size :: int
  sv_cursor :: "json list option"

record fim_history_args =
  fh_path :: string
  fh_time_range :: string
  fh_size :: int
  fh_cursor :: "json list option"

record fim_changes_args =
  fc_agent_id :: string
  fc_time_range :: string
  fc_size :: int
  fc_cursor :: "json list option"

record list_agents_args =
  la_status :: "string option"
  la_group :: "string option"
  la_size :: int
  la_offset :: int

record agent_subquery =
  sq_agent_id :: string
  sq_size :: int
  sq_offset :: int

record search_mitre_args =
  sm_q :: "string option"
  sm_tactic :: "string option"
  sm_size :: int

text \<open>What pydantic makes of the keyword arguments of each model.\<close>

record read_decoder =
  rd_search_alerts :: "args \<Rightarrow> search_alerts_args option"
  rd_get_alert :: "args \<Rightarrow> string option"
  rd_by_agent :: "args \<Rightarrow> alerts_by_agent_args option"
  rd_by_mitre :: "args \<Rightarrow> alerts_by_mitre_args option"
  rd_list_vulns :: "args \<Rightarrow> list_vulns_args option"
  rd_search_vulns :: "args \<Rightarrow> search_vulns_args option"
  rd_fim_history :: "args \<Rightarrow> fim_history_args option"
  rd_fim_changes :: "args \<Rightarrow> fim_changes_args option"
  rd_list_agents :: "args \<Rightarrow> list_agents_args option"
  rd_get_agent :: "args \<Rightarrow> string option"
  rd_subquery :: "args \<Rightarrow> agent_subquery option"
  rd_get_technique :: "args \<Rightarrow> string option"
  rd_search_mitre :: "args \<Rightarrow> search_mitre_args option"
  rd_hunt :: "args \<Rightarrow> hunt_query_args option"
  rd_pivot :: "args \<Rightarrow> pivot_args option"
  rd_cluster :: "args \<Rightarrow> unit option"

definition size_ok :: "int \<Rightarrow> bool" where
  "size_ok n \<longleftrightarrow> 1 \<le> n \<and> n \<le> 100"

definition short_id :: "string \<Rightarrow> bool" where
  "short_id s \<longleftrightarrow> 1 \<le> length s \<and> length s \<le> 16"

definition in_range :: "int \<Rightarrow> int \<Rightarrow> int \<Rightarrow> bool" where
  "in_range lo hi n \<longleftrightarrow> lo \<le> n \<and> n \<le> hi"

definition max_len :: "nat \<Rightarrow> string option \<Rightarrow> bool" where
  "max_len k v \<longleftrightarrow> (case v of None \<Rightarrow> True | Some s \<Rightarrow> length s \<le> k)"

definition SearchAlertsArgs :: "read_decoder \<Rightarrow> args \<Rightarrow> exn + search_alerts_args" where
  "SearchAlertsArgs d kw =
     checked (\<lambda>a. (case sa_min_level a of None \<Rightarrow> True | Some l \<Rightarrow> in_range 0 15 l) \<and> size_ok (sa_size a))
       (rd_search_alerts d kw)"

definition GetAlertArgs :: "read_decoder \<Rightarrow> args \<Rightarrow> exn + string" where
  "GetAlertArgs d kw = checked (\<lambda>i. 1 \<le> length i \<and> length i \<le> 128) (rd_get_alert d kw)"

definition AlertsByAgentArgs :: "read_decoder \<Rightarrow> args \<Rightarrow> exn + alerts_by_agent_args" where
  "AlertsByAgentArgs d kw = checked (\<lambda>a. short_id (ba_agent_id a) \<and> size_ok (ba_size a)) (rd_by_agent d kw)"

definition AlertsByMitreArgs :: "read_decoder \<Rightarrow> args \<Rightarrow> exn + alerts_by_mitre_args" where
  "AlertsByMitreArgs d kw =
     checked (\<lambda>a. 4 \<le> length (bm_technique_id a) \<and> length (bm_technique_id a) \<le> 16 \<and> size_ok (bm_size a))
       (rd_by_mitre d kw)"

definition ListVulnerabilitiesByAgentArgs :: "read_decoder \<Rightarrow> args \<Rightarrow> exn + list_vulns_args" where
  "ListVulnerabilitiesByAgentArgs d kw =
     checked (\<lambda>a. short_id (lv_agent_id a) \<and> size_ok (lv_size a)) (rd_list_vulns d kw)"

definition SearchVulnerabilitiesArgs :: "read_decoder \<Rightarrow> args \<Rightarrow> exn + search_vulns_args" where
  "SearchVulnerabilitiesArgs d kw = checked (\<lambda>a. size_ok (sv_size a)) (rd_search_vulns d kw)"

definition FimHistoryArgs :: "read_decoder \<Rightarrow> args \<Rightarrow> exn + fim_history_args" where
  "FimHistoryArgs d kw =
     checked (\<lambda>a. 1 \<le> length (fh_path a) \<and> length (fh_path a) \<le> 1024 \<and> size_ok (fh_size a)) (rd_fim_history d kw)"

definition FimChangesArgs :: "read_decoder \<Rightarrow> args \<Rightarrow> exn + fim_changes_args" where
  "FimChangesArgs d kw = checked (\<lambda>a. short_id (fc_agent_id a) \<and> size_ok (fc_size a)) (rd_fim_changes d kw)"

definition ListAgentsArgs :: "read_decoder \<Rightarrow> args \<Rightarrow> exn + list_agents_args" where
  "ListAgentsArgs d kw =
     checked (\<lambda>a. max_len 64 (la_group a) \<and> in_range 1 500 (la_size a) \<and> in_range 0 10000 (la_offset a))
       (rd_list_agents d kw)"

definition GetAgentArgs :: "read_decoder \<Rightarrow> args \<Rightarrow> exn + string" where
  "GetAgentArgs d kw = checked short_id (rd_get_agent d kw)"

definition AgentSubquery :: "read_decoder \<Rightarrow> args \<Rightarrow> exn + agent_subquery" where
  "AgentSubquery d kw =
     checked (\<lambda>a. agent_id_ok (sq_agent_id a) \<and> in_range 1 500 (sq_size a) \<and> in_range 0 10000 (sq_offset a))
       (rd_subquery d kw)"

definition GetMitreTechniqueArgs :: "read_decoder \<Rightarrow> args \<Rightarrow> exn + string" where
  "GetMitreTechniqueArgs d kw = checked (\<lambda>i. 4 \<le> length i \<and> length i \<le> 16) (rd_get_technique d kw)"

definition SearchMitreArgs :: "read_decoder \<Rightarrow> args \<Rightarrow> exn + search_mitre_args" where
  "SearchMitreArgs d kw =
     checked (\<lambda>a. max_len 64 (sm_tactic a) \<and> in_range 1 200 (sm_size a)) (rd_search_mitre d kw)"

definition hunt_args_of :: "read_decoder \<Rightarrow> args \<Rightarrow> exn + hunt_query_args" where
  "hunt_args_of d kw = (case rd_hunt d kw of None \<Rightarrow> Inl ValidationE | Some a \<Rightarrow> HuntQueryArgs a)"

definition PivotByIocArgs :: "read_decoder \<Rightarrow> args \<Rightarrow> exn + pivot_args" where
  "PivotByIocArgs d kw =
     checked (\<lambda>a. 1 \<le> length (pv_value a) \<and> length (pv_value a) \<le> 256 \<and> size_ok (pv_size a)) (rd_pivot d kw)"

definition ClusterStatusArgs :: "read_decoder \<Rightarrow> args \<Rightarrow> exn + unit" where
  "ClusterStatusArgs d kw = checked (\<lambda>_. True) (rd_cluster d kw)"

section \<open>Pages of hits\<close>

record 'a page =
  pg_items :: "'a list"
  pg_total :: int
  pg_next_cursor :: "json list option"
  pg_truncated :: bool

text \<open>\<open>raw_hits[-1]["sort"]\<close> when there are hits and the last one has it.\<close>

definition next_cursor :: "json list \<Rightarrow> exn + json" where
  "next_cursor hits =
     (if hits = [] then Inr JNull
      else bind_res (py_in ''sort'' (last hits)) (\<lambda>has.
             if has then py_index (last hits) ''sort'' else Inr JNull))"

definition hits_total :: "json \<Rightarrow> exn + json" where
  "hits_total total_block =
     (case total_block of
        JObj kvs \<Rightarrow> py_get_or total_block ''value'' (JInt 0)
      | _ \<Rightarrow> bind_res (py_int total_block) (\<lambda>n. Inr (JInt n)))"

definition hits_page :: "read_env \<Rightarrow> (json \<Rightarrow> exn + 'a) \<Rightarrow> int \<Rightarrow> json \<Rightarrow> exn + 'a page" where
  "hits_page env from_hit wanted_size body =
     bind_res (py_get_or body ''hits'' (JObj [])) (\<lambda>block.
     bind_res (py_get_or block ''hits'' (JList [])) (\<lambda>raw_hits.
     bind_res (bind_res (py_get_or block ''total'' (JObj [])) hits_total) (\<lambda>total.
     bind_res (py_iter raw_hits) (\<lambda>hits.
     bind_res (map_res from_hit hits) (\<lambda>items.
     bind_res (next_cursor hits) (\<lambda>cursor.
     bind_res (int_field env total) (\<lambda>n.
     bind_res (opt_list_field cursor) (\<lambda>next.
       Inr \<lparr>pg_items = items, pg_total = n, pg_next_cursor = next,
            pg_truncated = (int (length items) = wanted_size)\<rparr>))))))))"

definition page_dict :: "string \<Rightarrow> ('a \<Rightarrow> json) \<Rightarrow> 'a page \<Rightarrow> result" where
  "page_dict name dump p =
     [(name, JList (map dump (pg_items p))), (''total'', JInt (pg_total p)),
      (''next_cursor'', case pg_next_cursor p of None \<Rightarrow> JNull | Some c \<Rightarrow> JList c),
      (''truncated'', JBool (pg_truncated p))]"

section \<open>Tools over the indexer\<close>

definition ALERTS_INDEX :: string where "ALERTS_INDEX = ''wazuh-alerts-*''"
definition VULN_INDEX :: string where "VULN_INDEX = ''wazuh-states-vulnerabilities-*''"

text \<open>Build, search, read the page: the path every filtered search takes.\<close>

definition filtered_search ::
    "read_env \<Rightarrow> string \<Rightarrow> (json \<Rightarrow> exn + 'a) \<Rightarrow> exn + query \<Rightarrow> int \<Rightarrow> 'a page indexer" where
  "filtered_search env index from_hit built wanted_size c =
     (case built of
        Inl e \<Rightarrow> (Inl e, c)
      | Inr q \<Rightarrow> bind_st (search index (JObj q) c) (\<lambda>body c1. (hits_page env from_hit wanted_size body, c1)))"

definition search_alerts :: "read_env \<Rightarrow> search_alerts_args \<Rightarrow> alert page indexer" where
  "search_alerts env a =
     filtered_search env ALERTS_INDEX (alert_from_hit env)
       (build_search_alerts_query (sa_time_range a) (sa_min_level a) (sa_agent_id a) (sa_size a) (sa_cursor a))
       (sa_size a)"

definition not_found :: "string \<Rightarrow> exn" where
  "not_found what = wazuh_error_init ''not_found'' (what @ '' not found'') 404 None"

text \<open>\<open>v[0]\<close>, and \<open>if not items: ...; items[0]\<close>, on decoded JSON.\<close>

definition index0 :: "json \<Rightarrow> exn + json" where
  "index0 v =
     (case v of
        JList xs \<Rightarrow> (case xs of [] \<Rightarrow> Inl IndexE | x # _ \<Rightarrow> Inr x)
      | JStr cs \<Rightarrow> (case cs of [] \<Rightarrow> Inl IndexE | c # _ \<Rightarrow> Inr (JStr [c]))
      | JObj kvs \<Rightarrow> Inl KeyE
      | _ \<Rightarrow> Inl TypeE)"

definition first_item :: "json \<Rightarrow> exn + json option" where
  "first_item v = (if \<not> truthy v then Inr None else bind_res (index0 v) (\<lambda>x. Inr (Some x)))"

definition get_alert :: "read_env \<Rightarrow> string \<Rightarrow> alert indexer" where
  "get_alert env alert_id c =
     (case build_get_alert_query alert_id of
        Inl e \<Rightarrow> (Inl e, c)
      | Inr q \<Rightarrow> bind_st (search ALERTS_INDEX (JObj q) c) (\<lambda>body c1.
          (bind_res (py_get_or body ''hits'' (JObj [])) (\<lambda>block.
           bind_res (bind_res (py_get_or block ''hits'' (JList [])) first_item) (\<lambda>hit.
             case hit of None \<Rightarrow> Inl (not_found ''alert'') | Some h \<Rightarrow> alert_from_hit env h)), c1)))"

definition alerts_by_agent :: "read_env \<Rightarrow> alerts_by_agent_args \<Rightarrow> alert page indexer" where
  "alerts_by_agent env a =
     filtered_search env ALERTS_INDEX (alert_from_hit env)
       (build_alerts_by_agent_query (ba_agent_id a) (ba_time_range a) (ba_size a) (ba_cursor a)) (ba_size a)"

definition alerts_by_mitre :: "read_env \<Rightarrow> alerts_by_mitre_args \<Rightarrow> alert page indexer" where
  "alerts_by_mitre env a =
     filtered_search env ALERTS_INDEX (alert_from_hit env)
       (build_alerts_by_mitre_query (bm_technique_id a) (bm_time_range a) (bm_size a) (bm_cursor a)) (bm_size a)"

definition vuln_search :: "read_env \<Rightarrow> exn + query \<Rightarrow> int \<Rightarrow> vulnerability page indexer" where
  "vuln_search env = filtered_search env VULN_INDEX (vulnerability_from_hit env)"

definition list_vulnerabilities_by_agent :: "read_env \<Rightarrow> list_vulns_args \<Rightarrow> vulnerability page indexer" where
  "list_vulnerabilities_by_agent env a =
     vuln_search env
       (build_vulnerabilities_by_agent_query (lv_agent_id a) (lv_min_severity a) (lv_size a) (lv_cursor a)) (lv_size a)"

definition search_vulnerabilities :: "read_env \<Rightarrow> search_vulns_args \<Rightarrow> vulnerability page indexer" where
  "search_vulnerabilities env a =
     vuln_search env
       (build_search_vulnerabilities_query (sv_cve_id a) (sv_min_severity a) (sv_size a) (sv_cursor a)) (sv_size a)"

definition fim_search :: "read_env \<Rightarrow> exn + query \<Rightarrow> int \<Rightarrow> fim_event page indexer" where
  "fim_search env = filtered_search env ALERTS_INDEX (fim_event_from_hit env)"

definition fim_history_for_path :: "read_env \<Rightarrow> fim_history_args \<Rightarrow> fim_event page indexer" where
  "fim_history_for_path env a =
     fim_search env
       (build_fim_history_for_path_query (fh_path a) (fh_time_range a) (fh_size a) (fh_cursor a)) (fh_size a)"

definition fim_changes_by_agent :: "read_env \<Rightarrow> fim_changes_args \<Rightarrow> fim_event page indexer" where
  "fim_changes_by_agent env a =
     fim_search env
       (build_fim_changes_by_agent_query (fc_agent_id a) (fc_time_range a) (fc_size a) (fc_cursor a)) (fc_size a)"

definition hunt_query :: "read_env \<Rightarrow> hunt_query_args \<Rightarrow> alert page indexer" where
  "hunt_query env a =
     filtered_search env ALERTS_INDEX (alert_from_hit env) (Inr (build_hunt_dsl a)) (hq_size a)"

definition pivot_by_ioc :: "read_env \<Rightarrow> pivot_args \<Rightarrow> alert page indexer" where
  "pivot_by_ioc env a c =
     (case pivot_hunt_args a of Inl e \<Rightarrow> (Inl e, c) | Inr h \<Rightarrow> hunt_query env h c)"

section \<open>Tools over the Server API\<close>

record 'a listing =
  ls_items :: "'a list"
  ls_total :: int
  ls_truncated :: bool

text \<open>\<open>body.get("data") or {}\<close>, its items and their announced number.\<close>

definition api_items :: "json \<Rightarrow> exn + json list \<times> int" where
  "api_items body =
     bind_res (sub_dict body ''data'') (\<lambda>data.
     bind_res (items_at data ''affected_items'') (\<lambda>items.
     bind_res (py_get data ''total_affected_items'') (\<lambda>t.
     bind_res (py_int (py_or t (JInt (int (length items))))) (\<lambda>total. Inr (items, total)))))"

definition first_affected :: "json \<Rightarrow> exn + json option" where
  "first_affected body =
     bind_res (sub_dict body ''data'') (\<lambda>data.
     bind_res (py_get data ''affected_items'') first_item)"

definition nonempty_params :: "(string \<times> json option) list \<Rightarrow> (string, json) dict" where
  "nonempty_params d = concat (map (\<lambda>(k, v). case v of None \<Rightarrow> [] | Some x \<Rightarrow> [(k, x)]) d)"

definition shape_agent_list :: "read_env \<Rightarrow> int \<Rightarrow> json \<Rightarrow> exn + agent listing" where
  "shape_agent_list renv wanted_size body =
     bind_res (api_items body) (\<lambda>(items, total).
     bind_res (map_res (agent_from_api renv) items) (\<lambda>agents.
       Inr \<lparr>ls_items = agents, ls_total = total, ls_truncated = (int (length items) = wanted_size)\<rparr>))"

definition list_agents :: "api_env \<Rightarrow> read_env \<Rightarrow> list_agents_args \<Rightarrow> session \<Rightarrow> agent listing api" where
  "list_agents env renv a s =
     answer_with (api_get env ''/agents''
         (nonempty_params [(''status'', map_option JStr (la_status a)), (''group'', map_option JStr (la_group a)),
            (''limit'', Some (JInt (la_size a))), (''offset'', Some (JInt (la_offset a)))]) (wazuh_user s))
       (shape_agent_list renv (la_size a))"

definition get_agent :: "api_env \<Rightarrow> read_env \<Rightarrow> string \<Rightarrow> session \<Rightarrow> agent api" where
  "get_agent env renv agent_id s =
     answer_with (api_get env ''/agents'' [(''agents_list'', JStr agent_id)] (wazuh_user s)) (\<lambda>body.
       bind_res (first_affected body) (\<lambda>hit.
         case hit of None \<Rightarrow> Inl (not_found ''agent'') | Some h \<Rightarrow> agent_from_api renv h))"

definition dict_item :: "json \<Rightarrow> exn + json" where
  "dict_item v = (case v of JObj kvs \<Rightarrow> Inr v | _ \<Rightarrow> Inl ValidationE)"

definition inventory :: "api_env \<Rightarrow> string \<Rightarrow> agent_subquery \<Rightarrow> session \<Rightarrow> json listing api" where
  "inventory env path a s =
     answer_with (api_get env path [(''limit'', JInt (sq_size a)), (''offset'', JInt (sq_offset a))] (wazuh_user s))
       (\<lambda>body. bind_res (api_items body) (\<lambda>(items, total).
          bind_res (map_res dict_item items) (\<lambda>ds.
            Inr \<lparr>ls_items = ds, ls_total = total, ls_truncated = (int (length items) = sq_size a)\<rparr>)))"

definition agent_processes :: "api_env \<Rightarrow> agent_subquery \<Rightarrow> session \<Rightarrow> json listing api" where
  "agent_processes env a = inventory env (''/syscollector/'' @ sq_agent_id a @ ''/processes'') a"

definition agent_packages :: "api_env \<Rightarrow> agent_subquery \<Rightarrow> session \<Rightarrow> json listing api" where
  "agent_packages env a = inventory env (''/syscollector/'' @ sq_agent_id a @ ''/packages'') a"

definition agent_ports :: "api_env \<Rightarrow> agent_subquery \<Rightarrow> session \<Rightarrow> json listing api" where
  "agent_ports env a = inventory env (''/syscollector/'' @ sq_agent_id a @ ''/ports'') a"

definition get_mitre_technique :: "api_env \<Rightarrow> read_env \<Rightarrow> string \<Rightarrow> session \<Rightarrow> mitre_technique api" where
  "get_mitre_technique env renv technique_id s c =
     (if \<not> mitre_id_match technique_id then (Inl ValueE, c)
      else answer_with (api_get env ''/mitre/techniques'' [(''q'', JStr (''external_id='' @ technique_id))] (wazuh_user s))
        (\<lambda>body. bind_res (first_affected body) (\<lambda>hit.
           case hit of None \<Rightarrow> Inl (not_found ''technique'') | Some h \<Rightarrow> mitre_technique_from_api renv h)) c)"

text \<open>\<open>if args.q\<close>: an empty text is no clause.\<close>

definition q_clause :: "string \<Rightarrow> string option \<Rightarrow> string list" where
  "q_clause name v = (case v of None \<Rightarrow> [] | Some s \<Rightarrow> if s = [] then [] else [name @ ''~'' @ s])"

definition mitre_q :: "search_mitre_args \<Rightarrow> string" where
  "mitre_q a = join_with '','' (q_clause ''name'' (sm_q a) @ q_clause ''tactics'' (sm_tactic a))"

definition search_mitre :: "api_env \<Rightarrow> read_env \<Rightarrow> search_mitre_args \<Rightarrow> session \<Rightarrow> mitre_technique listing api" where
  "search_mitre env renv a s c =
     (if sm_q a = None \<and> sm_tactic a = None then (Inl ValueE, c)
      else answer_with (api_get env ''/mitre/techniques'' [(''q'', JStr (mitre_q a)), (''limit'', JInt (sm_size a))] (wazuh_user s))
        (\<lambda>body. bind_res (api_items body) (\<lambda>(items, total).
           bind_res (map_res (mitre_technique_from_api renv) items) (\<lambda>techs.
             Inr \<lparr>ls_items = techs, ls_total = total, ls_truncated = (int (length techs) = sm_size a)\<rparr>))) c)"

record cluster_node =
  cn_name :: string
  cn_type :: string
  cn_status :: string

definition cluster_node_of :: "read_env \<Rightarrow> json \<Rightarrow> exn + cluster_node" where
  "cluster_node_of env n =
     bind_res (py_get_or n ''name'' (JStr [])) (\<lambda>name.
     bind_res (py_get_or n ''type'' (JStr ''worker'')) (\<lambda>typ.
     bind_res (py_get_or n ''status'' (JStr [])) (\<lambda>st.
       case typ of
         JStr t \<Rightarrow> if t \<in> {''master'', ''worker''}
                   then Inr \<lparr>cn_name = json_str (re_str env) name, cn_type = t, cn_status = json_str (re_str env) st\<rparr>
                   else Inl ValidationE
       | _ \<Rightarrow> Inl ValidationE)))"

definition cluster_status :: "api_env \<Rightarrow> read_env \<Rightarrow> (bool \<times> bool \<times> cluster_node list) api" where
  "cluster_status env renv c =
     bind_st (api_cluster_status env None c) (\<lambda>raw c1.
       (bind_res (bind_res (py_iter (cs_nodes raw)) (map_res (cluster_node_of renv))) (\<lambda>nodes.
          Inr (cs_enabled raw, cs_running raw, nodes)), c1))"

end
