(* ===== verification/ReadGuard.thy ===== *)
theory ReadGuard imports ReadTools begin

text \<open>
  The registered handlers of the read tools (\<open>server.py\<close>) over the two client pools, and what they may
  send: searches of the two index patterns through the tenant's indexer client, and \<open>GET\<close> requests
  through its Server API client.
\<close>

section \<open>Handlers\<close>

record app_pools =
  ap_api :: server_api_pool
  ap_indexer :: indexer_pool

record tool_env =
  te_api :: api_env
  te_read :: read_env
  te_decoder :: read_decoder
  te_open_api :: client_open
  te_open_ix :: client_open
  te_net_api :: "string \<Rightarrow> answer list"
  te_net_ix :: "string \<Rightarrow> answer list"

type_synonym 'l app_world = "('l, app_pools) world"
type_synonym 'l app_handler = "('l, app_pools) handler"

text \<open>\<open>await indexer_pool.acquire(session.tenant_id)\<close>, then the tool on the shared client; the same for
  the Server API.\<close>

definition with_indexer ::
    "tool_env \<Rightarrow> session \<Rightarrow> 'a indexer \<Rightarrow> 'l app_world \<Rightarrow> (exn + 'a) \<times> 'l app_world" where
  "with_indexer env s m w =
     (case ip_acquire (te_open_ix env) (te_net_ix env) (s_tenant_id s) (ap_indexer (wd_app w)) of
        (Inl e, p) \<Rightarrow> (Inl e, w\<lparr>wd_app := (wd_app w)\<lparr>ap_indexer := p\<rparr>\<rparr>)
      | (Inr c, p) \<Rightarrow>
          (case m c of (r, c') \<Rightarrow> (r, w\<lparr>wd_app := (wd_app w)\<lparr>ap_indexer := ip_store (s_tenant_id s) c' p\<rparr>\<rparr>)))"

definition with_api ::
    "tool_env \<Rightarrow> session \<Rightarrow> 'a api \<Rightarrow> 'l app_world \<Rightarrow> (exn + 'a) \<times> 'l app_world" where
  "with_api env s m w =
     (case sp_acquire (te_open_api env) (te_net_api env) (s_tenant_id s) (ap_api (wd_app w)) of
        (Inl e, p) \<Rightarrow> (Inl e, w\<lparr>wd_app := (wd_app w)\<lparr>ap_api := p\<rparr>\<rparr>)
      | (Inr c, p) \<Rightarrow>
          (case m c of (r, c') \<Rightarrow> (r, w\<lparr>wd_app := (wd_app w)\<lparr>ap_api := sp_store (s_tenant_id s) c' p\<rparr>\<rparr>)))"

definition on_result :: "('a \<Rightarrow> 'b) \<Rightarrow> (exn + 'a) \<times> 'w \<Rightarrow> (exn + 'b) \<times> 'w" where
  "on_result f p = bind_st p (\<lambda>x w. (Inr (f x), w))"

definition ix_handler ::
    "tool_env \<Rightarrow> session \<Rightarrow> exn + 'a \<Rightarrow> ('a \<Rightarrow> 'b indexer) \<Rightarrow> ('b \<Rightarrow> result) \<Rightarrow> 'l app_world \<Rightarrow>
     (exn + result) \<times> 'l app_world" where
  "ix_handler env s parsed tool dump w =
     (case parsed of Inl e \<Rightarrow> (Inl e, w) | Inr a \<Rightarrow> on_result dump (with_indexer env s (tool a) w))"

definition api_handler ::
    "tool_env \<Rightarrow> session \<Rightarrow> exn + 'a \<Rightarrow> ('a \<Rightarrow> 'b api) \<Rightarrow> ('b \<Rightarrow> result) \<Rightarrow> 'l app_world \<Rightarrow>
     (exn + result) \<times> 'l app_world" where
  "api_handler env s parsed tool dump w =
     (case parsed of Inl e \<Rightarrow> (Inl e, w) | Inr a \<Rightarrow> on_result dump (with_api env s (tool a) w))"

definition search_alerts_inner :: "tool_env \<Rightarrow> session \<Rightarrow> 'l app_handler" where
  "search_alerts_inner env s kw = ix_handler env s (SearchAlertsArgs (te_decoder env) kw)
     (search_alerts (te_read env)) (page_dict ''alerts'' alert_dump)"

definition get_alert_inner :: "tool_env \<Rightarrow> session \<Rightarrow> 'l app_handler" where
  "get_alert_inner env s kw = ix_handler env s (GetAlertArgs (te_decoder env) kw)
     (get_alert (te_read env)) (\<lambda>a. [(''alert'', alert_dump a)])"

definition alerts_by_agent_inner :: "tool_env \<Rightarrow> session \<Rightarrow> 'l app_handler" where
  "alerts_by_agent_inner env s kw = ix_handler env s (AlertsByAgentArgs (te_decoder env) kw)
     (alerts_by_agent (te_read env)) (page_dict ''alerts'' alert_dump)"

definition alerts_by_mitre_inner :: "tool_env \<Rightarrow> session \<Rightarrow> 'l app_handler" where
  "alerts_by_mitre_inner env s kw = ix_handler env s (AlertsByMitreArgs (te_decoder env) kw)
     (alerts_by_mitre (te_read env)) (page_dict ''alerts'' alert_dump)"

definition list_vulns_inner :: "tool_env \<Rightarrow> session \<Rightarrow> 'l app_handler" where
  "list_vulns_inner env s kw = ix_handler env s (ListVulnerabilitiesByAgentArgs (te_decoder env) kw)
     (list_vulnerabilities_by_agent (te_read env)) (page_dict ''vulnerabilities'' vulnerability_dump)"

definition search_vulns_inner :: "tool_env \<Rightarrow> session \<Rightarrow> 'l app_handler" where
  "search_vulns_inner env s kw = ix_handler env s (SearchVulnerabilitiesArgs (te_decoder env) kw)
     (search_vulnerabilities (te_read env)) (page_dict ''vulnerabilities'' vulnerability_dump)"

definition hunt_inner :: "tool_env \<Rightarrow> session \<Rightarrow> 'l app_handler" where
  "hunt_inner env s kw = ix_handler env s (hunt_args_of (te_decoder env) kw)
     (hunt_query (te_read env)) (page_dict ''alerts'' alert_dump)"

definition pivot_inner :: "tool_env \<Rightarrow> session \<Rightarrow> 'l app_handler" where
  "pivot_inner env s kw = ix_handler env s (PivotByIocArgs (te_decoder env) kw)
     (pivot_by_ioc (te_read env)) (page_dict ''alerts'' alert_dump)"

definition fim_history_inner :: "tool_env \<Rightarrow> session \<Rightarrow> 'l app_handler" where
  "fim_history_inner env s kw = ix_handler env s (FimHistoryArgs (te_decoder env) kw)
     (fim_history_for_path (te_read env)) (page_dict ''events'' fim_event_dump)"

definition fim_changes_inner :: "tool_env \<Rightarrow> session \<Rightarrow> 'l app_handler" where
  "fim_changes_inner env s kw = ix_handler env s (FimChangesArgs (te_decoder env) kw)
     (fim_changes_by_agent (te_read env)) (page_dict ''events'' fim_event_dump)"

definition listing_dict :: "string \<Rightarrow> ('a \<Rightarrow> json) \<Rightarrow> 'a listing \<Rightarrow> result" where
  "listing_dict name dump p =
     [(name, JList (map dump (ls_items p))), (''total'', JInt (ls_total p)), (''truncated'', JBool (ls_truncated p))]"

definition inventory_dict :: "string \<Rightarrow> json listing \<Rightarrow> result" where
  "inventory_dict agent_id p = (''agent_id'', JStr agent_id) # listing_dict ''items'' (\<lambda>x. x) p"

definition list_agents_inner :: "tool_env \<Rightarrow> session \<Rightarrow> 'l app_handler" where
  "list_agents_inner env s kw = api_handler env s (ListAgentsArgs (te_decoder env) kw)
     (\<lambda>a. list_agents (te_api env) (te_read env) a s) (listing_dict ''agents'' agent_dump)"

definition get_agent_inner :: "tool_env \<Rightarrow> session \<Rightarrow> 'l app_handler" where
  "get_agent_inner env s kw = api_handler env s (GetAgentArgs (te_decoder env) kw)
     (\<lambda>a. get_agent (te_api env) (te_read env) a s) (\<lambda>a. [(''agent'', agent_dump a)])"

definition with_agent_id :: "(agent_subquery \<Rightarrow> session \<Rightarrow> json listing api) \<Rightarrow> session \<Rightarrow> agent_subquery \<Rightarrow> result api" where
  "with_agent_id tool s a c = bind_st (tool a s c) (\<lambda>p c1. (Inr (inventory_dict (sq_agent_id a) p), c1))"

definition agent_processes_inner :: "tool_env \<Rightarrow> session \<Rightarrow> 'l app_handler" where
  "agent_processes_inner env s kw = api_handler env s (AgentSubquery (te_decoder env) kw)
     (with_agent_id (agent_processes (te_api env)) s) (\<lambda>r. r)"

definition agent_packages_inner :: "tool_env \<Rightarrow> session \<Rightarrow> 'l app_handler" where
  "agent_packages_inner env s kw = api_handler env s (AgentSubquery (te_decoder env) kw)
     (with_agent_id (agent_packages (te_api env)) s) (\<lambda>r. r)"

definition agent_ports_inner :: "tool_env \<Rightarrow> session \<Rightarrow> 'l app_handler" where
  "agent_ports_inner env s kw = api_handler env s (AgentSubquery (te_decoder env) kw)
     (with_agent_id (agent_ports (te_api env)) s) (\<lambda>r. r)"

definition get_technique_inner :: "tool_env \<Rightarrow> session \<Rightarrow> 'l app_handler" where
  "get_technique_inner env s kw = api_handler env s (GetMitreTechniqueArgs (te_decoder env) kw)
     (\<lambda>a. get_mitre_technique (te_api env) (te_read env) a s) (\<lambda>t. [(''technique'', mitre_technique_dump t)])"

definition search_mitre_inner :: "tool_env \<Rightarrow> session \<Rightarrow> 'l app_handler" where
  "search_mitre_inner env s kw = api_handler env s (SearchMitreArgs (te_decoder env) kw)
     (\<lambda>a. search_mitre (te_api env) (te_read env) a s) (listing_dict ''techniques'' mitre_technique_dump)"

definition cluster_dict :: "bool \<times> bool \<times> cluster_node list \<Rightarrow> result" where
  "cluster_dict r =
     (case r of (en, ru, nodes) \<Rightarrow>
        [(''enabled'', JBool en), (''running'', JBool ru),
         (''nodes'', JList (map (\<lambda>n. JObj [(''name'', JStr (cn_name n)), (''type'', JStr (cn_type n)),
                                     (''status'', JStr (cn_status n))]) nodes))])"

definition cluster_status_inner :: "tool_env \<Rightarrow> session \<Rightarrow> 'l app_handler" where
  "cluster_status_inner env s kw = api_handler env s (ClusterStatusArgs (te_decoder env) kw)
     (\<lambda>_. cluster_status (te_api env) (te_read env)) cluster_dict"

text \<open>The registration table of the read tools.\<close>

definition read_tools :: "tool_env \<Rightarrow> session \<Rightarrow> (string \<times> 'l app_handler) list" where
  "read_tools env s =
     [(''alerts.search_alerts'', search_alerts_inner env s), (''alerts.get_alert'', get_alert_inner env s),
      (''alerts.alerts_by_agent'', alerts_by_agent_inner env s), (''alerts.alerts_by_mitre'', alerts_by_mitre_inner env s),
      (''agents.list_agents'', list_agents_inner env s), (''agents.get_agent'', get_agent_inner env s),
      (''agents.agent_processes'', agent_processes_inner env s), (''agents.agent_packages'', agent_packages_inner env s),
      (''agents.agent_ports'', agent_ports_inner env s),
      (''vulnerabilities.list_vulnerabilities_by_agent'', list_vulns_inner env s),
      (''vulnerabilities.search_vulnerabilities'', search_vulns_inner env s),
      (''mitre.get_mitre_technique'', get_technique_inner env s), (''mitre.search_mitre'', search_mitre_inner env s),
      (''hunt.hunt_query'', hunt_inner env s), (''hunt.pivot_by_ioc'', pivot_inner env s),
      (''cluster.status'', cluster_status_inner env s),
      (''fim.fim_history_for_path'', fim_history_inner env s), (''fim.fim_changes_by_agent'', fim_changes_inner env s)]"

section \<open>What a tool sends\<close>

text \<open>A search of one of the two index patterns with a bounded query.\<close>

definition search_ok :: "request \<Rightarrow> bool" where
  "search_ok rq \<longleftrightarrow> rq_method rq = ''POST'' \<and>
     rq_path rq \<in> {''/wazuh-alerts-*/_search'', ''/wazuh-states-vulnerabilities-*/_search''} \<and>
     rq_content rq = None \<and> (\<exists>q. rq_json rq = Some (JObj q) \<and> bounded_query q)"

text \<open>A reading request of the Server API, or the authentication that mints a token.\<close>

definition api_read_ok :: "request \<Rightarrow> bool" where
  "api_read_ok rq \<longleftrightarrow> rq_method rq = ''GET'' \<and> rq_json rq = None \<and> rq_content rq = None \<or>
     rq_method rq = ''POST'' \<and> rq_path rq = ''/security/user/authenticate''"

definition ix_sends :: "'a indexer \<Rightarrow> bool" where
  "ix_sends m \<longleftrightarrow>
     (\<forall>c. (\<exists>rqs. ix_sent (snd (m c)) = ix_sent c @ rqs \<and> list_all search_ok rqs) \<and> indexer_ident (snd (m c)) = indexer_ident c)"

lemma ix_sends_ident: "ix_sends m \<Longrightarrow> indexer_ident (snd (m c)) = indexer_ident c"
  by (simp add: ix_sends_def)

lemma ix_sends_state: "(\<And>c. snd (m' c) = snd (m c)) \<Longrightarrow> ix_sends m \<Longrightarrow> ix_sends m'"
  by (simp add: ix_sends_def)

lemma ix_sends_pure: "ix_sends (\<lambda>c. (r, c))"
  by (simp add: ix_sends_def)

lemma ix_sends_case:
  "(\<And>e. v = Inl e \<Longrightarrow> ix_sends (f e)) \<Longrightarrow> (\<And>x. v = Inr x \<Longrightarrow> ix_sends (g x)) \<Longrightarrow>
    ix_sends (\<lambda>c. case v of Inl e \<Rightarrow> f e c | Inr x \<Rightarrow> g x c)"
  by (cases v) auto

text \<open>One search, then pure reading of the answer.\<close>

lemma ix_sends_search:
  assumes "index = ALERTS_INDEX \<or> index = VULN_INDEX" "bounded_query q"
  shows "ix_sends (\<lambda>c. bind_st (search index (JObj q) c) (\<lambda>body c1. (f body, c1)))"
  unfolding ix_sends_def
proof (intro allI conjI)
  fix c
  show "indexer_ident (snd (bind_st (search index (JObj q) c) (\<lambda>body c1. (f body, c1)))) = indexer_ident c"
    using search_ident [of index "JObj q" c]
    by (cases "search index (JObj q) c"; cases "fst (search index (JObj q) c)") simp_all
  let ?rq = "\<lparr>rq_method = ''POST'', rq_path = ''/'' @ index @ ''/_search'', rq_params = [],
     rq_json = Some (JObj q), rq_content = None, rq_auth = basic_auth c\<rparr>"
  obtain x c1 where s: "search index (JObj q) c = (x, c1)" by fastforce
  have ok: "search_ok ?rq"
    using assms by (auto simp: search_ok_def ALERTS_INDEX_def VULN_INDEX_def)
  have "ix_sent c1 = ix_sent c \<or> ix_sent c1 = ix_sent c @ [?rq]"
    using s ix_send_sent [of ?rq c x c1] by (auto simp: search_def split: if_splits)
  then have "\<exists>rqs. ix_sent c1 = ix_sent c @ rqs \<and> list_all search_ok rqs"
    using ok by (auto intro: exI [of _ "[?rq]"] exI [of _ "[]"])
  then show "\<exists>rqs. ix_sent (snd (bind_st (search index (JObj q) c) (\<lambda>body c1. (f body, c1)))) = ix_sent c @ rqs \<and>
      list_all search_ok rqs"
    using s by (cases x) auto
qed

lemma ix_sends_filtered:
  assumes "index = ALERTS_INDEX \<or> index = VULN_INDEX" "\<And>q. built = Inr q \<Longrightarrow> bounded_query q"
  shows "ix_sends (filtered_search env index from_hit built n)"
  unfolding filtered_search_def
  by (intro ix_sends_case ix_sends_pure ix_sends_search assms)

lemma hunt_bounded: "HuntQueryArgs a = Inr b \<Longrightarrow> bounded_query (build_hunt_dsl b)"
  using HuntQueryArgs_Inr [of a b] unfolding build_hunt_dsl_def
  by (intro with_cursor_bounded query_body_bounded) auto

lemma ix_sends_hunt: "HuntQueryArgs a = Inr b \<Longrightarrow> ix_sends (hunt_query env b)"
  unfolding hunt_query_def by (rule ix_sends_filtered) (auto dest: hunt_bounded)

lemma ix_tools_send:
  "ix_sends (search_alerts env a1)" "ix_sends (get_alert env i)" "ix_sends (alerts_by_agent env a2)"
  "ix_sends (alerts_by_mitre env a3)" "ix_sends (list_vulnerabilities_by_agent env a4)"
  "ix_sends (search_vulnerabilities env a5)" "ix_sends (fim_history_for_path env a6)"
  "ix_sends (fim_changes_by_agent env a7)" "ix_sends (pivot_by_ioc env a8)"
  unfolding search_alerts_def alerts_by_agent_def alerts_by_mitre_def list_vulnerabilities_by_agent_def
    search_vulnerabilities_def vuln_search_def fim_search_def fim_history_for_path_def fim_changes_by_agent_def get_alert_def pivot_by_ioc_def
  by (intro ix_sends_filtered ix_sends_case ix_sends_pure ix_sends_search ix_sends_hunt [OF pivot_in_grammar];
      (simp add: builders_bounded; fail)?; auto dest: builders_bounded)+

lemma sends_get: "sends api_read_ok (api_get env path ps ra)"
  unfolding api_get_def api_request_def
  by (rule sends_authorised) (auto simp: api_read_ok_def auth_request_def)

lemma sends_status: "sends api_read_ok (api_cluster_status env ra)"
  unfolding api_cluster_status_def
proof (rule sends_bind [OF sends_get])
  fix resp
  show "sends api_read_ok (\<lambda>c1. case status_flags resp of Inl e \<Rightarrow> (Inl e, c1)
    | Inr (enabled, running) \<Rightarrow>
        if \<not> enabled then (Inr \<lparr>cs_enabled = enabled, cs_running = running, cs_nodes = JList []\<rparr>, c1)
        else bind_st (api_get env ''/cluster/nodes'' [] ra c1) (\<lambda>nresp c2.
          case node_list nresp of Inl e \<Rightarrow> (Inl e, c2)
          | Inr nodes \<Rightarrow> (Inr \<lparr>cs_enabled = enabled, cs_running = running, cs_nodes = nodes\<rparr>, c2)))"
    by (cases "status_flags resp")
      (auto split: prod.splits intro!: sends_if sends_bind [OF sends_get] sends_case_sum)
qed

lemma api_tools_send:
  "sends api_read_ok (list_agents env renv a1 s)" "sends api_read_ok (get_agent env renv i s)"
  "sends api_read_ok (inventory env path a2 s)" "sends api_read_ok (get_mitre_technique env renv i s)"
  "sends api_read_ok (search_mitre env renv a3 s)" "sends api_read_ok (cluster_status env renv)"
  unfolding list_agents_def get_agent_def inventory_def get_mitre_technique_def search_mitre_def cluster_status_def
  by (intro sends_if sends_pure sends_answer_with sends_get sends_bind [OF sends_status])+

lemma sends_with_agent_id: "(\<And>a. sends P (tool a s)) \<Longrightarrow> sends P (with_agent_id tool s a)"
  unfolding with_agent_id_def by (rule sends_bind) simp_all

lemma inventory_send:
  "sends api_read_ok (agent_processes env a s)" "sends api_read_ok (agent_packages env a s)"
  "sends api_read_ok (agent_ports env a s)"
  unfolding agent_processes_def agent_packages_def agent_ports_def by (rule api_tools_send)+

section \<open>The effect on the world\<close>

definition api_sent_for :: "'l app_world \<Rightarrow> string \<Rightarrow> request list" where
  "api_sent_for w tid = (case dget (sp_clients (ap_api (wd_app w))) tid of None \<Rightarrow> [] | Some c \<Rightarrow> ac_sent c)"

definition ix_sent_for :: "'l app_world \<Rightarrow> string \<Rightarrow> request list" where
  "ix_sent_for w tid = (case dget (ap_indexer (wd_app w)) tid of None \<Rightarrow> [] | Some c \<Rightarrow> ix_sent c)"

definition reads_from :: "string \<Rightarrow> 'l app_world \<Rightarrow> 'l app_world \<Rightarrow> bool" where
  "reads_from own w w' \<longleftrightarrow> wd_calls w' = wd_calls w \<and> wd_durations w' = wd_durations w \<and> wd_limiter w' = wd_limiter w \<and>
     (\<forall>tid. \<exists>xs ys. ix_sent_for w' tid = ix_sent_for w tid @ xs \<and> api_sent_for w' tid = api_sent_for w tid @ ys \<and>
        list_all search_ok xs \<and> list_all api_read_ok ys \<and> (tid \<noteq> own \<longrightarrow> xs = [] \<and> ys = []))"

definition reads_only :: "string \<Rightarrow> 'l app_world \<Rightarrow> 'l app_world \<Rightarrow> bool" where
  "reads_only own w w' \<longleftrightarrow> wd_events w' = wd_events w \<and> reads_from own w w'"

lemmas reads_defs = reads_only_def reads_from_def

lemma reads_only_refl: "reads_only own w w"
  by (auto simp: reads_defs intro!: exI [of _ "[]"])

lemma reads_from_trans:
  assumes "reads_from own w w1" "reads_from own w1 w2"
  shows "reads_from own w w2"
  unfolding reads_from_def
proof (intro conjI allI)
  fix tid
  obtain x1 y1 where a: "ix_sent_for w1 tid = ix_sent_for w tid @ x1" "api_sent_for w1 tid = api_sent_for w tid @ y1"
    "list_all search_ok x1" "list_all api_read_ok y1" "tid \<noteq> own \<longrightarrow> x1 = [] \<and> y1 = []"
    using assms(1) unfolding reads_from_def by meson
  obtain x2 y2 where b: "ix_sent_for w2 tid = ix_sent_for w1 tid @ x2" "api_sent_for w2 tid = api_sent_for w1 tid @ y2"
    "list_all search_ok x2" "list_all api_read_ok y2" "tid \<noteq> own \<longrightarrow> x2 = [] \<and> y2 = []"
    using assms(2) unfolding reads_from_def by meson
  show "\<exists>xs ys. ix_sent_for w2 tid = ix_sent_for w tid @ xs \<and> api_sent_for w2 tid = api_sent_for w tid @ ys \<and>
        list_all search_ok xs \<and> list_all api_read_ok ys \<and> (tid \<noteq> own \<longrightarrow> xs = [] \<and> ys = [])"
    by (rule exI [of _ "x1 @ x2"], rule exI [of _ "y1 @ y2"]) (use a b in simp)
qed (use assms in \<open>auto simp: reads_from_def\<close>)

lemma ip_acquire_sent:
  assumes "ip_acquire opn net own p = (r, p')"
  shows "(\<forall>tid. (case dget p' tid of None \<Rightarrow> [] | Some c \<Rightarrow> ix_sent c) =
      (case dget p tid of None \<Rightarrow> [] | Some c \<Rightarrow> ix_sent c)) \<and>
    (\<forall>c. r = Inr c \<longrightarrow> dget p' own = Some c)"
proof (cases "dget p own")
  case None
  show ?thesis
    using ip_acquire_new [OF None assms]
  proof (elim disjE exE conjE)
    fix c assume c: "r = Inr c" "ip_fresh opn net own = Inr c" "dget p' = (dget p)(own \<mapsto> c)"
    have "ix_sent c = []" using c(2) by (auto simp: ip_fresh_def bind_res_eq_Inr new_indexer_client_def)
    then show ?thesis unfolding c(3) using None c(1) by auto
  qed auto
next
  case (Some c)
  then show ?thesis using ip.acquire_known [OF Some assms] by auto
qed

lemma with_indexer_reads:
  assumes "ix_sends m" "with_indexer env s m w = (r, w')"
  shows "reads_only (s_tenant_id s) w w'"
proof -
  let ?own = "s_tenant_id s"
  obtain x p where a: "ip_acquire (te_open_ix env) (te_net_ix env) ?own (ap_indexer (wd_app w)) = (x, p)"
    by fastforce
  note acq = ip_acquire_sent [OF a]
  show ?thesis
  proof (cases x)
    case (Inl e)
    then have w': "w' = w\<lparr>wd_app := (wd_app w)\<lparr>ap_indexer := p\<rparr>\<rparr>" using assms(2) a by (simp add: with_indexer_def)
    then have "ix_sent_for w' tid = ix_sent_for w tid" "api_sent_for w' tid = api_sent_for w tid" for tid
      using acq by (simp_all add: ix_sent_for_def api_sent_for_def)
    with w' show ?thesis by (simp add: reads_defs)
  next
    case (Inr c)
    obtain y c' where m: "m c = (y, c')" by fastforce
    have w': "w' = w\<lparr>wd_app := (wd_app w)\<lparr>ap_indexer := ip_store ?own c' p\<rparr>\<rparr>"
      using assms(2) a Inr m by (simp add: with_indexer_def)
    obtain rqs where rqs: "ix_sent c' = ix_sent c @ rqs" "list_all search_ok rqs"
      using assms(1) m unfolding ix_sends_def by (metis snd_conv)
    have "dget p ?own = Some c" using acq Inr by simp
    then have own: "ix_sent_for w ?own = ix_sent c"
      using conjunct1 [OF acq, rule_format, of ?own] by (simp add: ix_sent_for_def)
    have "ix_sent_for w' tid = (if tid = ?own then ix_sent c' else ix_sent_for w tid)" for tid
      using conjunct1 [OF acq, rule_format, of tid] by (simp add: w' ix_sent_for_def ip_store_def dget_dset)
    moreover have "api_sent_for w' = api_sent_for w" by (rule ext) (simp add: w' api_sent_for_def)
    ultimately show ?thesis using rqs own by (simp add: reads_defs) (simp add: w')
  qed
qed

lemma with_api_reads:
  assumes "sends api_read_ok m" "with_api env s m w = (r, w')"
  shows "reads_only (s_tenant_id s) w w'"
proof -
  let ?own = "s_tenant_id s"
  obtain x p where a: "sp_acquire (te_open_api env) (te_net_api env) ?own (ap_api (wd_app w)) = (x, p)"
    by fastforce
  note acq = sp_acquire_sent [OF a]
  show ?thesis
  proof (cases x)
    case (Inl e)
    then have w': "w' = w\<lparr>wd_app := (wd_app w)\<lparr>ap_api := p\<rparr>\<rparr>" using assms(2) a by (simp add: with_api_def)
    then have "ix_sent_for w' tid = ix_sent_for w tid" "api_sent_for w' tid = api_sent_for w tid" for tid
      using acq by (simp_all add: ix_sent_for_def api_sent_for_def)
    with w' show ?thesis by (simp add: reads_defs)
  next
    case (Inr c)
    obtain y c' where m: "m c = (y, c')" by fastforce
    have w': "w' = w\<lparr>wd_app := (wd_app w)\<lparr>ap_api := sp_store ?own c' p\<rparr>\<rparr>"
      using assms(2) a Inr m by (simp add: with_api_def)
    obtain rqs where rqs: "ac_sent c' = ac_sent c @ rqs" "list_all api_read_ok rqs"
      using sends_run [OF assms(1) m] by blast
    have "dget (sp_clients p) ?own = Some c" using acq Inr by simp
    then have own: "api_sent_for w ?own = ac_sent c"
      using conjunct1 [OF acq, rule_format, of ?own] by (simp add: api_sent_for_def)
    have "api_sent_for w' tid = (if tid = ?own then ac_sent c' else api_sent_for w tid)" for tid
      using conjunct1 [OF acq, rule_format, of tid] by (simp add: w' api_sent_for_def sp_store_def dget_dset)
    moreover have "ix_sent_for w' = ix_sent_for w" by (rule ext) (simp add: w' ix_sent_for_def)
    ultimately show ?thesis using rqs own by (simp add: reads_defs) (simp add: w')
  qed
qed

lemma on_result_snd: "snd (on_result f p) = snd p"
  by (cases p; cases "fst p") (auto simp: on_result_def)

text \<open>Every read handler stops at its arguments or runs one action on one of its tenant's clients; the
  action's result does not matter to the clients.\<close>

definition read_step :: "tool_env \<Rightarrow> session \<Rightarrow> 'l app_world \<Rightarrow> 'l app_world \<Rightarrow> bool" where
  "read_step env s w w' \<longleftrightarrow> w' = w \<or>
     (\<exists>m :: unit indexer. ix_sends m \<and> w' = snd (with_indexer env s m w)) \<or>
     (\<exists>m :: unit api. sends api_read_ok m \<and> w' = snd (with_api env s m w))"

lemma with_indexer_step: "ix_sends m \<Longrightarrow> read_step env s w (snd (with_indexer env s m w))"
  unfolding read_step_def
  by (rule disjI2, rule disjI1, rule exI [of _ "\<lambda>c. (Inr (), snd (m c))"])
    (auto simp: with_indexer_def intro: ix_sends_state split: prod.splits sum.splits)

lemma with_api_step: "sends api_read_ok m \<Longrightarrow> read_step env s w (snd (with_api env s m w))"
  unfolding read_step_def
  by (rule disjI2, rule disjI2, rule exI [of _ "\<lambda>c. (Inr (), snd (m c))"])
    (auto simp: with_api_def intro: sends_state split: prod.splits sum.splits)

lemma read_step_reads:
  assumes "read_step env s w w'"
  shows "reads_only (s_tenant_id s) w w'"
  using assms reads_only_refl with_indexer_reads [OF _ prod.collapse [symmetric]] with_api_reads [OF _ prod.collapse [symmetric]]
  unfolding read_step_def by blast

lemma ix_handler_step:
  assumes "\<And>a. parsed = Inr a \<Longrightarrow> ix_sends (tool a)"
  shows "read_step env s w (snd (ix_handler env s parsed tool dump w))"
proof (cases parsed)
  case (Inr a)
  show ?thesis using with_indexer_step [OF assms [OF Inr]] by (simp add: ix_handler_def on_result_snd Inr)
qed (simp add: ix_handler_def read_step_def)

lemma api_handler_step:
  assumes "\<And>a. sends api_read_ok (tool a)"
  shows "read_step env s w (snd (api_handler env s parsed tool dump w))"
proof (cases parsed)
  case (Inr a)
  show ?thesis using with_api_step [OF assms] by (simp add: api_handler_def on_result_snd Inr)
qed (simp add: api_handler_def read_step_def)

lemmas read_handler_defs = search_alerts_inner_def get_alert_inner_def alerts_by_agent_inner_def
  alerts_by_mitre_inner_def list_vulns_inner_def search_vulns_inner_def hunt_inner_def pivot_inner_def
  fim_history_inner_def fim_changes_inner_def list_agents_inner_def get_agent_inner_def
  agent_processes_inner_def agent_packages_inner_def agent_ports_inner_def get_technique_inner_def
  search_mitre_inner_def cluster_status_inner_def

lemma hunt_parsed: "hunt_args_of d kw = Inr a \<Longrightarrow> HuntQueryArgs a = Inr a"
  using HuntQueryArgs_Inr by (auto simp: hunt_args_of_def split: option.splits)

lemma read_handler_step:
  fixes w :: "'l app_world"
  assumes "(tool, h) \<in> set (read_tools env s)"
  shows "read_step env s w (snd (h kw w))"
proof -
  have "\<forall>(t, g :: 'l app_handler) \<in> set (read_tools env s). read_step env s w (snd (g kw w))"
    unfolding read_tools_def list.set ball_simps prod.case read_handler_defs
    by (intro conjI ix_handler_step api_handler_step ix_tools_send api_tools_send inventory_send
        sends_with_agent_id TrueI; auto dest!: hunt_parsed intro: ix_sends_hunt)
  then show ?thesis using assms by auto
qed

lemma read_handler_reads:
  "(tool, h) \<in> set (read_tools env s) \<Longrightarrow> reads_only (s_tenant_id s) w (snd (h kw w))"
  by (rule read_step_reads [OF read_handler_step])

text \<open>
  C9: The read tools read, within bounds and within the tenant.  Whatever the arguments and the
  answers, a read tool sends its requests through the clients of the session's tenant only: to the
  indexer nothing but searches of the alert and vulnerability indices with between one and a hundred
  hits and at most ten thousand documents visited per shard, to the Server API nothing but \<open>GET\<close> and
  the authentication call.
\<close>

theorem read_tools_only_read:
  assumes "(tool, h) \<in> set (read_tools env s)" "h kw w = (r, w')"
  shows "\<exists>xs ys. ix_sent_for w' tid = ix_sent_for w tid @ xs \<and> api_sent_for w' tid = api_sent_for w tid @ ys \<and>
    (tid \<noteq> s_tenant_id s \<longrightarrow> xs = [] \<and> ys = []) \<and>
    (\<forall>rq \<in> set xs. rq_method rq = ''POST'' \<and>
      rq_path rq \<in> {''/wazuh-alerts-*/_search'', ''/wazuh-states-vulnerabilities-*/_search''} \<and>
      (\<exists>q n t. rq_json rq = Some (JObj q) \<and> fst ` set q \<subseteq> set QUERY_KEYS \<and>
        dget q ''size'' = Some (JInt n) \<and> 1 \<le> n \<and> n \<le> 100 \<and>
        dget q ''terminate_after'' = Some (JInt t) \<and> 1 \<le> t \<and> t \<le> 10000)) \<and>
    (\<forall>rq \<in> set ys. rq_method rq = ''GET'' \<and> rq_json rq = None \<or>
      rq_method rq = ''POST'' \<and> rq_path rq = ''/security/user/authenticate'')"
proof -
  have "reads_only (s_tenant_id s) w w'" using read_handler_reads [OF assms(1), of w kw] assms(2) by simp
  then obtain xs ys where sent: "ix_sent_for w' tid = ix_sent_for w tid @ xs" "api_sent_for w' tid = api_sent_for w tid @ ys"
    "tid \<noteq> s_tenant_id s \<longrightarrow> xs = [] \<and> ys = []" and ok: "list_all search_ok xs" "list_all api_read_ok ys"
    unfolding reads_defs by meson
  have "\<forall>rq \<in> set xs. rq_method rq = ''POST'' \<and>
      rq_path rq \<in> {''/wazuh-alerts-*/_search'', ''/wazuh-states-vulnerabilities-*/_search''} \<and>
      (\<exists>q n t. rq_json rq = Some (JObj q) \<and> fst ` set q \<subseteq> set QUERY_KEYS \<and>
        dget q ''size'' = Some (JInt n) \<and> 1 \<le> n \<and> n \<le> 100 \<and>
        dget q ''terminate_after'' = Some (JInt t) \<and> 1 \<le> t \<and> t \<le> 10000)"
    using ok(1) unfolding list_all_iff search_ok_def bounded_query_def by blast
  moreover have "\<forall>rq \<in> set ys. rq_method rq = ''GET'' \<and> rq_json rq = None \<or>
      rq_method rq = ''POST'' \<and> rq_path rq = ''/security/user/authenticate''"
    using ok(2) unfolding list_all_iff api_read_ok_def by blast
  ultimately show ?thesis using sent by blast
qed

section \<open>A server with one tenant\<close>

definition demo_read_env :: read_env where
  "demo_read_env = \<lparr>re_str = \<lambda>_. ''0.0'', re_int = \<lambda>v. case v of JInt i \<Rightarrow> Some i | _ \<Rightarrow> None,
     re_float = \<lambda>_. None\<rparr>"

definition demo_read_decoder :: read_decoder where
  "demo_read_decoder = \<lparr>rd_search_alerts = \<lambda>_. None, rd_get_alert = \<lambda>_. Some ''a1'', rd_by_agent = \<lambda>_. None, rd_by_mitre = \<lambda>_. None, rd_list_vulns = \<lambda>_. None,
     rd_search_vulns = \<lambda>_. None, rd_fim_history = \<lambda>_. None, rd_fim_changes = \<lambda>_. None, rd_list_agents = \<lambda>_. None,
     rd_get_agent = \<lambda>_. None, rd_subquery = \<lambda>_. None, rd_get_technique = \<lambda>_. None, rd_search_mitre = \<lambda>_. None,
     rd_hunt = \<lambda>_. None, rd_pivot = \<lambda>_. None, rd_cluster = \<lambda>_. None\<rparr>"

definition demo_tool_env :: tool_env where
  "demo_tool_env = \<lparr>te_api = demo_env, te_read = demo_read_env, te_decoder = demo_read_decoder,
     te_open_api = sp_open (yaml_get demo_registry) (yaml_secret_get demo_secrets),
     te_open_ix = ip_open (yaml_get demo_registry) (yaml_secret_get demo_secrets),
     te_net_api = \<lambda>_. [], te_net_ix = \<lambda>_. [Inr (200, Some (JObj []))]\<rparr>"

definition demo_app_world :: "unit app_world" where
  "demo_app_world = \<lparr>wd_events = [], wd_calls = [], wd_limited = [], wd_durations = [], wd_limiter = (),
     wd_app = \<lparr>ap_api = new_server_api_pool, ap_indexer = []\<rparr>\<rparr>"

lemma demo_search:
  "map rq_path (ix_sent_for (snd (get_alert_inner demo_tool_env demo_admin [] demo_app_world)) ''acme'') =
    [''/wazuh-alerts-*/_search'']"
  by code_simp

theorem read_tools_only_read_witness:
  "\<exists>rq q n. ix_sent_for (snd (get_alert_inner demo_tool_env demo_admin [] demo_app_world)) ''acme'' = [rq] \<and>
    rq_json rq = Some (JObj q) \<and> dget q ''size'' = Some (JInt n) \<and> n \<le> 100"
proof -
  let ?run = "get_alert_inner demo_tool_env demo_admin [] demo_app_world"
  have tool: "(''alerts.get_alert'', get_alert_inner demo_tool_env demo_admin) \<in> set (read_tools demo_tool_env demo_admin)"
    by (simp add: read_tools_def)
  have run: "?run = (fst ?run, snd ?run)" by simp
  have none: "ix_sent_for demo_app_world ''acme'' = []" by (simp add: ix_sent_for_def demo_app_world_def)
  obtain rq where rq: "ix_sent_for (snd ?run) ''acme'' = [rq]"
    using demo_search by (auto simp: map_eq_Cons_conv)
  show ?thesis
    using read_tools_only_read [OF tool run, of "''acme''"] none rq by auto
qed

end
