(* ===== verification/Paging.thy ===== *)
theory Paging imports ReadGuard begin

text \<open>
  Walking the pages of a search: what one page says of its hits, and what a caller gets who follows
  \<open>next_cursor\<close> until a page is not full.  The search engine enters as a function from requests to
  response bodies that obeys the documented rule of \<open>search_after\<close>.
\<close>

section \<open>One page\<close>

lemma hits_page_Inr:
  assumes "hits_page env from_hit n body = Inr p"
  shows "\<exists>block raw hits cursor. py_get_or body ''hits'' (JObj []) = Inr block \<and>
    py_get_or block ''hits'' (JList []) = Inr raw \<and> py_iter raw = Inr hits \<and>
    map_res from_hit hits = Inr (pg_items p) \<and> next_cursor hits = Inr cursor \<and>
    opt_list_field cursor = Inr (pg_next_cursor p) \<and> pg_truncated p = (int (length hits) = n)"
  using assms unfolding hits_page_def by (auto simp: bind_res_eq_Inr map_res_length dest: map_res_length [symmetric])

text \<open>
  A page is its hits.  When a page is returned, its items are the readings of the response's hits,
  one each and in their order, it is called truncated exactly when it is full, and the cursor of a
  page with hits is the sort key of the last one.
\<close>

theorem page_is_its_hits:
  assumes "hits_page env from_hit n (JObj [(''hits'', JObj [(''total'', t), (''hits'', JList hits)])]) = Inr p"
  shows "list_all2 (\<lambda>h x. from_hit h = Inr x) hits (pg_items p) \<and>
    (pg_truncated p \<longleftrightarrow> int (length hits) = n) \<and>
    (\<forall>kvs ks. hits \<noteq> [] \<and> last hits = JObj kvs \<and> dget kvs ''sort'' = Some (JList ks) \<longrightarrow>
      pg_next_cursor p = Some ks)"
  using hits_page_Inr [OF assms]
  by (auto simp: py_get_or_def py_iter_def map_res_Inr_iff next_cursor_def py_in_def py_index_def opt_list_field_def)

section \<open>A caller that follows the cursor\<close>

text \<open>One call against a search engine: the engine answers the request the call sends.\<close>

definition served :: "(request \<Rightarrow> json) \<Rightarrow> 'a indexer \<Rightarrow> indexer_client \<Rightarrow> exn + 'a" where
  "served engine m c =
     (let sent = ix_sent (snd (m (c\<lparr>ix_feed := []\<rparr>)))
      in fst (m (c\<lparr>ix_feed := (if length sent = length (ix_sent c) then [] else [Inr (200, Some (engine (last sent)))])\<rparr>)))"

fun walk :: "nat \<Rightarrow> (json list option \<Rightarrow> exn + 'a page) \<Rightarrow> json list option \<Rightarrow> exn + 'a list" where
  "walk 0 fetch cursor = Inl OtherE"
| "walk (Suc k) fetch cursor =
     bind_res (fetch cursor) (\<lambda>p.
       if pg_truncated p
       then (case pg_next_cursor p of
               None \<Rightarrow> Inr (pg_items p)
             | Some c \<Rightarrow> bind_res (walk k fetch (Some c)) (\<lambda>rest. Inr (pg_items p @ rest)))
       else Inr (pg_items p))"

lemma served_search:
  assumes "safe_name index"
  shows "served engine (filtered_search env index from_hit (Inr q) n) c =
    hits_page env from_hit n (engine \<lparr>rq_method = ''POST'', rq_path = ''/'' @ index @ ''/_search'', rq_params = [],
      rq_json = Some (JObj q), rq_content = None, rq_auth = basic_auth c\<rparr>)"
  using assms
  by (simp add: served_def filtered_search_def search_def ix_send_def basic_auth_def finish_response_def response_json_def Let_def)

section \<open>The rule of search_after\<close>

text \<open>Documents with their sort values, newest first; the hit of a document carries its sort value.\<close>

definition hit_of :: "int \<times> (string, json) dict \<Rightarrow> json" where
  "hit_of d = JObj ((''sort'', JList [JInt (fst d)]) # snd d)"

definition hits_answer :: "(int \<times> (string, json) dict) list \<Rightarrow> json" where
  "hits_answer ds = JObj [(''hits'', JObj [(''total'', JInt (int (length ds))), (''hits'', JList (map hit_of ds))])]"

definition after :: "json list option \<Rightarrow> (int \<times> (string, json) dict) list \<Rightarrow> (int \<times> (string, json) dict) list" where
  "after cursor docs = (case cursor of Some [JInt k] \<Rightarrow> filter (\<lambda>d. fst d < k) docs | _ \<Rightarrow> docs)"

text \<open>An engine obeys the rule for a query when it answers a request for it, newest first, with the first so
  many of its documents beyond the request's cursor, as many as the request's size.  A request with
  \<open>terminate_after\<close> gets that only when there are not more documents than it allows to visit.\<close>

definition cursor_of :: "query \<Rightarrow> json list option" where
  "cursor_of q = (case dget q ''search_after'' of Some (JList c) \<Rightarrow> Some c | _ \<Rightarrow> None)"

definition visits_all :: "query \<Rightarrow> (int \<times> (string, json) dict) list \<Rightarrow> bool" where
  "visits_all q docs \<longleftrightarrow>
     (case dget q ''terminate_after'' of None \<Rightarrow> True | Some (JInt t) \<Rightarrow> int (length docs) \<le> t | _ \<Rightarrow> False)"

definition newest_first :: json where
  "newest_first = JList [JObj [(''@timestamp'', JStr ''desc'')]]"

definition obeys_search_after ::
    "(request \<Rightarrow> json) \<Rightarrow> json option \<Rightarrow> (int \<times> (string, json) dict) list \<Rightarrow> bool" where
  "obeys_search_after engine m docs \<longleftrightarrow>
     (\<forall>rq q n. rq_json rq = Some (JObj q) \<and> dget q ''query'' = m \<and> dget q ''sort'' = Some newest_first \<and>
        dget q ''size'' = Some (JInt n) \<and> visits_all q docs \<longrightarrow>
        engine rq = hits_answer (take (nat n) (after (cursor_of q) docs)))"

text \<open>The query of a search, with a cursor and without.\<close>

lemma built_query:
  assumes "build_search_alerts_query tr lvl aid n None = Inr q"
  shows "build_search_alerts_query tr lvl aid n cursor = Inr (with_cursor cursor q)"
    and "dget q ''sort'' = Some newest_first" "dget q ''size'' = Some (JInt (clamp_size n))"
    and "dget q ''terminate_after'' = Some (JInt TERMINATE_AFTER)" "dget q ''search_after'' = None"
proof -
  have plain: "with_cursor None v = v" for v by (simp add: with_cursor_def)
  obtain must where must: "\<And>cursor. build_search_alerts_query tr lvl aid n cursor =
      Inr (must_query must n ''@timestamp'' DEFAULT_ALERT_FIELDS cursor)"
    using assms by (auto simp: build_search_alerts_query_def bind_res_eq_Inr split: if_splits option.splits)
  then have q: "q = query_body (JObj [(''must'', JList must)]) (clamp_size n) ''@timestamp'' DEFAULT_ALERT_FIELDS"
    using assms by (simp add: must_query_def plain)
  show "build_search_alerts_query tr lvl aid n cursor = Inr (with_cursor cursor q)" by (simp add: must must_query_def q)
  show "dget q ''sort'' = Some newest_first" "dget q ''size'' = Some (JInt (clamp_size n))"
    "dget q ''terminate_after'' = Some (JInt TERMINATE_AFTER)" "dget q ''search_after'' = None"
    by (simp_all add: q query_body_def newest_first_def)
qed

lemma after_cursor_of:
  assumes "dget q ''search_after'' = None"
  shows "after (cursor_of (with_cursor cursor q)) docs = after cursor docs"
  using assms by (auto simp: cursor_of_def with_cursor_def dget_dset after_def split: option.splits list.splits)

lemma hits_page_answer:
  assumes "\<And>d. d \<in> set ds \<Longrightarrow> from_hit (hit_of d) = Inr (g d)" "\<And>i. re_int env (JInt i) = Some i"
  shows "hits_page env from_hit n (hits_answer ds) =
    Inr \<lparr>pg_items = map g ds, pg_total = int (length ds),
         pg_next_cursor = (if ds = [] then None else Some [JInt (fst (last ds))]),
         pg_truncated = (int (length ds) = n)\<rparr>"
proof -
  have "map_res from_hit (map hit_of ds) = Inr (map g ds)"
    using assms(1) by (induction ds) auto
  moreover have "next_cursor (map hit_of ds) = Inr (if ds = [] then JNull else JList [JInt (fst (last ds))])"
    by (auto simp: next_cursor_def last_map py_in_def py_index_def hit_of_def [of "last ds"])
  ultimately show ?thesis
    by (simp add: hits_page_def hits_answer_def py_get_or_def py_iter_def hits_total_def py_int_def int_field_def
        assms(2) opt_list_field_def)
qed

lemma after_drop:
  fixes docs :: "(int \<times> 'b) list"
  assumes "sorted_wrt (\<lambda>a b. fst a > fst b) docs" "i < length docs"
  shows "filter (\<lambda>d. fst d < fst (docs ! i)) docs = drop (Suc i) docs"
proof -
  let ?k = "fst (docs ! i)"
  have docs: "docs = take i docs @ docs ! i # drop (Suc i) docs" using assms(2) by (rule id_take_nth_drop)
  have "sorted_wrt (\<lambda>a b. fst a > fst b) (take i docs @ docs ! i # drop (Suc i) docs)"
    using assms(1) docs by simp
  then have "\<forall>d \<in> set (take i docs). \<not> fst d < ?k" "\<forall>d \<in> set (drop (Suc i) docs). fst d < ?k"
    by (auto simp: sorted_wrt_append)
  then have "filter (\<lambda>d. fst d < ?k) (take i docs) = []"
    "filter (\<lambda>d. fst d < ?k) (drop (Suc i) docs) = drop (Suc i) docs"
    by (simp_all add: filter_empty_conv filter_id_conv)
  then have "filter (\<lambda>d. fst d < ?k) (take i docs @ docs ! i # drop (Suc i) docs) = drop (Suc i) docs"
    by simp
  then show ?thesis using docs by simp
qed

lemma walk_pages:
  assumes sorted: "sorted_wrt (\<lambda>a b. fst a > fst b) docs" and n: "1 \<le> n"
    and pages: "\<And>cursor. fetch cursor =
      (let ds = take (nat n) (after cursor docs)
       in Inr \<lparr>pg_items = map g ds, pg_total = int (length ds),
            pg_next_cursor = (if ds = [] then None else Some [JInt (fst (last ds))]),
            pg_truncated = (int (length ds) = n)\<rparr>)"
  shows "after cursor docs = drop k docs \<Longrightarrow> length docs - k < fuel \<Longrightarrow>
    walk fuel fetch cursor = Inr (map g (drop k docs))"
proof (induction fuel arbitrary: cursor k)
  case (Suc fuel)
  let ?ds = "take (nat n) (drop k docs)"
  show ?case
  proof (cases "int (length ?ds) = n")
    case False
    then have "length (drop k docs) < nat n" using n by auto
    then have "?ds = drop k docs" by simp
    then show ?thesis using False Suc.prems(1) by (simp add: pages [of cursor] Let_def)
  next
    case True
    let ?i = "k + nat n - 1"
    have len: "length ?ds = nat n" "nat n \<ge> 1" using True n by auto
    then have i: "?i < length docs" by auto
    have ne: "?ds \<noteq> []" using len by auto
    have last: "last ?ds = docs ! ?i"
      using len ne i by (simp add: last_conv_nth)
    have next_i: "Suc ?i = k + nat n" using len(2) by linarith
    have "after (Some [JInt (fst (last ?ds))]) docs = drop (k + nat n) docs"
      using after_drop [OF sorted i] unfolding last after_def next_i by simp
    moreover have "length docs - (k + nat n) < fuel" using Suc.prems(2) len(2) i by linarith
    ultimately have "walk fuel fetch (Some [JInt (fst (last ?ds))]) = Inr (map g (drop (k + nat n) docs))"
      by (rule Suc.IH)
    moreover have "map g ?ds @ map g (drop (k + nat n) docs) = map g (drop k docs)"
      by (metis append_take_drop_id drop_drop map_append add.commute)
    ultimately show ?thesis using True ne Suc.prems(1) by (simp add: pages [of cursor] Let_def)
  qed
qed simp

definition search_page ::
    "(request \<Rightarrow> json) \<Rightarrow> read_env \<Rightarrow> search_alerts_args \<Rightarrow> indexer_client \<Rightarrow> json list option \<Rightarrow> exn + alert page" where
  "search_page engine env a c cursor = served engine (search_alerts env (a\<lparr>sa_cursor := cursor\<rparr>)) c"

lemma search_page_pages:
  assumes built: "build_search_alerts_query (sa_time_range a) (sa_min_level a) (sa_agent_id a) (sa_size a) None = Inr q"
    and engine: "obeys_search_after engine (dget q ''query'') docs" "int (length docs) \<le> TERMINATE_AFTER"
    and size: "1 \<le> sa_size a" "sa_size a \<le> MAX_ALERT_SIZE"
    and read: "\<And>d. d \<in> set docs \<Longrightarrow> alert_from_hit env (hit_of d) = Inr (g d)" "\<And>i. re_int env (JInt i) = Some i"
  shows "search_page engine env a c cursor =
      (let ds = take (nat (sa_size a)) (after cursor docs)
       in Inr \<lparr>pg_items = map g ds, pg_total = int (length ds),
            pg_next_cursor = (if ds = [] then None else Some [JInt (fst (last ds))]),
            pg_truncated = (int (length ds) = sa_size a)\<rparr>)"
proof -
  have name: "safe_name ALERTS_INDEX" by code_simp
  note q = built_query [OF built]
  let ?q = "with_cursor cursor q" and ?ds = "take (nat (sa_size a)) (after cursor docs)"
  have sub: "set ?ds \<subseteq> set docs"
    by (rule subset_trans [OF set_take_subset]) (auto simp: after_def split: option.splits list.splits json.splits)
  have "clamp_size (sa_size a) = sa_size a" using size by (simp add: clamp_size_def)
  then have "dget ?q ''query'' = dget q ''query''" "dget ?q ''sort'' = Some newest_first"
    "dget ?q ''size'' = Some (JInt (sa_size a))" "visits_all ?q docs"
    using q(2-4) engine(2) by (simp_all add: dget_with_cursor visits_all_def)
  then have "engine rq = hits_answer ?ds" if "rq_json rq = Some (JObj ?q)" for rq
    using engine(1) that after_cursor_of [OF q(5), of cursor docs] unfolding obeys_search_after_def by metis
  then have "search_page engine env a c cursor = hits_page env (alert_from_hit env) (sa_size a) (hits_answer ?ds)"
    unfolding search_page_def search_alerts_def by (simp add: q(1) served_search [OF name])
  moreover have "alert_from_hit env (hit_of d) = Inr (g d)" if "d \<in> set ?ds" for d
    using read(1) sub that by blast
  ultimately show ?thesis
    unfolding Let_def using hits_page_answer [of ?ds "alert_from_hit env" g env "sa_size a"] read(2) by simp
qed

text \<open>
  C11: Following the cursor visits every alert once.  Over a search engine that obeys the rule of
  \<open>search_after\<close>, when the alerts in range have distinct timestamps and are not more than the ten thousand
  the request lets the engine visit, a caller of \<open>search_alerts\<close> that follows the cursor until a page is
  not full gets every alert exactly once, newest first; one more page than there are alerts is always enough.
\<close>

theorem paging_is_complete:
  assumes "build_search_alerts_query (sa_time_range a) (sa_min_level a) (sa_agent_id a) (sa_size a) None = Inr q"
    and "obeys_search_after engine (dget q ''query'') docs" "int (length docs) \<le> TERMINATE_AFTER"
    and "1 \<le> sa_size a" "sa_size a \<le> MAX_ALERT_SIZE"
    and "\<And>d. d \<in> set docs \<Longrightarrow> alert_from_hit env (hit_of d) = Inr (g d)" "\<And>i. re_int env (JInt i) = Some i"
    and "sorted_wrt (\<lambda>x y. fst x > fst y) docs"
  shows "walk (Suc (length docs)) (search_page engine env a c) None = Inr (map g docs)"
proof -
  note page = search_page_pages [OF assms(1-7)]
  have "after None docs = drop 0 docs" by (simp add: after_def)
  then show ?thesis
    using walk_pages [OF assms(8,4) page, where cursor = None and k = 0 and fuel = "Suc (length docs)"] by simp
qed

text \<open>
  Alerts with equal timestamps are lost.  The builders sort by the timestamp alone, so when a page
  ends between two alerts of the same timestamp, a caller that follows the cursor never sees the
  second one.
\<close>

theorem equal_timestamps_are_lost:
  assumes "build_search_alerts_query (sa_time_range a) (sa_min_level a) (sa_agent_id a) (sa_size a) None = Inr q"
    and "obeys_search_after engine (dget q ''query'') [(k, x), (k, y)]" "sa_size a = 1"
    and "\<And>d. d \<in> {(k, x), (k, y)} \<Longrightarrow> alert_from_hit env (hit_of d) = Inr (g d)" "\<And>i. re_int env (JInt i) = Some i"
  shows "walk (Suc (Suc fuel)) (search_page engine env a c) None = Inr [g (k, x)]"
proof -
  have page: "search_page engine env a c cursor =
      (let ds = take (nat (sa_size a)) (after cursor [(k, x), (k, y)])
       in Inr \<lparr>pg_items = map g ds, pg_total = int (length ds),
            pg_next_cursor = (if ds = [] then None else Some [JInt (fst (last ds))]),
            pg_truncated = (int (length ds) = sa_size a)\<rparr>)" for cursor
    by (rule search_page_pages [OF assms(1,2)]) (use assms(3-5) in \<open>auto simp: TERMINATE_AFTER_def MAX_ALERT_SIZE_def\<close>)
  show ?thesis using assms(3) by (simp add: page after_def Let_def)
qed

section \<open>An engine that obeys\<close>

definition demo_engine :: "(int \<times> (string, json) dict) list \<Rightarrow> request \<Rightarrow> json" where
  "demo_engine docs rq =
     (case rq_json rq of
        Some (JObj q) \<Rightarrow>
          (case dget q ''size'' of
             Some (JInt n) \<Rightarrow>
               hits_answer (take (nat n) (after (case dget q ''search_after'' of Some (JList c) \<Rightarrow> Some c | _ \<Rightarrow> None) docs))
           | _ \<Rightarrow> JNull)
      | _ \<Rightarrow> JNull)"

definition demo_alert :: "string \<Rightarrow> (string, json) dict" where
  "demo_alert i =
     [(''_id'', JStr i), (''_source'', JObj [(''timestamp'', JStr ''t''),
        (''rule'', JObj [(''id'', JStr ''5710''), (''level'', JInt 10), (''description'', JStr ''ssh'')])])]"

definition demo_page_args :: "int \<Rightarrow> search_alerts_args" where
  "demo_page_args n = \<lparr>sa_time_range = ''1h'', sa_min_level = None, sa_agent_id = None, sa_size = n, sa_cursor = None\<rparr>"

definition demo_read_alert :: "int \<times> (string, json) dict \<Rightarrow> alert" where
  "demo_read_alert d = projr (alert_from_hit demo_read_env (hit_of d))"

definition demo_query :: "int \<Rightarrow> query" where
  "demo_query n = must_query [range_since ''1h''] n ''@timestamp'' DEFAULT_ALERT_FIELDS None"

lemma demo_built:
  "build_search_alerts_query (sa_time_range (demo_page_args n)) (sa_min_level (demo_page_args n))
     (sa_agent_id (demo_page_args n)) (sa_size (demo_page_args n)) None = Inr (demo_query n)"
proof -
  have "validate_time_range ''1h'' = Inr ()"
    by (simp add: validate_time_range_def time_range_match_def time_range_body_def unit_seconds_def digits_def
        is_digit_def read_nat_def MAX_LOOKBACK_SECONDS_def)
  then show ?thesis by (simp add: build_search_alerts_query_def demo_page_args_def demo_query_def)
qed

lemma demo_obeys: "obeys_search_after (demo_engine docs) m docs"
  by (auto simp: obeys_search_after_def demo_engine_def cursor_of_def split: json.splits option.splits)

lemma demo_reads:
  "alert_from_hit demo_read_env (hit_of (k, demo_alert i)) = Inr (demo_read_alert (k, demo_alert i))"
  by (simp add: demo_read_alert_def alert_from_hit_def hit_of_def demo_alert_def sub_dict_def py_get_def py_get_or_def
      jget_def py_or_def agent_ref_validate_def rule_ref_from_source_def items_at_def text_at_def py_index_def
      py_int_def py_iter_def strs_field_def opt_str_field_def)

lemma demo_int: "re_int demo_read_env (JInt i) = Some i"
  by (simp add: demo_read_env_def)

theorem page_is_its_hits_witness:
  "\<exists>p. hits_page demo_read_env (alert_from_hit demo_read_env) 1
      (JObj [(''hits'', JObj [(''total'', JInt 1), (''hits'', JList [hit_of (7, demo_alert ''a'')])])]) = Inr p \<and>
    pg_truncated p \<and> pg_next_cursor p = Some [JInt 7]"
proof -
  have page: "hits_page demo_read_env (alert_from_hit demo_read_env) 1
      (JObj [(''hits'', JObj [(''total'', JInt 1), (''hits'', JList [hit_of (7, demo_alert ''a'')])])]) =
      Inr \<lparr>pg_items = [demo_read_alert (7, demo_alert ''a'')], pg_total = 1, pg_next_cursor = Some [JInt 7], pg_truncated = True\<rparr>"
    using hits_page_answer [of "[(7, demo_alert ''a'')]" "alert_from_hit demo_read_env" demo_read_alert demo_read_env 1]
      demo_reads demo_int by (simp add: hits_answer_def)
  show ?thesis using page_is_its_hits [OF page] page by (simp add: hit_of_def)
qed

definition demo_ix :: indexer_client where
  "demo_ix = new_indexer_client ''https://wazuh:9200'' ''admin'' ''pw'' True None []"

theorem paging_is_complete_witness:
  "walk 4 (search_page (demo_engine [(9, demo_alert ''c''), (8, demo_alert ''b''), (7, demo_alert ''a'')]) demo_read_env
      (demo_page_args 2) demo_ix) None =
    Inr [demo_read_alert (9, demo_alert ''c''), demo_read_alert (8, demo_alert ''b''), demo_read_alert (7, demo_alert ''a'')]"
proof -
  let ?docs = "[(9 :: int, demo_alert ''c''), (8, demo_alert ''b''), (7, demo_alert ''a'')]"
  have "walk (Suc (length ?docs)) (search_page (demo_engine ?docs) demo_read_env (demo_page_args 2) demo_ix) None =
      Inr (map demo_read_alert ?docs)"
    by (rule paging_is_complete [OF demo_built demo_obeys])
      (auto simp: demo_reads demo_int demo_page_args_def TERMINATE_AFTER_def MAX_ALERT_SIZE_def)
  then show ?thesis by (simp add: numeral_eq_Suc)
qed

theorem equal_timestamps_are_lost_witness:
  "walk 9 (search_page (demo_engine [(7, demo_alert ''b''), (7, demo_alert ''a'')]) demo_read_env (demo_page_args 1) demo_ix) None =
    Inr [demo_read_alert (7, demo_alert ''b'')]"
proof -
  let ?docs = "[(7, demo_alert ''b''), (7, demo_alert ''a'')]"
  have "walk (Suc (Suc 7)) (search_page (demo_engine ?docs) demo_read_env (demo_page_args 1) demo_ix) None =
      Inr [demo_read_alert (7, demo_alert ''b'')]"
    by (rule equal_timestamps_are_lost [OF demo_built demo_obeys]) (auto simp: demo_reads demo_int demo_page_args_def)
  then show ?thesis by (simp only: numeral_eq_Suc) simp
qed

end
