(* ===== verification/Resources.thy ===== *)
theory Resources imports ReadGuard begin

text \<open>
  The MCP resources (\<open>resources/\<close>) and their registration (\<open>server.py\<close>): reference data read from the
  Server API, audited inside the handler.  They run without the role check and the rate limit that
  guard the tools.
\<close>

section \<open>Indented JSON\<close>

definition line_break :: "nat \<Rightarrow> string" where
  "line_break lvl = CHR 0x0A # replicate (2 * lvl) (CHR '' '')"

text \<open>\<open>json.dumps(data, indent=2)\<close>.\<close>

fun dumps_indent :: "(rat \<Rightarrow> string) \<Rightarrow> nat \<Rightarrow> json \<Rightarrow> string" where
  "dumps_indent fr lvl (JList xs) =
     (if xs = [] then ''[]''
      else ''['' @ line_break (Suc lvl) @
           join_with ('','' @ line_break (Suc lvl)) (map (dumps_indent fr (Suc lvl)) xs) @ line_break lvl @ '']'')"
| "dumps_indent fr lvl (JObj kvs) =
     (if kvs = [] then ''{}''
      else ''{'' @ line_break (Suc lvl) @
           join_with ('','' @ line_break (Suc lvl))
             (map (\<lambda>(k, v). json_quote k @ '': '' @ dumps_indent fr (Suc lvl) v) kvs) @ line_break lvl @ ''}'')"
| "dumps_indent fr lvl v = dumps fr '', '' '': '' v"

definition make_json_content :: "read_env \<Rightarrow> json \<Rightarrow> int \<Rightarrow> result" where
  "make_json_content env data ttl_seconds =
     [(''contents'', JList [JObj [(''mimeType'', JStr ''application/json''),
                                (''text'', JStr (dumps_indent (re_str env) 0 data))]]),
      (''_meta'', JObj [(''ttl_seconds'', JInt ttl_seconds)])]"

record resource_template =
  rt_uri_template :: string
  rt_name :: string
  rt_description :: string
  rt_mime_type :: string
  rt_ttl_seconds :: int

definition TEMPLATES :: "resource_template list" where
  "TEMPLATES =
     [\<lparr>rt_uri_template = ''wazuh://rules/{id}'', rt_name = ''Wazuh rule'',
       rt_description = ''Individual Wazuh detection rule - definition, groups, description. Attach this instead '' @
         ''of calling a tool when the model just needs rule metadata.'',
       rt_mime_type = ''application/json'', rt_ttl_seconds = 300\<rparr>,
      \<lparr>rt_uri_template = ''wazuh://mitre/technique/{id}'', rt_name = ''MITRE ATT&CK technique'',
       rt_description = ''Individual MITRE ATT&CK technique (TXXXX or TXXXX.YYY). '' @
         ''Stable public corpus - cache aggressively.'',
       rt_mime_type = ''application/json'', rt_ttl_seconds = 86400\<rparr>,
      \<lparr>rt_uri_template = ''wazuh://agents/{id}/config'', rt_name = ''Agent configuration'',
       rt_description = ''Current agent configuration snapshot from the Server API.'',
       rt_mime_type = ''application/json'', rt_ttl_seconds = 300\<rparr>]"

section \<open>Reading a resource\<close>

text \<open>A handler's outcome and the audit events it emitted on the way.\<close>

type_synonym 'a audited = "(exn + 'a) \<times> emit_call list"

text \<open>The body of a read: the data picked from the response must be truthy; the success is audited
  before the item is taken out of it.\<close>

definition audited_read ::
    "api_env \<Rightarrow> read_env \<Rightarrow> session \<Rightarrow> string \<Rightarrow> args \<Rightarrow> string \<Rightarrow> string \<Rightarrow> (string, json) dict \<Rightarrow>
     (json \<Rightarrow> exn + json) \<Rightarrow> (json \<Rightarrow> exn + json) \<Rightarrow> int \<Rightarrow> api_client \<Rightarrow> result audited \<times> api_client" where
  "audited_read env renv s tool a what path params pick item ttl c =
     (case api_get env path params (wazuh_user s) c of
        (Inl (WazuhE we), c1) \<Rightarrow>
          ((Inl (WazuhE we), [tool_event s tool a ''error'' 0 0 (Some (we_code we))]), c1)
      | (Inl e, c1) \<Rightarrow> ((Inl e, []), c1)
      | (Inr body, c1) \<Rightarrow>
          (case pick body of
             Inl e \<Rightarrow> ((Inl e, []), c1)
           | Inr data \<Rightarrow>
               if \<not> truthy data
               then ((Inl (not_found what), [tool_event s tool a ''error'' 0 0 (Some ''not_found'')]), c1)
               else ((bind_res (item data) (\<lambda>d. Inr (make_json_content renv d ttl)),
                      [tool_event s tool a ''ok'' 1 0 None]), c1)))"

definition affected_data :: "json \<Rightarrow> exn + json" where
  "affected_data body = bind_res (sub_dict body ''data'') (\<lambda>data. py_get data ''affected_items'')"

definition rule_id_body :: "string \<Rightarrow> bool" where
  "rule_id_body s \<longleftrightarrow> digits s \<and> 1 \<le> length s \<and> length s \<le> 12"

definition rule_id_match :: "string \<Rightarrow> bool" where
  "rule_id_match s \<longleftrightarrow> re_dollar rule_id_body s"

definition read_rule :: "api_env \<Rightarrow> read_env \<Rightarrow> session \<Rightarrow> string \<Rightarrow> api_client \<Rightarrow> result audited \<times> api_client" where
  "read_rule env renv s rule_id c =
     (if \<not> rule_id_match rule_id then ((Inl ValueE, []), c)
      else audited_read env renv s ''resource.rules'' [(''rule_id'', JStr rule_id)] ''rule'' ''/rules''
             [(''rule_ids'', JStr rule_id)] affected_data index0 300 c)"

definition read_mitre_technique :: "api_env \<Rightarrow> read_env \<Rightarrow> session \<Rightarrow> string \<Rightarrow> api_client \<Rightarrow> result audited \<times> api_client" where
  "read_mitre_technique env renv s technique_id c =
     (if \<not> mitre_id_match technique_id then ((Inl ValueE, []), c)
      else audited_read env renv s ''resource.mitre'' [(''technique_id'', JStr technique_id)] ''technique''
             ''/mitre/techniques'' [(''q'', JStr (''external_id='' @ technique_id))] affected_data index0 86400 c)"

definition read_agent_config :: "api_env \<Rightarrow> read_env \<Rightarrow> session \<Rightarrow> string \<Rightarrow> api_client \<Rightarrow> result audited \<times> api_client" where
  "read_agent_config env renv s agent_id c =
     (if \<not> agent_id_match agent_id then ((Inl ValueE, []), c)
      else audited_read env renv s ''resource.agent_config'' [(''agent_id'', JStr agent_id)] ''agent config''
             (''/agents/'' @ agent_id @ ''/config/client/client'') [] (\<lambda>body. sub_dict body ''data'') Inr 300 c)"

text \<open>The registered handlers: acquire the tenant's client, read, and let the events reach the trail.\<close>

definition resource_handler ::
    "tool_env \<Rightarrow> session \<Rightarrow> (api_client \<Rightarrow> result audited \<times> api_client) \<Rightarrow> 'l app_world \<Rightarrow> (exn + result) \<times> 'l app_world" where
  "resource_handler env s m w =
     (case with_api env s (\<lambda>c. case m c of (out, c1) \<Rightarrow> (Inr out, c1)) w of
        (Inl e, w1) \<Rightarrow> (Inl e, w1)
      | (Inr (r, evs), w1) \<Rightarrow> (r, emit_events evs w1))"

definition resource_rule :: "tool_env \<Rightarrow> session \<Rightarrow> string \<Rightarrow> 'l app_world \<Rightarrow> (exn + result) \<times> 'l app_world" where
  "resource_rule env s rule_id = resource_handler env s (read_rule (te_api env) (te_read env) s rule_id)"

definition resource_mitre :: "tool_env \<Rightarrow> session \<Rightarrow> string \<Rightarrow> 'l app_world \<Rightarrow> (exn + result) \<times> 'l app_world" where
  "resource_mitre env s i = resource_handler env s (read_mitre_technique (te_api env) (te_read env) s i)"

definition resource_agent_config :: "tool_env \<Rightarrow> session \<Rightarrow> string \<Rightarrow> 'l app_world \<Rightarrow> (exn + result) \<times> 'l app_world" where
  "resource_agent_config env s i = resource_handler env s (read_agent_config (te_api env) (te_read env) s i)"

section \<open>What a read leaves behind\<close>

text \<open>The three reads.\<close>

definition resource_reads :: "api_env \<Rightarrow> read_env \<Rightarrow> session \<Rightarrow> (string \<times> string \<times> (string \<Rightarrow> api_client \<Rightarrow> result audited \<times> api_client)) list" where
  "resource_reads env renv s =
     [(''resource.rules'', ''rule_id'', read_rule env renv s),
      (''resource.mitre'', ''technique_id'', read_mitre_technique env renv s),
      (''resource.agent_config'', ''agent_id'', read_agent_config env renv s)]"

text \<open>The audit of one outcome.\<close>

definition read_audit :: "session \<Rightarrow> string \<Rightarrow> args \<Rightarrow> exn + result \<Rightarrow> emit_call list \<Rightarrow> bool" where
  "read_audit s tool a r evs \<longleftrightarrow>
     (case r of
        Inr x \<Rightarrow> evs = [tool_event s tool a ''ok'' 1 0 None]
      | Inl (WazuhE we) \<Rightarrow> evs = [tool_event s tool a ''error'' 0 0 (Some (we_code we))]
      | Inl e \<Rightarrow> evs = [] \<or> evs = [tool_event s tool a ''ok'' 1 0 None])"

lemma not_found_eq:
  "not_found what = WazuhE \<lparr>we_code = ''not_found'', we_message = what @ '' not found'', we_status = 404, we_scope = None\<rparr>"
  by (simp add: not_found_def)

lemma audited_read_audit:
  assumes "audited_read env renv s tool a what path params pick item ttl c = ((r, evs), c')"
    and "\<And>b we. pick b \<noteq> Inl (WazuhE we)" "\<And>d we. item d \<noteq> Inl (WazuhE we)"
  shows "read_audit s tool a r evs"
proof -
  obtain x c1 where g: "api_get env path params (wazuh_user s) c = (x, c1)" by fastforce
  show ?thesis
  proof (cases x)
    case (Inl e)
    then show ?thesis using assms(1) g
      by (cases e) (auto simp: audited_read_def read_audit_def)
  next
    case (Inr body)
    show ?thesis
    proof (cases "pick body")
      case (Inl e)
      then show ?thesis using assms(1) g Inr assms(2) [of body]
        by (cases e) (auto simp: audited_read_def read_audit_def)
    next
      case pd: (Inr data)
      show ?thesis
      proof (cases "truthy data")
        case False
        then show ?thesis using assms(1) g Inr pd by (auto simp: audited_read_def read_audit_def not_found_eq)
      next
        case True
        then show ?thesis using assms(1) g Inr pd assms(3) [of data]
          by (cases "item data") (auto simp: audited_read_def read_audit_def split: exn.splits)
      qed
    qed
  qed
qed

lemma picks_plain:
  "affected_data b \<noteq> Inl (WazuhE we)" "index0 d \<noteq> Inl (WazuhE we)" "sub_dict b k \<noteq> Inl (WazuhE we)"
  by (auto simp: affected_data_def index0_def sub_dict_def py_get_def bind_res_eq_Inl split: json.splits list.splits)

lemma audited_read_sends:
  "sends api_read_ok (\<lambda>c. case audited_read env renv s tool a what path params pick item ttl c of (out, c1) \<Rightarrow> (Inr out, c1))"
proof (rule sends_state [OF _ sends_get [of env path params "wazuh_user s"]])
  fix c
  show "snd (case audited_read env renv s tool a what path params pick item ttl c of (out, c1) \<Rightarrow> (Inr out, c1)) =
      snd (api_get env path params (wazuh_user s) c)"
    by (auto simp: audited_read_def split: sum.splits exn.splits prod.splits)
qed

lemma resource_reads_send:
  assumes "(tool, arg, m) \<in> set (resource_reads env renv s)"
  shows "sends api_read_ok (\<lambda>c. case m i c of (out, c1) \<Rightarrow> (Inr out, c1))"
proof -
  have "sends api_read_ok (\<lambda>c. case read_rule env renv s i c of (out, c1) \<Rightarrow> (Inr out, c1))"
    unfolding read_rule_def by (cases "rule_id_match i") (simp_all add: audited_read_sends)
  moreover have "sends api_read_ok (\<lambda>c. case read_mitre_technique env renv s i c of (out, c1) \<Rightarrow> (Inr out, c1))"
    unfolding read_mitre_technique_def by (cases "mitre_id_match i") (simp_all add: audited_read_sends)
  moreover have "sends api_read_ok (\<lambda>c. case read_agent_config env renv s i c of (out, c1) \<Rightarrow> (Inr out, c1))"
    unfolding read_agent_config_def by (cases "agent_id_match i") (simp_all add: audited_read_sends)
  ultimately show ?thesis using assms by (auto simp: resource_reads_def)
qed

lemma resource_handler_reads:
  assumes "sends api_read_ok (\<lambda>c. case m c of (out, c1) \<Rightarrow> (Inr out, c1))" "resource_handler env s m w = (r, w')"
  shows "reads_from (s_tenant_id s) w w'"
proof -
  obtain x w1 where a: "with_api env s (\<lambda>c. case m c of (out, c1) \<Rightarrow> (Inr out, c1)) w = (x, w1)" by fastforce
  have 1: "reads_from (s_tenant_id s) w w1"
    using with_api_reads [OF assms(1) a] by (simp add: reads_only_def)
  have "reads_from (s_tenant_id s) w1 w'"
  proof (cases x)
    case (Inl e)
    then show ?thesis using assms(2) a reads_only_refl by (auto simp: resource_handler_def reads_only_def)
  next
    case (Inr p)
    then have "w' = emit_events (snd p) w1" using assms(2) a by (cases p) (simp add: resource_handler_def)
    then show ?thesis
      using reads_only_refl [of "s_tenant_id s" w1]
      by (simp add: reads_defs emit_events_def ix_sent_for_def api_sent_for_def)
  qed
  with 1 show ?thesis by (rule reads_from_trans)
qed

text \<open>
  A resource read is audited as it ended.  A read that returns data leaves exactly one success
  event, a read that fails with a safe error exactly one error event with that code, both for the
  session, the resource and the argument of the read; only an identifier that does not match its
  pattern, a broken transport or a malformed response ends without an error event.
\<close>

theorem resource_read_audited:
  assumes "(tool, arg, m) \<in> set (resource_reads env renv s)" "m i c = ((r, evs), c')"
  shows "(\<forall>x. r = Inr x \<longrightarrow> evs = [tool_event s tool [(arg, JStr i)] ''ok'' 1 0 None]) \<and>
    (\<forall>we. r = Inl (WazuhE we) \<longrightarrow> evs = [tool_event s tool [(arg, JStr i)] ''error'' 0 0 (Some (we_code we))]) \<and>
    length evs \<le> 1"
proof -
  have "(m i c = ((Inl ValueE, []), c)) \<or> read_audit s tool [(arg, JStr i)] r evs"
    using assms unfolding resource_reads_def
    by (auto simp: read_rule_def read_mitre_technique_def read_agent_config_def picks_plain
        dest!: audited_read_audit split: if_splits)
  then show ?thesis using assms(2) by (auto simp: read_audit_def split: sum.splits exn.splits)
qed

definition demo_rule_answer :: json where
  "demo_rule_answer = JObj [(''data'', JObj [(''affected_items'', JList [JObj [(''id'', JStr ''5710'')]])])]"

theorem resource_read_audited_witness:
  "snd (fst (read_rule demo_env demo_read_env demo_admin ''5710'' (demo_client [Inr (200, Some demo_rule_answer)]))) =
    [tool_event demo_admin ''resource.rules'' [(''rule_id'', JStr ''5710'')] ''ok'' 1 0 None]"
proof -
  let ?run = "read_rule demo_env demo_read_env demo_admin ''5710'' (demo_client [Inr (200, Some demo_rule_answer)])"
  have mem: "(''resource.rules'', ''rule_id'', read_rule demo_env demo_read_env demo_admin) \<in>
      set (resource_reads demo_env demo_read_env demo_admin)"
    by (simp add: resource_reads_def)
  have "(case fst (fst ?run) of Inr _ \<Rightarrow> True | Inl _ \<Rightarrow> False)" by code_simp
  then obtain x where x: "fst (fst ?run) = Inr x" by (auto split: sum.splits)
  have run: "?run = ((fst (fst ?run), snd (fst ?run)), snd ?run)" by simp
  show ?thesis using resource_read_audited [OF mem run] x by blast
qed

end
