(* ===== verification/Prompts.thy ===== *)
theory Prompts imports Resources begin

text \<open>
  The MCP prompts (\<open>prompts/\<close>) and their registration (\<open>server.py\<close>): playbooks that run the read tools
  at invocation time and return one user message.  Like the resources they run without the role
  check and the rate limit.
\<close>

section \<open>Messages\<close>

definition make_user_message :: "string \<Rightarrow> json" where
  "make_user_message t =
     JObj [(''role'', JStr ''user''), (''content'', JObj [(''type'', JStr ''text''), (''text'', JStr t)])]"

definition lines :: "string list \<Rightarrow> string" where
  "lines xs = join_with [CHR 0x0A] xs"

definition dump_list :: "read_env \<Rightarrow> ('a \<Rightarrow> json) \<Rightarrow> 'a list \<Rightarrow> string" where
  "dump_list env dump xs = dumps_indent (re_str env) 0 (JList (map dump xs))"

text \<open>\<open>try: block = ... except WazuhError: pass\<close>.\<close>

definition soft :: "string \<Rightarrow> ('a \<Rightarrow> string) \<Rightarrow> exn + 'a \<Rightarrow> exn + string" where
  "soft fallback render r =
     (case r of
        Inr x \<Rightarrow> Inr (render x)
      | Inl (WazuhE we) \<Rightarrow> Inr fallback
      | Inl e \<Rightarrow> Inl e)"

text \<open>Arguments built in the handler: a violated constraint raises before the tool runs.\<close>

definition get_agent_checked :: "api_env \<Rightarrow> read_env \<Rightarrow> string \<Rightarrow> session \<Rightarrow> agent api" where
  "get_agent_checked env renv i s c = (if short_id i then get_agent env renv i s c else (Inl ValidationE, c))"

definition alerts_by_agent_checked :: "read_env \<Rightarrow> string \<Rightarrow> string \<Rightarrow> int \<Rightarrow> alert page indexer" where
  "alerts_by_agent_checked renv i tr n c =
     (if short_id i
      then alerts_by_agent renv \<lparr>ba_agent_id = i, ba_time_range = tr, ba_size = n, ba_cursor = None\<rparr> c
      else (Inl ValidationE, c))"

definition list_vulns_checked :: "read_env \<Rightarrow> string \<Rightarrow> int \<Rightarrow> vulnerability page indexer" where
  "list_vulns_checked renv i n c =
     (if short_id i
      then list_vulnerabilities_by_agent renv \<lparr>lv_agent_id = i, lv_min_severity = None, lv_size = n, lv_cursor = None\<rparr> c
      else (Inl ValidationE, c))"

definition get_alert_checked :: "read_env \<Rightarrow> string \<Rightarrow> alert indexer" where
  "get_alert_checked renv i c =
     (if 1 \<le> length i \<and> length i \<le> 128 then get_alert renv i c else (Inl ValidationE, c))"

section \<open>The playbooks\<close>

type_synonym clients = "indexer_client \<times> api_client"

definition triage_text :: "read_env \<Rightarrow> alert page \<Rightarrow> string" where
  "triage_text env p =
     lines [''Triaging the last hour (min rule level 10).'', [],
            ''TOTAL IN RANGE: '' @ show_int (pg_total p) @ '' (showing '' @ show_nat (length (pg_items p)) @ '').'', [],
            ''ALERTS:'', dump_list env alert_dump (pg_items p), [],
            ''Summarise: (a) how many unique rules fired, (b) top agents by count, (c) any ATT&CK clustering, '' @
            ''(d) which alerts warrant a deeper investigation. Use get_alert or alerts_by_agent for any you flag.'']"

definition triage_last_hour :: "read_env \<Rightarrow> session \<Rightarrow> rat \<Rightarrow> indexer_client \<Rightarrow> json audited \<times> indexer_client" where
  "triage_last_hour env s elapsed c =
     (case search_alerts env \<lparr>sa_time_range = ''1h'', sa_min_level = Some 10, sa_agent_id = None, sa_size = 25,
                             sa_cursor = None\<rparr> c of
        (Inl (WazuhE we), c1) \<Rightarrow>
          ((Inr (make_user_message (''Triage fetch failed ('' @ we_code we @ ''). Retry or check upstream.'')), []), c1)
      | (Inl e, c1) \<Rightarrow> ((Inl e, []), c1)
      | (Inr p, c1) \<Rightarrow>
          ((Inr (make_user_message (triage_text env p)),
            [tool_event s ''prompt.triage_last_hour'' [] ''ok'' (length (pg_items p)) \<lfloor>elapsed * 1000\<rfloor> None]), c1))"

definition investigate_text :: "read_env \<Rightarrow> string \<Rightarrow> alert \<Rightarrow> string \<Rightarrow> string \<Rightarrow> string" where
  "investigate_text env alert_id a agent_block neighbors_block =
     lines [''Investigating Wazuh alert '' @ alert_id @ ''.'', [], ''ALERT:'',
            dumps_indent (re_str env) 0 (alert_dump a), [], ''AGENT:'', agent_block, [],
            ''NEIGHBORS (last hour, same agent):'', neighbors_block, [],
            ''Based on the above: summarise the alert, note any notable neighbor patterns, and recommend the next '' @
            ''SOC actions. Use the other wazuh-mcp tools if you need more context.'']"

text \<open>\<open>if agent_id:\<close> an absent id and an empty one are the same.\<close>

definition investigate_agent ::
    "api_env \<Rightarrow> read_env \<Rightarrow> session \<Rightarrow> string option \<Rightarrow> clients \<Rightarrow> (exn + string \<times> string) \<times> clients" where
  "investigate_agent env renv s agent_id cs =
     (case agent_id of
        Some (x # xs) \<Rightarrow>
          (case get_agent_checked env renv (x # xs) s (snd cs) of (r, api1) \<Rightarrow>
             (case soft ''(agent lookup unavailable)'' (\<lambda>g. dumps_indent (re_str renv) 0 (agent_dump g)) r of
                Inl e \<Rightarrow> (Inl e, (fst cs, api1))
              | Inr ab \<Rightarrow>
                  (case alerts_by_agent_checked renv (x # xs) ''1h'' 10 (fst cs) of (r2, ix1) \<Rightarrow>
                     (case soft ''(no neighbors)'' (\<lambda>p. dump_list renv alert_dump (pg_items p)) r2 of
                        Inl e \<Rightarrow> (Inl e, (ix1, api1))
                      | Inr nb \<Rightarrow> (Inr (ab, nb), (ix1, api1))))))
      | _ \<Rightarrow> (Inr (''(agent lookup unavailable)'', ''(no neighbors)''), cs))"

definition investigate_event :: "session \<Rightarrow> string \<Rightarrow> nat \<Rightarrow> int \<Rightarrow> emit_call" where
  "investigate_event s alert_id n dur =
     tool_event s ''prompt.investigate_alert'' [(''alert_id'', JStr alert_id)] ''ok'' n dur None"

definition investigate_alert ::
    "api_env \<Rightarrow> read_env \<Rightarrow> session \<Rightarrow> rat \<Rightarrow> string \<Rightarrow> clients \<Rightarrow> json audited \<times> clients" where
  "investigate_alert env renv s elapsed alert_id cs =
     (let first_event = investigate_event s alert_id 0 0
      in case get_alert_checked renv alert_id (fst cs) of
           (Inl e, ix1) \<Rightarrow>
             (if (case e of WazuhE we \<Rightarrow> we_code we = ''not_found'' | _ \<Rightarrow> False)
              then ((Inr (make_user_message (''Alert '' @ py_repr alert_id @ '' not found. Ask the user for a valid alert id.'')),
                     [first_event]), (ix1, snd cs))
              else ((Inl e, [first_event]), (ix1, snd cs)))
         | (Inr a, ix1) \<Rightarrow>
             (case investigate_agent env renv s (aref_id (al_agent a)) (ix1, snd cs) of
                (Inl e, cs1) \<Rightarrow> ((Inl e, [first_event]), cs1)
              | (Inr (ab, nb), cs1) \<Rightarrow>
                  ((Inr (make_user_message (investigate_text renv alert_id a ab nb)),
                    [first_event, investigate_event s alert_id 1 \<lfloor>elapsed * 1000\<rfloor>]), cs1)))"

definition posture_text :: "string \<Rightarrow> string \<Rightarrow> string \<Rightarrow> string \<Rightarrow> string" where
  "posture_text agent_id agent_block alerts_block vuln_block =
     lines [''Agent posture for '' @ agent_id @ ''.'', [], ''AGENT:'', agent_block, [],
            ''LAST-24H ALERTS:'', alerts_block, [], ''VULNERABILITIES:'', vuln_block, [],
            ''Summarise the security posture: recent alert patterns, unpatched critical vulns, and any immediate '' @
            ''follow-ups the SOC should take.'']"

definition counted_block :: "string \<Rightarrow> read_env \<Rightarrow> ('a \<Rightarrow> json) \<Rightarrow> 'a page \<Rightarrow> string" where
  "counted_block name env dump p =
     lines [name @ ''='' @ show_int (pg_total p) @ '', showing='' @ show_nat (length (pg_items p)) @ '':'',
            dump_list env dump (pg_items p)]"

definition agent_posture ::
    "api_env \<Rightarrow> read_env \<Rightarrow> session \<Rightarrow> rat \<Rightarrow> string \<Rightarrow> clients \<Rightarrow> json audited \<times> clients" where
  "agent_posture env renv s elapsed agent_id cs =
     (case get_agent_checked env renv agent_id s (snd cs) of
        (Inl e, api1) \<Rightarrow>
          (if (case e of WazuhE we \<Rightarrow> we_code we = ''not_found'' | _ \<Rightarrow> False)
           then ((Inr (make_user_message (''Agent '' @ py_repr agent_id @ '' not found. Ask the user for a valid agent id.'')), []),
                 (fst cs, api1))
           else ((Inl e, []), (fst cs, api1)))
      | (Inr g, api1) \<Rightarrow>
          (case alerts_by_agent_checked renv agent_id ''24h'' 25 (fst cs) of (r, ix1) \<Rightarrow>
             (case soft ''(alerts unavailable)'' (counted_block ''total_in_range'' renv alert_dump) r of
                Inl e \<Rightarrow> ((Inl e, []), (ix1, api1))
              | Inr ab \<Rightarrow>
                  (case list_vulns_checked renv agent_id 25 ix1 of (r2, ix2) \<Rightarrow>
                     (case soft ''(vulns unavailable)'' (counted_block ''total'' renv vulnerability_dump) r2 of
                        Inl e \<Rightarrow> ((Inl e, []), (ix2, api1))
                      | Inr vb \<Rightarrow>
                          ((Inr (make_user_message (posture_text agent_id (dumps_indent (re_str renv) 0 (agent_dump g)) ab vb)),
                            [tool_event s ''prompt.agent_posture'' [(''agent_id'', JStr agent_id)] ''ok'' 1
                               \<lfloor>elapsed * 1000\<rfloor> None]), (ix2, api1)))))))"

section \<open>Registration\<close>

text \<open>Acquire the indexer client, then the Server API client, then run the playbook on both.\<close>

definition with_clients ::
    "tool_env \<Rightarrow> session \<Rightarrow> (clients \<Rightarrow> 'a audited \<times> clients) \<Rightarrow> 'l app_world \<Rightarrow> (exn + 'a) \<times> 'l app_world" where
  "with_clients env s m w =
     (case ip_acquire (te_open_ix env) (te_net_ix env) (s_tenant_id s) (ap_indexer (wd_app w)) of
        (Inl e, p) \<Rightarrow> (Inl e, w\<lparr>wd_app := (wd_app w)\<lparr>ap_indexer := p\<rparr>\<rparr>)
      | (Inr ix, p) \<Rightarrow>
          (case sp_acquire (te_open_api env) (te_net_api env) (s_tenant_id s) (ap_api (wd_app w)) of
             (Inl e, q) \<Rightarrow> (Inl e, w\<lparr>wd_app := \<lparr>ap_api = q, ap_indexer = p\<rparr>\<rparr>)
           | (Inr ac, q) \<Rightarrow>
               (case m (ix, ac) of ((r, evs), (ix1, ac1)) \<Rightarrow>
                  (r, emit_events evs
                    (w\<lparr>wd_app := \<lparr>ap_api = sp_store (s_tenant_id s) ac1 q,
                                  ap_indexer = ip_store (s_tenant_id s) ix1 p\<rparr>\<rparr>)))))"

definition prompt_triage_last_hour :: "tool_env \<Rightarrow> session \<Rightarrow> rat \<Rightarrow> 'l app_world \<Rightarrow> (exn + json) \<times> 'l app_world" where
  "prompt_triage_last_hour env s elapsed w =
     (case with_indexer env s (\<lambda>c. case triage_last_hour (te_read env) s elapsed c of (out, c1) \<Rightarrow> (Inr out, c1)) w of
        (Inl e, w1) \<Rightarrow> (Inl e, w1)
      | (Inr (r, evs), w1) \<Rightarrow> (r, emit_events evs w1))"

definition prompt_investigate_alert ::
    "tool_env \<Rightarrow> session \<Rightarrow> rat \<Rightarrow> string \<Rightarrow> 'l app_world \<Rightarrow> (exn + json) \<times> 'l app_world" where
  "prompt_investigate_alert env s elapsed alert_id =
     with_clients env s (investigate_alert (te_api env) (te_read env) s elapsed alert_id)"

definition prompt_agent_posture ::
    "tool_env \<Rightarrow> session \<Rightarrow> rat \<Rightarrow> string \<Rightarrow> 'l app_world \<Rightarrow> (exn + json) \<times> 'l app_world" where
  "prompt_agent_posture env s elapsed agent_id =
     with_clients env s (agent_posture (te_api env) (te_read env) s elapsed agent_id)"

section \<open>What a playbook sends\<close>

definition both_read :: "clients \<Rightarrow> clients \<Rightarrow> bool" where
  "both_read cs cs' \<longleftrightarrow>
     (\<exists>xs. ix_sent (fst cs') = ix_sent (fst cs) @ xs \<and> list_all search_ok xs) \<and>
     (\<exists>ys. ac_sent (snd cs') = ac_sent (snd cs) @ ys \<and> list_all api_read_ok ys) \<and>
     indexer_ident (fst cs') = indexer_ident (fst cs) \<and> api_ident (snd cs') = api_ident (snd cs)"

lemma both_read_refl: "both_read cs cs"
  by (simp add: both_read_def)

lemma both_read_trans: "both_read cs cs1 \<Longrightarrow> both_read cs1 cs2 \<Longrightarrow> both_read cs cs2"
  unfolding both_read_def by (metis append.assoc list_all_append)

lemma ix_step: "ix_sends m \<Longrightarrow> m (fst cs) = (r, i) \<Longrightarrow> both_read cs (i, snd cs)"
  unfolding ix_sends_def both_read_def by (metis append_Nil2 fst_conv list.pred_inject(1) snd_conv)

lemma api_step: "sends api_read_ok m \<Longrightarrow> m (snd cs) = (r, a) \<Longrightarrow> both_read cs (fst cs, a)"
  unfolding sends_def both_read_def by (metis append_Nil2 fst_conv list.pred_inject(1) snd_conv)

lemma ix_sends_if: "ix_sends f \<Longrightarrow> ix_sends g \<Longrightarrow> ix_sends (\<lambda>c. if b then f c else g c)"
  by (cases b) auto

lemma checked_tools_send:
  "sends api_read_ok (get_agent_checked env renv i s)" "ix_sends (alerts_by_agent_checked renv i tr n)"
  "ix_sends (list_vulns_checked renv i n)" "ix_sends (get_alert_checked renv i)"
proof -
  show "sends api_read_ok (get_agent_checked env renv i s)"
    unfolding get_agent_checked_def by (intro sends_if api_tools_send sends_pure)
  show "ix_sends (alerts_by_agent_checked renv i tr n)" "ix_sends (list_vulns_checked renv i n)"
    "ix_sends (get_alert_checked renv i)"
    unfolding alerts_by_agent_checked_def list_vulns_checked_def get_alert_checked_def
    by (intro ix_sends_if ix_tools_send ix_sends_pure)+
qed

lemma investigate_agent_reads:
  assumes "investigate_agent env renv s i cs = (r, cs')"
  shows "both_read cs cs'"
proof (cases "\<exists>x xs. i = Some (x # xs)")
  case False
  then show ?thesis using assms both_read_refl
    by (auto simp: investigate_agent_def split: option.splits list.splits)
next
  case True
  then obtain x xs where i: "i = Some (x # xs)" by blast
  obtain r1 api1 where a: "get_agent_checked env renv (x # xs) s (snd cs) = (r1, api1)" by fastforce
  obtain r2 ix1 where n: "alerts_by_agent_checked renv (x # xs) ''1h'' 10 (fst cs) = (r2, ix1)" by fastforce
  have 1: "both_read cs (fst cs, api1)" by (rule api_step [OF checked_tools_send(1) a])
  have "both_read (fst cs, api1) (ix1, api1)"
    using ix_step [OF checked_tools_send(2), of renv "x # xs" "''1h''" 10 "(fst cs, api1)"] n by simp
  with 1 have 2: "both_read cs (ix1, api1)" by (rule both_read_trans)
  have "cs' = (fst cs, api1) \<or> cs' = (ix1, api1)"
    using assms a n by (auto simp: investigate_agent_def i split: sum.splits)
  then show ?thesis using 1 2 by blast
qed

lemma investigate_reads:
  assumes "investigate_alert env renv s elapsed i cs = (out, cs')"
  shows "both_read cs cs'"
proof -
  obtain x ix1 where g: "get_alert_checked renv i (fst cs) = (x, ix1)" by fastforce
  have 1: "both_read cs (ix1, snd cs)" by (rule ix_step [OF checked_tools_send(4) g])
  show ?thesis
  proof (cases x)
    case (Inl e)
    then have "cs' = (ix1, snd cs)" using assms g by (auto simp: investigate_alert_def Let_def split: if_splits)
    then show ?thesis using 1 by simp
  next
    case (Inr a)
    obtain y cs1 where b: "investigate_agent env renv s (aref_id (al_agent a)) (ix1, snd cs) = (y, cs1)"
      by (meson surj_pair)
    then have "cs' = cs1" using assms g Inr
      by (cases y) (auto simp: investigate_alert_def Let_def)
    then show ?thesis using both_read_trans [OF 1 investigate_agent_reads [OF b]] by simp
  qed
qed

lemma posture_reads:
  assumes "agent_posture env renv s elapsed i cs = (out, cs')"
  shows "both_read cs cs'"
proof -
  obtain x api1 where g: "get_agent_checked env renv i s (snd cs) = (x, api1)" by fastforce
  obtain r1 ix1 where a: "alerts_by_agent_checked renv i ''24h'' 25 (fst cs) = (r1, ix1)" by fastforce
  obtain r2 ix2 where v: "list_vulns_checked renv i 25 ix1 = (r2, ix2)" by fastforce
  have 1: "both_read cs (fst cs, api1)" by (rule api_step [OF checked_tools_send(1) g])
  have "both_read (fst cs, api1) (ix1, api1)"
    using ix_step [OF checked_tools_send(2), of renv i "''24h''" 25 "(fst cs, api1)"] a by simp
  with 1 have 2: "both_read cs (ix1, api1)" by (rule both_read_trans)
  have "both_read (ix1, api1) (ix2, api1)"
    using ix_step [OF checked_tools_send(3), of renv i 25 "(ix1, api1)"] v by simp
  with 2 have 3: "both_read cs (ix2, api1)" by (rule both_read_trans)
  have "cs' = (fst cs, api1) \<or> cs' = (ix1, api1) \<or> cs' = (ix2, api1)"
    using assms g a v by (auto simp: agent_posture_def split: sum.splits if_splits)
  then show ?thesis using 1 2 3 by blast
qed

lemma triage_sends: "ix_sends (\<lambda>c. case triage_last_hour env s elapsed c of (out, c1) \<Rightarrow> (Inr out, c1))"
proof (rule ix_sends_state [OF _ ix_tools_send(1)])
  let ?a = "\<lparr>sa_time_range = ''1h'', sa_min_level = Some 10, sa_agent_id = None, sa_size = 25, sa_cursor = None\<rparr>"
  fix c
  show "snd (case triage_last_hour env s elapsed c of (out, c1) \<Rightarrow> (Inr out, c1)) = snd (search_alerts env ?a c)"
    by (cases "search_alerts env ?a c"; cases "fst (search_alerts env ?a c)")
      (auto simp: triage_last_hour_def split: exn.splits prod.splits)
qed

lemma with_clients_reads:
  fixes w w' :: "'l app_world"
  assumes m: "\<And>cs out cs'. m cs = (out, cs') \<Longrightarrow> both_read cs cs'" and run: "with_clients env s m w = (r, w')"
  shows "reads_from (s_tenant_id s) w w'"
proof -
  let ?own = "s_tenant_id s"
  obtain x p where i: "ip_acquire (te_open_ix env) (te_net_ix env) ?own (ap_indexer (wd_app w)) = (x, p)"
    by fastforce
  obtain y q where a: "sp_acquire (te_open_api env) (te_net_api env) ?own (ap_api (wd_app w)) = (y, q)"
    by fastforce
  note ix = ip_acquire_sent [OF i] and ap = sp_acquire_sent [OF a]
  have keep: "reads_from ?own w v"
    if "wd_calls v = wd_calls w" "wd_limiter v = wd_limiter w" "wd_durations v = wd_durations w"
      "ap_indexer (wd_app v) = ap_indexer (wd_app w) \<or> ap_indexer (wd_app v) = p"
      "ap_api (wd_app v) = ap_api (wd_app w) \<or> ap_api (wd_app v) = q" for v :: "'l app_world"
  proof -
    have "ix_sent_for v tid = ix_sent_for w tid" "api_sent_for v tid = api_sent_for w tid" for tid
      using that(4,5) ix ap by (auto simp: ix_sent_for_def api_sent_for_def)
    then show ?thesis using that(1-3) by (simp add: reads_from_def)
  qed
  show ?thesis
  proof (cases "\<exists>c d. x = Inr c \<and> y = Inr d")
    case False
    then show ?thesis using run i a by (cases x; cases y) (auto simp: with_clients_def intro!: keep)
  next
    case True
    then obtain c d where xy: "x = Inr c" "y = Inr d" by blast
    obtain o1 evs c1 d1 where out: "m (c, d) = ((o1, evs), (c1, d1))" by (metis prod.collapse)
    have w': "w' = emit_events evs (w\<lparr>wd_app := \<lparr>ap_api = sp_store ?own d1 q, ap_indexer = ip_store ?own c1 p\<rparr>\<rparr>)"
      using run i a xy out by (simp add: with_clients_def)
    obtain xs ys where sent: "ix_sent c1 = ix_sent c @ xs" "list_all search_ok xs"
      "ac_sent d1 = ac_sent d @ ys" "list_all api_read_ok ys"
      using m [OF out] unfolding both_read_def by auto
    have "dget p ?own = Some c" "dget (sp_clients q) ?own = Some d" using ix ap xy by auto
    then have own: "ix_sent_for w ?own = ix_sent c" "api_sent_for w ?own = ac_sent d"
      using conjunct1 [OF ix, rule_format, of ?own] conjunct1 [OF ap, rule_format, of ?own]
      by (simp_all add: ix_sent_for_def api_sent_for_def)
    have "ix_sent_for w' tid = (if tid = ?own then ix_sent c1 else ix_sent_for w tid)" for tid
      using conjunct1 [OF ix, rule_format, of tid]
      by (simp add: w' ix_sent_for_def ip_store_def dget_dset emit_events_def)
    moreover have "api_sent_for w' tid = (if tid = ?own then ac_sent d1 else api_sent_for w tid)" for tid
      using conjunct1 [OF ap, rule_format, of tid]
      by (simp add: w' api_sent_for_def sp_store_def dget_dset emit_events_def)
    ultimately show ?thesis using sent own by (simp add: reads_from_def) (simp add: w' emit_events_def)
  qed
qed

lemma triage_reads:
  assumes "prompt_triage_last_hour env s elapsed w = (r, w')"
  shows "reads_from (s_tenant_id s) w w'"
proof -
  let ?m = "\<lambda>c. case triage_last_hour (te_read env) s elapsed c of (out, c1) \<Rightarrow> (Inr out, c1)"
  obtain x w1 where a: "with_indexer env s ?m w = (x, w1)" by fastforce
  have "reads_from (s_tenant_id s) w w1"
    using with_indexer_reads [OF triage_sends a] by (simp add: reads_only_def)
  moreover have "wd_app w' = wd_app w1 \<and> wd_calls w' = wd_calls w1 \<and> wd_durations w' = wd_durations w1 \<and>
    wd_limiter w' = wd_limiter w1"
    using assms a by (cases x) (auto simp: prompt_triage_last_hour_def emit_events_def)
  ultimately show ?thesis by (simp add: reads_from_def ix_sent_for_def api_sent_for_def)
qed

text \<open>The context a client may ask for without calling a tool.\<close>

datatype context_request =
    RuleResource string
  | MitreResource string
  | AgentConfigResource string
  | TriagePrompt
  | InvestigatePrompt string
  | PosturePrompt string

fun serve_context :: "tool_env \<Rightarrow> session \<Rightarrow> rat \<Rightarrow> context_request \<Rightarrow> 'l app_world \<Rightarrow> 'l app_world" where
  "serve_context env s elapsed (RuleResource i) w = snd (resource_rule env s i w)"
| "serve_context env s elapsed (MitreResource i) w = snd (resource_mitre env s i w)"
| "serve_context env s elapsed (AgentConfigResource i) w = snd (resource_agent_config env s i w)"
| "serve_context env s elapsed TriagePrompt w = snd (prompt_triage_last_hour env s elapsed w)"
| "serve_context env s elapsed (InvestigatePrompt i) w = snd (prompt_investigate_alert env s elapsed i w)"
| "serve_context env s elapsed (PosturePrompt i) w = snd (prompt_agent_posture env s elapsed i w)"

lemma serve_context_reads: "reads_from (s_tenant_id s) w (serve_context env s elapsed req w)"
proof -
  have mem: "(''resource.rules'', ''rule_id'', read_rule (te_api env) (te_read env) s) \<in> set (resource_reads (te_api env) (te_read env) s)"
    "(''resource.mitre'', ''technique_id'', read_mitre_technique (te_api env) (te_read env) s) \<in> set (resource_reads (te_api env) (te_read env) s)"
    "(''resource.agent_config'', ''agent_id'', read_agent_config (te_api env) (te_read env) s) \<in> set (resource_reads (te_api env) (te_read env) s)"
    by (simp_all add: resource_reads_def)
  note res = resource_handler_reads [OF resource_reads_send, OF _ prod.collapse [symmetric]]
  show ?thesis
  proof (cases req)
    case (RuleResource i)
    then show ?thesis using res [OF mem(1)] by (simp add: resource_rule_def)
  next
    case (MitreResource i)
    then show ?thesis using res [OF mem(2)] by (simp add: resource_mitre_def)
  next
    case (AgentConfigResource i)
    then show ?thesis using res [OF mem(3)] by (simp add: resource_agent_config_def)
  next
    case TriagePrompt
    then show ?thesis using triage_reads [OF prod.collapse [symmetric]] by simp
  next
    case (InvestigatePrompt i)
    then show ?thesis
      using with_clients_reads [OF investigate_reads prod.collapse [symmetric]] by (simp add: prompt_investigate_alert_def)
  next
    case (PosturePrompt i)
    then show ?thesis
      using with_clients_reads [OF posture_reads prod.collapse [symmetric]] by (simp add: prompt_agent_posture_def)
  qed
qed

text \<open>
  Resources and prompts read in the tenant and spend nothing.  Any sequence of resource reads and
  prompts of a session sends requests through its tenant's clients only, nothing but bounded searches
  and \<open>GET\<close> requests (beside the authentication call), and neither takes a token of the rate limiter
  nor counts as a tool call, however long it is.
\<close>

theorem context_reads_unmetered:
  "\<exists>xs ys. let w' = foldl (\<lambda>w (elapsed, req). serve_context env s elapsed req w) w reqs in
    wd_limiter w' = wd_limiter w \<and> wd_calls w' = wd_calls w \<and> wd_durations w' = wd_durations w \<and>
    ix_sent_for w' tid = ix_sent_for w tid @ xs \<and> api_sent_for w' tid = api_sent_for w tid @ ys \<and>
    list_all search_ok xs \<and> list_all api_read_ok ys \<and> (tid = s_tenant_id s \<or> xs = [] \<and> ys = [])"
proof -
  have "reads_from (s_tenant_id s) w (foldl (\<lambda>w (elapsed, req). serve_context env s elapsed req w) w reqs)"
  proof (induction reqs arbitrary: w)
    case Nil
    show ?case using reads_only_refl by (auto simp: reads_only_def)
  next
    case (Cons q reqs)
    obtain el req where "q = (el, req)" by fastforce
    then show ?case using reads_from_trans [OF serve_context_reads Cons.IH] by simp
  qed
  then show ?thesis unfolding reads_from_def Let_def by meson
qed

text \<open>
  A failed investigation looks successful.  When the alert of an investigation cannot be fetched,
  for whatever reason, the prompt leaves exactly one audit event, which records a success.
\<close>

theorem failed_investigation_audited_ok:
  assumes "get_alert_checked renv i (fst cs) = (Inl e, ix1)"
  shows "snd (fst (investigate_alert env renv s elapsed i cs)) =
    [tool_event s ''prompt.investigate_alert'' [(''alert_id'', JStr i)] ''ok'' 0 0 None]"
  using assms by (simp add: investigate_alert_def Let_def investigate_event_def)

definition demo_indexer :: "answer list \<Rightarrow> indexer_client" where
  "demo_indexer feed = new_indexer_client ''https://wazuh:9200'' ''admin'' ''pw'' True None feed"

theorem failed_investigation_audited_ok_witness:
  "snd (fst (investigate_alert demo_env demo_read_env demo_admin 1 ''a1'' (demo_indexer [Inr (503, None)], demo_client []))) =
    [tool_event demo_admin ''prompt.investigate_alert'' [(''alert_id'', JStr ''a1'')] ''ok'' 0 0 None]"
proof -
  let ?cs = "(demo_indexer [Inr (503, None)], demo_client [])"
  have "\<exists>e ix1. get_alert_checked demo_read_env ''a1'' (fst ?cs) = (Inl e, ix1)"
    by (simp add: get_alert_checked_def get_alert_def build_get_alert_query_def search_def safe_name_def
        ALERTS_INDEX_def startswith_def demo_indexer_def new_indexer_client_def ix_send_def finish_response_def)
  then obtain e ix1 where "get_alert_checked demo_read_env ''a1'' (fst ?cs) = (Inl e, ix1)" by blast
  from failed_investigation_audited_ok [OF this] show ?thesis .
qed

end
