(* ===== verification/Server.thy ===== *)
theory Server imports Prompts begin

text \<open>
  The assembled server (\<open>server.py\<close>): the choice of the rate limiter, the shared clients of the stdio
  mode, the table of all registered tools behind the role hooks and the instrumentation, and what
  any run of client requests can make the server send.
\<close>

section \<open>Choosing the rate limiter\<close>

datatype built_limiter =
    BuiltInProcess limiter
  | BuiltRedis string redis_limiter

text \<open>\<open>env_url\<close> is the value of \<open>WAZUH_MCP_REDIS_URL\<close>, \<open>r\<close> the Redis the client reaches.\<close>

definition build_rate_limiter ::
    "rate_limiter_config \<Rightarrow> rate_limit_config \<Rightarrow> (string \<rightharpoonup> rate_limit_config) \<Rightarrow> string option \<Rightarrow> redis \<Rightarrow>
     exn + built_limiter" where
  "build_rate_limiter cfg dflt per_tenant env_url r =
     (case rlc_backend cfg of
        InProcessBackend \<Rightarrow> Inr (BuiltInProcess (new_limiter dflt per_tenant))
      | RedisBackend \<Rightarrow>
          (let url = py_strip (case env_url of None \<Rightarrow> [] | Some u \<Rightarrow> u)
           in if url = [] then Inl RuntimeE
              else
                (let rc = rlc_redis cfg; cb = rc_circuit_breaker rc
                 in bind_res (new_breaker (cb_error_threshold cb) (cb_open_duration cb) (cb_half_open_max cb) (rc_call_timeout_ms rc))
                      (\<lambda>b. Inr (BuiltRedis url (new_redis_limiter dflt per_tenant (rc_key_prefix rc) b r))))))"

section \<open>The clients of the stdio mode\<close>

text \<open>One holder per client, filled on first use; the adapters ignore the tenant they are asked for.\<close>

definition open_indexer ::
    "secrets_get \<Rightarrow> tenant_config \<Rightarrow> answer list \<Rightarrow> indexer_client option \<Rightarrow> (exn + indexer_client) \<times> indexer_client option" where
  "open_indexer sec t feed holder =
     (case holder of
        Some c \<Rightarrow> (Inr c, holder)
      | None \<Rightarrow>
          (case bind_res (sec (tenant_id t) ''indexer_user'') (\<lambda>u.
                bind_res (sec (tenant_id t) ''indexer_password'') (\<lambda>pw.
                  Inr (new_indexer_client (indexer_url t) (expose u) (expose pw) (verify_tls t) (ca_bundle_path t) feed))) of
             Inl e \<Rightarrow> (Inl e, None)
           | Inr c \<Rightarrow> (Inr c, Some c)))"

definition open_server_api ::
    "secrets_get \<Rightarrow> tenant_config \<Rightarrow> answer list \<Rightarrow> api_client option \<Rightarrow> (exn + api_client) \<times> api_client option" where
  "open_server_api sec t feed holder =
     (case holder of
        Some c \<Rightarrow> (Inr c, holder)
      | None \<Rightarrow>
          (case bind_res (sec (tenant_id t) ''server_api_user'') (\<lambda>u.
                bind_res (sec (tenant_id t) ''server_api_password'') (\<lambda>pw.
                  Inr (new_api_client (derive_server_api_url t) (expose u) (expose pw) (verify_tls t) (ca_bundle_path t) feed))) of
             Inl e \<Rightarrow> (Inl e, None)
           | Inr c \<Rightarrow> (Inr c, Some c)))"

text \<open>
  The stdio server ignores a configured Server API address.  It reaches the address derived from
  the indexer's, whatever \<open>server_api_url\<close> says, while the pool of the HTTP mode uses it.
\<close>

theorem stdio_ignores_server_api_url:
  "open_server_api sec (t\<lparr>server_api_url := Some u\<rparr>) feed holder = open_server_api sec t feed holder \<and>
   server_api_base (t\<lparr>server_api_url := Some u\<rparr>) = rstrip_char (CHR ''/'') u"
proof -
  let ?t = "t\<lparr>server_api_url := Some u\<rparr>"
  have same: "tenant_id ?t = tenant_id t" "indexer_url ?t = indexer_url t" "verify_tls ?t = verify_tls t"
    "ca_bundle_path ?t = ca_bundle_path t" by simp_all
  then have url: "derive_server_api_url ?t = derive_server_api_url t" by (simp add: derive_server_api_url_def)
  have "open_server_api sec ?t feed holder = open_server_api sec t feed holder"
    unfolding open_server_api_def same url by (rule refl)
  moreover have "server_api_base ?t = rstrip_char (CHR ''/'') u" by (simp add: server_api_base_def)
  ultimately show ?thesis by blast
qed

section \<open>All tools\<close>

text \<open>The write handlers use the Server API pool alone.\<close>

definition lift_handler :: "('l, server_api_pool) handler \<Rightarrow> 'l app_handler" where
  "lift_handler h kw w =
     (case h kw \<lparr>wd_events = wd_events w, wd_calls = wd_calls w, wd_limited = wd_limited w,
                 wd_durations = wd_durations w, wd_limiter = wd_limiter w, wd_app = ap_api (wd_app w)\<rparr> of
        (r, v) \<Rightarrow>
          (r, \<lparr>wd_events = wd_events v, wd_calls = wd_calls v, wd_limited = wd_limited v,
               wd_durations = wd_durations v, wd_limiter = wd_limiter v,
               wd_app = (wd_app w)\<lparr>ap_api := wd_app v\<rparr>\<rparr>))"

definition all_tools :: "tool_env \<Rightarrow> write_env \<Rightarrow> session \<Rightarrow> (string \<times> 'l app_handler) list" where
  "all_tools tenv wenv s = read_tools tenv s @ map (\<lambda>(n, h). (n, lift_handler h)) (write_tools wenv s)"

text \<open>Dispatch by name; a tool that is not registered is unknown.\<close>

definition fastmcp_call_tool ::
    "tool_env \<Rightarrow> write_env \<Rightarrow> policy \<Rightarrow> (string \<Rightarrow> string \<Rightarrow> 'l \<Rightarrow> (exn + unit) \<times> 'l) \<Rightarrow> rat \<Rightarrow> session \<Rightarrow> string \<Rightarrow>
     'l app_handler" where
  "fastmcp_call_tool tenv wenv policy acq elapsed s name kw w =
     (case map_of (all_tools tenv wenv s) name of
        None \<Rightarrow> (Inl (ToolE (''Unknown tool: '' @ name)), w)
      | Some h \<Rightarrow> instrumented_tool name policy acq h elapsed (Some s) kw w)"

datatype client_request =
    CallTool string args
  | Context context_request

fun serve ::
    "tool_env \<Rightarrow> write_env \<Rightarrow> policy \<Rightarrow> (string \<Rightarrow> string \<Rightarrow> 'l \<Rightarrow> (exn + unit) \<times> 'l) \<Rightarrow>
     session \<times> rat \<times> client_request \<Rightarrow> 'l app_world \<Rightarrow> 'l app_world" where
  "serve tenv wenv policy acq (s, elapsed, CallTool name kw) w =
     snd (rbac_call_tool policy (fastmcp_call_tool tenv wenv policy acq elapsed s) (Some s) name kw w)"
| "serve tenv wenv policy acq (s, elapsed, Context req) w = serve_context tenv s elapsed req w"

definition serve_all ::
    "tool_env \<Rightarrow> write_env \<Rightarrow> policy \<Rightarrow> (string \<Rightarrow> string \<Rightarrow> 'l \<Rightarrow> (exn + unit) \<times> 'l) \<Rightarrow>
     (session \<times> rat \<times> client_request) list \<Rightarrow> 'l app_world \<Rightarrow> 'l app_world" where
  "serve_all tenv wenv policy acq reqs w = foldl (\<lambda>w q. serve tenv wenv policy acq q w) w reqs"

section \<open>What one request can send\<close>

text \<open>What a tenant's clients have sent beyond what they had, all of it allowed by \<open>P\<close>, and only the
  session's tenant.\<close>

definition sent_more :: "(request \<Rightarrow> bool) \<Rightarrow> string \<Rightarrow> 'l app_world \<Rightarrow> 'l app_world \<Rightarrow> bool" where
  "sent_more P own w w' \<longleftrightarrow>
     (\<forall>tid. \<exists>xs ys. ix_sent_for w' tid = ix_sent_for w tid @ xs \<and> api_sent_for w' tid = api_sent_for w tid @ ys \<and>
        list_all search_ok xs \<and> list_all P ys \<and> (tid \<noteq> own \<longrightarrow> xs = [] \<and> ys = []))"

lemma sent_more_same: "wd_app w' = wd_app w \<Longrightarrow> sent_more P own w w'"
  by (auto simp: sent_more_def ix_sent_for_def api_sent_for_def intro!: exI [of _ "[]"])

lemma sent_more_trans:
  assumes "sent_more P own w w1" "sent_more P own w1 w2"
  shows "sent_more P own w w2"
  unfolding sent_more_def
proof
  fix tid
  obtain x1 y1 where a: "ix_sent_for w1 tid = ix_sent_for w tid @ x1" "api_sent_for w1 tid = api_sent_for w tid @ y1"
    "list_all search_ok x1" "list_all P y1" "tid \<noteq> own \<longrightarrow> x1 = [] \<and> y1 = []"
    using assms(1) unfolding sent_more_def by meson
  obtain x2 y2 where b: "ix_sent_for w2 tid = ix_sent_for w1 tid @ x2" "api_sent_for w2 tid = api_sent_for w1 tid @ y2"
    "list_all search_ok x2" "list_all P y2" "tid \<noteq> own \<longrightarrow> x2 = [] \<and> y2 = []"
    using assms(2) unfolding sent_more_def by meson
  show "\<exists>xs ys. ix_sent_for w2 tid = ix_sent_for w tid @ xs \<and> api_sent_for w2 tid = api_sent_for w tid @ ys \<and>
        list_all search_ok xs \<and> list_all P ys \<and> (tid \<noteq> own \<longrightarrow> xs = [] \<and> ys = [])"
    by (rule exI [of _ "x1 @ x2"], rule exI [of _ "y1 @ y2"]) (use a b in simp)
qed

lemma sent_more_mono:
  assumes "sent_more P own w w'" "\<And>rq. P rq \<Longrightarrow> Q rq"
  shows "sent_more Q own w w'"
proof -
  have "list_all P ys \<Longrightarrow> list_all Q ys" for ys using assms(2) by (auto simp: list_all_iff)
  then show ?thesis using assms(1) unfolding sent_more_def by meson
qed

lemma reads_sent_more: "reads_from own w w' \<Longrightarrow> sent_more api_read_ok own w w'"
  unfolding reads_from_def sent_more_def by blast

text \<open>The instrumentation neither opens nor uses a client: what is sent is sent by the handler.\<close>

lemma run_handler_app:
  assumes "run_handler tool h elapsed s a w = (r, w')"
  shows "\<exists>w1. wd_app w1 = wd_app w \<and> wd_app w' = wd_app (snd (h a w1))"
proof -
  let ?w1 = "if startswith tool ''write.'' then emit_events [tool_event s tool a ''write.requested'' 0 0 None] w else w"
  obtain x w2 where h: "h a ?w1 = (x, w2)" by fastforce
  have "wd_app w' = wd_app w2"
    using assms h by (cases x) (auto simp: run_handler_def world_defs Let_def split: prod.splits)
  then show ?thesis using h by (intro exI [of _ ?w1]) (auto simp: emit_events_def)
qed

lemma instrumented_app:
  fixes w w' :: "'l app_world"
  assumes run: "instrumented_tool tool policy acq h elapsed (Some s) kw w = (r, w')"
  shows "wd_app w' = wd_app w \<or> (\<exists>w1. wd_app w1 = wd_app w \<and> wd_app w' = wd_app (snd (h kw w1)))"
proof -
  obtain x pevs where p: "policy s = (x, pevs)" by fastforce
  show ?thesis
  proof (cases x)
    case (Inl e)
    then show ?thesis using run p by (auto simp: instrumented_tool_def emit_events_def)
  next
    case (Inr pol)
    have pol: "policy s = (Inr pol, pevs)" using p Inr by simp
    from pol run show ?thesis
    proof (cases rule: instrumented_cases)
      case (ran l)
      then show ?thesis using run_handler_app [OF ran(3)] by auto
    qed auto
  qed
qed

text \<open>A call either leaves the clients alone or, when its role may make it, runs a registered handler.\<close>

lemma call_app:
  fixes w :: "'l app_world"
  obtains (kept) "wd_app (serve tenv wenv policy acq (s, elapsed, CallTool name kw) w) = wd_app w"
  | (handled) pol evs w1 and h :: "'l app_handler" where "policy s = (Inr pol, evs)" "is_allowed s name pol"
      "map_of (all_tools tenv wenv s) name = Some h" "wd_app w1 = wd_app w"
      "wd_app (serve tenv wenv policy acq (s, elapsed, CallTool name kw) w) = wd_app (snd (h kw w1))"
proof -
  let ?w' = "serve tenv wenv policy acq (s, elapsed, CallTool name kw) w"
  obtain x evs where p: "policy s = (x, evs)" by fastforce
  show thesis
  proof (cases "\<exists>pol. x = Inr pol \<and> is_allowed s name pol")
    case False
    then show thesis using p kept
      by (cases x) (auto simp: rbac_call_tool_def emit_events_def Let_def)
  next
    case True
    then obtain pol where pol: "policy s = (Inr pol, evs)" "is_allowed s name pol" using p by blast
    let ?w1 = "emit_events evs w"
    have serve: "?w' = snd (fastmcp_call_tool tenv wenv policy acq elapsed s name kw ?w1)"
      using pol by (simp add: rbac_call_tool_def Let_def)
    show thesis
    proof (cases "map_of (all_tools tenv wenv s) name :: 'l app_handler option")
      case None
      then show thesis using kept unfolding serve by (simp add: fastmcp_call_tool_def emit_events_def)
    next
      case (Some h)
      obtain r w2 where run: "instrumented_tool name policy acq h elapsed (Some s) kw ?w1 = (r, w2)" by fastforce
      have w2: "?w' = w2" unfolding serve using Some run by (simp add: fastmcp_call_tool_def)
      have app: "wd_app ?w1 = wd_app w" by (simp add: emit_events_def)
      from instrumented_app [OF run] show thesis
        using kept handled [OF pol Some] app unfolding w2 by metis
    qed
  qed
qed

lemma lift_handler_sends:
  fixes w :: "'l app_world"
  assumes "\<And>v r v'. h kw v = (r, v') \<Longrightarrow> adds P own v v'"
  shows "sent_more P own w (snd (lift_handler h kw w))"
proof -
  let ?v = "\<lparr>wd_events = wd_events w, wd_calls = wd_calls w, wd_limited = wd_limited w,
     wd_durations = wd_durations w, wd_limiter = wd_limiter w, wd_app = ap_api (wd_app w)\<rparr>"
  obtain r v' where run: "h kw ?v = (r, v')" by fastforce
  have sent: "\<exists>rqs. sent_for v' tid = sent_for ?v tid @ rqs \<and> list_all P rqs \<and> (tid \<noteq> own \<longrightarrow> rqs = [])" for tid
    using assms [OF run] unfolding adds_def by blast
  have "api_sent_for (snd (lift_handler h kw w)) = sent_for v'" "api_sent_for w = sent_for ?v"
    "ix_sent_for (snd (lift_handler h kw w)) = ix_sent_for w"
    using run by (simp_all add: fun_eq_iff lift_handler_def api_sent_for_def sent_for_def ix_sent_for_def)
  then show ?thesis using sent by (simp add: sent_more_def)
qed

lemma tool_cases:
  assumes "map_of (all_tools tenv wenv s) name = Some h"
  shows "(name, h) \<in> set (read_tools tenv s) \<or> (\<exists>g. (name, g) \<in> set (write_tools wenv s) \<and> h = lift_handler g)"
  using map_of_SomeD [OF assms] by (auto simp: all_tools_def)

text \<open>Reading and writing requests together.\<close>

definition any_request :: "session \<Rightarrow> request \<Rightarrow> bool" where
  "any_request s rq \<longleftrightarrow> api_read_ok rq \<or> write_request_ok s rq"

lemma tool_sends:
  fixes w :: "'l app_world"
  assumes "map_of (all_tools tenv wenv s) name = Some h"
  shows "sent_more (if startswith name ''write.'' then any_request s else api_read_ok) (s_tenant_id s) w (snd (h kw w))"
  using tool_cases [OF assms]
proof (elim disjE exE conjE)
  assume "(name, h) \<in> set (read_tools tenv s)"
  then have "sent_more api_read_ok (s_tenant_id s) w (snd (h kw w))"
    using read_handler_reads reads_sent_more unfolding reads_only_def by blast
  then show ?thesis by (rule sent_more_mono) (auto simp: any_request_def)
next
  fix g assume g: "(name, g) \<in> set (write_tools wenv s)" "h = lift_handler g"
  have "sent_more (write_request_ok s) (s_tenant_id s) w (snd (lift_handler g kw w))"
    by (rule lift_handler_sends) (rule write_handler_adds [OF g(1)])
  then have "sent_more (any_request s) (s_tenant_id s) w (snd (h kw w))"
    unfolding g(2) by (rule sent_more_mono) (simp add: any_request_def)
  then show ?thesis using write_tool_prefix [OF g(1)] by simp
qed

lemma call_sends:
  fixes w :: "'l app_world"
  assumes "\<And>pol evs. policy s = (Inr pol, evs) \<Longrightarrow> is_allowed s name pol \<Longrightarrow> startswith name ''write.'' \<Longrightarrow> \<forall>rq. any_request s rq \<longrightarrow> P rq"
    and "\<And>rq. api_read_ok rq \<Longrightarrow> P rq"
  shows "sent_more P (s_tenant_id s) w (serve tenv wenv policy acq (s, elapsed, CallTool name kw) w)"
proof (cases rule: call_app [of tenv wenv policy acq s elapsed name kw w])
  case (handled pol evs w1 h)
  have ok: "(if startswith name ''write.'' then any_request s else api_read_ok) rq \<Longrightarrow> P rq" for rq
    using assms(1) [OF handled(1,2)] assms(2) by (auto split: if_splits)
  have "sent_more P (s_tenant_id s) w1 (snd (h kw w1))"
    by (rule sent_more_mono [OF tool_sends [OF handled(3)] ok])
  then show ?thesis using sent_more_same [OF handled(4)] sent_more_same [OF handled(5)] by (meson sent_more_trans)
qed (rule sent_more_same)

lemma context_sends:
  assumes "\<And>rq. api_read_ok rq \<Longrightarrow> P rq"
  shows "sent_more P (s_tenant_id s) w (serve tenv wenv policy acq (s, elapsed, Context req) w)"
  using sent_more_mono [OF reads_sent_more [OF serve_context_reads] assms] by simp

section \<open>What any run can send\<close>

text \<open>
  Tenants are isolated.  Whatever requests reach the server, if none of them comes from a session
  of a tenant, then that tenant's clients send nothing: no tool, resource or prompt of one tenant
  makes the server talk to another tenant's indexer or manager.
\<close>

theorem tenants_isolated:
  assumes "\<forall>(s, elapsed, req) \<in> set reqs. s_tenant_id s \<noteq> tid"
  shows "api_sent_for (serve_all tenv wenv policy acq reqs w) tid = api_sent_for w tid \<and>
    ix_sent_for (serve_all tenv wenv policy acq reqs w) tid = ix_sent_for w tid"
  using assms
proof (induction reqs arbitrary: w)
  case (Cons q reqs)
  obtain s el req where q: "q = (s, el, req)" by (cases q)
  let ?w1 = "serve tenv wenv policy acq q w"
  have "sent_more (\<lambda>_. True) (s_tenant_id s) w ?w1"
    unfolding q by (cases req) (auto intro!: call_sends context_sends simp del: serve.simps)
  then obtain xs ys where "ix_sent_for ?w1 tid = ix_sent_for w tid @ xs" "api_sent_for ?w1 tid = api_sent_for w tid @ ys"
    "tid \<noteq> s_tenant_id s \<longrightarrow> xs = [] \<and> ys = []"
    unfolding sent_more_def by meson
  moreover have "tid \<noteq> s_tenant_id s" using Cons.prems q by auto
  ultimately have "api_sent_for ?w1 tid = api_sent_for w tid \<and> ix_sent_for ?w1 tid = ix_sent_for w tid" by simp
  then show ?case using Cons.IH [of ?w1] Cons.prems by (simp add: serve_all_def)
qed (simp add: serve_all_def)

lemma policy_of_known:
  assumes "yaml_wf ts" "make_rbac_policy (yaml_get ts) s = (Inr pol, evs)"
  shows "pol = [] \<or> (\<exists>cfg \<in> set (yaml_all ts). tenant_id cfg = s_tenant_id s \<and>
    pol = effective_allowlist_for (role_tool_allowlist cfg))"
proof (cases "yaml_get ts (s_tenant_id s)")
  case (Inl e)
  then have "e = KeyE" by (simp add: yaml_get_def split: option.splits)
  then show ?thesis using Inl assms(2) by (simp add: make_rbac_policy_def resolve_with_def)
next
  case (Inr cfg)
  then have "cfg \<in> set (yaml_all ts) \<and> tenant_id cfg = s_tenant_id s" using yaml.get_iff [OF assms(1)] by blast
  moreover have "pol = effective_allowlist_for (role_tool_allowlist cfg)"
    using Inr assms(2) by (simp add: make_rbac_policy_def resolve_with_def)
  ultimately show ?thesis by blast
qed

text \<open>Under the default roles a session that is not an administrator's only reads.\<close>

lemma default_role_reads:
  assumes "\<And>pol evs. policy s = (Inr pol, evs) \<Longrightarrow> pol = [] \<or> pol = DEFAULT_ROLE_TOOL_ALLOWLIST" "rbac_role s \<noteq> ''admin''"
  shows "sent_more api_read_ok (s_tenant_id s) v (serve tenv wenv policy acq (s, elapsed, req) v)"
proof (cases req)
  case (CallTool name kw)
  show ?thesis unfolding CallTool
  proof (rule call_sends)
    fix pol evs
    assume pol: "policy s = (Inr pol, evs)" "is_allowed s name pol" and "startswith name ''write.''"
    then obtain op where name: "name = ''write.'' @ op" by (auto simp: startswith_iff)
    show "\<forall>rq. any_request s rq \<longrightarrow> api_read_ok rq"
      using assms(1) [OF pol(1)] pol(2) default_write_admin assms(2) unfolding name
      by (auto simp: is_allowed_def split: option.splits)
  qed
next
  case (Context c)
  show ?thesis unfolding Context by (rule context_sends)
qed

text \<open>
  C2: Without an administrator nothing is changed.  In a server whose tenants keep the default roles,
  no run of requests by sessions of other roles makes any client send anything but bounded searches,
  \<open>GET\<close> requests and the authentication call.
\<close>

theorem nothing_changed_without_admin:
  assumes "yaml_wf ts" "\<forall>cfg \<in> set (yaml_all ts). role_tool_allowlist cfg = None"
    and "\<forall>(s, elapsed, req) \<in> set reqs. rbac_role s \<noteq> ''admin''"
  shows "\<exists>xs ys. api_sent_for (serve_all tenv wenv (make_rbac_policy (yaml_get ts)) acq reqs w) tid = api_sent_for w tid @ ys \<and>
    ix_sent_for (serve_all tenv wenv (make_rbac_policy (yaml_get ts)) acq reqs w) tid = ix_sent_for w tid @ xs \<and>
    (\<forall>rq \<in> set ys. rq_method rq = ''GET'' \<or> rq_method rq = ''POST'' \<and> rq_path rq = ''/security/user/authenticate'') \<and>
    (\<forall>rq \<in> set xs. search_ok rq)"
proof -
  let ?serve = "\<lambda>reqs w. serve_all tenv wenv (make_rbac_policy (yaml_get ts)) acq reqs w"
  have step: "sent_more api_read_ok (s_tenant_id s) v (serve tenv wenv (make_rbac_policy (yaml_get ts)) acq (s, el, req) v)"
    if role: "rbac_role s \<noteq> ''admin''" for s el req v
    using policy_of_known [OF assms(1)] assms(2) by (intro default_role_reads role) (auto simp: effective_allowlist_for_def)
  have run: "\<exists>xs ys. api_sent_for (?serve reqs w) tid = api_sent_for w tid @ ys \<and>
      ix_sent_for (?serve reqs w) tid = ix_sent_for w tid @ xs \<and> list_all api_read_ok ys \<and> list_all search_ok xs"
    using assms(3)
  proof (induction reqs arbitrary: w)
    case Nil
    then show ?case by (simp add: serve_all_def)
  next
    case (Cons q reqs)
    obtain s el req where q: "q = (s, el, req)" by (cases q)
    let ?w1 = "serve tenv wenv (make_rbac_policy (yaml_get ts)) acq q w"
    have "sent_more api_read_ok (s_tenant_id s) w ?w1" unfolding q using Cons.prems q by (intro step) auto
    then obtain x1 y1 where 1: "ix_sent_for ?w1 tid = ix_sent_for w tid @ x1" "api_sent_for ?w1 tid = api_sent_for w tid @ y1"
      "list_all search_ok x1" "list_all api_read_ok y1"
      unfolding sent_more_def by meson
    obtain x2 y2 where 2: "api_sent_for (?serve reqs ?w1) tid = api_sent_for ?w1 tid @ y2"
      "ix_sent_for (?serve reqs ?w1) tid = ix_sent_for ?w1 tid @ x2" "list_all api_read_ok y2" "list_all search_ok x2"
      using Cons.IH [of ?w1] Cons.prems by auto
    have "?serve (q # reqs) w = ?serve reqs ?w1" by (simp add: serve_all_def)
    then show ?case using 1 2 by (intro exI [of _ "x1 @ x2"] exI [of _ "y1 @ y2"]) simp
  qed
  then show ?thesis by (fastforce simp: list_all_iff api_read_ok_def)
qed

section \<open>A server with one tenant\<close>

definition demo_reader :: session where
  "demo_reader = demo_admin\<lparr>rbac_role := ''readonly''\<rparr>"

lemma demo_nothing_sent: "api_sent_for demo_app_world tid = []" "ix_sent_for demo_app_world tid = []"
  by (simp_all add: api_sent_for_def ix_sent_for_def demo_app_world_def new_server_api_pool_def)

theorem tenants_isolated_witness:
  "api_sent_for (serve_all demo_tool_env demo_write_env (make_rbac_policy (yaml_get demo_registry)) open_limiter
      [(demo_admin, 1, CallTool ''write.restart_agent'' [])] demo_app_world) ''other'' = []"
proof -
  have "\<forall>(s, elapsed, req) \<in> set [(demo_admin, 1 :: rat, CallTool ''write.restart_agent'' [])]. s_tenant_id s \<noteq> ''other''"
    by (simp add: demo_admin_def)
  from tenants_isolated [where w = demo_app_world and tenv = demo_tool_env and wenv = demo_write_env
      and acq = open_limiter, OF this]
  show ?thesis using demo_nothing_sent(1) [of "''other''"] by simp
qed

theorem nothing_changed_without_admin_witness:
  "''PUT'' \<notin> rq_method ` set (api_sent_for (serve_all demo_tool_env demo_write_env
      (make_rbac_policy (yaml_get demo_registry)) open_limiter
      [(demo_reader, 1, CallTool ''write.restart_agent'' []), (demo_reader, 1, Context (RuleResource ''5710''))]
      demo_app_world) ''acme'')"
proof -
  let ?reqs = "[(demo_reader, 1 :: rat, CallTool ''write.restart_agent'' []), (demo_reader, 1, Context (RuleResource ''5710''))]"
  have wf: "yaml_wf demo_registry" "\<forall>cfg \<in> set (yaml_all demo_registry). role_tool_allowlist cfg = None"
    by (simp_all add: yaml_wf_def yaml_all_def demo_registry_def demo_tenant_def sample_tenant_def)
  have roles: "\<forall>(s, elapsed, req) \<in> set ?reqs. rbac_role s \<noteq> ''admin''"
    by (simp add: demo_reader_def)
  show ?thesis
    using nothing_changed_without_admin [OF wf roles, of demo_tool_env demo_write_env open_limiter demo_app_world "''acme''"]
    by (auto simp: demo_nothing_sent)
qed

end
