(* ===== verification/HttpApp.thy ===== *)
theory HttpApp imports Server SinkDrivers Access begin

text \<open>
  The HTTP server put together: reading the configuration directory and building the application
  (\<open>load_http_config\<close>, \<open>build_http_app\<close> in \<open>server.py\<close>), the routes and the session middleware around
  the MCP application (\<open>transport/http.py\<close>), and what any run of HTTP requests can make it send.
  The MCP library, the clocks and the upstream services are arguments.
\<close>

section \<open>The configuration directory\<close>

text \<open>\<open>server.yaml\<close> as decoded: a key that is absent is \<open>None\<close>.  The values have the types the deployment
  guide gives them; \<open>cd_tenants\<close> are the candidate entries of \<open>tenants.yaml\<close>, \<open>cd_files\<close> decodes a file
  named by the configuration.\<close>

record oauth_section =
  os_issuer :: "string option"
  os_audience :: "string option"
  os_algorithms :: "string list option"
  os_rbac_claims :: "string list option"
  os_skew :: "int option"

record http_section =
  hs_public_url :: "string option"
  hs_bind :: "string option"

record server_yaml =
  sy_oauth :: "oauth_section option"
  sy_http :: "http_section option"
  sy_api_keys_file :: "string option"
  sy_rate_limiter :: "rate_limiter_config option"
  sy_active_tenant :: "string option"
  sy_user_id :: "string option"
  sy_transport :: "string option"

record config_dir =
  cd_server :: server_yaml
  cd_tenants :: "tenant_config list"
  cd_secrets :: json
  cd_files :: "string \<Rightarrow> exn + json"

text \<open>\<open>d[k]\<close> and \<open>d.get(k, v)\<close>.\<close>

definition required :: "'a option \<Rightarrow> exn + 'a" where
  "required v = (case v of None \<Rightarrow> Inl KeyE | Some x \<Rightarrow> Inr x)"

definition or_else :: "'a option \<Rightarrow> 'a \<Rightarrow> 'a" where
  "or_else v d = (case v of None \<Rightarrow> d | Some x \<Rightarrow> x)"

lemma required_Inr [res_simps]: "required v = Inr x \<longleftrightarrow> v = Some x"
  by (simp add: required_def split: option.splits)

definition load_key_file :: "json \<Rightarrow> exn + key_store" where
  "load_key_file doc =
     (case py_or doc (JObj []) of
        JObj d \<Rightarrow>
          (case or_else (dget d ''api_keys'') (JList []) of
             JList es \<Rightarrow> load_keys es []
           | _ \<Rightarrow> Inl ValueE)
      | _ \<Rightarrow> Inl OtherE)"

text \<open>\<open>registry = None\<close> is the legacy form of the configuration; \<open>hc_pool\<close> is what the two client pools
  were made with.\<close>

record http_app_config =
  hc_pool :: "registry_get \<times> secrets_get"
  hc_oauth :: oauth_factory
  hc_keys :: key_store
  hc_resource_url :: string
  hc_authorization_server :: string
  hc_tenant :: "tenant_config option"
  hc_registry :: "(string, tenant_config) dict option"
  hc_rate_limiter :: "rate_limiter_config option"

definition tenant_ids :: "tenant_config list \<Rightarrow> string list" where
  "tenant_ids ts = map tenant_id ts"

definition load_oauth :: "feeds \<Rightarrow> issuer_index \<Rightarrow> oauth_section \<Rightarrow> exn + oauth_factory \<times> string" where
  "load_oauth feeds index oc =
     bind_res (required (os_issuer oc)) (\<lambda>issuer.
     bind_res (required (os_audience oc)) (\<lambda>audience.
     bind_res (new_oauth_factory feeds issuer audience (or_else (os_algorithms oc) [''RS256''])
         (or_else (os_rbac_claims oc) [''wazuh_mcp_role'', ''groups'', ''roles'']) index (or_else (os_skew oc) 30))
       (\<lambda>fac. Inr (fac, issuer))))"

definition load_http_config :: "(string \<Rightarrow> bool) \<Rightarrow> feeds \<Rightarrow> config_dir \<Rightarrow> exn + http_app_config" where
  "load_http_config url_ok feeds cd =
     bind_res (yaml_load url_ok (cd_tenants cd) []) (\<lambda>registry.
     bind_res (yaml_secrets_load (cd_secrets cd)) (\<lambda>secrets.
     bind_res (map_res (yaml_get registry) (tenant_ids (cd_tenants cd))) (\<lambda>all_tenants.
     bind_res (required (sy_oauth (cd_server cd))) (\<lambda>oc.
     bind_res (load_oauth feeds (new_issuer_index all_tenants) oc) (\<lambda>(oauth, issuer).
     bind_res (required (sy_api_keys_file (cd_server cd))) (\<lambda>path.
     bind_res (bind_res (cd_files cd path) load_key_file) (\<lambda>keys.
     bind_res (required (sy_http (cd_server cd))) (\<lambda>hc.
     bind_res (required (hs_public_url hc)) (\<lambda>public_url.
       Inr \<lparr>hc_pool = (yaml_get registry, yaml_secret_get secrets), hc_oauth = oauth, hc_keys = keys,
            hc_resource_url = public_url, hc_authorization_server = issuer,
            hc_tenant = (case all_tenants of [] \<Rightarrow> None | t # ts \<Rightarrow> Some t),
            hc_registry = Some registry, hc_rate_limiter = sy_rate_limiter (cd_server cd)\<rparr>)))))))))"

section \<open>The platform\<close>

text \<open>What the process runs on: the libraries, the environment and the services it can reach.\<close>

record 'k platform =
  pf_jwt :: "'k jwt_lib"
  pf_feeds :: feeds
  pf_key_lib :: key_lib
  pf_api :: "clocks \<Rightarrow> api_env"
  pf_read :: read_env
  pf_read_decoder :: read_decoder
  pf_arg_decoder :: arg_decoder
  pf_stamp :: "clocks \<Rightarrow> string"
  pf_net_api :: "string \<Rightarrow> answer list"
  pf_net_ix :: "string \<Rightarrow> answer list"
  pf_redis_url :: "string option"
  pf_redis :: redis
  pf_metrics :: string

record http_request =
  hr_method :: string
  hr_path :: string
  hr_headers :: headers
  hr_clocks :: clocks
  hr_wall :: rat

text \<open>The MCP library: while it processes a request it delivers client requests to the handlers, each in
  the context of an HTTP request that reached it; contexts are those of the session variable.\<close>

type_synonym delivery = "session option \<times> clocks \<times> rat \<times> client_request"

record mcp_lib =
  ml_deliver :: "session option list \<Rightarrow> http_request \<Rightarrow> delivery list"
  ml_respond :: "http_request \<Rightarrow> exn + response"

text \<open>Two documented facts about it: a handler runs in a context the library was entered with, and the
  library serves nothing outside its own path.\<close>

definition contexts_kept :: "mcp_lib \<Rightarrow> bool" where
  "contexts_kept lib \<longleftrightarrow> (\<forall>ctxs rq d. d \<in> set (ml_deliver lib ctxs rq) \<longrightarrow> fst d \<in> set ctxs)"

definition serves_only_mcp :: "mcp_lib \<Rightarrow> bool" where
  "serves_only_mcp lib \<longleftrightarrow> (\<forall>ctxs rq. hr_path rq \<noteq> ''/mcp'' \<longrightarrow> ml_deliver lib ctxs rq = [])"

section \<open>Building the application\<close>

definition default_rate_limiter :: rate_limiter_config where
  "default_rate_limiter =
     \<lparr>rlc_backend = InProcessBackend,
      rlc_redis = \<lparr>rc_key_prefix = ''wazuhmcp:rl'', rc_call_timeout_ms = 50,
        rc_circuit_breaker = \<lparr>cb_error_threshold = 3, cb_open_duration = 5, cb_half_open_max = 1\<rparr>\<rparr>\<rparr>"

definition validate_rate_limiter :: "rate_limiter_config option \<Rightarrow> exn + rate_limiter_config" where
  "validate_rate_limiter raw =
     (let c = or_else raw default_rate_limiter
      in if redis_limiter_ok (rlc_redis c) then Inr c else Inl ValidationE)"

text \<open>\<open>limiter.acquire\<close> on whichever backend was built.\<close>

fun limiter_acquire :: "clocks \<Rightarrow> string \<Rightarrow> string \<Rightarrow> built_limiter \<Rightarrow> (exn + unit) \<times> built_limiter" where
  "limiter_acquire ck tid sid (BuiltInProcess st) =
     (case acquire (ck_mono ck) tid sid st of (r, st') \<Rightarrow> (r, BuiltInProcess st'))"
| "limiter_acquire ck tid sid (BuiltRedis url st) =
     (case redis_acquire ck tid sid st of (r, st') \<Rightarrow> (r, BuiltRedis url st'))"

text \<open>The limits a tenant gets, and the buckets kept in the process: those of the in-process limiter, or of
  the fallback of the Redis limiter.\<close>

fun limits_for :: "built_limiter \<Rightarrow> string \<Rightarrow> rate_limit_config" where
  "limits_for (BuiltInProcess st) tid = limiter_cfg st tid"
| "limits_for (BuiltRedis url st) tid = redis_cfg st tid"

fun local_limiter :: "built_limiter \<Rightarrow> limiter" where
  "local_limiter (BuiltInProcess st) = st"
| "local_limiter (BuiltRedis url st) = ensure_fallback st"

lemma build_rate_limiter_limits:
  assumes "build_rate_limiter rl dflt per url r = Inr l"
  shows "local_limiter l = new_limiter dflt per" and "limits_for l tid = limiter_cfg (local_limiter l) tid"
  using assms
  by (auto simp: build_rate_limiter_def Let_def bind_res_eq_Inr new_redis_limiter_def ensure_fallback_def redis_cfg_def
      limiter_cfg_def new_limiter_def split: limiter_backend.splits if_splits option.splits)

record http_app =
  ha_sinks :: "(string, sink_object list) dict"
  ha_registry :: registry_get
  ha_pool :: "registry_get \<times> secrets_get"
  ha_keys :: key_store
  ha_resource_url :: string
  ha_authorization_server :: string
  ha_ready :: bool

record http_world =
  hw_oauth :: oauth_factory
  hw_contexts :: "session option list"
  hw_app :: "built_limiter app_world"

definition all_tenants_of :: "http_app_config \<Rightarrow> tenant_config list" where
  "all_tenants_of cfg = (case hc_registry cfg of None \<Rightarrow> [] | Some r \<Rightarrow> yaml_all r)"

text \<open>The registry of the resolvers, with the two fallbacks.\<close>

definition policy_registry :: "http_app_config \<Rightarrow> registry_get" where
  "policy_registry cfg =
     (case hc_registry cfg of
        Some r \<Rightarrow> yaml_get r
      | None \<Rightarrow> (case hc_tenant cfg of Some t \<Rightarrow> single_get t | None \<Rightarrow> \<lambda>tid. Inl KeyE))"

definition per_tenant_limits :: "tenant_config list \<Rightarrow> string \<rightharpoonup> rate_limit_config" where
  "per_tenant_limits ts = map_of (rev (map (\<lambda>t. (tenant_id t, rate_limit t)) ts))"

definition default_limits :: "http_app_config \<Rightarrow> rate_limit_config" where
  "default_limits cfg = (case hc_tenant cfg of None \<Rightarrow> default_rate_limit | Some t \<Rightarrow> rate_limit t)"

definition fresh_app_world :: "'l \<Rightarrow> 'l app_world" where
  "fresh_app_world l =
     \<lparr>wd_events = [], wd_calls = [], wd_limited = [], wd_durations = [], wd_limiter = l,
      wd_app = \<lparr>ap_api = new_server_api_pool, ap_indexer = []\<rparr>\<rparr>"

definition build_http_app :: "'k platform \<Rightarrow> http_app_config \<Rightarrow> exn + http_app \<times> http_world" where
  "build_http_app pf cfg =
     bind_res (build_per_tenant_sinks True (all_tenants_of cfg) []) (\<lambda>sinks.
     bind_res (validate_rate_limiter (hc_rate_limiter cfg)) (\<lambda>rl.
     bind_res (build_rate_limiter rl (default_limits cfg) (per_tenant_limits (all_tenants_of cfg)) (pf_redis_url pf) (pf_redis pf))
       (\<lambda>limiter.
         Inr (\<lparr>ha_sinks = sinks, ha_registry = policy_registry cfg, ha_pool = hc_pool cfg, ha_keys = hc_keys cfg,
               ha_resource_url = hc_resource_url cfg, ha_authorization_server = hc_authorization_server cfg, ha_ready = True\<rparr>,
              \<lparr>hw_oauth = hc_oauth cfg, hw_contexts = [], hw_app = fresh_app_world limiter\<rparr>))))"

section \<open>Serving one delivered request\<close>

text \<open>How the two pools of the HTTP server open a client, from what they were made with.\<close>

definition pool_opens :: "registry_get \<times> secrets_get \<Rightarrow> client_open \<times> client_open" where
  "pool_opens pool = (ip_open (fst pool) (snd pool), sp_open (fst pool) (snd pool))"

definition app_tool_env :: "'k platform \<Rightarrow> client_open \<times> client_open \<Rightarrow> clocks \<Rightarrow> tool_env" where
  "app_tool_env pf opens ck =
     \<lparr>te_api = pf_api pf ck, te_read = pf_read pf, te_decoder = pf_read_decoder pf,
      te_open_api = snd opens, te_open_ix = fst opens,
      te_net_api = pf_net_api pf, te_net_ix = pf_net_ix pf\<rparr>"

definition app_write_env ::
    "'k platform \<Rightarrow> client_open \<times> client_open \<Rightarrow> registry_get \<Rightarrow> clocks \<Rightarrow> write_env" where
  "app_write_env pf opens registry ck =
     \<lparr>we_api = pf_api pf ck, we_now = pf_stamp pf ck, we_decoder = pf_arg_decoder pf,
      we_open = snd opens, we_net = pf_net_api pf,
      we_write_policy = Some (make_write_allowlist registry),
      we_ar_policy = Some (make_ar_allowlist registry),
      we_group_policy = Some (make_ar_group_allowlist registry)\<rparr>"

text \<open>Outside a session every handler stops at \<open>current_session()\<close>.\<close>

definition serve_delivery ::
    "'k platform \<Rightarrow> http_app \<Rightarrow> delivery \<Rightarrow> built_limiter app_world \<Rightarrow> built_limiter app_world" where
  "serve_delivery pf app d w =
     (case d of (ctx, ck, elapsed, req) \<Rightarrow>
       (case ctx of
          None \<Rightarrow>
            (case req of
               CallTool name kw \<Rightarrow>
                 snd (rbac_call_tool (make_rbac_policy (ha_registry app)) (\<lambda>name kw w. (Inl LookupE, w)) None name kw w)
             | Context c \<Rightarrow> w)
        | Some s \<Rightarrow>
            serve (app_tool_env pf (pool_opens (ha_pool app)) ck)
              (app_write_env pf (pool_opens (ha_pool app)) (ha_registry app) ck)
              (make_rbac_policy (ha_registry app))
              (limiter_acquire ck) (s, elapsed, req) w))"

section \<open>Routes\<close>

datatype asgi_route = MetadataRoute | HealthzRoute | ReadyzRoute | MetricsRoute | McpMount

text \<open>A \<open>GET\<close> route also answers \<open>HEAD\<close>; any other method falls through to the mount.\<close>

definition route_of :: "string \<Rightarrow> string \<Rightarrow> asgi_route" where
  "route_of meth path =
     (if meth \<notin> {''GET'', ''HEAD''} then McpMount
      else if path = ''/.well-known/oauth-protected-resource'' then MetadataRoute
      else if path = ''/healthz'' then HealthzRoute
      else if path = ''/readyz'' then ReadyzRoute
      else if path = ''/metrics'' then MetricsRoute
      else McpMount)"

definition plain_response :: "int \<Rightarrow> json \<Rightarrow> response" where
  "plain_response status body = \<lparr>rs_status = status, rs_body = body, rs_challenge = None\<rparr>"

definition metadata_body :: "http_app \<Rightarrow> json" where
  "metadata_body app =
     JObj [(''resource'', JStr (ha_resource_url app)),
           (''authorization_servers'', JList [JStr (ha_authorization_server app)]),
           (''bearer_methods_supported'', JList [JStr ''header'']), (''scopes_supported'', JList [])]"

fun limiter_health :: "built_limiter \<Rightarrow> breaker_state option option" where
  "limiter_health (BuiltInProcess st) = Some None"
| "limiter_health (BuiltRedis url st) = Some (Some (bk_state (rl_breaker st)))"

definition healthz_body :: "built_limiter \<Rightarrow> json" where
  "healthz_body l =
     (case rate_limiter_health (limiter_health l) of
        (backend, redis) \<Rightarrow>
          JObj [(''status'', JStr ''ok''),
                (''rate_limiter'', JObj [(''backend'', JStr backend), (''redis'', JStr redis)])])"

definition readyz_response :: "bool \<Rightarrow> response" where
  "readyz_response is_ready =
     (if is_ready then plain_response 200 (JObj [(''status'', JStr ''ok'')])
      else plain_response 503 (JObj [(''status'', JStr ''not_ready'')]))"

text \<open>The application behind the middleware.\<close>

definition mcp_app ::
    "'k platform \<Rightarrow> mcp_lib \<Rightarrow> http_app \<Rightarrow> http_request \<Rightarrow> http_world task \<Rightarrow> (exn + response) \<times> http_world task" where
  "mcp_app pf lib app rq st =
     (let w = mw_rest st; ctxs = hw_contexts w @ [mw_current st]
      in (ml_respond lib rq,
          st\<lparr>mw_rest := w\<lparr>hw_contexts := ctxs,
                          hw_app := foldl (\<lambda>v d. serve_delivery pf app d v) (hw_app w) (ml_deliver lib ctxs rq)\<rparr>\<rparr>))"

definition base_app ::
    "'k platform \<Rightarrow> mcp_lib \<Rightarrow> http_app \<Rightarrow> http_request \<Rightarrow> http_world task \<Rightarrow> (exn + response) \<times> http_world task" where
  "base_app pf lib app rq st =
     (case route_of (hr_method rq) (hr_path rq) of
        MetadataRoute \<Rightarrow> (Inr (plain_response 200 (metadata_body app)), st)
      | HealthzRoute \<Rightarrow> (Inr (plain_response 200 (healthz_body (wd_limiter (hw_app (mw_rest st))))), st)
      | ReadyzRoute \<Rightarrow> (Inr (readyz_response (ha_ready app)), st)
      | MetricsRoute \<Rightarrow> (Inr (plain_response 200 (JStr (pf_metrics pf))), st)
      | McpMount \<Rightarrow> mcp_app pf lib app rq st)"

definition authenticate ::
    "'k platform \<Rightarrow> http_app \<Rightarrow> http_request \<Rightarrow> headers \<Rightarrow> http_world \<Rightarrow> (exn + session) \<times> http_world" where
  "authenticate pf app rq hs w =
     (case chain_build (oauth_build (pf_jwt pf) (pf_feeds pf) (ck_mono (hr_clocks rq)) \<lfloor>hr_wall rq\<rfloor>)
             (api_key_build (pf_key_lib pf) (hr_wall rq) (ha_keys app)) hs (hw_oauth w) of
        (r, fac) \<Rightarrow> (r, w\<lparr>hw_oauth := fac\<rparr>))"

definition PROTECTED :: "string list" where
  "PROTECTED = [''/mcp'']"

definition http_handle ::
    "'k platform \<Rightarrow> mcp_lib \<Rightarrow> http_app \<Rightarrow> http_request \<Rightarrow> http_world \<Rightarrow> (exn + response) \<times> http_world" where
  "http_handle pf lib app rq w =
     (case dispatch PROTECTED (rstrip_char (CHR ''/'') (ha_resource_url app) @ ''/.well-known/oauth-protected-resource'')
             (authenticate pf app rq) (base_app pf lib app rq) (hr_path rq) (hr_headers rq)
             \<lparr>mw_current = None, mw_rest = w\<rparr> of
        (r, st) \<Rightarrow> (r, mw_rest st))"

definition http_run ::
    "'k platform \<Rightarrow> mcp_lib \<Rightarrow> http_app \<Rightarrow> http_request list \<Rightarrow> http_world \<Rightarrow> http_world" where
  "http_run pf lib app rqs w = foldl (\<lambda>v rq. snd (http_handle pf lib app rq v)) w rqs"

section \<open>What one HTTP request does\<close>

text \<open>The request authenticates as a session.\<close>

definition admits :: "'k platform \<Rightarrow> http_app \<Rightarrow> http_request \<Rightarrow> http_world \<Rightarrow> session \<Rightarrow> bool" where
  "admits pf app rq w s \<longleftrightarrow> is_protected PROTECTED (hr_path rq) \<and>
     fst (authenticate pf app rq (dupdate [] (map (\<lambda>(k, v). (title_header k, v)) (hr_headers rq))) w) = Inr s"

lemma authenticate_app:
  "authenticate pf app rq hs w = (r, w') \<Longrightarrow> hw_app w' = hw_app w \<and> hw_contexts w' = hw_contexts w"
  by (auto simp: authenticate_def split: prod.splits)

text \<open>The request stops at a route or at the middleware, or it enters the MCP application in one context.\<close>

lemma base_app_cases:
  assumes "base_app pf lib app rq st = (r, st')"
  obtains (answered) "st' = st"
  | (entered) "mw_current st' = mw_current st"
      "hw_contexts (mw_rest st') = hw_contexts (mw_rest st) @ [mw_current st]"
      "hw_app (mw_rest st') = foldl (\<lambda>v d. serve_delivery pf app d v) (hw_app (mw_rest st))
        (ml_deliver lib (hw_contexts (mw_rest st) @ [mw_current st]) rq)"
  using assms by (cases "route_of (hr_method rq) (hr_path rq)") (auto simp: base_app_def mcp_app_def Let_def)

lemma http_handle_cases:
  assumes "http_handle pf lib app rq w = (r, w')"
  obtains (stopped) "hw_app w' = hw_app w" "hw_contexts w' = hw_contexts w"
  | (entered) ctx where "ctx = None \<and> \<not> is_protected PROTECTED (hr_path rq) \<or> (\<exists>s. ctx = Some s \<and> admits pf app rq w s)"
      "hw_contexts w' = hw_contexts w @ [ctx]"
      "hw_app w' = foldl (\<lambda>v d. serve_delivery pf app d v) (hw_app w) (ml_deliver lib (hw_contexts w @ [ctx]) rq)"
proof -
  let ?st = "\<lparr>mw_current = None, mw_rest = w\<rparr>"
  let ?hs = "dupdate [] (map (\<lambda>(k, v). (title_header k, v)) (hr_headers rq))"
  let ?url = "rstrip_char (CHR ''/'') (ha_resource_url app) @ ''/.well-known/oauth-protected-resource''"
  obtain st' where d: "dispatch PROTECTED ?url (authenticate pf app rq) (base_app pf lib app rq) (hr_path rq) (hr_headers rq) ?st = (r, st')"
    and w': "w' = mw_rest st'"
    using assms by (auto simp: http_handle_def split: prod.splits)
  show thesis
  proof (cases "is_protected PROTECTED (hr_path rq)")
    case False
    then have "base_app pf lib app rq ?st = (r, st')" using d by (simp add: dispatch_def)
    then show thesis by (cases rule: base_app_cases) (use stopped entered [of None] False w' in auto)
  next
    case True
    obtain b w1 where b: "authenticate pf app rq ?hs w = (b, w1)" by fastforce
    note same = authenticate_app [OF b]
    show thesis
    proof (cases b)
      case (Inl e)
      then have "mw_rest st' = w1" using d b True by (cases e) (auto simp: dispatch_def)
      then show thesis using stopped same w' by simp
    next
      case (Inr s)
      let ?st1 = "?st\<lparr>mw_current := Some s, mw_rest := w1\<rparr>"
      obtain st1 where run: "base_app pf lib app rq ?st1 = (r, st1)" and st1: "mw_rest st' = mw_rest st1"
        using d b True Inr by (auto simp: dispatch_def split: prod.splits)
      have "admits pf app rq w s" using True b Inr by (simp add: admits_def)
      with run show thesis
        by (cases rule: base_app_cases) (use stopped entered [of "Some s"] same w' st1 in auto)
    qed
  qed
qed

section \<open>Isolation\<close>

text \<open>Nothing was sent for a tenant between two states.\<close>

definition silent :: "string \<Rightarrow> 'l app_world \<Rightarrow> 'l app_world \<Rightarrow> bool" where
  "silent tid w w' \<longleftrightarrow> api_sent_for w' tid = api_sent_for w tid \<and> ix_sent_for w' tid = ix_sent_for w tid"

definition of_tenant :: "string \<Rightarrow> session option \<Rightarrow> bool" where
  "of_tenant tid ctx \<longleftrightarrow> (\<exists>s. ctx = Some s \<and> s_tenant_id s = tid)"

lemma serve_silent:
  assumes "tid \<noteq> s_tenant_id s"
  shows "silent tid w (serve tenv wenv policy acq (s, elapsed, req) w)"
proof -
  have "sent_more (\<lambda>_. True) (s_tenant_id s) w (serve tenv wenv policy acq (s, elapsed, req) w)"
    by (cases req) (auto intro!: call_sends context_sends simp del: serve.simps)
  then show ?thesis using assms unfolding sent_more_def silent_def by (metis append_Nil2)
qed

lemma serve_delivery_silent:
  assumes "\<not> of_tenant tid (fst d)"
  shows "silent tid w (serve_delivery pf app d w)"
proof -
  obtain ctx ck el req where d: "d = (ctx, ck, el, req)" by (cases d)
  show ?thesis
  proof (cases ctx)
    case None
    then show ?thesis
      by (cases req) (auto simp: d serve_delivery_def rbac_call_tool_def silent_def)
  next
    case (Some s)
    have "tid \<noteq> s_tenant_id s" using assms by (auto simp: d Some of_tenant_def)
    from serve_silent [OF this] show ?thesis by (simp add: d Some serve_delivery_def)
  qed
qed

lemma deliveries_silent:
  assumes "\<forall>d \<in> set ds. \<not> of_tenant tid (fst d)"
  shows "silent tid w (foldl (\<lambda>v d. serve_delivery pf app d v) w ds)"
  using assms
proof (induction ds arbitrary: w)
  case (Cons d ds)
  then show ?case using serve_delivery_silent [of tid d w pf app] by (fastforce simp: silent_def)
qed (simp add: silent_def)

lemma http_handle_silent:
  assumes "contexts_kept lib" "\<forall>ctx \<in> set (hw_contexts w). \<not> of_tenant tid ctx"
    and "\<And>s. admits pf app rq w s \<Longrightarrow> s_tenant_id s \<noteq> tid" "http_handle pf lib app rq w = (r, w')"
  shows "silent tid (hw_app w) (hw_app w') \<and> (\<forall>ctx \<in> set (hw_contexts w'). \<not> of_tenant tid ctx)"
  using assms(4)
proof (cases rule: http_handle_cases)
  case stopped
  then show ?thesis using assms(2) by (simp add: silent_def)
next
  case (entered ctx)
  have "\<not> of_tenant tid ctx" using entered(1) assms(3) by (auto simp: of_tenant_def)
  then have all: "\<forall>c \<in> set (hw_contexts w @ [ctx]). \<not> of_tenant tid c" using assms(2) by auto
  then have "\<forall>d \<in> set (ml_deliver lib (hw_contexts w @ [ctx]) rq). \<not> of_tenant tid (fst d)"
    using assms(1) unfolding contexts_kept_def by blast
  then show ?thesis using deliveries_silent all entered(2,3) by metis
qed

text \<open>
  C1: A tenant is reached only by those who authenticate for it.  In any run of HTTP requests on a built
  application, if no request carries credentials that the authentication chain accepts as a session
  of a tenant, then nothing is sent to that tenant's indexer or manager, whatever the other
  requests, the MCP library's way of choosing among the contexts it was entered with, and the answers.
\<close>

theorem http_tenants_isolated:
  assumes "contexts_kept lib" "build_http_app pf cfg = Inr (app, w0)"
    and "\<forall>before rq after s. rqs = before @ rq # after \<and> admits pf app rq (http_run pf lib app before w0) s \<longrightarrow>
      s_tenant_id s \<noteq> tid"
  shows "api_sent_for (hw_app (http_run pf lib app rqs w0)) tid = [] \<and>
    ix_sent_for (hw_app (http_run pf lib app rqs w0)) tid = []"
proof -
  have w0: "hw_contexts w0 = []" "api_sent_for (hw_app w0) tid = []" "ix_sent_for (hw_app w0) tid = []"
    using assms(2) by (auto simp: build_http_app_def bind_res_eq_Inr fresh_app_world_def api_sent_for_def
        ix_sent_for_def new_server_api_pool_def)
  have "silent tid (hw_app w0) (hw_app (http_run pf lib app rqs w0)) \<and>
      (\<forall>ctx \<in> set (hw_contexts (http_run pf lib app rqs w0)). \<not> of_tenant tid ctx)"
    using assms(3)
  proof (induction rqs rule: rev_induct)
    case Nil
    then show ?case using w0(1) by (simp add: http_run_def silent_def)
  next
    case (snoc rq rqs)
    let ?w = "http_run pf lib app rqs w0"
    obtain r w' where h: "http_handle pf lib app rq ?w = (r, w')" by fastforce
    then have w': "http_run pf lib app (rqs @ [rq]) w0 = w'" by (simp add: http_run_def)
    have "\<forall>before q after s. rqs = before @ q # after \<and> admits pf app q (http_run pf lib app before w0) s \<longrightarrow>
        s_tenant_id s \<noteq> tid"
      using snoc.prems by (metis append_Cons append_assoc)
    then have IH: "silent tid (hw_app w0) (hw_app ?w)" "\<forall>ctx \<in> set (hw_contexts ?w). \<not> of_tenant tid ctx"
      using snoc.IH by blast+
    have "\<And>s. admits pf app rq ?w s \<Longrightarrow> s_tenant_id s \<noteq> tid" using snoc.prems by blast
    from http_handle_silent [OF assms(1) IH(2) this h] show ?case using IH(1) w' by (simp add: silent_def)
  qed
  then show ?thesis using w0 by (simp add: silent_def)
qed

section \<open>Without credentials\<close>

abbreviation request_headers :: "http_request \<Rightarrow> headers" where
  "request_headers rq \<equiv> dupdate [] (map (\<lambda>(k, v). (title_header k, v)) (hr_headers rq))"

lemma base_app_oauth: "base_app pf lib app rq st = (r, st') \<Longrightarrow> hw_oauth (mw_rest st') = hw_oauth (mw_rest st)"
  by (auto simp: base_app_def mcp_app_def Let_def split: asgi_route.splits)

lemma http_handle_oauth:
  assumes "http_handle pf lib app rq w = (r, w')"
  shows "hw_oauth w' = (if is_protected PROTECTED (hr_path rq) then hw_oauth (snd (authenticate pf app rq (request_headers rq) w)) else hw_oauth w)"
proof -
  let ?st = "\<lparr>mw_current = None, mw_rest = w\<rparr>"
  let ?url = "rstrip_char (CHR ''/'') (ha_resource_url app) @ ''/.well-known/oauth-protected-resource''"
  obtain st' where d: "dispatch PROTECTED ?url (authenticate pf app rq) (base_app pf lib app rq) (hr_path rq) (hr_headers rq) ?st = (r, st')"
    and w': "w' = mw_rest st'"
    using assms by (auto simp: http_handle_def split: prod.splits)
  show ?thesis
  proof (cases "is_protected PROTECTED (hr_path rq)")
    case False
    then have "base_app pf lib app rq ?st = (r, st')" using d by (simp add: dispatch_def)
    from base_app_oauth [OF this] show ?thesis using False w' by simp
  next
    case True
    obtain b w1 where b: "authenticate pf app rq (request_headers rq) w = (b, w1)" by fastforce
    show ?thesis
    proof (cases b)
      case (Inl e)
      then show ?thesis using d b True w' by (cases e) (auto simp: dispatch_def)
    next
      case (Inr s)
      obtain st1 where run: "base_app pf lib app rq (?st\<lparr>mw_current := Some s, mw_rest := w1\<rparr>) = (r, st1)"
        and st1: "mw_rest st' = mw_rest st1"
        using d b True Inr by (auto simp: dispatch_def split: prod.splits)
      from base_app_oauth [OF run] show ?thesis using True b w' st1 by simp
    qed
  qed
qed

text \<open>What authentication touches: at most one trusted issuer's key cache, for a bearer token in the shape
  of a JWT.\<close>

lemma authenticate_oauth:
  "hw_oauth (snd (authenticate pf app rq hs w)) = hw_oauth w \<or>
    (\<exists>token kid iss. extract_bearer hs = Inr token \<and> length (filter (\<lambda>c. c = CHR ''.'') token) = 2 \<and>
      iss \<in> oa_valid_issuers (hw_oauth w) \<and> hw_oauth (snd (authenticate pf app rq hs w)) = (hw_oauth w)\<lparr>oa_caches :=
        dset iss (snd (get_key (ck_mono (hr_clocks rq)) kid (jwks_for (pf_feeds pf) iss (hw_oauth w)))) (oa_caches (hw_oauth w))\<rparr>)"
proof (cases "extract_bearer hs")
  case (Inl e)
  then show ?thesis by (simp add: authenticate_def chain_build_def)
next
  case (Inr token)
  obtain r fac where o: "oauth_build (pf_jwt pf) (pf_feeds pf) (ck_mono (hr_clocks rq)) \<lfloor>hr_wall rq\<rfloor> hs (hw_oauth w) = (r, fac)"
    by fastforce
  from oauth_build_frame [OF o] show ?thesis using Inr o by (auto simp: authenticate_def chain_build_def)
qed

text \<open>
  C8: A request without accepted credentials reaches no tenant.  Whatever its path, its method and its
  body, it sends nothing to any tenant's indexer or manager, spends no rate-limit token, leaves no audit
  event and opens no session context for later requests.  The only state it can touch is the key cache of one
  trusted issuer, whose provider may be asked for its keys, and that only with a bearer token in the shape of
  a JWT on a protected path.  Of the MCP library it is assumed that it serves nothing outside its own path.
\<close>

theorem unauthenticated_changes_nothing:
  assumes "serves_only_mcp lib" "\<forall>s. \<not> admits pf app rq w s" "http_handle pf lib app rq w = (r, w')"
  shows "hw_app w' = hw_app w \<and> (\<forall>s. Some s \<in> set (hw_contexts w') \<longleftrightarrow> Some s \<in> set (hw_contexts w)) \<and>
    (hw_oauth w' = hw_oauth w \<or> is_protected PROTECTED (hr_path rq) \<and>
      (\<exists>token kid iss. extract_bearer (request_headers rq) = Inr token \<and> length (filter (\<lambda>c. c = CHR ''.'') token) = 2 \<and>
        iss \<in> oa_valid_issuers (hw_oauth w) \<and> hw_oauth w' = (hw_oauth w)\<lparr>oa_caches :=
          dset iss (snd (get_key (ck_mono (hr_clocks rq)) kid (jwks_for (pf_feeds pf) iss (hw_oauth w)))) (oa_caches (hw_oauth w))\<rparr>))"
proof -
  have "hw_app w' = hw_app w \<and> (\<forall>s. Some s \<in> set (hw_contexts w') \<longleftrightarrow> Some s \<in> set (hw_contexts w))"
    using assms(3)
  proof (cases rule: http_handle_cases)
    case (entered ctx)
    then have ctx: "ctx = None" "\<not> is_protected PROTECTED (hr_path rq)" using assms(2) by auto
    then have "ml_deliver lib (hw_contexts w @ [ctx]) rq = []"
      using assms(1) by (auto simp: serves_only_mcp_def is_protected_def PROTECTED_def)
    then show ?thesis using entered(2,3) ctx(1) by simp
  qed simp
  then show ?thesis
    using authenticate_oauth [of pf app rq "request_headers rq" w] unfolding http_handle_oauth [OF assms(3)]
    by (cases "is_protected PROTECTED (hr_path rq)") simp_all
qed

section \<open>What a loaded configuration gives\<close>

lemma load_http_cases:
  assumes "load_http_config url_ok feeds cd = Inr cfg"
  obtains registry oc issuer where "yaml_load url_ok (cd_tenants cd) [] = Inr registry"
    "sy_oauth (cd_server cd) = Some oc" "hc_registry cfg = Some registry"
    "load_oauth feeds (new_issuer_index (cd_tenants cd)) oc = Inr (hc_oauth cfg, issuer)"
    "hc_tenant cfg = (case cd_tenants cd of [] \<Rightarrow> None | t # ts \<Rightarrow> Some t)"
    "fst (hc_pool cfg) = yaml_get registry"
proof -
  obtain registry all_tenants where reg: "yaml_load url_ok (cd_tenants cd) [] = Inr registry"
    and all: "map_res (yaml_get registry) (tenant_ids (cd_tenants cd)) = Inr all_tenants"
    using assms by (auto simp: load_http_config_def bind_res_eq_Inr)
  have wf: "yaml_wf registry" "yaml_all registry = cd_tenants cd"
    using yaml_load_wf [OF reg] by (simp_all add: yaml_wf_def yaml_all_def)
  have get: "c \<in> set (cd_tenants cd) \<Longrightarrow> yaml_get registry (tenant_id c) = Inr c" for c
    using yaml.get_iff [OF wf(1)] wf(2) by simp
  have "map_res (yaml_get registry) (map tenant_id ts) = Inr ts" if "set ts \<subseteq> set (cd_tenants cd)" for ts
    using that by (induction ts) (simp_all add: get)
  then have "all_tenants = cd_tenants cd" using all by (simp add: tenant_ids_def)
  then show thesis
    using assms reg all that by (auto simp: load_http_config_def bind_res_eq_Inr res_simps)
qed

lemma load_oauth_Inr:
  assumes "load_oauth feeds index oc = Inr (fac, issuer)"
  shows "os_issuer oc = Some issuer \<and> oa_index fac = index \<and> oa_algorithms fac \<noteq> [] \<and>
    ''none'' \<notin> lower ` set (oa_algorithms fac) \<and> os_audience oc = Some (oa_audience fac) \<and>
    oa_valid_issuers fac = insert (canonicalise issuer) (set (known_issuers index))"
  using assms
  by (auto simp: load_oauth_def bind_res_eq_Inr res_simps new_oauth_factory_def Let_def canonicalise_def split: if_splits)

lemma per_tenant_limits_get:
  assumes "distinct (map tenant_id ts)"
  shows "per_tenant_limits ts tid = map_option rate_limit (find (\<lambda>t. tenant_id t = tid) ts)"
proof -
  let ?kvs = "map (\<lambda>t. (tenant_id t, rate_limit t)) ts"
  have "distinct (map fst ?kvs)" "distinct (map fst (rev ?kvs))"
    using assms by (simp_all add: comp_def rev_map [symmetric])
  then have "per_tenant_limits ts = map_of ?kvs"
    unfolding per_tenant_limits_def by (subst map_of_inject_set) auto
  moreover have "map_of (map (\<lambda>t. (tenant_id t, rate_limit t)) us) tid = map_option rate_limit (find (\<lambda>t. tenant_id t = tid) us)" for us
    by (induction us) auto
  ultimately show ?thesis by simp
qed

lemma find_by_key: "distinct (map f xs) \<Longrightarrow> x \<in> set xs \<Longrightarrow> find (\<lambda>y. f y = f x) xs = Some x"
  by (induction xs) force+

lemma yaml_load_valid:
  "yaml_load url_ok es ts = Inr ts' \<Longrightarrow> e \<in> set es \<Longrightarrow> model_validate url_ok e = Inr e"
  by (induction es arbitrary: ts) (auto simp: bind_res_eq_Inr model_validate_sound(1) split: if_splits)

lemma loaded_distinct:
  assumes "yaml_load url_ok es [] = Inr registry"
  shows "distinct (map tenant_id es)"
proof -
  have wf: "yaml_wf registry" "map snd registry = es"
    using yaml_load_wf [OF assms] by (simp_all add: yaml_wf_def)
  have "map tenant_id (map snd registry) = map fst registry" using wf(1) by (auto simp: yaml_wf_def)
  then show ?thesis using wf by (simp add: yaml_wf_def)
qed

lemma build_http_cases:
  assumes "build_http_app pf cfg = Inr (app, w0)"
  obtains sinks rl limiter where "build_per_tenant_sinks True (all_tenants_of cfg) [] = Inr sinks"
    "build_rate_limiter rl (default_limits cfg) (per_tenant_limits (all_tenants_of cfg)) (pf_redis_url pf) (pf_redis pf) = Inr limiter"
    "ha_registry app = policy_registry cfg" "ha_pool app = hc_pool cfg" "ha_sinks app = sinks"
    "hw_oauth w0 = hc_oauth cfg" "hw_contexts w0 = []" "hw_app w0 = fresh_app_world limiter"
  using assms by (auto simp: build_http_app_def bind_res_eq_Inr)

lemma loaded_limits:
  assumes "load_http_config url_ok feeds cd = Inr cfg" "t \<in> set (cd_tenants cd)"
    and "build_rate_limiter rl (default_limits cfg) (per_tenant_limits (all_tenants_of cfg)) url r = Inr l"
  shows "local_limiter l = new_limiter (default_limits cfg) (per_tenant_limits (cd_tenants cd))"
    and "limiter_cfg (local_limiter l) (tenant_id t) = rate_limit t"
    and "rate_limit_ok (default_limits cfg)" and "per_tenant_limits (cd_tenants cd) tid = Some c \<Longrightarrow> rate_limit_ok c"
proof -
  obtain registry where reg: "yaml_load url_ok (cd_tenants cd) [] = Inr registry" "hc_registry cfg = Some registry"
    and tenant: "hc_tenant cfg = (case cd_tenants cd of [] \<Rightarrow> None | t # ts \<Rightarrow> Some t)"
    using assms(1) by (rule load_http_cases)
  have wf: "yaml_wf registry" "map snd registry = cd_tenants cd"
    using yaml_load_wf [OF reg(1)] by (simp_all add: yaml_wf_def)
  have all: "all_tenants_of cfg = cd_tenants cd" using reg(2) wf(2) by (simp add: all_tenants_of_def yaml_all_def)
  have dist: "distinct (map tenant_id (cd_tenants cd))" by (rule loaded_distinct [OF reg(1)])
  have ok: "e \<in> set (cd_tenants cd) \<Longrightarrow> rate_limit_ok (rate_limit e)" for e
    using yaml_load_valid [OF reg(1)] model_validate_sound(3) by blast
  show st: "local_limiter l = new_limiter (default_limits cfg) (per_tenant_limits (cd_tenants cd))"
    using build_rate_limiter_limits(1) [OF assms(3)] by (simp add: all)
  have "find (\<lambda>u. tenant_id u = tenant_id t) (cd_tenants cd) = Some t"
    by (rule find_by_key [OF dist assms(2)])
  then show "limiter_cfg (local_limiter l) (tenant_id t) = rate_limit t"
    by (simp add: st limiter_cfg_def new_limiter_def per_tenant_limits_get [OF dist])
  show "rate_limit_ok (default_limits cfg)" using ok assms(2)
    by (auto simp: default_limits_def tenant split: list.splits)
  show "per_tenant_limits (cd_tenants cd) tid = Some c \<Longrightarrow> rate_limit_ok c"
    using ok by (auto simp: per_tenant_limits_get [OF dist] find_Some_iff)
qed

text \<open>
  C16: The running server is the one that was configured.  An application built from a configuration
  directory knows exactly the tenants of \<open>tenants.yaml\<close>, each of which passed validation, in its policies
  and in its client pools alike; it trusts the issuer of \<open>server.yaml\<close> and the tenants' issuers and no
  other, and never the algorithm \<open>none\<close>; the limiter, in-process or Redis with its fallback, gives every
  tenant its own limits; and a tenant's audit sinks are exactly those its own entry asks for, in order.
\<close>

theorem loaded_app_is_configured:
  assumes "load_http_config url_ok (pf_feeds pf) cd = Inr cfg" "build_http_app pf cfg = Inr (app, w0)"
  shows "(ha_registry app tid = Inr t \<longleftrightarrow> t \<in> set (cd_tenants cd) \<and> tenant_id t = tid) \<and>
    fst (ha_pool app) = ha_registry app \<and>
    (t \<in> set (cd_tenants cd) \<longrightarrow> model_validate url_ok t = Inr t) \<and>
    (\<exists>oc issuer. sy_oauth (cd_server cd) = Some oc \<and> os_issuer oc = Some issuer \<and>
      oa_valid_issuers (hw_oauth w0) = insert (canonicalise issuer) {iss. \<exists>u \<in> set (cd_tenants cd). has_issuer iss u} \<and>
      oa_algorithms (hw_oauth w0) \<noteq> [] \<and> ''none'' \<notin> lower ` set (oa_algorithms (hw_oauth w0))) \<and>
    (t \<in> set (cd_tenants cd) \<longrightarrow> limits_for (wd_limiter (hw_app w0)) (tenant_id t) = rate_limit t \<and>
      limiter_cfg (local_limiter (wd_limiter (hw_app w0))) (tenant_id t) = rate_limit t \<and>
      limiter_wf (local_limiter (wd_limiter (hw_app w0)))) \<and>
    (dget (ha_sinks app) tid = Some ss \<longleftrightarrow>
      (\<exists>u \<in> set (cd_tenants cd). tenant_id u = tid \<and> list_all2 (sink_of tid) (audit_sinks u) ss))"
proof -
  obtain registry oc issuer where reg: "yaml_load url_ok (cd_tenants cd) [] = Inr registry" "hc_registry cfg = Some registry"
    and oc: "sy_oauth (cd_server cd) = Some oc"
    and oauth: "load_oauth (pf_feeds pf) (new_issuer_index (cd_tenants cd)) oc = Inr (hc_oauth cfg, issuer)"
    and pool: "fst (hc_pool cfg) = yaml_get registry"
    using assms(1) by (rule load_http_cases)
  obtain sinks rl limiter where sinks: "build_per_tenant_sinks True (all_tenants_of cfg) [] = Inr sinks"
    and lim: "build_rate_limiter rl (default_limits cfg) (per_tenant_limits (all_tenants_of cfg)) (pf_redis_url pf) (pf_redis pf) = Inr limiter"
    and app: "ha_registry app = policy_registry cfg" "ha_pool app = hc_pool cfg" "ha_sinks app = sinks"
      "hw_oauth w0 = hc_oauth cfg" "hw_app w0 = fresh_app_world limiter"
    using assms(2) by (rule build_http_cases)
  have wf: "yaml_wf registry" "yaml_all registry = cd_tenants cd"
    using yaml_load_wf [OF reg(1)] by (simp_all add: yaml_wf_def yaml_all_def)
  have get: "ha_registry app = yaml_get registry" and all: "all_tenants_of cfg = cd_tenants cd"
    using app(1) reg(2) wf(2) by (simp_all add: policy_registry_def all_tenants_of_def)
  have issuers: "set (known_issuers (new_issuer_index (cd_tenants cd))) = {iss. \<exists>u \<in> set (cd_tenants cd). has_issuer iss u}"
    using issuer_get_unique by blast
  have w0: "wd_limiter (hw_app w0) = limiter" using app(5) by (simp add: fresh_app_world_def)
  have limits: "limits_for limiter (tenant_id t) = rate_limit t \<and>
      limiter_cfg (local_limiter limiter) (tenant_id t) = rate_limit t \<and> limiter_wf (local_limiter limiter)"
    if t: "t \<in> set (cd_tenants cd)"
  proof -
    note * = loaded_limits [OF assms(1) t lim]
    show ?thesis using *(1,2) new_limiter_wf [OF *(3)] *(4) build_rate_limiter_limits(2) [OF lim] by metis
  qed
  note own = per_tenant_sinks_isolated [OF sinks [unfolded all] loaded_distinct [OF reg(1)], of tid ss, THEN conjunct1]
  show ?thesis
    using yaml.get_iff [OF wf(1)] wf(2) pool get app oc load_oauth_Inr [OF oauth] issuers limits
      yaml_load_valid [OF reg(1)] own w0
    by auto
qed

section \<open>A server with two tenants\<close>

definition demo_dir :: config_dir where
  "demo_dir =
     \<lparr>cd_server = \<lparr>sy_oauth = Some \<lparr>os_issuer = Some ''https://idp/'', os_audience = Some ''mcp'', os_algorithms = None,
                                    os_rbac_claims = None, os_skew = None\<rparr>,
                   sy_http = Some \<lparr>hs_public_url = Some ''https://mcp'', hs_bind = None\<rparr>,
                   sy_api_keys_file = Some ''keys.yaml'', sy_rate_limiter = None, sy_active_tenant = None, sy_user_id = None,
                   sy_transport = None\<rparr>,
      cd_tenants = two_tenants, cd_secrets = JNull, cd_files = \<lambda>_. Inr JNull\<rparr>"

definition demo_platform :: "unit platform" where
  "demo_platform =
     \<lparr>pf_jwt = demo_lib, pf_feeds = demo_feeds, pf_key_lib = demo_key_lib, pf_api = \<lambda>_. demo_env, pf_read = demo_read_env,
      pf_read_decoder = demo_read_decoder, pf_arg_decoder = demo_decoder, pf_stamp = \<lambda>_. ''now'',
      pf_net_api = \<lambda>_. [], pf_net_ix = \<lambda>_. [], pf_redis_url = None,
      pf_redis = \<lparr>rd_hashes = Map.empty, rd_has_script = False, rd_faults = []\<rparr>, pf_metrics = []\<rparr>"

definition demo_clocks :: clocks where
  "demo_clocks = \<lparr>ck_mono = 0, ck_ms = 0, ck_server = 0\<rparr>"

text \<open>A library that calls one tool for every request on its path, in the context of that request.\<close>

definition demo_mcp :: mcp_lib where
  "demo_mcp =
     \<lparr>ml_deliver = \<lambda>ctxs rq. if hr_path rq = ''/mcp'' \<and> ctxs \<noteq> []
                              then [(last ctxs, demo_clocks, 1, CallTool ''alerts.get_alert'' [])] else [],
      ml_respond = \<lambda>rq. Inr (plain_response 200 JNull)\<rparr>"

definition demo_request :: "headers \<Rightarrow> http_request" where
  "demo_request hs =
     \<lparr>hr_method = ''POST'', hr_path = ''/mcp'', hr_headers = hs, hr_clocks = demo_clocks, hr_wall = 900\<rparr>"

definition bearer_headers :: headers where
  "bearer_headers = [(''authorization'', ''Bearer h.p.s'')]"

lemma demo_mcp_kept: "contexts_kept demo_mcp" "serves_only_mcp demo_mcp"
  by (auto simp: contexts_kept_def serves_only_mcp_def demo_mcp_def)

lemma demo_tenants_load:
  "yaml_load (\<lambda>_. True) two_tenants [] =
      Inr [(''a'', (sample_tenant ''a'')\<lparr>audit_sinks := []\<rparr>), (''b'', (sample_tenant ''b'')\<lparr>audit_sinks := []\<rparr>)]"
  by (simp add: two_tenants_def sample_tenant_def model_validate_def tenant_id_match_def is_lower_def
    is_digit_def opt_ok_def rate_limit_ok_def default_rate_limit_def bucket_config_ok_def
    validate_writes_def validate_ar_def validate_ar_groups_def validate_ar_groups_max_def)

lemma demo_loads: "\<exists>cfg app w0. load_http_config (\<lambda>_. True) (pf_feeds demo_platform) demo_dir = Inr cfg \<and>
    build_http_app demo_platform cfg = Inr (app, w0) \<and>
    (\<exists>st. wd_limiter (hw_app w0) = BuiltInProcess st)"
proof -
  have ids: "tenant_ids two_tenants = [''a'', ''b'']"
    by (simp add: tenant_ids_def two_tenants_def sample_tenant_def)
  have "\<exists>cfg. load_http_config (\<lambda>_. True) (pf_feeds demo_platform) demo_dir = Inr cfg \<and> hc_rate_limiter cfg = None \<and>
      all_tenants_of cfg = [(sample_tenant ''a'')\<lparr>audit_sinks := []\<rparr>, (sample_tenant ''b'')\<lparr>audit_sinks := []\<rparr>]"
    by (simp add: load_http_config_def demo_dir_def demo_tenants_load ids required_def yaml_secrets_load_def py_or_def
        yaml_get_def load_key_file_def or_else_def load_oauth_def new_oauth_factory_def
        lower_def lower_char_def is_upper_def Let_def all_tenants_of_def yaml_all_def)
  then obtain cfg where cfg: "load_http_config (\<lambda>_. True) (pf_feeds demo_platform) demo_dir = Inr cfg"
    "hc_rate_limiter cfg = None"
    "all_tenants_of cfg = [(sample_tenant ''a'')\<lparr>audit_sinks := []\<rparr>, (sample_tenant ''b'')\<lparr>audit_sinks := []\<rparr>]" by blast
  have "\<exists>app w0. build_http_app demo_platform cfg = Inr (app, w0) \<and> (\<exists>st. wd_limiter (hw_app w0) = BuiltInProcess st)"
    by (simp add: build_http_app_def cfg build_sinks_def sample_tenant_def validate_rate_limiter_def
        or_else_def default_rate_limiter_def redis_limiter_ok_def circuit_breaker_ok_def build_rate_limiter_def
        alnum_def is_lower_def is_upper_def is_digit_def fresh_app_world_def)
  then show ?thesis using cfg(1) by blast
qed

lemma demo_admits: "admits demo_platform app (demo_request bearer_headers) w s \<Longrightarrow> s_tenant_id s = ''b''"
proof -
  assume a: "admits demo_platform app (demo_request bearer_headers) w s"
  let ?hs = "[(''Authorization'', ''Bearer h.p.s'')]"
  have hs: "dupdate [] (map (\<lambda>(k, v). (title_header k, v)) bearer_headers) = ?hs"
    by code_simp
  have tok: "extract_bearer ?hs = Inr ''h.p.s''"
    by (simp add: extract_bearer_def header_or_def startswith_def py_strip_def py_space_def Let_def)
  obtain fac where "oauth_build demo_lib demo_feeds 0 900 ?hs (hw_oauth w) = (Inr s, fac)"
    using a tok by (auto simp: admits_def authenticate_def chain_build_def demo_request_def hs demo_clocks_def
        demo_platform_def startswith_def split: prod.splits)
  then obtain token claims key where "jl_decode demo_lib token key (oa_algorithms (hw_oauth w)) = Inr claims"
    "build_session (jl_float demo_lib) (hw_oauth w) claims = Inr s"
    by (rule oauth_build_cases)
  then have "build_session (jl_float demo_lib) (hw_oauth w) demo_claims = Inr s" by (simp add: demo_lib_def)
  then show ?thesis
    by (auto simp: build_session_def bind_res_eq_Inr Let_def resolve_tenant_def demo_claims_def jget_def json_str_def
        split: if_splits option.splits)
qed

theorem http_tenants_isolated_witness:
  "\<exists>cfg app w0. load_http_config (\<lambda>_. True) demo_feeds demo_dir = Inr cfg \<and> build_http_app demo_platform cfg = Inr (app, w0) \<and>
    ix_sent_for (hw_app (http_run demo_platform demo_mcp app [demo_request bearer_headers] w0)) ''a'' = []"
proof -
  obtain cfg app w0 where cfg: "load_http_config (\<lambda>_. True) (pf_feeds demo_platform) demo_dir = Inr cfg"
    and app: "build_http_app demo_platform cfg = Inr (app, w0)"
    using demo_loads by blast
  have "\<forall>before rq after s. [demo_request bearer_headers] = before @ rq # after \<and>
      admits demo_platform app rq (http_run demo_platform demo_mcp app before w0) s \<longrightarrow> s_tenant_id s \<noteq> ''a''"
    using demo_admits by (auto simp: Cons_eq_append_conv)
  from http_tenants_isolated [OF demo_mcp_kept(1) app this] show ?thesis
    using cfg app by (auto simp: demo_platform_def)
qed

theorem unauthenticated_changes_nothing_witness:
  "\<exists>cfg app w0. build_http_app demo_platform cfg = Inr (app, w0) \<and>
    hw_app (snd (http_handle demo_platform demo_mcp app (demo_request []) w0)) = hw_app w0"
proof -
  obtain cfg app w0 where app: "build_http_app demo_platform cfg = Inr (app, w0)" using demo_loads by blast
  have none: "\<forall>s. \<not> admits demo_platform app (demo_request []) w0 s"
    by (simp add: admits_def authenticate_def demo_request_def chain_build_def extract_bearer_def header_or_def
        startswith_def dupdate_def)
  from unauthenticated_changes_nothing [OF demo_mcp_kept(2) none prod.collapse [symmetric]] show ?thesis
    using app by blast
qed

theorem loaded_app_is_configured_witness:
  "\<exists>cfg app w0 t. load_http_config (\<lambda>_. True) demo_feeds demo_dir = Inr cfg \<and>
    build_http_app demo_platform cfg = Inr (app, w0) \<and> ha_registry app ''b'' = Inr t \<and> tenant_id t = ''b''"
proof -
  obtain cfg app w0 where cfg: "load_http_config (\<lambda>_. True) (pf_feeds demo_platform) demo_dir = Inr cfg"
    and app: "build_http_app demo_platform cfg = Inr (app, w0)"
    using demo_loads by blast
  let ?t = "(sample_tenant ''b'')\<lparr>audit_sinks := []\<rparr>"
  have "?t \<in> set (cd_tenants demo_dir)" "tenant_id ?t = ''b''"
    by (simp_all add: demo_dir_def two_tenants_def sample_tenant_def)
  then have "ha_registry app ''b'' = Inr ?t"
    using loaded_app_is_configured [OF cfg app, of "''b''" ?t] by blast
  then show ?thesis using cfg app \<open>tenant_id ?t = ''b''\<close> by (auto simp: demo_platform_def)
qed

end
