(* ===== verification/HttpLimits.thy ===== *)
theory HttpLimits imports HttpApp begin

text \<open>
  Rate limits end to end: the tool calls that any run of HTTP requests gets executed for a tenant are
  paid from the tenant's own bucket, whose size and refill are those of its entry in \<open>tenants.yaml\<close>.
\<close>

section \<open>The limiter along a run of calls\<close>

lemma limiter_run_append:
  "limiter_run st (cs @ ds) =
    (case limiter_run st cs of (rs, st1) \<Rightarrow> (case limiter_run st1 ds of (qs, st2) \<Rightarrow> (rs @ qs, st2)))"
  by (induction cs arbitrary: st) (auto split: prod.splits)

lemma limiter_run_length: "limiter_run st cs = (rs, st') \<Longrightarrow> length rs = length cs"
  by (induction cs arbitrary: st rs) (auto split: prod.splits)

lemma admitted_append:
  "length rs = length cs \<Longrightarrow> admitted tid (cs @ ds) (rs @ qs) = admitted tid cs rs + admitted tid ds qs"
  by (simp add: admitted_def)

text \<open>The calls of a tenant that were executed, whatever came of them: the decorator records a duration for
  every run of a handler, answered, failed or cancelled, and for nothing else.\<close>

definition executed :: "string \<Rightarrow> 'l app_world \<Rightarrow> nat" where
  "executed tid w =
     length (filter (\<lambda>(t, tool, seconds). t = tid) (wd_durations w))"

text \<open>Between two states the limiter took the calls \<open>cs\<close>, and what was executed was admitted.\<close>

definition paid :: "built_limiter app_world \<Rightarrow> call list \<Rightarrow> built_limiter app_world \<Rightarrow> bool" where
  "paid w cs w' \<longleftrightarrow>
     (\<forall>st. wd_limiter w = BuiltInProcess st \<longrightarrow>
        (\<exists>rs st'. limiter_run st cs = (rs, st') \<and> wd_limiter w' = BuiltInProcess st' \<and>
           (\<forall>tid. executed tid w' \<le> executed tid w + admitted tid cs rs)))"

lemma paid_trans:
  assumes "paid w cs w1" "paid w1 ds w2"
  shows "paid w (cs @ ds) w2"
  unfolding paid_def
proof (intro allI impI)
  fix st assume st: "wd_limiter w = BuiltInProcess st"
  obtain rs st1 where 1: "limiter_run st cs = (rs, st1)" "wd_limiter w1 = BuiltInProcess st1"
    "\<forall>tid. executed tid w1 \<le> executed tid w + admitted tid cs rs"
    using assms(1) st unfolding paid_def by blast
  obtain qs st2 where 2: "limiter_run st1 ds = (qs, st2)" "wd_limiter w2 = BuiltInProcess st2"
    "\<forall>tid. executed tid w2 \<le> executed tid w1 + admitted tid ds qs"
    using assms(2) 1(2) unfolding paid_def by blast
  have "executed tid w2 \<le> executed tid w + admitted tid (cs @ ds) (rs @ qs)" for tid
    using spec [OF 1(3), of tid] spec [OF 2(3), of tid] admitted_append [OF limiter_run_length [OF 1(1)]] by simp
  then show "\<exists>rs st'. limiter_run st (cs @ ds) = (rs, st') \<and> wd_limiter w2 = BuiltInProcess st' \<and>
      (\<forall>tid. executed tid w2 \<le> executed tid w + admitted tid (cs @ ds) rs)"
    using 1(1) 2(1,2) by (auto simp: limiter_run_append)
qed

text \<open>Nothing was called and nothing taken.\<close>

definition still :: "'l app_world \<Rightarrow> 'l app_world \<Rightarrow> bool" where
  "still w w' \<longleftrightarrow> wd_durations w' = wd_durations w \<and> wd_limiter w' = wd_limiter w"

lemma still_paid: "still w w' \<Longrightarrow> paid w [] w'"
  by (simp add: still_def paid_def executed_def admitted_def)

section \<open>One request\<close>

lemma tool_still:
  fixes w :: "'l app_world"
  assumes "map_of (all_tools tenv wenv s) name = Some h"
  shows "still w (snd (h kw w))"
  using tool_cases [OF assms]
proof (elim disjE exE conjE)
  assume "(name, h) \<in> set (read_tools tenv s)"
  from read_handler_reads [OF this, of w kw] show ?thesis by (simp add: reads_defs still_def)
next
  fix g assume g: "(name, g) \<in> set (write_tools wenv s)" "h = lift_handler g"
  let ?v = "\<lparr>wd_events = wd_events w, wd_calls = wd_calls w, wd_limited = wd_limited w,
     wd_durations = wd_durations w, wd_limiter = wd_limiter w, wd_app = ap_api (wd_app w)\<rparr>"
  obtain r v' where run: "g kw ?v = (r, v')" by fastforce
  from write_handler_adds [OF g(1) run] show ?thesis
    by (simp add: g(2) lift_handler_def run adds_def still_def)
qed

lemma run_handler_counts:
  fixes w :: "'l app_world"
  assumes "\<And>v :: 'l app_world. still v (snd (h a v))" "run_handler tool h elapsed s a w = (r, w')"
  shows "wd_limiter w' = wd_limiter w \<and> wd_durations w' = wd_durations w @ [(s_tenant_id s, tool, elapsed)]"
proof -
  let ?w1 = "if startswith tool ''write.'' then emit_events [tool_event s tool a ''write.requested'' 0 0 None] w else w"
  obtain x w2 where h: "h a ?w1 = (x, w2)" by fastforce
  have "wd_durations w2 = wd_durations w" "wd_limiter w2 = wd_limiter w"
    using assms(1) [of ?w1] h by (simp_all add: still_def emit_events_def split: if_splits)
  then show ?thesis using assms(2) h
    by (cases x) (auto simp: run_handler_def Let_def world_defs split: prod.splits)
qed

lemma instrumented_paid:
  fixes w w' :: "built_limiter app_world"
  assumes h: "\<And>v :: built_limiter app_world. still v (snd (h kw v))"
    and run: "instrumented_tool tool policy (limiter_acquire ck) h elapsed (Some s) kw w = (r, w')"
  shows "\<exists>cs. subseq cs [(ck_mono ck, s_tenant_id s, user_id s)] \<and> paid w cs w'"
proof -
  let ?c = "(ck_mono ck, s_tenant_id s, user_id s)"
  obtain x pevs where p: "policy s = (x, pevs)" by fastforce
  show ?thesis
  proof (cases x)
    case (Inl e)
    then have "still w w'" using run p by (auto simp: instrumented_tool_def emit_events_def still_def)
    then show ?thesis using still_paid by (intro exI [of _ "[]"]) simp
  next
    case (Inr pol)
    have inproc: "\<exists>st'. l = BuiltInProcess st' \<and> acquire (ck_mono ck) (s_tenant_id s) (user_id s) st = (y, st')"
      if "limiter_acquire ck (s_tenant_id s) (user_id s) (BuiltInProcess st) = (y, l)" for st y l
      using that by (auto split: prod.splits)
    have pol: "policy s = (Inr pol, pevs)" using p Inr by simp
    from pol run show ?thesis
    proof (cases rule: instrumented_cases)
      case denied
      then have "paid w [] w'" by (simp add: paid_def executed_def admitted_def)
      then show ?thesis by (intro exI [of _ "[]"]) simp
    next
      case (limited rle l)
      then have "paid w [?c] w'" using inproc by (fastforce simp: paid_def executed_def)
      then show ?thesis by blast
    next
      case (limiter_failed e l)
      then have "paid w [?c] w'" using inproc by (fastforce simp: paid_def executed_def)
      then show ?thesis by blast
    next
      case (ran l)
      from run_handler_counts [OF h ran(3)] have
        "wd_limiter w' = l" "wd_durations w' = wd_durations w @ [(s_tenant_id s, tool, elapsed)]" by auto
      then have "paid w [?c] w'" using inproc ran(2)
        by (fastforce simp: paid_def executed_def admitted_def)
      then show ?thesis by blast
    qed
  qed
qed

section \<open>A run of HTTP requests\<close>

text \<open>The limiter call a delivery can cause, and the deliveries along a run.\<close>

definition call_of :: "delivery \<Rightarrow> call list" where
  "call_of d =
     (case d of
        (Some s, ck, elapsed, CallTool name kw) \<Rightarrow> [(ck_mono ck, s_tenant_id s, user_id s)]
      | _ \<Rightarrow> [])"

definition calls_of :: "delivery list \<Rightarrow> call list" where
  "calls_of ds = concat (map call_of ds)"

lemma calls_of_simps [simp]:
  "calls_of [] = []" "calls_of (d # ds) = call_of d @ calls_of ds" "calls_of (ds @ es) = calls_of ds @ calls_of es"
  by (simp_all add: calls_of_def)

fun http_delivered ::
    "'k platform \<Rightarrow> mcp_lib \<Rightarrow> http_app \<Rightarrow> http_request list \<Rightarrow> http_world \<Rightarrow> delivery list" where
  "http_delivered pf lib app [] w = []"
| "http_delivered pf lib app (rq # rqs) w =
     (let w' = snd (http_handle pf lib app rq w)
      in (if hw_contexts w' = hw_contexts w then [] else ml_deliver lib (hw_contexts w') rq) @
         http_delivered pf lib app rqs w')"

lemma context_still: "still w (serve_context env s elapsed req w)"
  using serve_context_reads [of s w env elapsed req] by (simp add: reads_from_def still_def)

text \<open>One request of a session: at most one limiter call, and none for a resource or a prompt.\<close>

lemma serve_paid:
  "\<exists>cs. subseq cs (call_of (Some s, ck, elapsed, req)) \<and> paid w cs (serve tenv wenv policy (limiter_acquire ck) (s, elapsed, req) w)"
proof -
  have same: ?thesis if "still w (serve tenv wenv policy (limiter_acquire ck) (s, elapsed, req) w)"
    using still_paid [OF that] by (intro exI [of _ "[]"]) simp
  show ?thesis
  proof (cases req)
    case (Context c)
    show ?thesis by (rule same) (simp add: Context context_still)
  next
    case (CallTool name kw)
    have run: "serve tenv wenv policy (limiter_acquire ck) (s, elapsed, req) w =
        snd (rbac_call_tool policy (fastmcp_call_tool tenv wenv policy (limiter_acquire ck) elapsed s) (Some s) name kw w)"
      by (simp add: CallTool)
    obtain x evs where p: "policy s = (x, evs)" by fastforce
    show ?thesis
    proof (cases "\<exists>pol h. x = Inr pol \<and> is_allowed s name pol \<and>
        (map_of (all_tools tenv wenv s) name :: built_limiter app_handler option) = Some h")
      case False
      have "still w (serve tenv wenv policy (limiter_acquire ck) (s, elapsed, req) w)"
        using False p unfolding run
        by (auto simp: rbac_call_tool_def fastmcp_call_tool_def Let_def emit_events_def still_def
            split: sum.splits option.splits)
      then show ?thesis by (rule same)
    next
      case True
      then obtain pol h where ok: "x = Inr pol" "is_allowed s name pol"
        and h: "(map_of (all_tools tenv wenv s) name :: built_limiter app_handler option) = Some h" by blast
      let ?w1 = "emit_events evs w"
      obtain r w2 where i: "instrumented_tool name policy (limiter_acquire ck) h elapsed (Some s) kw ?w1 = (r, w2)" by fastforce
      obtain cs where cs: "subseq cs [(ck_mono ck, s_tenant_id s, user_id s)]" "paid ?w1 cs w2"
        using instrumented_paid [OF tool_still [OF h] i] by blast
      have "paid w [] ?w1" by (rule still_paid) (simp add: still_def emit_events_def)
      from paid_trans [OF this cs(2)] have "paid w cs w2" by simp
      moreover have "serve tenv wenv policy (limiter_acquire ck) (s, elapsed, req) w = w2"
        unfolding run using p ok h i by (simp add: rbac_call_tool_def fastmcp_call_tool_def Let_def)
      ultimately show ?thesis using cs(1) by (auto simp: CallTool call_of_def)
    qed
  qed
qed

lemma serve_delivery_paid: "\<exists>cs. subseq cs (call_of d) \<and> paid w cs (serve_delivery pf app d w)"
proof -
  obtain ctx ck el req where d: "d = (ctx, ck, el, req)" by (cases d)
  show ?thesis
  proof (cases ctx)
    case None
    have "still w (serve_delivery pf app d w)"
      by (cases req) (simp_all add: d None serve_delivery_def rbac_call_tool_def still_def)
    from still_paid [OF this] show ?thesis by (intro exI [of _ "[]"]) simp
  next
    case (Some s)
    then show ?thesis using serve_paid by (simp add: d serve_delivery_def)
  qed
qed

lemma deliveries_paid:
  "\<exists>cs. subseq cs (calls_of ds) \<and> paid w cs (foldl (\<lambda>v d. serve_delivery pf app d v) w ds)"
proof (induction ds arbitrary: w)
  case Nil
  have "paid w [] w" by (rule still_paid) (simp add: still_def)
  then show ?case by (intro exI [of _ "[]"]) simp
next
  case (Cons d ds)
  obtain cs where cs: "subseq cs (call_of d)" "paid w cs (serve_delivery pf app d w)" using serve_delivery_paid by blast
  obtain es where es: "subseq es (calls_of ds)"
    "paid (serve_delivery pf app d w) es (foldl (\<lambda>v d. serve_delivery pf app d v) (serve_delivery pf app d w) ds)"
    using Cons.IH by blast
  show ?case
    using paid_trans [OF cs(2) es(2)] list_emb_append_mono [OF cs(1) es(1)] by (intro exI [of _ "cs @ es"]) simp
qed

lemma http_run_paid:
  "\<exists>cs. subseq cs (calls_of (http_delivered pf lib app rqs w)) \<and> paid (hw_app w) cs (hw_app (http_run pf lib app rqs w))"
proof (induction rqs arbitrary: w)
  case Nil
  have "paid (hw_app w) [] (hw_app w)" by (rule still_paid) (simp add: still_def)
  then show ?case by (intro exI [of _ "[]"]) (simp add: http_run_def)
next
  case (Cons rq rqs)
  obtain r w' where h: "http_handle pf lib app rq w = (r, w')" by fastforce
  let ?ds = "if hw_contexts w' = hw_contexts w then [] else ml_deliver lib (hw_contexts w') rq"
  have "\<exists>cs. subseq cs (calls_of ?ds) \<and> paid (hw_app w) cs (hw_app w')"
    using h
  proof (cases rule: http_handle_cases)
    case stopped
    then have "paid (hw_app w) [] (hw_app w')" by (intro still_paid) (simp add: still_def)
    then show ?thesis by (intro exI [of _ "[]"]) simp
  next
    case (entered ctx)
    then show ?thesis using deliveries_paid [of "ml_deliver lib (hw_contexts w @ [ctx]) rq" "hw_app w" pf app] by simp
  qed
  then obtain cs where cs: "subseq cs (calls_of ?ds)" "paid (hw_app w) cs (hw_app w')" by blast
  obtain es where es: "subseq es (calls_of (http_delivered pf lib app rqs w'))"
    "paid (hw_app w') es (hw_app (http_run pf lib app rqs w'))" using Cons.IH by blast
  have "http_run pf lib app (rq # rqs) w = http_run pf lib app rqs w'" using h by (simp add: http_run_def)
  moreover have "http_delivered pf lib app (rq # rqs) w = ?ds @ http_delivered pf lib app rqs w'"
    using h by (simp add: Let_def)
  ultimately show ?case
    using paid_trans [OF cs(2) es(2)] list_emb_append_mono [OF cs(1) es(1)] by (intro exI [of _ "cs @ es"]) simp
qed

lemma subseq_sorted: "subseq xs ys \<Longrightarrow> sorted ys \<Longrightarrow> sorted xs"
  using sorted_nths by (auto simp: subseq_conv_nths)

text \<open>A new tenant's executed calls are within its bucket.\<close>

lemma paid_bound:
  assumes "subseq cs ds" "paid w cs w'" "wd_limiter w = BuiltInProcess st" "limiter_wf st" "lm_tenants st tid = None"
    and "sorted (call_times tid ds)" "\<forall>x \<in> set (call_times tid ds). lo \<le> x \<and> x \<le> hi" "lo \<le> hi"
  shows "of_nat (executed tid w') \<le> of_nat (executed tid w) +
    (of_int (bc_capacity (rl_tenant (limiter_cfg st tid))) + (hi - lo) * bc_refill (rl_tenant (limiter_cfg st tid)))"
proof -
  obtain rs st' where run: "limiter_run st cs = (rs, st')"
    and le: "executed tid w' \<le> executed tid w + admitted tid cs rs"
    using assms(2,3) unfolding paid_def by blast
  have sub: "subseq (call_times tid cs) (call_times tid ds)"
    unfolding call_times_def using assms(1) by (intro subseq_map subseq_filter)
  have "set (call_times tid cs) \<subseteq> set (call_times tid ds)"
    using sub set_nths_subset by (fastforce simp: subseq_conv_nths)
  then have range: "\<forall>x \<in> set (call_times tid cs). lo \<le> x \<and> x \<le> hi" using assms(7) by blast
  have "of_nat (admitted tid cs rs) \<le>
      of_int (bc_capacity (rl_tenant (limiter_cfg st tid))) + (hi - lo) * bc_refill (rl_tenant (limiter_cfg st tid))"
    by (rule run_bound_unknown [OF assms(4) run assms(5) subseq_sorted [OF sub assms(6)] range assms(8)])
  moreover have "(of_nat (executed tid w') :: rat) \<le> of_nat (executed tid w) + of_nat (admitted tid cs rs)"
    using le by (metis of_nat_add of_nat_mono)
  ultimately show ?thesis by linarith
qed

text \<open>
  C4: A tenant's tool calls are bounded by its configuration.  In any run of HTTP requests on a server
  built from a configuration directory with the in-process limiter, the number of a tenant's tool
  calls whose handler runs, whatever comes of them, is at most the capacity in its entry of \<open>tenants.yaml\<close> plus its refill over
  the time in which the calls arrive, however many sessions, credentials and other tenants take part.
\<close>

theorem http_calls_bounded:
  assumes "load_http_config url_ok (pf_feeds pf) cd = Inr cfg" "build_http_app pf cfg = Inr (app, w0)"
    and "wd_limiter (hw_app w0) = BuiltInProcess st" "t \<in> set (cd_tenants cd)"
    and "sorted (call_times (tenant_id t) (calls_of (http_delivered pf lib app rqs w0)))"
    and "\<forall>x \<in> set (call_times (tenant_id t) (calls_of (http_delivered pf lib app rqs w0))). lo \<le> x \<and> x \<le> hi" "lo \<le> hi"
  shows "of_nat (executed (tenant_id t) (hw_app (http_run pf lib app rqs w0))) \<le>
    of_int (bc_capacity (rl_tenant (rate_limit t))) + (hi - lo) * bc_refill (rl_tenant (rate_limit t))"
proof -
  obtain sinks rl limiter where
    lim: "build_rate_limiter rl (default_limits cfg) (per_tenant_limits (all_tenants_of cfg)) (pf_redis_url pf) (pf_redis pf) = Inr limiter"
    and w0: "hw_app w0 = fresh_app_world limiter"
    using assms(2) by (rule build_http_cases)
  have st: "limiter = BuiltInProcess st" using assms(3) w0 by (simp add: fresh_app_world_def)
  note limits = loaded_limits [OF assms(1,4) lim [unfolded st], unfolded local_limiter.simps]
  have wf: "limiter_wf st" using limits(1) new_limiter_wf [OF limits(3)] limits(4) by blast
  have new: "lm_tenants st (tenant_id t) = None" by (simp add: limits(1) new_limiter_def)
  have zero: "executed (tenant_id t) (hw_app w0) = 0" by (simp add: w0 fresh_app_world_def executed_def)
  obtain cs where "subseq cs (calls_of (http_delivered pf lib app rqs w0))" "paid (hw_app w0) cs (hw_app (http_run pf lib app rqs w0))"
    using http_run_paid by blast
  from paid_bound [OF this assms(3) wf new assms(5-7)] show ?thesis using limits(2) zero by simp
qed

lemma demo_calls:
  "call_times tid (calls_of (http_delivered demo_platform demo_mcp app [demo_request hs] w)) \<in> {[], [0]}"
proof -
  have "call_times tid (calls_of (ml_deliver demo_mcp ctxs rq)) \<in> {[], [0]}" for ctxs rq
    by (auto simp: demo_mcp_def call_of_def demo_clocks_def split: option.splits)
  then show ?thesis by (simp add: Let_def)
qed

theorem http_calls_bounded_witness:
  "\<exists>cfg app w0. build_http_app demo_platform cfg = Inr (app, w0) \<and>
    executed ''b'' (hw_app (http_run demo_platform demo_mcp app [demo_request bearer_headers] w0)) \<le> 250"
proof -
  obtain cfg app w0 st where cfg: "load_http_config (\<lambda>_. True) (pf_feeds demo_platform) demo_dir = Inr cfg"
    and app: "build_http_app demo_platform cfg = Inr (app, w0)" and st: "wd_limiter (hw_app w0) = BuiltInProcess st"
    using demo_loads by blast
  let ?t = "(sample_tenant ''b'')\<lparr>audit_sinks := []\<rparr>"
  let ?run = "http_run demo_platform demo_mcp app [demo_request bearer_headers] w0"
  have t: "?t \<in> set (cd_tenants demo_dir)" by (simp add: demo_dir_def two_tenants_def)
  have "of_nat (executed (tenant_id ?t) (hw_app ?run)) \<le>
      of_int (bc_capacity (rl_tenant (rate_limit ?t))) + (0 - 0 :: rat) * bc_refill (rl_tenant (rate_limit ?t))"
    by (rule http_calls_bounded [OF cfg app st t]) (use demo_calls [of "tenant_id ?t" app bearer_headers w0] in auto)
  then have "(of_nat (executed ''b'' (hw_app ?run)) :: rat) \<le> of_nat 250"
    by (simp add: sample_tenant_def default_rate_limit_def)
  then show ?thesis using app by (simp only: of_nat_le_iff) blast
qed

end
