(* ===== verification/AuditScope.thy ===== *)
theory AuditScope imports HttpApp begin

text \<open>
  The audit trail of the assembled HTTP server: every event that any run of requests leaves is of the
  session on whose behalf it was written, that session was authenticated by a request of the run, and
  the sinks built from the configuration receive exactly the events that are theirs.
\<close>

section \<open>Who an event is about\<close>

text \<open>Between two states only events of one session were emitted.\<close>

abbreviation speaks_for :: "session \<Rightarrow> ('l, 'w) world \<Rightarrow> ('l, 'w) world \<Rightarrow> bool" where
  "speaks_for s \<equiv> emits (\<lambda>e. ec_session e = s)"

lemma emits_emit_after: "\<forall>e \<in> set evs. P e \<Longrightarrow> emits P w w' \<Longrightarrow> emits P w (emit_events evs w')"
  using emits_trans emits_emit by blast

lemma tool_event_session [simp]: "ec_session (tool_event s tool a outcome n dur code) = s"
  by (simp add: tool_event_def)

text \<open>A resolver's events are about the session it resolves for, under the resolver's own name.\<close>

definition own_policy :: "(session \<Rightarrow> 'a \<times> emit_call list) \<Rightarrow> bool" where
  "own_policy p \<longleftrightarrow> (\<forall>s. \<forall>e \<in> set (snd (p s)). resolver_note s e)"

lemma own_resolve: "own_policy (resolve_with get deny proj)"
  by (auto simp: own_policy_def resolver_note_def resolve_with_def resolve_miss_def split: sum.splits)

lemma own_policies:
  "own_policy (make_rbac_policy get)" "own_policy (make_write_allowlist get)" "own_policy (make_ar_allowlist get)"
  "own_policy (make_ar_group_allowlist get)"
  by (simp_all add: resolver_defs own_resolve)

definition own_env :: "write_env \<Rightarrow> bool" where
  "own_env env \<longleftrightarrow>
     pred_option own_policy (we_write_policy env) \<and> pred_option own_policy (we_ar_policy env) \<and>
     pred_option own_policy (we_group_policy env)"

section \<open>The write handlers\<close>

lemma with_client_notes: "emits (resolver_note s) w (snd (with_client env s m w))"
  by (rule emits_same) (auto simp: with_client_def split: prod.splits sum.splits)

lemma check_write_own: "own_env env \<Longrightarrow> \<forall>e \<in> set (snd (check_write_allowed env s tool)). resolver_note s e"
  by (fastforce simp: own_env_def own_policy_def check_write_allowed_def split: option.splits prod.splits sum.splits)

lemma resolve_list_own:
  "pred_option own_policy p \<Longrightarrow> \<forall>e \<in> set (snd (resolve_list p missing s)). resolver_note s e"
  by (auto simp: own_policy_def resolve_list_def split: option.splits)

lemma guarded_notes:
  assumes "own_env env" "\<And>a v. emits (resolver_note s) v (snd (body a v))"
  shows "emits (resolver_note s) w (snd (guarded_write env s tool parsed body w))"
proof (cases parsed)
  case (Inl e)
  then show ?thesis by (simp add: guarded_write_def emits_same)
next
  case (Inr a)
  obtain x evs where c: "check_write_allowed env s tool = (x, evs)" by fastforce
  have "emits (resolver_note s) w (emit_events evs w)" using check_write_own [OF assms(1), of s tool] c by (simp add: emits_emit)
  then show ?thesis using Inr c emits_trans [OF _ assms(2)] by (cases x) (simp_all add: guarded_write_def)
qed

lemma resolved_notes:
  assumes "\<forall>e \<in> set (snd v). resolver_note s e"
  shows "emits (resolver_note s) w (snd (case v of (Inl e, evs) \<Rightarrow> (Inl e, emit_events evs w)
    | (Inr al, evs) \<Rightarrow> with_client env s (m al) (emit_events evs w)))"
proof -
  obtain x evs where v: "v = (x, evs)" by fastforce
  have "emits (resolver_note s) w (emit_events evs w)" using assms v by (simp add: emits_emit)
  then show ?thesis using v emits_trans [OF _ with_client_notes] by (cases x) auto
qed

lemma write_handler_notes:
  fixes w :: "('l, server_api_pool) world"
  assumes "own_env env" "(tool, h) \<in> set (write_tools env s)"
  shows "emits (resolver_note s) w (snd (h kw w))"
proof -
  have lists: "\<forall>e \<in> set (snd (resolve_list (we_ar_policy env) m s)). resolver_note s e"
    "\<forall>e \<in> set (snd (resolve_list (we_group_policy env) m s)). resolver_note s e" for m
    using assms(1) resolve_list_own by (auto simp: own_env_def)
  note guard = guarded_notes [OF assms(1)]
  consider "h = isolate_inner env s" | "h = restart_inner env s" | "h = add_group_inner env s"
    | "h = remove_group_inner env s" | "h = create_rule_inner env s" | "h = update_rule_inner env s"
    | "h = run_ar_inner env s" | "h = run_ar_on_group_inner env s" | "h = restart_manager_inner env s"
    using assms(2) by (auto simp: write_tools_def)
  then show ?thesis
    by cases (simp_all only: handler_defs, (rule guard, (rule with_client_notes | rule resolved_notes, rule lists))+)
qed

section \<open>The whole of a request\<close>

lemma with_clients_speaks:
  assumes "\<And>cs r evs cs'. m cs = ((r, evs), cs') \<Longrightarrow> \<forall>e \<in> set evs. ec_session e = s"
  shows "speaks_for s w (snd (with_clients env s m w))"
  using assms
  by (auto simp: with_clients_def emits_def emit_events_def split: sum.splits prod.splits)

lemma with_api_events: "wd_events (snd (with_api env s m w)) = wd_events w"
  by (auto simp: with_api_def split: prod.splits sum.splits)

lemma with_indexer_events: "wd_events (snd (with_indexer env s m w)) = wd_events w"
  by (auto simp: with_indexer_def split: prod.splits sum.splits)

lemma audited_read_own: "audited_read env renv s tool a what path params pick item ttl c = ((r, evs), c') \<Longrightarrow>
    \<forall>e \<in> set evs. ec_session e = s"
  by (auto simp: audited_read_def split: prod.splits sum.splits exn.splits if_splits)

lemma resource_handler_speaks:
  assumes "\<And>c r evs c'. m c = ((r, evs), c') \<Longrightarrow> \<forall>e \<in> set evs. ec_session e = s"
  shows "speaks_for s w (snd (resource_handler env s m w))"
proof -
  let ?m = "\<lambda>c. case m c of (out, c1) \<Rightarrow> (Inr out, c1)"
  obtain x w1 where a: "with_api env s ?m w = (x, w1)" by fastforce
  have same: "wd_events w1 = wd_events w" using with_api_events [of env s ?m w] a by simp
  show ?thesis
  proof (cases x)
    case (Inl e)
    then show ?thesis using a same by (simp add: resource_handler_def emits_same)
  next
    case (Inr p)
    obtain r evs where p: "p = (r, evs)" by fastforce
    have "\<exists>c c'. m c = ((r, evs), c')"
      using a Inr p by (auto simp: with_api_def split: prod.splits sum.splits)
    then have "\<forall>e \<in> set evs. ec_session e = s" using assms by blast
    then show ?thesis using a Inr p same by (simp add: resource_handler_def emits_def emit_events_def)
  qed
qed

lemma context_reads_own:
  "read_rule env renv s i c = ((r, evs), c') \<Longrightarrow> \<forall>e \<in> set evs. ec_session e = s"
  "read_mitre_technique env renv s i c = ((r, evs), c') \<Longrightarrow> \<forall>e \<in> set evs. ec_session e = s"
  "read_agent_config env renv s i c = ((r, evs), c') \<Longrightarrow> \<forall>e \<in> set evs. ec_session e = s"
  by (auto simp: read_rule_def read_mitre_technique_def read_agent_config_def dest!: audited_read_own split: if_splits)

lemma playbooks_own:
  "triage_last_hour env s elapsed ix = ((r, evs), ix') \<Longrightarrow> \<forall>e \<in> set evs. ec_session e = s"
  "investigate_alert aenv env s elapsed i cs = ((r, evs), cs') \<Longrightarrow> \<forall>e \<in> set evs. ec_session e = s"
  "agent_posture aenv env s elapsed i cs = ((r, evs), cs') \<Longrightarrow> \<forall>e \<in> set evs. ec_session e = s"
  by (auto simp: triage_last_hour_def investigate_alert_def investigate_event_def agent_posture_def Let_def
      split: prod.splits sum.splits exn.splits if_splits)

lemma triage_prompt_speaks: "speaks_for s w (snd (prompt_triage_last_hour env s elapsed w))"
proof -
  let ?m = "\<lambda>c. case triage_last_hour (te_read env) s elapsed c of (out, c1) \<Rightarrow> (Inr out, c1)"
  obtain x w1 where a: "with_indexer env s ?m w = (x, w1)" by fastforce
  have same: "wd_events w1 = wd_events w" using with_indexer_events [of env s ?m w] a by simp
  show ?thesis
  proof (cases x)
    case (Inl e)
    then show ?thesis using a same by (simp add: prompt_triage_last_hour_def emits_same)
  next
    case (Inr p)
    obtain r evs where p: "p = (r, evs)" by fastforce
    have "\<exists>c c'. triage_last_hour (te_read env) s elapsed c = ((r, evs), c')"
      using a Inr p by (auto simp: with_indexer_def split: prod.splits sum.splits)
    then have "\<forall>e \<in> set evs. ec_session e = s" using playbooks_own(1) by blast
    then show ?thesis using a Inr p same by (simp add: prompt_triage_last_hour_def emits_def emit_events_def)
  qed
qed

lemma serve_context_speaks: "speaks_for s w (serve_context env s elapsed req w)"
proof (cases req)
  case (RuleResource i)
  then show ?thesis by (auto simp: resource_rule_def intro!: resource_handler_speaks dest: context_reads_own(1))
next
  case (MitreResource i)
  then show ?thesis by (auto simp: resource_mitre_def intro!: resource_handler_speaks dest: context_reads_own(2))
next
  case (AgentConfigResource i)
  then show ?thesis by (auto simp: resource_agent_config_def intro!: resource_handler_speaks dest: context_reads_own(3))
next
  case TriagePrompt
  then show ?thesis by (simp add: triage_prompt_speaks)
next
  case (InvestigatePrompt i)
  then show ?thesis by (auto simp: prompt_investigate_alert_def intro!: with_clients_speaks dest: playbooks_own(2))
next
  case (PosturePrompt i)
  then show ?thesis by (auto simp: prompt_agent_posture_def intro!: with_clients_speaks dest: playbooks_own(3))
qed

lemma run_handler_speaks:
  assumes "\<And>v. speaks_for s v (snd (h a v))"
  shows "speaks_for s w (snd (run_handler tool h elapsed s a w))"
proof -
  let ?w1 = "if startswith tool ''write.'' then emit_events [tool_event s tool a ''write.requested'' 0 0 None] w else w"
  obtain x w2 where h: "h a ?w1 = (x, w2)" by fastforce
  have "speaks_for s w ?w1" by (simp add: emits_emit emits_same)
  then have "speaks_for s w w2" using assms [of ?w1] h emits_trans by fastforce
  then have "speaks_for s w (record_duration s tool elapsed (count_call s tool label w2))" for label
    by (simp add: emits_def record_duration_def count_call_def)
  then show ?thesis using h
    by (cases x) (auto simp: run_handler_def Let_def intro!: emits_emit_after split: prod.splits)
qed

lemma instrumented_speaks:
  assumes "own_policy policy" "\<And>v. speaks_for s v (snd (h a v))"
  shows "speaks_for s w (snd (instrumented_tool tool policy acq h elapsed (Some s) a w))"
proof -
  obtain x evs where p: "policy s = (x, evs)" by fastforce
  have evs: "\<forall>e \<in> set evs. ec_session e = s" using assms(1) p unfolding own_policy_def resolver_note_def by force
  obtain r w' where run: "instrumented_tool tool policy acq h elapsed (Some s) a w = (r, w')" by fastforce
  show ?thesis
  proof (cases x)
    case (Inl e)
    then show ?thesis using p evs by (simp add: instrumented_tool_def emits_emit)
  next
    case (Inr pol)
    have pol: "policy s = (Inr pol, evs)" using p Inr by simp
    from pol run show ?thesis
    proof (cases rule: instrumented_cases)
      case (ran l)
      have "speaks_for s w (w\<lparr>wd_events := wd_events w @ evs, wd_limiter := l\<rparr>)" using evs by (simp add: emits_def)
      then show ?thesis using run_handler_speaks [where h = h and a = a, OF assms(2)] ran(3) run emits_trans by (metis snd_conv)
    qed (use run evs in \<open>simp_all add: emits_def\<close>)
  qed
qed

lemma read_tool_speaks: "(name, h) \<in> set (read_tools env s) \<Longrightarrow> speaks_for s w (snd (h kw w))"
  using read_handler_reads [of name h env s w kw] by (simp add: reads_only_def emits_same)

lemma tool_speaks:
  fixes w :: "'l app_world"
  assumes "own_env wenv" "map_of (all_tools tenv wenv s) name = Some h"
  shows "speaks_for s w (snd (h kw w))"
  using tool_cases [OF assms(2)]
proof (elim disjE exE conjE)
  assume "(name, h) \<in> set (read_tools tenv s)"
  then show ?thesis by (rule read_tool_speaks)
next
  fix g assume g: "(name, g) \<in> set (write_tools wenv s)" "h = lift_handler g"
  let ?v = "\<lparr>wd_events = wd_events w, wd_calls = wd_calls w, wd_limited = wd_limited w,
     wd_durations = wd_durations w, wd_limiter = wd_limiter w, wd_app = ap_api (wd_app w)\<rparr>"
  obtain r v' where run: "g kw ?v = (r, v')" by fastforce
  have "emits (resolver_note s) ?v v'" using write_handler_notes [OF assms(1) g(1), of ?v kw] run by simp
  then have "speaks_for s ?v v'" by (rule emits_mono) (simp add: resolver_note_def)
  then show ?thesis by (simp add: g(2) lift_handler_def run emits_def)
qed

lemma serve_speaks:
  fixes w :: "'l app_world"
  assumes "own_env wenv" "own_policy policy"
  shows "speaks_for s w (serve tenv wenv policy acq (s, elapsed, req) w)"
proof (cases req)
  case (Context c)
  then show ?thesis by (simp add: serve_context_speaks)
next
  case (CallTool name kw)
  obtain x evs where p: "policy s = (x, evs)" by fastforce
  have evs: "\<forall>e \<in> set evs. ec_session e = s" using assms(2) p unfolding own_policy_def resolver_note_def by force
  have call: "speaks_for s v (snd (fastmcp_call_tool tenv wenv policy acq elapsed s name kw v))" for v :: "'l app_world"
  proof (cases "map_of (all_tools tenv wenv s) name :: 'l app_handler option")
    case (Some h)
    then show ?thesis using instrumented_speaks [OF assms(2), where h = h and a = kw, OF tool_speaks [OF assms(1) Some]]
      by (simp add: fastmcp_call_tool_def)
  qed (simp add: fastmcp_call_tool_def emits_same)
  have "speaks_for s w (emit_events evs w)" using evs by (rule emits_emit)
  then show ?thesis using CallTool p evs emits_trans [OF _ call]
    by (auto simp: rbac_call_tool_def Let_def intro!: emits_emit_after split: sum.splits)
qed

section \<open>A run of the server\<close>

lemma app_env_own: "own_env (app_write_env pf pool registry ck)"
  by (simp add: own_env_def app_write_env_def own_policies)

text \<open>The events written in a state are of sessions among the contexts the library was entered with.\<close>

definition events_in_context :: "http_world \<Rightarrow> bool" where
  "events_in_context w \<longleftrightarrow> (\<forall>e \<in> set (wd_events (hw_app w)). Some (ec_session e) \<in> set (hw_contexts w))"

lemma serve_delivery_events:
  "set (wd_events (serve_delivery pf app d w)) \<subseteq> set (wd_events w) \<union> {e. Some (ec_session e) = fst d}"
proof -
  obtain ctx ck elapsed req where d: "d = (ctx, ck, elapsed, req)" by (cases d)
  show ?thesis
  proof (cases ctx)
    case None
    then show ?thesis by (cases req) (auto simp: d serve_delivery_def rbac_call_tool_def)
  next
    case (Some s)
    then have "speaks_for s w (serve_delivery pf app d w)"
      unfolding d serve_delivery_def by (auto intro!: serve_speaks app_env_own own_policies)
    then show ?thesis by (auto simp: emits_def d Some)
  qed
qed

lemma deliveries_events:
  "set (wd_events (foldl (\<lambda>v d. serve_delivery pf app d v) w ds)) \<subseteq>
     set (wd_events w) \<union> {e. Some (ec_session e) \<in> fst ` set ds}"
proof (induction ds arbitrary: w)
  case (Cons d ds)
  show ?case using Cons.IH [of "serve_delivery pf app d w"] serve_delivery_events [of pf app d w] by auto
qed simp

lemma http_handle_events:
  assumes "contexts_kept lib" "events_in_context w" "http_handle pf lib app rq w = (r, w')"
  shows "events_in_context w'"
  using assms(3)
proof (cases rule: http_handle_cases)
  case stopped
  then show ?thesis using assms(2) by (simp add: events_in_context_def)
next
  case (entered ctx)
  let ?ds = "ml_deliver lib (hw_contexts w @ [ctx]) rq"
  have kept: "fst ` set ?ds \<subseteq> set (hw_contexts w')" using assms(1) entered(2) unfolding contexts_kept_def by fastforce
  have sub: "set (wd_events (hw_app w')) \<subseteq> set (wd_events (hw_app w)) \<union> {e. Some (ec_session e) \<in> fst ` set ?ds}"
    using deliveries_events entered(3) by metis
  show ?thesis unfolding events_in_context_def
  proof
    fix e assume "e \<in> set (wd_events (hw_app w'))"
    then have "e \<in> set (wd_events (hw_app w)) \<or> Some (ec_session e) \<in> fst ` set ?ds" using sub by blast
    then show "Some (ec_session e) \<in> set (hw_contexts w')"
      using assms(2) kept entered(2) unfolding events_in_context_def by auto
  qed
qed

lemma http_run_events:
  assumes "contexts_kept lib" "build_http_app pf cfg = Inr (app, w0)"
  shows "events_in_context (http_run pf lib app rqs w0)"
proof (induction rqs rule: rev_induct)
  case Nil
  then show ?case using assms(2)
    by (auto simp: http_run_def events_in_context_def build_http_app_def bind_res_eq_Inr fresh_app_world_def)
next
  case (snoc rq rqs)
  show ?case using http_handle_events [OF assms(1) snoc.IH prod.collapse [symmetric]] by (simp add: http_run_def)
qed

text \<open>Every session among the contexts was admitted with a request of the run.\<close>

lemma http_run_contexts:
  assumes "hw_contexts w0 = []" "Some s \<in> set (hw_contexts (http_run pf lib app rqs w0))"
  shows "\<exists>before rq after. rqs = before @ rq # after \<and> admits pf app rq (http_run pf lib app before w0) s"
  using assms(2)
proof (induction rqs rule: rev_induct)
  case Nil
  then show ?case using assms(1) by (simp add: http_run_def)
next
  case (snoc rq rqs)
  let ?w = "http_run pf lib app rqs w0"
  obtain r w' where h: "http_handle pf lib app rq ?w = (r, w')" by fastforce
  have mem: "Some s \<in> set (hw_contexts w')" using snoc.prems h by (simp add: http_run_def)
  show ?case
  proof (cases "Some s \<in> set (hw_contexts ?w)")
    case True
    then obtain before q after where "rqs = before @ q # after" "admits pf app q (http_run pf lib app before w0) s"
      using snoc.IH by blast
    then show ?thesis by (intro exI [of _ before] exI [of _ q] exI [of _ "after @ [rq]"]) simp
  next
    case False
    have "admits pf app rq ?w s" using h by (cases rule: http_handle_cases) (use mem False in auto)
    then show ?thesis by blast
  qed
qed

section \<open>The emitter of the running server\<close>

text \<open>Without explicit sinks the emitter has one global sink, on standard error; a sink has a queue of
  ten thousand events and, unless configured, five attempts.\<close>

fun sink_attempts :: "sink_object \<Rightarrow> int" where
  "sink_attempts (HttpSink url batch flush_ms max_attempts) = max_attempts"
| "sink_attempts (WazuhIndexerSink tid index_prefix batch flush_ms max_attempts) = max_attempts"
| "sink_attempts other_sink = 5"

definition open_sink :: "sink_object \<Rightarrow> queued_sink" where
  "open_sink sink = new_queued_sink 10000 (sink_attempts sink)"

definition app_emitter :: "(string, sink_object list) dict \<Rightarrow> queued_sink emitter" where
  "app_emitter per_tenant =
     \<lparr>em_globals = [open_sink StderrSink], em_tenants = map (\<lambda>(tid, ss). (tid, map open_sink ss)) per_tenant\<rparr>"

lemma open_sink_facts: "sink_ok (open_sink k)" "sink_account (open_sink k) = {#}"
  by (simp_all add: open_sink_def new_queued_sink_def sink_ok_def sink_account_def queued_def in_flight_def)

lemma app_emitter_ok: "\<forall>k \<in> set (all_sinks (app_emitter per_tenant)). sink_ok k"
  by (auto simp: all_sinks_def app_emitter_def open_sink_facts)

lemma app_emitter_get: "dget (em_tenants (app_emitter per_tenant)) tid = map_option (map open_sink) (dget per_tenant tid)"
  by (simp add: app_emitter_def map_of_map)

text \<open>
  C6: The audit trail tells the truth about who acted.  In any run of HTTP requests on a built application,
  every audit event carries the session of a request of the run that passed authentication, whatever
  the requests, the MCP library's interleaving and the answers; the global sink accounts for every
  event, and each sink of a tenant for exactly the events of that tenant's sessions.
\<close>

theorem http_audit_scoped:
  assumes "contexts_kept lib" "build_http_app pf cfg = Inr (app, w0)"
    and "map snd cs = wd_events (hw_app (http_run pf lib app rqs w0))" "em = emit_all submit_op cs (app_emitter (ha_sinks app))"
  shows "(\<forall>c \<in> set cs. \<exists>before rq after. rqs = before @ rq # after \<and>
      admits pf app rq (http_run pf lib app before w0) (ec_session (snd c))) \<and>
    map sink_account (em_globals em) = [mset (map (\<lambda>(env, c). build_event env c) cs)] \<and>
    (\<forall>tid ss. dget (ha_sinks app) tid = Some ss \<longrightarrow>
      (\<exists>sinks. dget (em_tenants em) tid = Some sinks \<and>
        map sink_account sinks = replicate (length ss) (mset (events_for tid cs))))"
proof (intro conjI ballI allI impI)
  have w0: "hw_contexts w0 = []" using assms(2) by (auto simp: build_http_app_def bind_res_eq_Inr)
  fix c assume "c \<in> set cs"
  then have "snd c \<in> set (wd_events (hw_app (http_run pf lib app rqs w0)))" unfolding assms(3) [symmetric] by simp
  then have "Some (ec_session (snd c)) \<in> set (hw_contexts (http_run pf lib app rqs w0))"
    using http_run_events [OF assms(1,2)] unfolding events_in_context_def by blast
  from http_run_contexts [OF w0 this] show "\<exists>before rq after. rqs = before @ rq # after \<and>
      admits pf app rq (http_run pf lib app before w0) (ec_session (snd c))" .
next
  show "map sink_account (em_globals em) = [mset (map (\<lambda>(env, c). build_event env c) cs)]"
    using app_emitter_ok [of "ha_sinks app"]
    by (simp add: assms(4) emit_all_globals qsink.fold_account all_sinks_def app_emitter_def open_sink_facts)
next
  fix tid ss assume "dget (ha_sinks app) tid = Some ss"
  then have g: "dget (em_tenants (app_emitter (ha_sinks app))) tid = Some (map open_sink ss)" by (simp add: app_emitter_get)
  have "map sink_account (map (fold submit_op (events_for tid cs)) (map open_sink ss)) =
      replicate (length ss) (mset (events_for tid cs))"
    by (induction ss) (simp_all add: qsink.fold_account open_sink_facts)
  then show "\<exists>sinks. dget (em_tenants em) tid = Some sinks \<and>
      map sink_account sinks = replicate (length ss) (mset (events_for tid cs))"
    using g by (simp add: assms(4) emit_all_tenants)
qed

theorem http_audit_scoped_witness:
  "\<exists>app w0 cs. map snd cs = wd_events (hw_app (http_run demo_platform demo_mcp app [demo_request bearer_headers] w0)) \<and>
    {c \<in> set cs. s_tenant_id (ec_session (snd c)) \<noteq> ''b''} = {} \<and>
    map sink_account (em_globals (emit_all submit_op cs (app_emitter (ha_sinks app)))) =
      [mset (map (\<lambda>(env, c). build_event env c) cs)]"
proof -
  obtain cfg app w0 where app: "build_http_app demo_platform cfg = Inr (app, w0)" using demo_loads by blast
  let ?rqs = "[demo_request bearer_headers]"
  let ?cs = "map (Pair sample_env) (wd_events (hw_app (http_run demo_platform demo_mcp app ?rqs w0)))"
  have cs: "map snd ?cs = wd_events (hw_app (http_run demo_platform demo_mcp app ?rqs w0))" by (simp add: comp_def)
  note scoped = http_audit_scoped [OF demo_mcp_kept(1) app cs refl]
  have "s_tenant_id (ec_session (snd c)) = ''b''" if "c \<in> set ?cs" for c
    using scoped that demo_admits by (fastforce simp: Cons_eq_append_conv)
  then have "{c \<in> set ?cs. s_tenant_id (ec_session (snd c)) \<noteq> ''b''} = {}" by blast
  moreover have "map sink_account (em_globals (emit_all submit_op ?cs (app_emitter (ha_sinks app)))) =
      [mset (map (\<lambda>(env, c). build_event env c) ?cs)]" by (rule scoped [THEN conjunct2, THEN conjunct1])
  ultimately show ?thesis using cs by (intro exI [of _ app] exI [of _ w0] exI [of _ ?cs] conjI)
qed

end
