(* ===== verification/CallTrail.thy ===== *)
theory CallTrail imports AuditScope begin

text \<open>
  No call without a trace: what a call of any registered tool leaves in the audit trail and on the
  meters (\<open>observability/decorators.py\<close> around the handlers of \<open>tools/\<close>), under either limiter.
\<close>

section \<open>Every registered handler leaves the trail to the decorator\<close>

lemma tool_leaves_trail:
  fixes h :: "'l app_handler"
  assumes "own_env wenv" "map_of (all_tools tenv wenv s) name = Some h"
  shows "leaves_trail s kw h"
  unfolding leaves_trail_def
proof
  fix w :: "'l app_world"
  show "emits (resolver_note s) w (snd (h kw w)) \<and> wd_calls (snd (h kw w)) = wd_calls w \<and>
      wd_durations (snd (h kw w)) = wd_durations w \<and> wd_limiter (snd (h kw w)) = wd_limiter w"
    using tool_cases [OF assms(2)]
  proof (elim disjE exE conjE)
    assume "(name, h) \<in> set (read_tools tenv s)"
    from read_handler_reads [OF this, of w kw] show ?thesis by (simp add: reads_defs emits_same)
  next
    fix g assume g: "(name, g) \<in> set (write_tools wenv s)" "h = lift_handler g"
    let ?v = "\<lparr>wd_events = wd_events w, wd_calls = wd_calls w, wd_limited = wd_limited w,
       wd_durations = wd_durations w, wd_limiter = wd_limiter w, wd_app = ap_api (wd_app w)\<rparr>"
    obtain r v' where run: "g kw ?v = (r, v')" by fastforce
    have "emits (resolver_note s) ?v v'" using write_handler_notes [OF assms(1) g(1), of ?v kw] run by simp
    with write_handler_adds [OF g(1) run] show ?thesis
      by (simp add: g(2) lift_handler_def run adds_def emits_def)
  qed
qed

section \<open>What a limiter raises\<close>

text \<open>The refusals of a limiter are \<open>rate_limited\<close> errors: of the in-process limiter when its
  configuration passed validation, of the Redis limiter when moreover the Redis client raises errors of
  its own only.\<close>

definition redis_raises_own :: "redis_limiter \<Rightarrow> bool" where
  "redis_raises_own st \<longleftrightarrow>
     (\<forall>we. LostRequest (WazuhE we) \<notin> set (rd_faults (rl_redis st)) \<and> LostReply (WazuhE we) \<notin> set (rd_faults (rl_redis st)))"

fun limiter_sound :: "built_limiter \<Rightarrow> bool" where
  "limiter_sound (BuiltInProcess st) = limiter_wf st"
| "limiter_sound (BuiltRedis url st) = (limiter_wf (ensure_fallback st) \<and> redis_raises_own st)"

text \<open>What the commands of the Redis limiter keep.\<close>

definition same_sound :: "redis_limiter \<Rightarrow> redis_limiter \<Rightarrow> bool" where
  "same_sound st st' \<longleftrightarrow> ensure_fallback st' = ensure_fallback st \<and>
     set (rd_faults (rl_redis st')) \<subseteq> set (rd_faults (rl_redis st))"

lemma same_sound_trans: "same_sound st st1 \<Longrightarrow> same_sound st1 st2 \<Longrightarrow> same_sound st st2"
  unfolding same_sound_def by auto

lemma same_sound_raises: "same_sound st st' \<Longrightarrow> redis_raises_own st \<Longrightarrow> redis_raises_own st'"
  unfolding same_sound_def redis_raises_own_def by blast

lemma command_raises:
  assumes "redis_command cmd r = (x, r')" "\<And>v. rd_faults (snd (cmd v)) = rd_faults v"
    and "\<And>v e. fst (cmd v) = Inl e \<Longrightarrow> e = NoScriptE"
  shows "set (rd_faults r') \<subseteq> set (rd_faults r)"
    and "x = Inl e \<Longrightarrow> e = NoScriptE \<or> LostRequest e \<in> set (rd_faults r) \<or> LostReply e \<in> set (rd_faults r)"
proof -
  have keep: "rd_faults v' = rd_faults v \<and> (\<forall>e. y = Inl e \<longrightarrow> e = NoScriptE)" if "cmd v = (y, v')" for v y v'
    using assms(2) [of v] assms(3) [of v] that by auto
  show "set (rd_faults r') \<subseteq> set (rd_faults r)"
    using assms(1) by (auto simp: redis_command_def Let_def assms(2) dest: keep split: list.splits fault.splits)
  show "x = Inl e \<Longrightarrow> e = NoScriptE \<or> LostRequest e \<in> set (rd_faults r) \<or> LostReply e \<in> set (rd_faults r)"
    using assms(1) by (auto simp: redis_command_def Let_def dest: keep split: list.splits fault.splits)
qed

lemma load_script_raises:
  assumes "load_script st = (x, st')" "redis_raises_own st"
  shows "same_sound st st'" and "x \<noteq> Inl (WazuhE we)"
proof -
  obtain y r' where c: "redis_command script_load_command (rl_redis st) = (y, r')" by fastforce
  note k = command_raises [OF c]
  have *: "rd_faults (snd (script_load_command v)) = rd_faults v" "fst (script_load_command v) \<noteq> Inl e" for v e
    by (simp_all add: script_load_command_def)
  show "same_sound st st'" using assms(1) c k(1) *
    by (auto simp: load_script_def same_sound_def ensure_fallback_def split: sum.splits option.splits)
  show "x \<noteq> Inl (WazuhE we)" using assms c k(2) [of "WazuhE we"] *
    by (auto simp: load_script_def redis_raises_own_def split: sum.splits)
qed

lemma evalsha_raises:
  assumes "evalsha ck key cfg n ttl st = (x, st')" "redis_raises_own st"
  shows "same_sound st st'" and "x \<noteq> Inl (WazuhE we)"
proof -
  let ?cmd = "evalsha_command (ck_server ck) key (bc_capacity cfg) (bc_refill cfg) (ck_ms ck) n ttl"
  obtain y r' where c: "redis_command ?cmd (rl_redis st) = (y, r')" by fastforce
  note k = command_raises [OF c]
  have *: "rd_faults (snd (?cmd v)) = rd_faults v" "fst (?cmd v) = Inl e \<Longrightarrow> e = NoScriptE" for v e
    by (auto simp: evalsha_command_def split: prod.splits if_splits)
  show "same_sound st st'" using assms(1) c k(1) *
    by (auto simp: evalsha_def same_sound_def ensure_fallback_def split: option.splits)
  show "x \<noteq> Inl (WazuhE we)" using assms c k(2) [of "WazuhE we"] *
    by (auto simp: evalsha_def redis_raises_own_def)
qed

lemma run_script_raises:
  assumes "run_script ck key cfg n ttl st = (x, st')" "redis_raises_own st"
  shows "same_sound st st' \<and> x \<noteq> Inl (WazuhE we)"
proof -
  obtain y st1 where 1: "(if rl_script_sha st then (Inr (), st) else load_script st) = (y, st1)" by fastforce
  have s1: "same_sound st st1" "y \<noteq> Inl (WazuhE we)"
    using 1 load_script_raises [of st y st1] assms(2) by (auto simp: same_sound_def split: if_splits)
  note o1 = same_sound_raises [OF s1(1) assms(2)]
  obtain z st2 where 2: "evalsha ck key cfg n ttl st1 = (z, st2)" by fastforce
  note s2 = evalsha_raises [OF 2 o1]
  note o2 = same_sound_raises [OF s2(1) o1]
  obtain y3 st3 where 3: "load_script st2 = (y3, st3)" by fastforce
  note s3 = load_script_raises [OF 3 o2]
  note o3 = same_sound_raises [OF s3(1) o2]
  obtain z4 st4 where 4: "evalsha ck key cfg n ttl st3 = (z4, st4)" by fastforce
  note s4 = evalsha_raises [OF 4 o3]
  show ?thesis
    using assms(1) 1 2 3 4 s1 s2 s3 s4 same_sound_trans [OF s1(1) s2(1)]
      same_sound_trans [OF same_sound_trans [OF s1(1) s2(1)] s3(1)]
      same_sound_trans [OF same_sound_trans [OF same_sound_trans [OF s1(1) s2(1)] s3(1)] s4(1)]
    by (auto simp: run_script_def split: sum.splits if_splits)
qed

lemma guarded_raises:
  assumes "guarded_acquire ck key cfg ttl st = (x, st')" "redis_raises_own st"
  shows "same_sound st st'" and "x \<noteq> Inl (WazuhE we)"
proof -
  obtain y s where r: "run_script ck key cfg 1 ttl st = (y, s)" by fastforce
  note run = run_script_raises [OF r assms(2)]
  have "same_sound st s \<Longrightarrow> same_sound st (s\<lparr>rl_metrics := m, rl_breaker := b\<rparr>)"
    "same_sound st s \<Longrightarrow> same_sound st (s\<lparr>rl_breaker := b\<rparr>)" "same_sound st (st\<lparr>rl_breaker := b\<rparr>)" for m b
    by (simp_all add: same_sound_def)
  then show "same_sound st st'" "x \<noteq> Inl (WazuhE we)"
    using assms(1) r run call_enter_error
    by (auto simp: guarded_acquire_def breaker_call_def try_redis_acquire_def count_metric_def wait_for_def
        split: sum.splits option.splits prod.splits if_splits dest!: call_enter_error)
qed

lemma limiter_refuses:
  assumes "limiter_sound l" "fst (limiter_acquire ck tid sid l) = Inl (WazuhE we)"
  shows "we_code we = ''rate_limited''"
proof -
  have inproc: "we_code we = ''rate_limited''" if "limiter_wf st" "acquire t tid sid st = (Inl (WazuhE we), st')" for t st st'
    using limited_errors [OF acquire_only_limited [OF that]] by auto
  show ?thesis
  proof (cases l)
    case (BuiltInProcess st)
    then show ?thesis using assms inproc by (auto split: prod.splits)
  next
    case (BuiltRedis url st)
    have sound: "limiter_wf (ensure_fallback st)" "redis_raises_own st" using assms(1) BuiltRedis by simp_all
    have fb: "we_code we = ''rate_limited''"
      if "use_fallback ck scope tid sid v = (Inl (WazuhE we), v')" "same_sound st v" for scope v v'
      using that sound(1) inproc by (auto simp: use_fallback_def same_sound_def count_metric_def Let_def split: prod.splits)
    obtain st' where acq: "redis_acquire ck tid sid st = (Inl (WazuhE we), st')"
      using assms(2) BuiltRedis by (auto split: prod.splits)
    let ?cfg = "redis_cfg st tid" and ?tk = "tenant_key (rl_prefix st) tid" and ?sk = "session_key (rl_prefix st) tid sid"
    obtain x st1 where 1: "guarded_acquire ck ?tk (rl_tenant ?cfg) (ttl_for ?cfg) st = (x, st1)" by fastforce
    note g1 = guarded_raises [OF 1 sound(2)]
    obtain y st2 where 2: "guarded_acquire ck ?sk (rl_session ?cfg) (ttl_for ?cfg) st1 = (y, st2)" by fastforce
    note g2 = guarded_raises [OF 2 same_sound_raises [OF g1(1) sound(2)]]
    show ?thesis
      using acq 1 2 g1 g2 fb [OF _ g1(1)] fb [OF _ same_sound_trans [OF g1(1) g2(1)]]
        limited_errors [of tenant_limited] limited_errors [of session_limited]
      by (auto simp: redis_acquire_def Let_def split: sum.splits if_splits)
  qed
qed

section \<open>The trail of a call\<close>

text \<open>
  C7: No call without a trace.  A call of any registered tool, whether refused by the role, refused by
  the limiter, failed, cancelled or answered, ends in exactly one completion event whose outcome, error
  code and result count are those of the call, and is counted once under the label of its outcome.  When
  its handler runs, that is timed, a write tool's intent is recorded before it, and nothing else is
  written but the denials of the policy resolvers; otherwise no client is touched and the label says which
  gate refused.  The one exception is an error other than a \<open>WazuhError\<close> that escapes the limiter (the Redis
  limiter lets server errors through): that call raises it and leaves nothing.
\<close>

theorem every_call_audited:
  fixes h :: "built_limiter app_handler"
  assumes "map_of (all_tools tenv (app_write_env pf pool registry ck) s) tool = Some h"
    and "make_rbac_policy registry s = (Inr pol, pevs)" "limiter_sound (wd_limiter w)"
    and "instrumented_tool tool (make_rbac_policy registry) (limiter_acquire ck) h elapsed (Some s) kw w = (r, w')"
  shows "let v = fst (limiter_acquire ck (s_tenant_id s) (user_id s) (wd_limiter w)); allowed = is_allowed s tool pol in
    if allowed \<and> limiter_escaped v
    then r = Inl (projl v) \<and> wd_events w' = wd_events w @ pevs \<and> wd_calls w' = wd_calls w \<and>
      wd_durations w' = wd_durations w \<and> wd_app w' = wd_app w
    else \<exists>ev. completion s tool kw r ev \<and> wd_calls w' = wd_calls w @ [(s_tenant_id s, tool, outcome_label r)] \<and>
      (if allowed \<and> v = Inr ()
       then wd_durations w' = wd_durations w @ [(s_tenant_id s, tool, elapsed)] \<and>
         (\<exists>own. (\<forall>e \<in> set own. resolver_note s e) \<and> wd_events w' = wd_events w @ pevs @ intent s tool kw @ own @ [ev])
       else outcome_label r = (if allowed then ''rate_limited'' else ''forbidden'') \<and> wd_durations w' = wd_durations w \<and>
         wd_app w' = wd_app w \<and> wd_events w' = wd_events w @ pevs @ [ev])"
  by (rule instrumented_trail [OF tool_leaves_trail [OF app_env_own assms(1)] assms(2,4) limiter_refuses [OF assms(3)]])

text \<open>A write call whose arguments do not parse: counted as a parse error after its intent.\<close>

lemma demo_manager:
  "(map_of (all_tools (app_tool_env demo_platform opens ck) (app_write_env demo_platform opens registry ck) s)
     ''write.restart_manager'' :: built_limiter app_handler option) =
   Some (lift_handler (restart_manager_inner (app_write_env demo_platform opens registry ck) s))"
  by (simp add: all_tools_def read_tools_def write_tools_def)

theorem every_call_audited_witness:
  "\<exists>w' own ev. let h = lift_handler (restart_manager_inner (app_write_env demo_platform (pool_opens (yaml_get demo_registry, \<lambda>_ _. Inl KeyE))
      (yaml_get demo_registry) demo_clocks) demo_admin) in
    instrumented_tool ''write.restart_manager'' (make_rbac_policy (yaml_get demo_registry)) (limiter_acquire demo_clocks) h 1
      (Some demo_admin) [] (fresh_app_world (BuiltInProcess (new_limiter tiny_limits Map.empty))) = (Inl ValidationE, w') \<and>
    wd_events w' = tool_event demo_admin ''write.restart_manager'' [] ''write.requested'' 0 0 None # own @ [ev] \<and>
    ec_error_code ev = Some ''parse_error'' \<and> wd_calls w' = [(''acme'', ''write.restart_manager'', ''parse_error'')]"
proof -
  let ?reg = "yaml_get demo_registry" and ?w = "fresh_app_world (BuiltInProcess (new_limiter tiny_limits Map.empty))"
  let ?env = "app_write_env demo_platform (pool_opens (?reg, \<lambda>_ _. Inl KeyE)) ?reg demo_clocks"
  let ?h = "lift_handler (restart_manager_inner ?env demo_admin)"
  let ?run = "instrumented_tool ''write.restart_manager'' (make_rbac_policy ?reg) (limiter_acquire demo_clocks) ?h 1
      (Some demo_admin) [] ?w"
  obtain pol where pol: "make_rbac_policy ?reg demo_admin = (Inr pol, [])" "is_allowed demo_admin ''write.restart_manager'' pol"
    by (simp add: make_rbac_policy_def resolve_with_def yaml_get_def demo_registry_def demo_admin_def demo_tenant_def
        sample_tenant_def is_allowed_def effective_allowlist_for_def DEFAULT_ROLE_TOOL_ALLOWLIST_def)
  have sound: "limiter_sound (wd_limiter ?w)"
    using new_limiter_wf [OF tiny_limits_ok, of Map.empty] by (simp add: fresh_app_world_def)
  have v: "fst (limiter_acquire demo_clocks (s_tenant_id demo_admin) (user_id demo_admin) (wd_limiter ?w)) = Inr ()"
    by (simp add: fresh_app_world_def demo_clocks_def limiter_eval)
  have "fst ?run = Inl ValidationE"
    using pol v
    by (simp add: instrumented_tool_def run_handler_def lift_handler_def restart_manager_inner_def guarded_write_def
        app_write_env_def demo_platform_def demo_decoder_def RestartManagerArgs_def checked_def Let_def
        emit_events_def classify_def fresh_app_world_def split: prod.splits)
  then obtain w' where run: "?run = (Inl ValidationE, w')" by (metis prod.collapse)
  show ?thesis
    using every_call_audited [OF demo_manager pol(1) sound run] pol(2) v run
    by (fastforce simp: limiter_escaped_def intent_def startswith_def completion_def outcome_label_def fresh_app_world_def
        demo_admin_def)
qed

end
