(* ===== verification/StdioApp.thy ===== *)
theory StdioApp imports HttpLimits begin

text \<open>
  The stdio server put together (\<open>load_config\<close>, \<open>build_app\<close>, \<open>run_stdio\<close> in \<open>server.py\<close>): one configured
  tenant, one configured session, the shared clients behind the two adapters.  An adapter with its holder is
  shown to act as a pool that opens clients the adapter's way, so that the handlers are shared.
\<close>

section \<open>The configuration\<close>

record app_config =
  cf_session :: session
  cf_tenant :: tenant_config
  cf_secrets :: secrets_get
  cf_rate_limiter :: "rate_limiter_config option"

definition load_config :: "(string \<Rightarrow> bool) \<Rightarrow> config_dir \<Rightarrow> exn + app_config" where
  "load_config url_ok cd =
     bind_res (yaml_load url_ok (cd_tenants cd) []) (\<lambda>registry.
     bind_res (yaml_secrets_load (cd_secrets cd)) (\<lambda>secrets.
     bind_res (required (sy_active_tenant (cd_server cd))) (\<lambda>tid.
     bind_res (yaml_get registry tid) (\<lambda>t.
     bind_res (config_build (or_else (sy_user_id (cd_server cd)) ''local'') t []) (\<lambda>s.
       Inr \<lparr>cf_session = s, cf_tenant = t, cf_secrets = yaml_secret_get secrets,
            cf_rate_limiter = sy_rate_limiter (cd_server cd)\<rparr>)))))"

section \<open>The adapters\<close>

text \<open>
  \<open>_open_indexer\<close> and \<open>_open_server_api\<close> past the test of their holder: what the client is made with,
  always for the configured tenant and with the address derived from its indexer's; the tenant an
  adapter is asked for is not used.
\<close>

definition adapter_open_indexer :: "app_config \<Rightarrow> client_open" where
  "adapter_open_indexer cfg asked =
     bind_res (cf_secrets cfg (tenant_id (cf_tenant cfg)) ''indexer_user'') (\<lambda>user.
     bind_res (cf_secrets cfg (tenant_id (cf_tenant cfg)) ''indexer_password'') (\<lambda>password.
       Inr \<lparr>cl_url = indexer_url (cf_tenant cfg), cl_user = expose user, cl_password = expose password,
            cl_verify_tls = verify_tls (cf_tenant cfg), cl_ca = ca_bundle_path (cf_tenant cfg)\<rparr>))"

definition adapter_open_api :: "app_config \<Rightarrow> client_open" where
  "adapter_open_api cfg asked =
     bind_res (cf_secrets cfg (tenant_id (cf_tenant cfg)) ''server_api_user'') (\<lambda>user.
     bind_res (cf_secrets cfg (tenant_id (cf_tenant cfg)) ''server_api_password'') (\<lambda>password.
       Inr \<lparr>cl_url = derive_server_api_url (cf_tenant cfg), cl_user = expose user, cl_password = expose password,
            cl_verify_tls = verify_tls (cf_tenant cfg), cl_ca = ca_bundle_path (cf_tenant cfg)\<rparr>))"

text \<open>The holder of a client, seen as a pool that the one session's tenant is the only key of.\<close>

definition ix_of_holder :: "tenant_config \<Rightarrow> indexer_client option \<Rightarrow> indexer_pool" where
  "ix_of_holder t h = (case h of None \<Rightarrow> [] | Some c \<Rightarrow> [(tenant_id t, c)])"

definition api_of_holder :: "tenant_config \<Rightarrow> api_client option \<Rightarrow> server_api_pool" where
  "api_of_holder t h = \<lparr>sp_clients = (case h of None \<Rightarrow> [] | Some c \<Rightarrow> [(tenant_id t, c)]), sp_closed = False\<rparr>"

text \<open>Handing out a client from its holder is acquiring it for the configured tenant from a pool that
  opens clients the adapter's way: same client, same error, same next state.  The handlers are
  therefore run over pools in both modes.\<close>

lemma holder_is_pool:
  "ip_acquire (adapter_open_indexer cfg) net (tenant_id (cf_tenant cfg)) (ix_of_holder (cf_tenant cfg) h) =
     (case open_indexer (cf_secrets cfg) (cf_tenant cfg) (net (indexer_url (cf_tenant cfg))) h of
        (r, h') \<Rightarrow> (r, ix_of_holder (cf_tenant cfg) h'))"
  "sp_acquire (adapter_open_api cfg) net (tenant_id (cf_tenant cfg)) (api_of_holder (cf_tenant cfg) g) =
     (case open_server_api (cf_secrets cfg) (cf_tenant cfg) (net (derive_server_api_url (cf_tenant cfg))) g of
        (r, g') \<Rightarrow> (r, api_of_holder (cf_tenant cfg) g'))"
  "ip_store (tenant_id (cf_tenant cfg)) c (ix_of_holder (cf_tenant cfg) h) = ix_of_holder (cf_tenant cfg) (Some c)"
  "sp_store (tenant_id (cf_tenant cfg)) d (api_of_holder (cf_tenant cfg) g) = api_of_holder (cf_tenant cfg) (Some d)"
  by (auto simp: ip_acquire_def sp_acquire_def ip_fresh_def sp_fresh_def adapter_open_indexer_def
      adapter_open_api_def open_indexer_def open_server_api_def ix_of_holder_def api_of_holder_def
      ip_store_def sp_store_def bind_res_def split: option.splits sum.splits)

section \<open>The application and its runs\<close>

record stdio_app =
  sa_sinks :: "(string, sink_object list) dict"
  sa_session :: session
  sa_registry :: registry_get
  sa_clients :: "client_open \<times> client_open"

definition build_app :: "'k platform \<Rightarrow> app_config \<Rightarrow> exn + stdio_app \<times> built_limiter app_world" where
  "build_app pf cfg =
     (let t = cf_tenant cfg
      in bind_res (build_per_tenant_sinks False [t] []) (\<lambda>sinks.
         bind_res (validate_rate_limiter (cf_rate_limiter cfg)) (\<lambda>rl.
         bind_res (build_rate_limiter rl (rate_limit t) [tenant_id t \<mapsto> rate_limit t] (pf_redis_url pf) (pf_redis pf))
           (\<lambda>limiter.
             Inr (\<lparr>sa_sinks = sinks, sa_session = cf_session cfg, sa_registry = single_get t,
                   sa_clients = (adapter_open_indexer cfg, adapter_open_api cfg)\<rparr>, fresh_app_world limiter)))))"

text \<open>The session variable is set once, before the loop over the requests of the one client.\<close>

type_synonym stdio_call = "clocks \<times> rat \<times> client_request"

definition stdio_serve :: "'k platform \<Rightarrow> stdio_app \<Rightarrow> stdio_call \<Rightarrow> built_limiter app_world \<Rightarrow> built_limiter app_world" where
  "stdio_serve pf app d w =
     (case d of (ck, elapsed, req) \<Rightarrow>
        serve (app_tool_env pf (sa_clients app) ck) (app_write_env pf (sa_clients app) (sa_registry app) ck)
          (make_rbac_policy (sa_registry app)) (limiter_acquire ck) (sa_session app, elapsed, req) w)"

definition run_stdio :: "'k platform \<Rightarrow> stdio_app \<Rightarrow> stdio_call list \<Rightarrow> built_limiter app_world \<Rightarrow> built_limiter app_world" where
  "run_stdio pf app ds w = foldl (\<lambda>v d. stdio_serve pf app d v) w ds"

section \<open>What a run can do\<close>

lemma run_stdio_Cons: "run_stdio pf app (d # ds) w = run_stdio pf app ds (stdio_serve pf app d w)"
  by (simp add: run_stdio_def)

lemma run_stdio_sends:
  assumes "\<And>d v. sent_more P own v (stdio_serve pf app d v)"
  shows "sent_more P own w (run_stdio pf app ds w)"
proof (induction ds arbitrary: w)
  case Nil
  show ?case by (simp add: run_stdio_def sent_more_same)
next
  case (Cons d ds)
  show ?case using sent_more_trans [OF assms Cons.IH] by (simp add: run_stdio_Cons)
qed

lemma stdio_serve_sends: "sent_more (\<lambda>_. True) (s_tenant_id (sa_session app)) w (stdio_serve pf app d w)"
proof -
  obtain ck elapsed req where "d = (ck, elapsed, req)" by (cases d)
  then show ?thesis
    by (cases req) (auto intro!: call_sends context_sends simp: stdio_serve_def simp del: serve.simps)
qed

definition stdio_calls :: "stdio_app \<Rightarrow> stdio_call list \<Rightarrow> call list" where
  "stdio_calls app ds = calls_of (map (\<lambda>d. (Some (sa_session app), d)) ds)"

lemma run_stdio_paid: "\<exists>cs. subseq cs (stdio_calls app ds) \<and> paid w cs (run_stdio pf app ds w)"
proof (induction ds arbitrary: w)
  case Nil
  have "paid w [] w" by (rule still_paid) (simp add: still_def)
  then show ?case by (intro exI [of _ "[]"]) (simp add: run_stdio_def)
next
  case (Cons d ds)
  have "\<exists>cs. subseq cs (call_of (Some (sa_session app), d)) \<and> paid w cs (stdio_serve pf app d w)"
    using serve_paid by (cases d) (simp add: stdio_serve_def)
  then obtain cs where cs: "subseq cs (call_of (Some (sa_session app), d))" "paid w cs (stdio_serve pf app d w)" by blast
  obtain es where es: "subseq es (stdio_calls app ds)" "paid (stdio_serve pf app d w) es (run_stdio pf app (d # ds) w)"
    using Cons.IH by (auto simp: run_stdio_Cons)
  show ?case
    using paid_trans [OF cs(2) es(2)] list_emb_append_mono [OF cs(1) es(1)]
    by (intro exI [of _ "cs @ es"]) (simp add: stdio_calls_def)
qed

lemma load_config_cases:
  assumes "load_config url_ok cd = Inr cfg"
  obtains "cf_tenant cfg \<in> set (cd_tenants cd)" "sy_active_tenant (cd_server cd) = Some (tenant_id (cf_tenant cfg))"
    "model_validate url_ok (cf_tenant cfg) = Inr (cf_tenant cfg)"
    "cf_session cfg = config_session (or_else (sy_user_id (cd_server cd)) ''local'') (cf_tenant cfg)"
proof -
  obtain registry tid where reg: "yaml_load url_ok (cd_tenants cd) [] = Inr registry"
    and tid: "sy_active_tenant (cd_server cd) = Some tid" "yaml_get registry tid = Inr (cf_tenant cfg)"
    and s: "cf_session cfg = config_session (or_else (sy_user_id (cd_server cd)) ''local'') (cf_tenant cfg)"
    using assms by (auto simp: load_config_def bind_res_eq_Inr required_Inr config_build_def)
  have wf: "yaml_wf registry" "yaml_all registry = cd_tenants cd"
    using yaml_load_wf [OF reg] by (simp_all add: yaml_wf_def yaml_all_def)
  have t: "cf_tenant cfg \<in> set (cd_tenants cd)" "tenant_id (cf_tenant cfg) = tid"
    using yaml.get_iff [OF wf(1)] tid(2) wf(2) by auto
  show thesis using that t tid(1) s yaml_load_valid [OF reg t(1)] by simp
qed

lemma build_app_cases:
  assumes "build_app pf cfg = Inr (app, w0)"
  obtains sinks rl limiter where "build_per_tenant_sinks False [cf_tenant cfg] [] = Inr sinks"
    "build_rate_limiter rl (rate_limit (cf_tenant cfg)) [tenant_id (cf_tenant cfg) \<mapsto> rate_limit (cf_tenant cfg)]
      (pf_redis_url pf) (pf_redis pf) = Inr limiter"
    "sa_session app = cf_session cfg" "sa_registry app = single_get (cf_tenant cfg)"
    "sa_clients app = (adapter_open_indexer cfg, adapter_open_api cfg)" "w0 = fresh_app_world limiter"
  using assms by (auto simp: build_app_def Let_def bind_res_eq_Inr)

lemma fresh_nothing_sent: "api_sent_for (fresh_app_world l) tid = []" "ix_sent_for (fresh_app_world l) tid = []"
  by (simp_all add: api_sent_for_def ix_sent_for_def fresh_app_world_def new_server_api_pool_def)

lemma single_policy:
  assumes "make_rbac_policy (single_get t) s = (Inr pol, evs)" "role_tool_allowlist t = None"
  shows "pol = [] \<or> pol = DEFAULT_ROLE_TOOL_ALLOWLIST"
  using assms by (auto simp: make_rbac_policy_def resolve_with_def single_get_def effective_allowlist_for_def
      split: if_splits)

text \<open>
  C18: The stdio server works for its configured tenant and with its configured role.  Whatever calls its
  client makes, every request goes to the active tenant of \<open>server.yaml\<close>, a validated entry of
  \<open>tenants.yaml\<close>; when that tenant keeps the default roles and its default role is not the
  administrator's, only bounded searches, \<open>GET\<close> requests and the authentication call are sent; and a
  tenant whose audit goes to the indexer is refused at start.
\<close>

theorem stdio_confined:
  assumes "load_config url_ok cd = Inr cfg" "build_app pf cfg = Inr (app, w0)" "w = run_stdio pf app ds w0"
  shows "\<exists>t \<in> set (cd_tenants cd). sy_active_tenant (cd_server cd) = Some (tenant_id t) \<and> model_validate url_ok t = Inr t \<and>
    (\<forall>tid. tid \<noteq> tenant_id t \<longrightarrow> api_sent_for w tid = [] \<and> ix_sent_for w tid = []) \<and>
    (role_tool_allowlist t = None \<and> default_rbac_role t \<noteq> ''admin'' \<longrightarrow>
      (\<forall>rq \<in> set (api_sent_for w (tenant_id t)). rq_method rq = ''GET'' \<or>
        rq_method rq = ''POST'' \<and> rq_path rq = ''/security/user/authenticate'') \<and>
      (\<forall>rq \<in> set (ix_sent_for w (tenant_id t)). search_ok rq)) \<and>
    (\<forall>p b f m. WazuhIndexerSinkConfig p b f m \<notin> set (audit_sinks t))"
proof -
  let ?t = "cf_tenant cfg"
  obtain t: "?t \<in> set (cd_tenants cd)" "sy_active_tenant (cd_server cd) = Some (tenant_id ?t)"
    "model_validate url_ok ?t = Inr ?t" and s: "cf_session cfg = config_session (or_else (sy_user_id (cd_server cd)) ''local'') ?t"
    using assms(1) by (rule load_config_cases)
  obtain sinks limiter where sinks: "build_per_tenant_sinks False [?t] [] = Inr sinks"
    and app: "sa_session app = cf_session cfg" "sa_registry app = single_get ?t" and w0: "w0 = fresh_app_world limiter"
    using assms(2) by (rule build_app_cases)
  have own: "s_tenant_id (sa_session app) = tenant_id ?t" and role: "rbac_role (sa_session app) = default_rbac_role ?t"
    by (simp_all add: app(1) s config_session_def)
  have "sent_more (\<lambda>_. True) (tenant_id ?t) w0 w"
    unfolding assms(3) using stdio_serve_sends [of app] by (intro run_stdio_sends) (simp add: own)
  then have others: "api_sent_for w tid = [] \<and> ix_sent_for w tid = []" if "tid \<noteq> tenant_id ?t" for tid
    using that by (auto simp: sent_more_def w0 fresh_nothing_sent)
  have reads: "list_all api_read_ok (api_sent_for w (tenant_id ?t)) \<and> list_all search_ok (ix_sent_for w (tenant_id ?t))"
    if plain: "role_tool_allowlist ?t = None" "default_rbac_role ?t \<noteq> ''admin''"
  proof -
    have "sent_more api_read_ok (tenant_id ?t) v (stdio_serve pf app d v)" for d v
      unfolding own [symmetric] stdio_serve_def
      using single_policy [OF _ plain(1)] plain(2) app(2) role by (cases d) (auto intro!: default_role_reads)
    then have "sent_more api_read_ok (tenant_id ?t) w0 w" unfolding assms(3) by (rule run_stdio_sends)
    then show ?thesis by (auto simp: sent_more_def w0 fresh_nothing_sent)
  qed
  have "\<forall>p b f m. WazuhIndexerSinkConfig p b f m \<notin> set (audit_sinks ?t)"
    using build_per_tenant_pool [OF sinks] by simp
  moreover have "(role_tool_allowlist ?t = None \<and> default_rbac_role ?t \<noteq> ''admin'' \<longrightarrow>
      (\<forall>rq \<in> set (api_sent_for w (tenant_id ?t)). rq_method rq = ''GET'' \<or>
        rq_method rq = ''POST'' \<and> rq_path rq = ''/security/user/authenticate'') \<and>
      (\<forall>rq \<in> set (ix_sent_for w (tenant_id ?t)). search_ok rq))"
    using reads by (fastforce simp: list_all_iff api_read_ok_def)
  ultimately show ?thesis using t others by blast
qed

text \<open>The rate bound of the stdio server: the tenant's own bucket over the one client's calls.\<close>

theorem stdio_calls_bounded:
  assumes "load_config url_ok cd = Inr cfg" "build_app pf cfg = Inr (app, w0)" "wd_limiter w0 = BuiltInProcess st"
    and "sorted (call_times (tenant_id (cf_tenant cfg)) (stdio_calls app ds))"
    and "\<forall>x \<in> set (call_times (tenant_id (cf_tenant cfg)) (stdio_calls app ds)). lo \<le> x \<and> x \<le> hi" "lo \<le> hi"
  shows "of_nat (executed (tenant_id (cf_tenant cfg)) (run_stdio pf app ds w0)) \<le>
    of_int (bc_capacity (rl_tenant (rate_limit (cf_tenant cfg)))) + (hi - lo) * bc_refill (rl_tenant (rate_limit (cf_tenant cfg)))"
proof -
  let ?t = "cf_tenant cfg"
  have ok: "rate_limit_ok (rate_limit ?t)"
    using assms(1) by (rule load_config_cases) (use model_validate_sound(3) in blast)
  obtain rl limiter where lim: "build_rate_limiter rl (rate_limit ?t) [tenant_id ?t \<mapsto> rate_limit ?t] (pf_redis_url pf) (pf_redis pf) = Inr limiter"
    and w0: "w0 = fresh_app_world limiter"
    using assms(2) by (rule build_app_cases)
  have st: "st = new_limiter (rate_limit ?t) [tenant_id ?t \<mapsto> rate_limit ?t]"
    using lim w0 assms(3) by (auto simp: fresh_app_world_def build_rate_limiter_def Let_def bind_res_eq_Inr
        split: limiter_backend.splits if_splits)
  have wf: "limiter_wf st" unfolding st by (rule new_limiter_wf) (use ok in \<open>auto split: if_splits\<close>)
  have cfg: "limiter_cfg st (tenant_id ?t) = rate_limit ?t" "lm_tenants st (tenant_id ?t) = None"
    by (simp_all add: st limiter_cfg_def new_limiter_def)
  have zero: "executed (tenant_id ?t) w0 = 0" by (simp add: w0 fresh_app_world_def executed_def)
  obtain cs where "subseq cs (stdio_calls app ds)" "paid w0 cs (run_stdio pf app ds w0)" using run_stdio_paid by blast
  from paid_bound [OF this assms(3) wf cfg(2) assms(4-6)] show ?thesis using cfg(1) zero by simp
qed

section \<open>A stdio server\<close>

definition demo_stdio_dir :: config_dir where
  "demo_stdio_dir = demo_dir\<lparr>cd_server := (cd_server demo_dir)\<lparr>sy_active_tenant := Some ''b''\<rparr>\<rparr>"

lemma demo_stdio_loads: "\<exists>cfg app w0. load_config (\<lambda>_. True) demo_stdio_dir = Inr cfg \<and> build_app demo_platform cfg = Inr (app, w0) \<and>
    cf_tenant cfg = (sample_tenant ''b'')\<lparr>audit_sinks := []\<rparr>"
proof -
  have "\<exists>cfg. load_config (\<lambda>_. True) demo_stdio_dir = Inr cfg \<and> cf_rate_limiter cfg = None \<and>
      cf_tenant cfg = (sample_tenant ''b'')\<lparr>audit_sinks := []\<rparr>"
    by (simp add: load_config_def demo_stdio_dir_def demo_dir_def demo_tenants_load required_def yaml_secrets_load_def py_or_def
        yaml_get_def config_build_def)
  then obtain cfg where cfg: "load_config (\<lambda>_. True) demo_stdio_dir = Inr cfg" "cf_rate_limiter cfg = None"
    "cf_tenant cfg = (sample_tenant ''b'')\<lparr>audit_sinks := []\<rparr>" by blast
  have "\<exists>app w0. build_app demo_platform cfg = Inr (app, w0)"
    by (simp add: build_app_def cfg build_sinks_def sample_tenant_def validate_rate_limiter_def Let_def
        or_else_def default_rate_limiter_def redis_limiter_ok_def circuit_breaker_ok_def build_rate_limiter_def
        alnum_def is_lower_def is_upper_def is_digit_def)
  then show ?thesis using cfg by blast
qed

theorem stdio_confined_witness:
  "\<exists>cfg app w0. load_config (\<lambda>_. True) demo_stdio_dir = Inr cfg \<and> build_app demo_platform cfg = Inr (app, w0) \<and>
    api_sent_for (run_stdio demo_platform app [(demo_clocks, 1, CallTool ''agents.list_agents'' [])] w0) ''a'' = []"
proof -
  obtain cfg app w0 where cfg: "load_config (\<lambda>_. True) demo_stdio_dir = Inr cfg"
    and app: "build_app demo_platform cfg = Inr (app, w0)" using demo_stdio_loads by blast
  let ?w = "run_stdio demo_platform app [(demo_clocks, 1, CallTool ''agents.list_agents'' [])] w0"
  have active: "sy_active_tenant (cd_server demo_stdio_dir) = Some ''b''" by (simp add: demo_stdio_dir_def)
  have "api_sent_for ?w ''a'' = []"
    using stdio_confined [OF cfg app refl, of "[(demo_clocks, 1, CallTool ''agents.list_agents'' [])]"]
  proof (elim bexE conjE)
    fix t
    assume "sy_active_tenant (cd_server demo_stdio_dir) = Some (tenant_id t)"
      and sent: "\<forall>tid. tid \<noteq> tenant_id t \<longrightarrow> api_sent_for ?w tid = [] \<and> ix_sent_for ?w tid = []"
    then have "tenant_id t = ''b''" using active by simp
    then have "''a'' \<noteq> tenant_id t" by simp
    then show ?thesis using sent by simp
  qed
  then show ?thesis using cfg app by blast
qed

end
