(* ===== verification/TokenIssuer.thy ===== *)
theory TokenIssuer imports Auth begin

text \<open>
  Which identity provider vouches for an OAuth session: the per-issuer key caches of \<open>auth/oauth.py\<close> over
  any run of requests hold only keys that the issuer's own endpoint served, so that the key under which
  a session's token was verified is one of the issuer the token names.
\<close>

section \<open>Where the keys of a cache come from\<close>

text \<open>A key was served in an answer of the issuer's endpoint; \<open>used\<close> are the answers read so far.\<close>

definition key_served :: "(exn + int \<times> json) list \<Rightarrow> json \<Rightarrow> json \<Rightarrow> bool" where
  "key_served used kid k \<longleftrightarrow>
     (\<exists>body ks. Inr (200, body) \<in> set used \<and> parse_jwks body = Inr ks \<and> dget ks kid = Some k)"

definition own_keys :: "feeds \<Rightarrow> string \<Rightarrow> jwks_cache \<Rightarrow> bool" where
  "own_keys feeds iss c \<longleftrightarrow>
     (\<exists>used. feeds iss = used @ jw_feed c \<and> (\<forall>kid k. dget (jw_keys c) kid = Some k \<longrightarrow> key_served used kid k))"

lemma served_more: "key_served used kid k \<Longrightarrow> key_served (used @ more_answers) kid k"
  by (auto simp: key_served_def)

lemma own_keys_new: "own_keys feeds iss (new_jwks_cache iss (feeds iss))"
  by (simp add: own_keys_def new_jwks_cache_def)

lemma own_keys_cong:
  "jw_feed c' = jw_feed c \<Longrightarrow> jw_keys c' = jw_keys c \<Longrightarrow> own_keys feeds iss c' = own_keys feeds iss c"
  by (simp add: own_keys_def)

text \<open>Reading one answer.\<close>

lemma http_get_own:
  assumes "own_keys feeds iss c" "http_get c = (r, c')"
  shows "own_keys feeds iss c' \<and>
    (\<forall>body ks. r = Inr (200, body) \<and> parse_jwks body = Inr ks \<longrightarrow> own_keys feeds iss (c'\<lparr>jw_keys := ks\<rparr>))"
proof (cases "jw_feed c")
  case Nil
  then show ?thesis using assms by (auto simp: http_get_def)
next
  case (Cons a rs)
  then have c': "r = a" "c' = c\<lparr>jw_feed := rs\<rparr>" using assms(2) by (auto simp: http_get_def)
  obtain used where used: "feeds iss = used @ jw_feed c" "\<forall>kid k. dget (jw_keys c) kid = Some k \<longrightarrow> key_served used kid k"
    using assms(1) unfolding own_keys_def by blast
  have eq: "feeds iss = (used @ [a]) @ rs" using used(1) Cons by simp
  have "own_keys feeds iss c'" using eq used(2) served_more unfolding own_keys_def c' by fastforce
  moreover have "own_keys feeds iss (c'\<lparr>jw_keys := ks\<rparr>)" if "a = Inr (200, body)" "parse_jwks body = Inr ks" for body ks
    using eq that unfolding own_keys_def key_served_def c' by fastforce
  ultimately show ?thesis using c'(1) by blast
qed

lemma refresh_keys_own:
  assumes "own_keys feeds iss c" "refresh_keys c = (r, c')"
  shows "own_keys feeds iss c'"
proof (cases "jw_uri c")
  case None
  then show ?thesis using assms by (simp add: refresh_keys_def)
next
  case (Some u)
  obtain x c1 where g: "http_get c = (x, c1)" by fastforce
  from http_get_own [OF assms(1) g] show ?thesis
    using assms(2) Some g
    by (cases x) (auto simp: refresh_keys_def split: prod.splits sum.splits if_splits)
qed

lemma ensure_discovered_own:
  assumes "own_keys feeds iss c" "ensure_discovered c = (r, c')"
  shows "own_keys feeds iss c'"
proof (cases "jw_uri c = None")
  case False
  then show ?thesis using assms by (simp add: ensure_discovered_def)
next
  case True
  obtain x c1 where g: "http_get c = (x, c1)" by fastforce
  have c1: "own_keys feeds iss c1" using http_get_own [OF assms(1) g] by blast
  then have set_uri: "own_keys feeds iss (c1\<lparr>jw_uri := u\<rparr>)" for u by (simp add: own_keys_def)
  show ?thesis
    using assms(2) True g c1 refresh_keys_own [OF set_uri]
    by (auto simp: ensure_discovered_def split: sum.splits if_splits json.splits)
qed

lemma lookup_kid_Some: "lookup_kid c kid = Inr (Some k) \<Longrightarrow> \<exists>d. dict_key kid = Inr d \<and> dget (jw_keys c) d = Some k"
  by (auto simp: lookup_kid_def bind_res_eq_Inr)

lemma get_key_own:
  assumes "own_keys feeds iss c" "get_key now kid c = (r, c')"
  shows "own_keys feeds iss c' \<and> (\<forall>k. r = Inr (Some k) \<longrightarrow> (\<exists>d. dict_key kid = Inr d \<and> key_served (feeds iss) d k))"
proof -
  have from_cache: "\<exists>d. dict_key kid = Inr d \<and> key_served (feeds iss) d k"
    if "own_keys feeds iss d" "lookup_kid d kid = Inr (Some k)" for d k
    using that lookup_kid_Some served_more unfolding own_keys_def by metis
  obtain x c1 where e: "ensure_discovered c = (x, c1)" by fastforce
  note c1 = ensure_discovered_own [OF assms(1) e]
  have stamped: "own_keys feeds iss (c1\<lparr>jw_last := t\<rparr>)" for t using c1 by (simp add: own_keys_def)
  show ?thesis
  proof (cases x)
    case (Inl e')
    then show ?thesis using assms(2) e c1 by (auto simp: get_key_def)
  next
    case (Inr u)
    obtain y c2 where rf: "refresh_keys (c1\<lparr>jw_last := Some now\<rparr>) = (y, c2)" by fastforce
    note c2 = refresh_keys_own [OF stamped rf]
    show ?thesis
      using assms(2) e Inr c1 c2 rf from_cache
      by (auto simp: get_key_def split: sum.splits option.splits if_splits)
  qed
qed

section \<open>Every cache of the factory\<close>

definition factory_keys_own :: "feeds \<Rightarrow> oauth_factory \<Rightarrow> bool" where
  "factory_keys_own feeds fac \<longleftrightarrow> (\<forall>iss c. dget (oa_caches fac) iss = Some c \<longrightarrow> own_keys feeds iss c)"

lemma jwks_for_own: "factory_keys_own feeds fac \<Longrightarrow> own_keys feeds iss (jwks_for feeds iss fac)"
  by (simp add: jwks_for_def factory_keys_own_def own_keys_new split: option.splits)

lemma new_factory_own:
  assumes "new_oauth_factory feeds issuer audience algorithms rbac_claims index skew = Inr fac"
  shows "factory_keys_own feeds fac"
  using assms own_keys_new by (auto simp: new_oauth_factory_def Let_def factory_keys_own_def split: if_splits)

lemma oauth_build_own:
  assumes "factory_keys_own feeds fac" "oauth_build lib feeds mono_now now hs fac = (r, fac')"
  shows "factory_keys_own feeds fac'"
proof (cases "oauth_route lib fac hs")
  case (Inl e)
  then show ?thesis using assms by (simp add: oauth_build_def)
next
  case (Inr p)
  obtain token kid iss where p: "p = (token, kid, iss)" by (cases p)
  obtain x c where g: "get_key mono_now kid (jwks_for feeds iss fac) = (x, c)" by fastforce
  have "own_keys feeds iss c" using get_key_own [OF jwks_for_own [OF assms(1)] g] by blast
  then show ?thesis using assms Inr p g
    by (auto simp: oauth_build_def factory_keys_own_def dget_dset split: if_splits)
qed

text \<open>Any run of requests at the factory.\<close>

fun oauth_run ::
    "'k jwt_lib \<Rightarrow> feeds \<Rightarrow> (rat \<times> int \<times> headers) list \<Rightarrow> oauth_factory \<Rightarrow> oauth_factory" where
  "oauth_run lib feeds [] fac = fac"
| "oauth_run lib feeds ((mono_now, now, hs) # rs) fac =
     oauth_run lib feeds rs (snd (oauth_build lib feeds mono_now now hs fac))"

lemma oauth_run_own: "factory_keys_own feeds fac \<Longrightarrow> factory_keys_own feeds (oauth_run lib feeds rs fac)"
proof (induction rs arbitrary: fac)
  case (Cons q rs)
  obtain m n hs where q: "q = (m, n, hs)" by (cases q)
  show ?case using Cons.IH [OF oauth_build_own [OF Cons.prems prod.collapse [symmetric]]] by (simp add: q)
qed simp

text \<open>The documented behaviour of the JWT library: the claims it returns are the decoded payload of the
  token it was given.\<close>

definition decodes_payload :: "'k jwt_lib \<Rightarrow> bool" where
  "decodes_payload lib \<longleftrightarrow>
     (\<forall>token key algs claims. jl_decode lib token key algs = Inr claims \<longrightarrow>
        (\<exists>h payload rest. split_on (CHR ''.'') token = h # payload # rest \<and> jl_segment lib payload = Some (JObj claims)))"

text \<open>
  C5: A session's token was signed by the issuer it names.  After any run of requests, whatever the
  answers of the identity providers, a request that opens a session carries a token whose \<open>iss\<close> claim
  names a trusted issuer and whose signature was verified under a key which that issuer's own endpoint
  served under the token's key identifier: no provider can issue tokens in the name of another.
\<close>

theorem token_signed_by_its_issuer:
  assumes "decodes_payload lib"
    and "new_oauth_factory feeds issuer audience algorithms rbac_claims index skew = Inr fac0"
    and "fac = oauth_run lib feeds before fac0" "oauth_build lib feeds mono_now now hs fac = (Inr s, fac')"
  shows "\<exists>token claims iss h kid k key. extract_bearer hs = Inr token \<and> jget claims ''iss'' = JStr iss \<and>
    unverified_header lib token = Inr (JObj h) \<and> dict_key (jget h ''kid'') = Inr kid \<and>
    iss \<in> oa_valid_issuers fac \<and> key_served (feeds iss) kid k \<and> jl_import lib k = Inr key \<and>
    jl_decode lib token key (oa_algorithms fac) = Inr claims \<and> build_session (jl_float lib) fac claims = Inr s"
proof -
  have own: "factory_keys_own feeds fac" using oauth_run_own [OF new_factory_own [OF assms(2)]] assms(3) by simp
  obtain token kid iss where route: "oauth_route lib fac hs = Inr (token, kid, iss)"
    using assms(4) by (auto simp: oauth_build_def split: sum.splits)
  note r = oauth_route_sound [OF route]
  obtain h where h: "unverified_header lib token = Inr (JObj h)" "kid = jget h ''kid''"
    using route unfolding oauth_route_def bind_res_eq_Inr
    by (elim exE conjE) (auto simp: bind_res_eq_Inr split: json.split_asm if_split_asm)
  obtain res c where gk: "get_key mono_now kid (jwks_for feeds iss fac) = (res, c)" by fastforce
  have "bind_res res (oauth_finish lib now fac token) = Inr s"
    using assms(4) route gk by (simp add: oauth_build_def)
  then obtain k key claims where k: "res = Inr (Some k)" "jl_import lib k = Inr key"
    "decode_claims lib token key (oa_algorithms fac) = Inr claims"
    "validate_claims now fac claims = Inr ()" "build_session (jl_float lib) fac claims = Inr s"
    by (auto simp: oauth_finish_def bind_res_eq_Inr split: option.splits)
  have dec: "jl_decode lib token key (oa_algorithms fac) = Inr claims"
    using k(3) by (auto simp: decode_claims_def split: sum.splits jwt_error.splits)
  obtain i where i: "jget claims ''iss'' = JStr i" "i \<in> oa_valid_issuers fac"
    using validate_claims_sound(1) [OF k(4)] by blast
  have "\<exists>h payload rest. split_on (CHR ''.'') token = h # payload # rest \<and> jl_segment lib payload = Some (JObj claims)"
    using assms(1) dec unfolding decodes_payload_def by blast
  then have "unverified_iss lib token = Inr i" using i(1) by (auto simp: unverified_iss_def json_str_def)
  then have same: "i = iss" using r by simp
  have "extract_bearer hs = Inr token" "jget claims ''iss'' = JStr iss" "iss \<in> oa_valid_issuers fac"
    using r i(1) same by auto
  moreover obtain kd where "dict_key kid = Inr kd" "key_served (feeds iss) kd k" using get_key_own [OF jwks_for_own [OF own] gk, THEN conjunct2, rule_format, OF k(1)] by blast
  ultimately show ?thesis using dec k(2,5) h by metis
qed

definition demo_three_lib :: "unit jwt_lib" where
  "demo_three_lib = demo_lib\<lparr>jl_decode := (\<lambda>t k algs. if t = ''h.p.s'' then Inr demo_claims else Inl OtherJwtError)\<rparr>"

theorem token_signed_by_its_issuer_witness:
  "\<exists>s fac'. oauth_build demo_three_lib demo_feeds 0 900 [(''Authorization'', ''Bearer h.p.s'')] (demo_factory []) = (Inr s, fac') \<and>
    (\<exists>kid k. key_served (demo_feeds ''https://idp'') kid k)"
proof -
  have lib: "decodes_payload demo_three_lib"
    by (auto simp: decodes_payload_def demo_three_lib_def demo_lib_def split: if_splits)
  have same: "jl_segment demo_three_lib = jl_segment demo_lib" "jl_float demo_three_lib = jl_float demo_lib"
    by (simp_all add: demo_three_lib_def)
  have segs: "unverified_header demo_three_lib = unverified_header demo_lib" "unverified_iss demo_three_lib = unverified_iss demo_lib"
    unfolding fun_eq_iff unverified_header_def unverified_iss_def same by simp_all
  have route: "oauth_route demo_three_lib (demo_factory []) [(''Authorization'', ''Bearer h.p.s'')] =
      oauth_route demo_lib (demo_factory []) [(''Authorization'', ''Bearer h.p.s'')]"
    unfolding oauth_route_def segs ..
  have finish: "oauth_finish demo_three_lib 900 (demo_factory []) ''h.p.s'' = oauth_finish demo_lib 900 (demo_factory []) ''h.p.s''"
    by (simp add: fun_eq_iff oauth_finish_def decode_claims_def demo_three_lib_def demo_lib_def split: option.splits)
  have "oauth_build demo_three_lib demo_feeds 0 900 [(''Authorization'', ''Bearer h.p.s'')] (demo_factory []) =
      oauth_build demo_lib demo_feeds 0 900 [(''Authorization'', ''Bearer h.p.s'')] (demo_factory [])"
    by (simp add: oauth_build_def route demo_route finish)
  then obtain s fac' where b: "oauth_build demo_three_lib demo_feeds 0 900 [(''Authorization'', ''Bearer h.p.s'')] (demo_factory []) = (Inr s, fac')"
    using demo_build by (metis prod.collapse)
  obtain token claims iss kid k key where "jget claims ''iss'' = JStr iss" "key_served (demo_feeds iss) kid k"
    "jl_decode demo_three_lib token key (oa_algorithms (demo_factory [])) = Inr claims"
    using token_signed_by_its_issuer [OF lib demo_factory_new [of "[]"] _ b, of "[]"] by auto
  then have "key_served (demo_feeds ''https://idp'') kid k"
    by (auto simp: demo_three_lib_def demo_claims_def jget_def split: if_splits)
  then show ?thesis using b by blast
qed

end
