(* ===== verification/IndexerSink.thy ===== *)
theory IndexerSink imports Pools SinkDrivers begin

text \<open>
  The audit sink that writes to Wazuh's own indexer (\<open>sinks/wazuh_indexer.py\<close>), on the indexer client it
  shares with the tools through the pool: the index template, the daily index, the bulk body, and one
  batch sent with retries.  Its queue and the pulling of batches are in SinkDrivers.
\<close>

section \<open>The sink\<close>

record indexer_sink =
  wi_tenant :: string
  wi_prefix :: string
  wi_max_attempts :: int
  wi_installed :: bool

definition new_indexer_sink :: "string \<Rightarrow> string \<Rightarrow> int \<Rightarrow> indexer_sink" where
  "new_indexer_sink tid pfx max_attempts =
     \<lparr>wi_tenant = tid, wi_prefix = pfx, wi_max_attempts = max_attempts, wi_installed = False\<rparr>"

definition field_type :: "string \<Rightarrow> string \<Rightarrow> string \<times> json" where
  "field_type name t = (name, JObj [(''type'', JStr t)])"

definition template_body :: "string \<Rightarrow> json" where
  "template_body pfx =
     JObj [(''index_patterns'', JList [JStr (pfx @ ''-*'')]), (''priority'', JInt 100),
       (''template'', JObj [
         (''settings'', JObj [(''number_of_shards'', JInt 1), (''number_of_replicas'', JInt 0)]),
         (''mappings'', JObj [(''dynamic'', JBool False),
           (''properties'', JObj [field_type ''timestamp'' ''date'', field_type ''tool'' ''keyword'',
              field_type ''user'' ''keyword'', field_type ''tenant'' ''keyword'', field_type ''rbac_role'' ''keyword'',
              field_type ''arg_hash'' ''keyword'', field_type ''outcome'' ''keyword'',
              field_type ''result_count'' ''long'', field_type ''duration_ms'' ''long'',
              field_type ''error_code'' ''keyword'', field_type ''event_id'' ''keyword'',
              field_type ''request_id'' ''keyword''])])])]"

definition template_name :: "indexer_sink \<Rightarrow> string" where
  "template_name sk = wi_prefix sk @ ''-template''"

text \<open>\<open>day\<close> is the date in UTC as \<open>YYYY.MM.DD\<close>, read anew for every attempt.\<close>

definition today_index :: "indexer_sink \<Rightarrow> string \<Rightarrow> string" where
  "today_index sk day = wi_prefix sk @ ''-'' @ day"

section \<open>One attempt\<close>

text \<open>What the sink reaches the indexer through: the pool and what the pool was made with.\<close>

type_synonym pool_env = "client_open \<times> (string \<Rightarrow> answer list)"

definition on_pool :: "pool_env \<Rightarrow> string \<Rightarrow> json indexer \<Rightarrow> indexer_pool \<Rightarrow> (exn + json) \<times> indexer_pool" where
  "on_pool env tid m p =
     (case env of (opn, net) \<Rightarrow>
       (case ip_acquire opn net tid p of
          (Inl e, p1) \<Rightarrow> (Inl e, p1)
        | (Inr c, p1) \<Rightarrow> (case m c of (r, c') \<Rightarrow> (r, ip_store tid c' p1))))"

definition ensure_template :: "pool_env \<Rightarrow> indexer_sink \<times> indexer_pool \<Rightarrow> (exn + unit) \<times> indexer_sink \<times> indexer_pool" where
  "ensure_template env st =
     (case st of (sk, p) \<Rightarrow>
        if wi_installed sk then (Inr (), sk, p)
        else case on_pool env (wi_tenant sk) (put_index_template (template_name sk) (template_body (wi_prefix sk))) p of
               (Inl e, p1) \<Rightarrow> (Inl e, sk, p1)
             | (Inr r, p1) \<Rightarrow> (Inr (), sk\<lparr>wi_installed := True\<rparr>, p1))"

definition send_once ::
    "pool_env \<Rightarrow> (rat \<Rightarrow> string) \<Rightarrow> string \<Rightarrow> event list \<Rightarrow> indexer_sink \<times> indexer_pool \<Rightarrow>
     (exn + unit) \<times> indexer_sink \<times> indexer_pool" where
  "send_once env fr day evs st =
     (case ensure_template env st of
        (Inl e, st1) \<Rightarrow> (Inl e, st1)
      | (Inr u, sk, p) \<Rightarrow>
          (case on_pool env (wi_tenant sk) (bulk (build_bulk_body fr (today_index sk day) evs)) p of
             (Inl e, p1) \<Rightarrow> (Inl e, sk, p1)
           | (Inr resp, p1) \<Rightarrow>
               (bind_res (py_get resp ''errors'') (\<lambda>errors. if truthy errors then Inl RuntimeE else Inr ()), sk, p1)))"

section \<open>A batch with retries\<close>

datatype send_end = Sent | DroppedAll | GivenUp | Raised exn | Waiting

text \<open>Each attempt comes with the day on which it is made and whether a stop interrupts the backoff
  after it; with no attempts allowed the loop body never runs.\<close>

fun send_with_retry ::
    "pool_env \<Rightarrow> (rat \<Rightarrow> string) \<Rightarrow> (string \<times> bool) list \<Rightarrow> nat \<Rightarrow> event list \<Rightarrow> indexer_sink \<times> indexer_pool \<Rightarrow>
     send_end \<times> indexer_sink \<times> indexer_pool" where
  "send_with_retry env fr [] k evs st =
     (if wi_max_attempts (fst st) \<le> int k then (GivenUp, st) else (Waiting, st))"
| "send_with_retry env fr ((day, stopped) # ws) k evs st =
     (if wi_max_attempts (fst st) \<le> int k then (GivenUp, st)
      else case send_once env fr day evs st of
             (Inr u, st1) \<Rightarrow> (Sent, st1)
           | (Inl e, st1) \<Rightarrow>
               if \<not> is_exception e then (Raised e, st1)
               else if wi_max_attempts (fst st) \<le> int (Suc k) \<or> stopped then (DroppedAll, st1)
               else send_with_retry env fr ws (Suc k) evs st1)"

section \<open>What an attempt sends\<close>

definition pool_sent :: "indexer_pool \<Rightarrow> string \<Rightarrow> request list" where
  "pool_sent p tid = (case dget p tid of None \<Rightarrow> [] | Some c \<Rightarrow> ix_sent c)"

definition is_template :: "indexer_sink \<Rightarrow> request \<Rightarrow> bool" where
  "is_template sk rq \<longleftrightarrow> rq_method rq = ''PUT'' \<and> rq_path rq = ''/_index_template/'' @ template_name sk \<and>
     rq_json rq = Some (template_body (wi_prefix sk))"

definition is_bulk :: "(rat \<Rightarrow> string) \<Rightarrow> string set \<Rightarrow> event list \<Rightarrow> indexer_sink \<Rightarrow> request \<Rightarrow> bool" where
  "is_bulk fr days evs sk rq \<longleftrightarrow> rq_method rq = ''POST'' \<and> rq_path rq = ''/_bulk'' \<and>
     (\<exists>day \<in> days. rq_content rq = Some (build_bulk_body fr (today_index sk day) evs, ''application/x-ndjson''))"

lemma pool_acquire_sent:
  assumes "ip_acquire opn net own p = (r, p')"
  shows "pool_sent p' tid = pool_sent p tid \<and> (\<forall>c. r = Inr c \<longrightarrow> dget p' own = Some c)"
proof (cases "dget p own")
  case (Some c)
  then show ?thesis using assms by (auto simp: ip_acquire_def)
next
  case None
  then show ?thesis using assms
    by (auto simp: ip_acquire_def pool_sent_def dget_dset ip_fresh_def bind_res_eq_Inr new_indexer_client_def
        split: sum.splits)
qed

lemma on_pool_sent:
  assumes "on_pool env own m p = (r, p')"
    and "\<And>c r c'. m c = (r, c') \<Longrightarrow> \<exists>xs. ix_sent c' = ix_sent c @ xs \<and> length xs \<le> 1 \<and> list_all P xs \<and> (\<forall>v. r = Inr v \<longrightarrow> xs \<noteq> [])"
  shows "\<exists>xs. length xs \<le> 1 \<and> list_all P xs \<and> (\<forall>v. r = Inr v \<longrightarrow> xs \<noteq> []) \<and>
    (\<forall>tid. pool_sent p' tid = (if tid = own then pool_sent p tid @ xs else pool_sent p tid))"
proof -
  obtain opn net where env: "env = (opn, net)" by (cases env)
  obtain x p1 where a: "ip_acquire opn net own p = (x, p1)" by fastforce
  note acq = pool_acquire_sent [OF a]
  show ?thesis
  proof (cases x)
    case (Inl e)
    then show ?thesis using assms(1) a env acq by (intro exI [of _ "[]"]) (auto simp: on_pool_def)
  next
    case (Inr c)
    obtain y c' where m: "m c = (y, c')" by fastforce
    obtain xs where xs: "ix_sent c' = ix_sent c @ xs" "length xs \<le> 1" "list_all P xs" "\<forall>v. y = Inr v \<longrightarrow> xs \<noteq> []"
      using assms(2) [OF m] by blast
    have "r = y" "p' = ip_store own c' p1" using assms(1) a env Inr m by (simp_all add: on_pool_def)
    moreover have "dget p1 own = Some c" using acq Inr by blast
    then have "pool_sent p own = ix_sent c" using acq [of own] by (simp add: pool_sent_def)
    ultimately show ?thesis using xs acq by (intro exI [of _ xs]) (auto simp: pool_sent_def ip_store_def dget_dset)
  qed
qed

lemma ix_send_one: "ix_send rq c = (r, c') \<Longrightarrow> P rq \<Longrightarrow>
    \<exists>xs. ix_sent c' = ix_sent c @ xs \<and> length xs \<le> 1 \<and> list_all P xs \<and> (\<forall>v. r = Inr v \<longrightarrow> xs \<noteq> [])"
  using ix_send_sent [of rq c r c'] by (intro exI [of _ "[rq]"]) simp

text \<open>The account of a stretch of sending: template requests, then bulk requests.\<close>

definition sink_sends ::
    "(rat \<Rightarrow> string) \<Rightarrow> string set \<Rightarrow> event list \<Rightarrow> nat \<Rightarrow> indexer_sink \<times> indexer_pool \<Rightarrow> indexer_sink \<times> indexer_pool \<Rightarrow> bool" where
  "sink_sends fr days evs n st st' \<longleftrightarrow>
     (\<exists>ts bs. length ts \<le> n \<and> length bs \<le> n \<and>
        list_all (is_template (fst st)) ts \<and> list_all (is_bulk fr days evs (fst st)) bs \<and>
        (wi_installed (fst st) \<longrightarrow> ts = []) \<and> (bs \<noteq> [] \<longrightarrow> wi_installed (fst st')) \<and>
        fst st' = (fst st)\<lparr>wi_installed := wi_installed (fst st')\<rparr> \<and> (wi_installed (fst st) \<longrightarrow> wi_installed (fst st')) \<and>
        (\<not> wi_installed (fst st) \<and> wi_installed (fst st') \<longrightarrow> ts \<noteq> []) \<and>
        (\<forall>tid. pool_sent (snd st') tid = (if tid = wi_tenant (fst st) then pool_sent (snd st) tid @ ts @ bs else pool_sent (snd st) tid)))"

lemma ensure_template_sends:
  assumes "ensure_template env st = (r, st')"
  shows "\<exists>ts. length ts \<le> 1 \<and> list_all (is_template (fst st)) ts \<and> (wi_installed (fst st) \<longrightarrow> ts = []) \<and>
    fst st' = (fst st)\<lparr>wi_installed := wi_installed (fst st')\<rparr> \<and> (wi_installed (fst st) \<longrightarrow> wi_installed (fst st')) \<and>
    (r = Inr () \<longleftrightarrow> wi_installed (fst st')) \<and> (\<not> wi_installed (fst st) \<and> wi_installed (fst st') \<longrightarrow> ts \<noteq> []) \<and>
    (\<forall>tid. pool_sent (snd st') tid = (if tid = wi_tenant (fst st) then pool_sent (snd st) tid @ ts else pool_sent (snd st) tid))"
proof -
  obtain sk p where st: "st = (sk, p)" by (cases st)
  show ?thesis
  proof (cases "wi_installed sk")
    case True
    then show ?thesis using assms st by (intro exI [of _ "[]"]) (auto simp: ensure_template_def)
  next
    case False
    let ?m = "put_index_template (template_name sk) (template_body (wi_prefix sk))"
    obtain x p1 where o: "on_pool env (wi_tenant sk) ?m p = (x, p1)" by fastforce
    have "\<exists>xs. ix_sent c' = ix_sent c @ xs \<and> length xs \<le> 1 \<and> list_all (is_template sk) xs \<and> (\<forall>v. r = Inr v \<longrightarrow> xs \<noteq> [])"
      if "?m c = (r, c')" for c r c'
    proof (cases "safe_name (template_name sk)")
      case True
      show ?thesis
        by (rule ix_send_one [OF that [unfolded put_index_template_def, simplified True, simplified]]) (simp add: is_template_def)
    next
      case False
      then show ?thesis using that by (intro exI [of _ "[]"]) (auto simp: put_index_template_def)
    qed
    from on_pool_sent [OF o this] obtain ts where ts: "length ts \<le> 1" "list_all (is_template sk) ts" "\<forall>v. x = Inr v \<longrightarrow> ts \<noteq> []"
      "\<forall>tid. pool_sent p1 tid = (if tid = wi_tenant sk then pool_sent p tid @ ts else pool_sent p tid)" by blast
    show ?thesis using assms st False o ts
      by (intro exI [of _ ts]) (cases x; auto simp: ensure_template_def)
  qed
qed

lemma is_request_cong [simp]:
  "is_template (sk\<lparr>wi_installed := b\<rparr>) = is_template sk" "is_bulk fr days evs (sk\<lparr>wi_installed := b\<rparr>) = is_bulk fr days evs sk"
  by (simp_all add: fun_eq_iff is_template_def is_bulk_def template_name_def today_index_def)

lemma installed_only:
  assumes "sk' = sk\<lparr>wi_installed := b\<rparr>"
  shows "is_template sk' = is_template sk" "is_bulk fr days evs sk' = is_bulk fr days evs sk"
    "wi_tenant sk' = wi_tenant sk" "wi_max_attempts sk' = wi_max_attempts sk"
  by (simp_all add: assms)

lemma installed_trans:
  "b = a\<lparr>wi_installed := wi_installed b\<rparr> \<Longrightarrow> c = b\<lparr>wi_installed := wi_installed c\<rparr> \<Longrightarrow>
    c = a\<lparr>wi_installed := wi_installed c\<rparr>"
  by (cases a; cases b; cases c; simp)

lemma sink_sends_refl: "sink_sends fr days evs n st st"
  unfolding sink_sends_def by (intro exI [of _ "[]"]) (cases st; simp)

lemma sink_sends_trans:
  assumes "sink_sends fr days evs n st st1" "sink_sends fr days evs m st1 st2"
  shows "sink_sends fr days evs (n + m) st st2"
proof -
  obtain t1 b1 where 1: "length t1 \<le> n" "length b1 \<le> n"
    "list_all (is_template (fst st)) t1" "list_all (is_bulk fr days evs (fst st)) b1"
    "wi_installed (fst st) \<longrightarrow> t1 = []" "b1 \<noteq> [] \<longrightarrow> wi_installed (fst st1)"
    "fst st1 = (fst st)\<lparr>wi_installed := wi_installed (fst st1)\<rparr>" "wi_installed (fst st) \<longrightarrow> wi_installed (fst st1)"
    "\<not> wi_installed (fst st) \<and> wi_installed (fst st1) \<longrightarrow> t1 \<noteq> []"
    "\<forall>tid. pool_sent (snd st1) tid = (if tid = wi_tenant (fst st) then pool_sent (snd st) tid @ t1 @ b1 else pool_sent (snd st) tid)"
    using assms(1) unfolding sink_sends_def by blast
  obtain t2 b2 where 2: "length t2 \<le> m" "length b2 \<le> m"
    "list_all (is_template (fst st1)) t2" "list_all (is_bulk fr days evs (fst st1)) b2"
    "wi_installed (fst st1) \<longrightarrow> t2 = []" "b2 \<noteq> [] \<longrightarrow> wi_installed (fst st2)"
    "fst st2 = (fst st1)\<lparr>wi_installed := wi_installed (fst st2)\<rparr>" "wi_installed (fst st1) \<longrightarrow> wi_installed (fst st2)"
    "\<not> wi_installed (fst st1) \<and> wi_installed (fst st2) \<longrightarrow> t2 \<noteq> []"
    "\<forall>tid. pool_sent (snd st2) tid = (if tid = wi_tenant (fst st1) then pool_sent (snd st1) tid @ t2 @ b2 else pool_sent (snd st1) tid)"
    using assms(2) unfolding sink_sends_def by blast
  have kinds: "list_all (is_template (fst st)) t2" "list_all (is_bulk fr days evs (fst st)) b2" "wi_tenant (fst st1) = wi_tenant (fst st)"
    using 2(3,4) installed_only [OF 1(7)] by simp_all
  have "b1 = [] \<or> t2 = []" using 1(6) 2(5) by blast
  then have order: "t1 @ b1 @ t2 @ b2 = (t1 @ t2) @ (b1 @ b2)" by auto
  show ?thesis
    unfolding sink_sends_def
  proof (rule exI [of _ "t1 @ t2"], rule exI [of _ "b1 @ b2"], intro conjI)
    show "fst st2 = (fst st)\<lparr>wi_installed := wi_installed (fst st2)\<rparr>" using 1(7) 2(7) by (rule installed_trans)
    show "\<forall>tid. pool_sent (snd st2) tid =
        (if tid = wi_tenant (fst st) then pool_sent (snd st) tid @ (t1 @ t2) @ (b1 @ b2) else pool_sent (snd st) tid)"
      using 1(10) 2(10) kinds(3) order by simp
  qed (use 1(1-6,8,9) 2(1-6,8,9) kinds in auto)
qed

lemma send_once_requests:
  assumes "send_once env fr day evs st = (r, st')" "day \<in> days"
  shows "\<exists>ts bs. length ts \<le> 1 \<and> length bs \<le> 1 \<and>
    list_all (is_template (fst st)) ts \<and> list_all (is_bulk fr days evs (fst st)) bs \<and>
    (wi_installed (fst st) \<longrightarrow> ts = []) \<and> (bs \<noteq> [] \<longrightarrow> wi_installed (fst st')) \<and>
    fst st' = (fst st)\<lparr>wi_installed := wi_installed (fst st')\<rparr> \<and> (wi_installed (fst st) \<longrightarrow> wi_installed (fst st')) \<and>
    (\<not> wi_installed (fst st) \<and> wi_installed (fst st') \<longrightarrow> ts \<noteq> []) \<and> (r = Inr () \<longrightarrow> bs \<noteq> []) \<and>
    (\<forall>tid. pool_sent (snd st') tid = (if tid = wi_tenant (fst st) then pool_sent (snd st) tid @ ts @ bs else pool_sent (snd st) tid))"
proof -
  obtain x sk p where e: "ensure_template env st = (x, sk, p)" by (cases "ensure_template env st") auto
  from ensure_template_sends [OF e] obtain ts where ts: "length ts \<le> 1" "list_all (is_template (fst st)) ts"
    "wi_installed (fst st) \<longrightarrow> ts = []" "sk = (fst st)\<lparr>wi_installed := wi_installed sk\<rparr>"
    "wi_installed (fst st) \<longrightarrow> wi_installed sk" "x = Inr () \<longleftrightarrow> wi_installed sk"
    "\<not> wi_installed (fst st) \<and> wi_installed sk \<longrightarrow> ts \<noteq> []"
    "\<forall>tid. pool_sent p tid = (if tid = wi_tenant (fst st) then pool_sent (snd st) tid @ ts else pool_sent (snd st) tid)"
    by auto
  show ?thesis
  proof (cases x)
    case (Inl e')
    then have "st' = (sk, p)" "r = Inl e'" using assms(1) e by (simp_all add: send_once_def)
    then show ?thesis using ts by (intro exI [of _ ts] exI [of _ "[]"]) auto
  next
    case (Inr u)
    let ?m = "bulk (build_bulk_body fr (today_index sk day) evs)"
    obtain y p1 where o: "on_pool env (wi_tenant sk) ?m p = (y, p1)" by fastforce
    have "is_bulk fr days evs sk = is_bulk fr days evs (fst st)" by (rule installed_only(2) [OF ts(4)])
    moreover have "\<exists>xs. ix_sent c' = ix_sent c @ xs \<and> length xs \<le> 1 \<and> list_all (is_bulk fr days evs sk) xs \<and>
        (\<forall>v. r = Inr v \<longrightarrow> xs \<noteq> [])" if "?m c = (r, c')" for c r c'
      by (rule ix_send_one [OF that [unfolded bulk_def]]) (use assms(2) in \<open>auto simp: is_bulk_def\<close>)
    note on_pool_sent [OF o this]
    ultimately obtain bs where bs: "length bs \<le> 1" "list_all (is_bulk fr days evs (fst st)) bs" "\<forall>v. y = Inr v \<longrightarrow> bs \<noteq> []"
      "\<forall>tid. pool_sent p1 tid = (if tid = wi_tenant sk then pool_sent p tid @ bs else pool_sent p tid)" by metis
    have "st' = (sk, p1)" using assms(1) e Inr o by (cases y) (auto simp: send_once_def)
    moreover have "r = Inr () \<longrightarrow> bs \<noteq> []"
    proof (cases y)
      case (Inl e')
      then have "r = Inl e'" using assms(1) e Inr o by (auto simp: send_once_def)
      then show ?thesis by simp
    next
      case (Inr v)
      then show ?thesis using bs(3) by blast
    qed
    moreover have "wi_installed sk" "wi_tenant sk = wi_tenant (fst st)" using ts(6) Inr installed_only(3) [OF ts(4)] by simp_all
    moreover have "\<forall>tid. pool_sent p1 tid =
        (if tid = wi_tenant (fst st) then pool_sent (snd st) tid @ ts @ bs else pool_sent (snd st) tid)"
      using bs(4) ts(8) \<open>wi_tenant sk = wi_tenant (fst st)\<close> by simp
    ultimately show ?thesis using ts(1-7) bs(1,2) unfolding \<open>st' = (sk, p1)\<close> fst_conv snd_conv
      by (intro exI [of _ ts] exI [of _ bs] conjI) (assumption | blast)+
  qed
qed

lemma send_once_sends:
  assumes "send_once env fr day evs st = (r, st')" "day \<in> days"
  shows "sink_sends fr days evs 1 st st'"
  using send_once_requests [OF assms] unfolding sink_sends_def
  by (elim exE, rename_tac ts bs, rule_tac x = ts in exI, rule_tac x = bs in exI, elim conjE, intro conjI)
    (assumption | linarith)+

lemma send_with_retry_sends:
  assumes "send_with_retry env fr ws k evs st = (r, st')" "fst ` set ws \<subseteq> days"
  shows "sink_sends fr days evs (nat (wi_max_attempts (fst st) - int k)) st st'"
  using assms
proof (induction ws arbitrary: k st)
  case Nil
  then have "st' = st" by (auto split: if_splits)
  then show ?case by (simp add: sink_sends_refl)
next
  case (Cons w ws)
  obtain day stopped where w: "w = (day, stopped)" by (cases w)
  show ?case
  proof (cases "wi_max_attempts (fst st) \<le> int k")
    case True
    then have "st' = st" using Cons.prems(1) w by simp
    then show ?thesis by (simp add: sink_sends_refl)
  next
    case False
    obtain x st1 where o: "send_once env fr day evs st = (x, st1)" by (cases "send_once env fr day evs st")
    have one: "sink_sends fr days evs 1 st st1" using send_once_sends [OF o] Cons.prems(2) w by simp
    then have same: "wi_max_attempts (fst st1) = wi_max_attempts (fst st)"
      unfolding sink_sends_def using installed_only(4) by blast
    let ?n = "nat (wi_max_attempts (fst st) - int (Suc k))"
    have n: "nat (wi_max_attempts (fst st) - int k) = 1 + ?n" using False by simp
    have "sink_sends fr days evs ?n st1 st'"
    proof (cases "st' = st1")
      case True
      then show ?thesis by (simp add: sink_sends_refl)
    next
      case False
      then have "send_with_retry env fr ws (Suc k) evs st1 = (r, st')"
        using Cons.prems(1) w o \<open>\<not> wi_max_attempts (fst st) \<le> int k\<close> by (auto split: sum.splits if_splits)
      from Cons.IH [OF this] show ?thesis using Cons.prems(2) same by simp
    qed
    from sink_sends_trans [OF one this] show ?thesis by (simp add: n)
  qed
qed

text \<open>
  C17: A batch reaches the tenant's own indexer and nothing else.  However many attempts are made, a sink
  talks only through its tenant's client; it sends first the index template, at most once per configured
  attempt, never again once that was acknowledged and never a batch before, and then at most as many
  bulk requests as attempts are configured, each holding the whole batch for the index of the day of the
  attempt.
\<close>

theorem indexer_sink_protocol:
  assumes "send_with_retry env fr ws 0 evs (sk, p) = (r, sk', p')"
  shows "\<exists>ts bs. pool_sent p' (wi_tenant sk) = pool_sent p (wi_tenant sk) @ ts @ bs \<and>
    (\<forall>tid. tid \<noteq> wi_tenant sk \<longrightarrow> pool_sent p' tid = pool_sent p tid) \<and>
    int (length ts) \<le> max 0 (wi_max_attempts sk) \<and> int (length bs) \<le> max 0 (wi_max_attempts sk) \<and> (wi_installed sk \<longrightarrow> ts = []) \<and> (bs \<noteq> [] \<longrightarrow> wi_installed sk') \<and>
    (\<forall>rq \<in> set ts. rq_method rq = ''PUT'' \<and> rq_path rq = ''/_index_template/'' @ wi_prefix sk @ ''-template'' \<and>
      rq_json rq = Some (template_body (wi_prefix sk))) \<and>
    (\<forall>rq \<in> set bs. rq_method rq = ''POST'' \<and> rq_path rq = ''/_bulk'' \<and>
      (\<exists>day \<in> fst ` set ws. rq_content rq =
        Some (build_bulk_body fr (wi_prefix sk @ ''-'' @ day) evs, ''application/x-ndjson'')))"
proof -
  have "sink_sends fr (fst ` set ws) evs (nat (wi_max_attempts sk)) (sk, p) (sk', p')"
    using send_with_retry_sends [OF assms order_refl] by simp
  then obtain ts bs where tb: "length ts \<le> nat (wi_max_attempts sk)" "length bs \<le> nat (wi_max_attempts sk)" "list_all (is_template sk) ts"
    "list_all (is_bulk fr (fst ` set ws) evs sk) bs" "wi_installed sk \<longrightarrow> ts = []" "bs \<noteq> [] \<longrightarrow> wi_installed sk'"
    "\<forall>tid. pool_sent p' tid = (if tid = wi_tenant sk then pool_sent p tid @ ts @ bs else pool_sent p tid)"
    unfolding sink_sends_def fst_conv snd_conv by blast
  show ?thesis
    by (rule exI [of _ ts], rule exI [of _ bs])
      (use tb in \<open>auto simp: list_all_iff is_template_def is_bulk_def template_name_def today_index_def\<close>)
qed

section \<open>What a bulk body says\<close>

lemma bulk_action_event:
  "bulk_action index (build_event env c) = JObj [(''index'', JObj [(''_index'', JStr index), (''_id'', JStr (ee_uuid env))])]"
  by (simp add: bulk_action_def build_event_def)

lemma bulk_lines_printable:
  "printable (dumps fr '', '' '': '' (bulk_action index (build_event env c)))"
  "printable (dumps fr '', '' '': '' (JObj (build_event env c)))"
  using no_float_event by (intro dumps_printable; simp add: bulk_action_event)+

text \<open>
  C30: A bulk body is one action line and one event line per event.  Cut at its line feeds, the body
  of a batch of audit events gives back the events in order, each after an action that names the index
  and the event's own identifier, so that a repeated request overwrites and never duplicates within
  an index; the event text cannot break the framing whatever the arguments of the audited call held.
\<close>

theorem bulk_body_reads_back:
  assumes "calls \<noteq> []"
  shows "split_on (CHR 0x0A) (build_bulk_body fr index (map (\<lambda>(env, c). build_event env c) calls)) =
    concat (map (\<lambda>(env, c).
      [dumps fr '', '' '': '' (JObj [(''index'', JObj [(''_index'', JStr index), (''_id'', JStr (ee_uuid env))])]),
       dumps fr '', '' '': '' (JObj (build_event env c))]) calls) @ [[]]"
proof -
  let ?lines = "concat (map (\<lambda>ev. [dumps fr '', '' '': '' (bulk_action index ev), dumps fr '', '' '': '' (JObj ev)])
    (map (\<lambda>(env, c). build_event env c) calls))"
  have "\<forall>x \<in> set ?lines. CHR 0x0A \<notin> set x"
    using bulk_lines_printable [THEN printable_no_newline] by (auto simp del: dumps.simps)
  moreover have "?lines \<noteq> []" using assms by (cases calls) auto
  ultimately have "split_on (CHR 0x0A) (join_with [CHR 0x0A] ?lines) = ?lines" by (intro split_join)
  then have "split_on (CHR 0x0A) (join_with [CHR 0x0A] ?lines @ [CHR 0x0A]) = ?lines @ [[]]"
    by (simp only: split_on_snoc)
  then show ?thesis by (simp add: build_bulk_body_def bulk_action_event comp_def case_prod_unfold del: dumps.simps)
qed

section \<open>Defects\<close>

text \<open>
  A prefix that makes an unusable template name silences the sink.  The configuration accepts any index
  prefix; with one that holds a slash or two dots no attempt ever sends anything, and every batch
  ends in the drop recorder.
\<close>

theorem unsafe_prefix_sends_nothing:
  assumes "\<not> safe_name (template_name sk)" "\<not> wi_installed sk"
    and "send_with_retry env fr ws k evs (sk, p) = (r, sk', p')"
  shows "r \<noteq> Sent \<and> pool_sent p' tid = pool_sent p tid \<and>
    audit_sink_config_ok url_ok (WazuhIndexerSinkConfig (wi_prefix sk) 100 1000 5)"
proof -
  have once: "\<exists>e p1. send_once env fr day evs (sk, q) = (Inl e, sk, p1) \<and> pool_sent p1 tid = pool_sent q tid" for day q
  proof -
    obtain x p1 where o: "on_pool env (wi_tenant sk) (put_index_template (template_name sk) (template_body (wi_prefix sk))) q = (x, p1)"
      by fastforce
    have "\<exists>xs. ix_sent c' = ix_sent c @ xs \<and> length xs \<le> 1 \<and> list_all (\<lambda>_. False) xs \<and> (\<forall>v. y = Inr v \<longrightarrow> xs \<noteq> [])"
      if "put_index_template (template_name sk) (template_body (wi_prefix sk)) c = (y, c')" for c y c'
      using that assms(1) by (intro exI [of _ "[]"]) (auto simp: put_index_template_def)
    from on_pool_sent [OF o this] obtain xs where xs: "list_all (\<lambda>_. False) xs" "\<forall>v. x = Inr v \<longrightarrow> xs \<noteq> []"
      "\<forall>tid. pool_sent p1 tid = (if tid = wi_tenant sk then pool_sent q tid @ xs else pool_sent q tid)" by blast
    then have "xs = []" by (cases xs) auto
    then obtain e where "x = Inl e" using xs(2) by (cases x) auto
    then show ?thesis using o assms(2) xs(3) \<open>xs = []\<close> by (simp add: send_once_def ensure_template_def)
  qed
  have "r \<noteq> Sent \<and> pool_sent p' tid = pool_sent p tid"
    using assms(3)
  proof (induction ws arbitrary: k p)
    case Nil
    then show ?case by (auto split: if_splits)
  next
    case (Cons w ws)
    obtain day stopped where w: "w = (day, stopped)" by (cases w)
    obtain e p1 where o: "send_once env fr day evs (sk, p) = (Inl e, sk, p1)" "pool_sent p1 tid = pool_sent p tid"
      using once by blast
    show ?case using Cons.prems Cons.IH [of "Suc k" p1] o w by (auto split: if_splits)
  qed
  then show ?thesis by simp
qed

text \<open>
  A retry after midnight writes the batch twice.  The index is computed anew for every attempt: when the
  indexer took part of a batch before midnight and the batch is repeated after it, the same events
  are written to the indices of both days, where their identifiers no longer make them one.
\<close>

definition demo_sink_env :: pool_env where
  "demo_sink_env = (ip_open (yaml_get [(''acme'', demo_tenant)]) (yaml_secret_get demo_secrets),
     \<lambda>_. [Inr (200, Some (JObj [])), Inr (200, Some (JObj [(''errors'', JBool True)])),
          Inr (200, Some (JObj [(''errors'', JBool False)]))])"

lemmas sink_run_defs = demo_sink_env_def new_indexer_sink_def send_once_def ensure_template_def on_pool_def ip_acquire_def
  ip_fresh_def ip_open_def ip_store_def put_index_template_def bulk_def ix_send_def finish_response_def new_indexer_client_def
  yaml_get_def yaml_secret_get_def demo_secrets_def template_name_def safe_name_def today_index_def py_get_def pool_sent_def
  jget_def response_json_def Let_def basic_auth_def startswith_def

theorem retry_after_midnight_duplicates:
  "\<exists>sk p. send_with_retry demo_sink_env fr [(''2026.01.01'', False), (''2026.01.02'', False)] 0 evs
      (new_indexer_sink ''acme'' ''audit'' 5, []) = (Sent, sk, p) \<and>
    map rq_content (pool_sent p ''acme'') =
      [None, Some (build_bulk_body fr ''audit-2026.01.01'' evs, ''application/x-ndjson''),
       Some (build_bulk_body fr ''audit-2026.01.02'' evs, ''application/x-ndjson'')]"
  by (simp add: sink_run_defs is_exception_def)

section \<open>A sink at work\<close>

theorem indexer_sink_protocol_witness:
  "\<exists>sk p. send_with_retry demo_sink_env (\<lambda>r. []) [(''2026.01.01'', False), (''2026.01.02'', False)] 0 []
      (new_indexer_sink ''acme'' ''audit'' 5, []) = (Sent, sk, p) \<and> pool_sent p ''other'' = []"
proof -
  obtain sk p where run: "send_with_retry demo_sink_env (\<lambda>r. []) [(''2026.01.01'', False), (''2026.01.02'', False)] 0 []
      (new_indexer_sink ''acme'' ''audit'' 5, []) = (Sent, sk, p)"
    using retry_after_midnight_duplicates by blast
  have "pool_sent p ''other'' = pool_sent [] ''other''"
    using indexer_sink_protocol [OF run] by (force simp: new_indexer_sink_def)
  then show ?thesis using run by (simp add: pool_sent_def)
qed

theorem bulk_body_reads_back_witness:
  "length (split_on (CHR 0x0A) (build_bulk_body (\<lambda>r. []) ''audit'' (map (\<lambda>(env, c). build_event env c)
    [(sample_env, sample_call), (sample_env, sample_call)]))) = 5"
  using bulk_body_reads_back [of "[(sample_env, sample_call), (sample_env, sample_call)]" "\<lambda>r. []" "''audit''"]
  by (simp del: dumps.simps)

theorem unsafe_prefix_sends_nothing_witness:
  "\<exists>r sk p. send_with_retry demo_sink_env (\<lambda>r. []) [(''2026.01.01'', False)] 0 []
      (new_indexer_sink ''acme'' ''siem/audit'' 5, []) = (r, sk, p) \<and> r \<noteq> Sent \<and> pool_sent p ''acme'' = []"
proof -
  obtain r sk p where run: "send_with_retry demo_sink_env (\<lambda>r. []) [(''2026.01.01'', False)] 0 []
      (new_indexer_sink ''acme'' ''siem/audit'' 5, []) = (r, sk, p)"
    by (cases "send_with_retry demo_sink_env (\<lambda>r. []) [(''2026.01.01'', False)] 0 [] (new_indexer_sink ''acme'' ''siem/audit'' 5, [])")
  have "\<not> safe_name (template_name (new_indexer_sink ''acme'' ''siem/audit'' 5))" "\<not> wi_installed (new_indexer_sink ''acme'' ''siem/audit'' 5)"
    by (simp_all add: safe_name_def template_name_def new_indexer_sink_def)
  from unsafe_prefix_sends_nothing [OF this run, of "''acme''"] show ?thesis
    using run by (auto simp: pool_sent_def)
qed

end
