(* ===== verification/Registration.thy ===== *)
theory Registration imports Server begin

text \<open>
  What the server announces to its clients (\<open>_register_everything\<close> in \<open>server.py\<close>): the name, description,
  toolset and argument and result models of every tool, the resources and the prompts; and what of it
  the default roles may use.
\<close>

section \<open>Tools\<close>

record tool_spec =
  ts_name :: string
  ts_description :: string
  ts_toolset :: string
  ts_args_model :: string
  ts_result_model :: string

definition wrapped_tool :: "string \<Rightarrow> string \<Rightarrow> string \<Rightarrow> string \<Rightarrow> string \<Rightarrow> tool_spec" where
  "wrapped_tool name description toolset args_model result_model =
     \<lparr>ts_name = name, ts_description = description, ts_toolset = toolset, ts_args_model = args_model,
      ts_result_model = result_model\<rparr>"

definition write_desc_prefix :: string where
  "write_desc_prefix =
     ''WRITE tool. Destructive side effects. Before calling, explicitly confirm with the '' @
     ''human user what action they want taken and that they approve. Only set confirm:true '' @
     ''after the human has explicitly approved the specific call. ''"

definition write_spec :: "string \<Rightarrow> string \<Rightarrow> string \<Rightarrow> string \<Rightarrow> tool_spec" where
  "write_spec name description args_model result_model =
     wrapped_tool name (write_desc_prefix @ description) ''writes'' args_model result_model"

definition alerts_specs :: "tool_spec list" where
  "alerts_specs =
     [wrapped_tool ''alerts.search_alerts''
        (''Search Wazuh alerts by time range and filters. Use when the user asks about security '' @
         ''events, detections, or incidents within a time window. Returns a paginated list; use '' @
         ''`cursor` from a prior response to continue.'')
        ''alerts'' ''SearchAlertsArgs'' ''SearchAlertsResult'',
      wrapped_tool ''alerts.get_alert''
        (''Fetch a single Wazuh alert by its document id.'')
        ''alerts'' ''GetAlertArgs'' ''GetAlertResult'',
      wrapped_tool ''alerts.alerts_by_agent''
        (''List alerts for a specific agent over a time range.'')
        ''alerts'' ''AlertsByAgentArgs'' ''SearchAlertsResult'',
      wrapped_tool ''alerts.alerts_by_mitre''
        (''List alerts matching a MITRE ATT&CK technique id.'')
        ''alerts'' ''AlertsByMitreArgs'' ''SearchAlertsResult'']"

definition agents_specs :: "tool_spec list" where
  "agents_specs =
     [wrapped_tool ''agents.list_agents''
        (''List Wazuh agents, optionally filtered by status or group.'')
        ''agents'' ''ListAgentsArgs'' ''AgentsResult'',
      wrapped_tool ''agents.get_agent''
        (''Fetch a single Wazuh agent by id.'')
        ''agents'' ''GetAgentArgs'' ''AgentResult'',
      wrapped_tool ''agents.agent_processes''
        (''List processes seen on an agent (syscollector inventory).'')
        ''agents'' ''AgentSubquery'' ''AgentInventoryResult'',
      wrapped_tool ''agents.agent_packages''
        (''List installed packages on an agent (syscollector inventory).'')
        ''agents'' ''AgentSubquery'' ''AgentInventoryResult'',
      wrapped_tool ''agents.agent_ports''
        (''List open ports on an agent (syscollector inventory).'')
        ''agents'' ''AgentSubquery'' ''AgentInventoryResult'']"

definition vulnerabilities_specs :: "tool_spec list" where
  "vulnerabilities_specs =
     [wrapped_tool ''vulnerabilities.list_vulnerabilities_by_agent''
        (''List vulnerabilities for an agent (Wazuh 4.8+ indexer-backed).'')
        ''vulnerabilities'' ''ListVulnerabilitiesByAgentArgs'' ''VulnerabilitiesResult'',
      wrapped_tool ''vulnerabilities.search_vulnerabilities''
        (''Search vulnerabilities by CVE id or minimum severity.'')
        ''vulnerabilities'' ''SearchVulnerabilitiesArgs'' ''VulnerabilitiesResult'']"

definition mitre_specs :: "tool_spec list" where
  "mitre_specs =
     [wrapped_tool ''mitre.get_mitre_technique''
        (''Look up a MITRE ATT&CK technique by id (e.g. T1110.001).'')
        ''mitre'' ''GetMitreTechniqueArgs'' ''MitreTechniqueResult'',
      wrapped_tool ''mitre.search_mitre''
        (''Search MITRE techniques by name substring or tactic.'')
        ''mitre'' ''SearchMitreArgs'' ''MitreSearchResult'']"

definition hunt_specs :: "tool_spec list" where
  "hunt_specs =
     [wrapped_tool ''hunt.hunt_query''
        (''Run a constrained-grammar hunt across alerts. Accepts structured {field, op, value} '' @
         ''clauses from an allowlist - never raw DSL.'')
        ''hunt'' ''HuntQueryArgs'' ''HuntQueryResult'',
      wrapped_tool ''hunt.pivot_by_ioc''
        (''Pivot alerts by hash/ip/user/domain (preset over hunt_query).'')
        ''hunt'' ''PivotByIocArgs'' ''HuntQueryResult'']"

definition cluster_specs :: "tool_spec list" where
  "cluster_specs =
     [wrapped_tool ''cluster.status''
        (''Reads the Wazuh cluster's status: clustering enabled flag, running state, and '' @
         ''per-node name/type/status. Use to verify cluster readiness pre/post manager restart.'')
        ''cluster'' ''ClusterStatusArgs'' ''ClusterStatusResult'']"

definition fim_specs :: "tool_spec list" where
  "fim_specs =
     [wrapped_tool ''fim.fim_history_for_path''
        (''History of file-integrity events for a specific path.'')
        ''fim'' ''FimHistoryArgs'' ''FimResult'',
      wrapped_tool ''fim.fim_changes_by_agent''
        (''Recent file-integrity changes on a specific agent.'')
        ''fim'' ''FimChangesArgs'' ''FimResult'']"

definition write_specs :: "tool_spec list" where
  "write_specs =
     [write_spec ''write.isolate_agent''
        (''Isolates a Wazuh agent (blocks network traffic via Wazuh's isolate active-response).'')
        ''IsolateAgentArgs'' ''WriteResult'',
      write_spec ''write.restart_agent''
        (''Restarts the Wazuh agent process on the named agent.'')
        ''RestartAgentArgs'' ''WriteResult'',
      write_spec ''write.add_agent_to_group''
        (''Adds an agent to a Wazuh group (applies group rules + shared config).'')
        ''AddAgentToGroupArgs'' ''WriteResult'',
      write_spec ''write.remove_agent_from_group''
        (''Removes an agent from a Wazuh group.'')
        ''RemoveAgentFromGroupArgs'' ''WriteResult'',
      write_spec ''write.create_rule''
        (''Uploads a new Wazuh rule file. Activation requires a manager restart out of band.'')
        ''CreateRuleArgs'' ''WriteResult'',
      write_spec ''write.update_rule''
        (''Updates an existing Wazuh rule file. Activation requires a manager restart.'')
        ''UpdateRuleArgs'' ''WriteResult'',
      write_spec ''write.run_active_response''
        (''Runs a tenant-allowlisted active-response command on a single agent. The command must '' @
         ''be enumerated in TenantConfig.active_response_allowlist.'')
        ''RunActiveResponseArgs'' ''WriteResult'',
      write_spec ''write.run_active_response_on_group''
        (''Runs a tenant-allowlisted active-response command on every agent in the named group. '' @
         ''The group name must be enumerated in the tenant's agent_group_allowlist; the command '' @
         ''must be enumerated in active_response_allowlist (same as write.run_active_response).'')
        ''RunActiveResponseOnGroupArgs'' ''WriteResult'',
      write_spec ''write.restart_manager''
        (''Restarts the Wazuh manager (scope='cluster' restarts the entire cluster; scope='node' '' @
         ''restarts only this node). Required to activate uploaded rule files. Cycles every '' @
         ''connected agent connection.'')
        ''RestartManagerArgs'' ''RestartManagerResult'']"

text \<open>In the order of registration.\<close>

definition tool_specs :: "tool_spec list" where
  "tool_specs =
     alerts_specs @ agents_specs @ vulnerabilities_specs @ mitre_specs @ hunt_specs @ cluster_specs @ fim_specs @ write_specs"

section \<open>Resources and prompts\<close>

record resource_spec =
  rs_uri :: string
  rs_name :: string
  rs_description :: string
  rs_mime_type :: string

definition resource_specs :: "resource_spec list" where
  "resource_specs =
     [\<lparr>rs_uri = ''wazuh://rules/{rule_id}'', rs_name = ''Wazuh rule'',
       rs_description = ''Individual Wazuh detection rule - definition, groups, description. Attach instead of '' @
         ''calling a tool when the model just needs rule metadata.'',
       rs_mime_type = ''application/json''\<rparr>,
      \<lparr>rs_uri = ''wazuh://mitre/technique/{technique_id}'', rs_name = ''MITRE ATT&CK technique'',
       rs_description = ''Individual MITRE ATT&CK technique (TXXXX or TXXXX.YYY). Stable public corpus - cache '' @
         ''aggressively.'',
       rs_mime_type = ''application/json''\<rparr>,
      \<lparr>rs_uri = ''wazuh://agents/{agent_id}/config'', rs_name = ''Agent configuration'',
       rs_description = ''Current agent configuration snapshot from the Server API.'',
       rs_mime_type = ''application/json''\<rparr>]"

definition prompt_specs :: "(string \<times> string) list" where
  "prompt_specs =
     [(''triage_last_hour'',
       ''Triage Wazuh alerts from the last hour (level >= 10). Pre-loads the alert set so '' @
         ''Claude can summarise without further tool calls.''),
      (''investigate_alert'',
       ''Investigate a single Wazuh alert: fetches the alert, its agent, and last-hour '' @
         ''neighbors on the same agent.''),
      (''agent_posture'',
       ''Summarise an agent's security posture: details + last-24h alerts + vulnerability '' @
         ''count.'')]"

section \<open>The announced tools are the implemented ones\<close>

lemmas spec_lists = tool_specs_def alerts_specs_def agents_specs_def vulnerabilities_specs_def mitre_specs_def
  hunt_specs_def cluster_specs_def fim_specs_def write_specs_def

lemma spec_names:
  "map ts_name tool_specs =
    [''alerts.search_alerts'', ''alerts.get_alert'', ''alerts.alerts_by_agent'', ''alerts.alerts_by_mitre'',
     ''agents.list_agents'', ''agents.get_agent'', ''agents.agent_processes'', ''agents.agent_packages'',
     ''agents.agent_ports'', ''vulnerabilities.list_vulnerabilities_by_agent'',
     ''vulnerabilities.search_vulnerabilities'', ''mitre.get_mitre_technique'', ''mitre.search_mitre'',
     ''hunt.hunt_query'', ''hunt.pivot_by_ioc'', ''cluster.status'', ''fim.fim_history_for_path'',
     ''fim.fim_changes_by_agent'', ''write.isolate_agent'', ''write.restart_agent'', ''write.add_agent_to_group'',
     ''write.remove_agent_from_group'', ''write.create_rule'', ''write.update_rule'', ''write.run_active_response'',
     ''write.run_active_response_on_group'', ''write.restart_manager'']"
  by (simp add: spec_lists wrapped_tool_def write_spec_def)

text \<open>
  The catalogue is the implementation.  The announced tools are, in order, exactly the tools that have
  a handler, each under one name; the tools announced as writes, those whose description opens with
  the confirmation warning, and those whose name starts with \<open>write.\<close> are the same.
\<close>

theorem catalogue_is_implementation:
  "map ts_name tool_specs = map fst (all_tools tenv wenv s :: (string \<times> 'l app_handler) list) \<and>
   distinct (map ts_name tool_specs) \<and>
   map (\<lambda>t. startswith (ts_name t) ''write.'') tool_specs = map (\<lambda>t. ts_toolset t = ''writes'') tool_specs \<and>
   map (\<lambda>t. startswith (ts_description t) write_desc_prefix) tool_specs = map (\<lambda>t. ts_toolset t = ''writes'') tool_specs"
proof (intro conjI)
  show "map ts_name tool_specs = map fst (all_tools tenv wenv s :: (string \<times> 'l app_handler) list)"
    by (simp add: spec_names all_tools_def read_tools_def write_tools_def)
  show "distinct (map ts_name tool_specs)" unfolding spec_names by code_simp
  show "map (\<lambda>t. startswith (ts_name t) ''write.'') tool_specs = map (\<lambda>t. ts_toolset t = ''writes'') tool_specs"
    by code_simp
  show "map (\<lambda>t. startswith (ts_description t) write_desc_prefix) tool_specs = map (\<lambda>t. ts_toolset t = ''writes'') tool_specs"
    by code_simp
qed

section \<open>What the default roles see\<close>

definition visible_tools :: "(string, string list) dict option \<Rightarrow> session \<Rightarrow> string list" where
  "visible_tools tenant_override s =
     filter (\<lambda>name. is_allowed s name (effective_allowlist_for tenant_override)) (map ts_name tool_specs)"

definition names_in :: "string set \<Rightarrow> string list" where
  "names_in toolsets = map ts_name (filter (\<lambda>t. ts_toolset t \<in> toolsets) tool_specs)"

definition matched :: "string \<Rightarrow> string list" where
  "matched role =
     (case dget DEFAULT_ROLE_TOOL_ALLOWLIST role of
        None \<Rightarrow> [] | Some ps \<Rightarrow> filter (\<lambda>name. tool_matches name ps) (map ts_name tool_specs))"

lemma visible_default: "visible_tools None s = matched (rbac_role s)"
  by (simp add: visible_tools_def matched_def is_allowed_def effective_allowlist_for_def split: option.splits)

lemma matched_roles:
  "matched ''admin'' = map ts_name tool_specs"
  "matched ''analyst'' = names_in {''alerts'', ''agents'', ''vulnerabilities'', ''mitre'', ''hunt'', ''fim''}"
  "matched ''readonly'' =
     names_in {''alerts''} @ [''agents.list_agents'', ''agents.get_agent''] @ names_in {''vulnerabilities'', ''mitre'', ''fim''}"
  by code_simp+

lemma matched_status:
  "''cluster.status'' \<in> set (matched ''admin'')" "''cluster.status'' \<notin> set (matched ''analyst'')"
  "''cluster.status'' \<notin> set (matched ''readonly'')" "matched ''admin'' \<noteq> []" "matched ''analyst'' \<noteq> []" "matched ''readonly'' \<noteq> []"
  by code_simp+

lemma matched_other: "role \<notin> {''admin'', ''analyst'', ''readonly''} \<Longrightarrow> matched role = []"
  using default_role_cases [of role] by (auto simp: matched_def split: option.splits)

text \<open>
  What a role is listed, from the announced tools.  Without overrides the analyst's tools are the read toolsets except the cluster's, the read-only role
  loses the hunts and the agents' inventories on top, an administrator has every tool and any other
  role none.  So the cluster status is the administrator's alone, which the documentation of the
  default roles contradicts.
\<close>

theorem default_roles_see:
  "rbac_list_tools (\<lambda>_. (Inr (effective_allowlist_for ov), evs)) (map ts_name tool_specs) (Some s) w =
     (Inr (visible_tools ov s), emit_events evs w) \<and>
   visible_tools None (s\<lparr>rbac_role := ''admin''\<rparr>) = map ts_name tool_specs \<and>
   visible_tools None (s\<lparr>rbac_role := ''analyst''\<rparr>) =
     names_in {''alerts'', ''agents'', ''vulnerabilities'', ''mitre'', ''hunt'', ''fim''} \<and>
   visible_tools None (s\<lparr>rbac_role := ''readonly''\<rparr>) =
     names_in {''alerts''} @ [''agents.list_agents'', ''agents.get_agent''] @ names_in {''vulnerabilities'', ''mitre'', ''fim''} \<and>
   (''cluster.status'' \<in> set (visible_tools None s)) = (rbac_role s = ''admin'') \<and>
   (visible_tools None s = []) = (rbac_role s \<notin> {''admin'', ''analyst'', ''readonly''})"
proof (intro conjI)
  show "rbac_list_tools (\<lambda>_. (Inr (effective_allowlist_for ov), evs)) (map ts_name tool_specs) (Some s) w =
     (Inr (visible_tools ov s), emit_events evs w)"
    by (simp add: rbac_list_tools_def visible_tools_def)
  show "(''cluster.status'' \<in> set (visible_tools None s)) = (rbac_role s = ''admin'')"
    using matched_status(1-3) matched_other [of "rbac_role s"] by (fastforce simp: visible_default)
  show "(visible_tools None s = []) = (rbac_role s \<notin> {''admin'', ''analyst'', ''readonly''})"
    using matched_status(4-6) matched_other [of "rbac_role s"] by (auto simp: visible_default)
qed (simp_all add: visible_default matched_roles)

end
