(* ===== verification/Signatures.thy ===== *)
theory Signatures imports Registration begin

text \<open>
  The signature a tool announces to the MCP library (\<open>_signature_from_args_model\<close> and the end of
  \<open>instrumented_tool\<close> in \<open>observability/decorators.py\<close>): one keyword parameter per field of the argument
  model.  The library reads it to build the schema of the tool and to check the arguments of a call
  before the handler sees them.
\<close>

section \<open>The argument models\<close>

text \<open>A field of a pydantic model: no default, a default, or a factory of defaults.  Types are named as
  in the source, without the constraints of \<open>Annotated\<close>, which the models of the tools check.\<close>

datatype field_default = NoDefault | Default json | Factory json

datatype args_field = args_field (af_name: string) (af_type: string) (af_default: field_default)

definition alerts_models :: "(string \<times> args_field list) list" where
  "alerts_models =
     [(''SearchAlertsArgs'',
       [args_field ''time_range'' ''str'' (Default (JStr ''1h'')),
        args_field ''min_level'' ''int | None'' (Default JNull),
        args_field ''agent_id'' ''str | None'' (Default JNull),
        args_field ''size'' ''int'' (Default (JInt 25)),
        args_field ''cursor'' ''list[Any] | None'' (Default JNull)]),
      (''GetAlertArgs'',
       [args_field ''alert_id'' ''str'' NoDefault]),
      (''AlertsByAgentArgs'',
       [args_field ''agent_id'' ''str'' NoDefault,
        args_field ''time_range'' ''str'' (Default (JStr ''24h'')),
        args_field ''size'' ''int'' (Default (JInt 25)),
        args_field ''cursor'' ''list[Any] | None'' (Default JNull)]),
      (''AlertsByMitreArgs'',
       [args_field ''technique_id'' ''str'' NoDefault,
        args_field ''time_range'' ''str'' (Default (JStr ''24h'')),
        args_field ''size'' ''int'' (Default (JInt 25)),
        args_field ''cursor'' ''list[Any] | None'' (Default JNull)])]"

definition agents_models :: "(string \<times> args_field list) list" where
  "agents_models =
     [(''ListAgentsArgs'',
       [args_field ''status'' ''str | None'' (Default JNull),
        args_field ''group'' ''str | None'' (Default JNull),
        args_field ''size'' ''int'' (Default (JInt 100)),
        args_field ''offset'' ''int'' (Default (JInt 0))]),
      (''GetAgentArgs'',
       [args_field ''agent_id'' ''str'' NoDefault]),
      (''AgentSubquery'',
       [args_field ''agent_id'' ''str'' NoDefault,
        args_field ''size'' ''int'' (Default (JInt 100)),
        args_field ''offset'' ''int'' (Default (JInt 0))])]"

definition vulns_models :: "(string \<times> args_field list) list" where
  "vulns_models =
     [(''ListVulnerabilitiesByAgentArgs'',
       [args_field ''agent_id'' ''str'' NoDefault,
        args_field ''min_severity'' ''str | None'' (Default JNull),
        args_field ''size'' ''int'' (Default (JInt 25)),
        args_field ''cursor'' ''list[Any] | None'' (Default JNull)]),
      (''SearchVulnerabilitiesArgs'',
       [args_field ''cve_id'' ''str | None'' (Default JNull),
        args_field ''min_severity'' ''str | None'' (Default JNull),
        args_field ''size'' ''int'' (Default (JInt 25)),
        args_field ''cursor'' ''list[Any] | None'' (Default JNull)])]"

definition mitre_models :: "(string \<times> args_field list) list" where
  "mitre_models =
     [(''GetMitreTechniqueArgs'',
       [args_field ''technique_id'' ''str'' NoDefault]),
      (''SearchMitreArgs'',
       [args_field ''q'' ''str | None'' (Default JNull),
        args_field ''tactic'' ''str | None'' (Default JNull),
        args_field ''size'' ''int'' (Default (JInt 50))])]"

definition hunt_models :: "(string \<times> args_field list) list" where
  "hunt_models =
     [(''HuntQueryArgs'',
       [args_field ''time_range'' ''str'' NoDefault,
        args_field ''must'' ''list[HuntClause]'' NoDefault,
        args_field ''must_not'' ''list[HuntClause]'' (Factory (JList [])),
        args_field ''size'' ''int'' (Default (JInt 25)),
        args_field ''cursor'' ''list[Any] | None'' (Default JNull)]),
      (''PivotByIocArgs'',
       [args_field ''kind'' ''Literal[\"hash\", \"ip\", \"user\", \"domain\"]'' NoDefault,
        args_field ''value'' ''str'' NoDefault,
        args_field ''time_range'' ''str'' (Default (JStr ''24h'')),
        args_field ''size'' ''int'' (Default (JInt 25)),
        args_field ''cursor'' ''list[Any] | None'' (Default JNull)])]"

definition cluster_models :: "(string \<times> args_field list) list" where
  "cluster_models =
     [(''ClusterStatusArgs'',
       [])]"

definition fim_models :: "(string \<times> args_field list) list" where
  "fim_models =
     [(''FimHistoryArgs'',
       [args_field ''path'' ''str'' NoDefault,
        args_field ''time_range'' ''str'' (Default (JStr ''24h'')),
        args_field ''size'' ''int'' (Default (JInt 25)),
        args_field ''cursor'' ''list[Any] | None'' (Default JNull)]),
      (''FimChangesArgs'',
       [args_field ''agent_id'' ''str'' NoDefault,
        args_field ''time_range'' ''str'' (Default (JStr ''24h'')),
        args_field ''size'' ''int'' (Default (JInt 25)),
        args_field ''cursor'' ''list[Any] | None'' (Default JNull)])]"

definition write_models :: "(string \<times> args_field list) list" where
  "write_models =
     [(''IsolateAgentArgs'',
       [args_field ''agent_ids'' ''list[str]'' NoDefault,
        args_field ''confirm'' ''Literal[True]'' NoDefault]),
      (''RestartAgentArgs'',
       [args_field ''agent_id'' ''str'' NoDefault,
        args_field ''confirm'' ''Literal[True]'' NoDefault]),
      (''AddAgentToGroupArgs'',
       [args_field ''agent_id'' ''str'' NoDefault,
        args_field ''group_id'' ''str'' NoDefault,
        args_field ''confirm'' ''Literal[True]'' NoDefault]),
      (''RemoveAgentFromGroupArgs'',
       [args_field ''agent_id'' ''str'' NoDefault,
        args_field ''group_id'' ''str'' NoDefault,
        args_field ''confirm'' ''Literal[True]'' NoDefault]),
      (''CreateRuleArgs'',
       [args_field ''rule'' ''RuleDefinition'' NoDefault,
        args_field ''confirm'' ''Literal[True]'' NoDefault]),
      (''UpdateRuleArgs'',
       [args_field ''rule_id'' ''int'' NoDefault,
        args_field ''rule'' ''RuleDefinition'' NoDefault,
        args_field ''confirm'' ''Literal[True]'' NoDefault]),
      (''RunActiveResponseArgs'',
       [args_field ''agent_ids'' ''list[str]'' NoDefault,
        args_field ''command_name'' ''str'' NoDefault,
        args_field ''custom_args'' ''dict[str, Any] | None'' (Default JNull),
        args_field ''confirm'' ''Literal[True]'' NoDefault]),
      (''RunActiveResponseOnGroupArgs'',
       [args_field ''group_name'' ''str'' NoDefault,
        args_field ''command_name'' ''str'' NoDefault,
        args_field ''custom_args'' ''dict[str, Any] | None'' (Default JNull),
        args_field ''confirm'' ''Literal[True]'' NoDefault]),
      (''RestartManagerArgs'',
       [args_field ''scope'' ''Literal[\"node\", \"cluster\"]'' (Default (JStr ''cluster'')),
        args_field ''confirm'' ''Literal[True]'' NoDefault])]"


definition args_models :: "(string \<times> args_field list) list" where
  "args_models = alerts_models @ agents_models @ vulns_models @ mitre_models @ hunt_models @ cluster_models @ fim_models @ write_models"

section \<open>The announced signature\<close>

datatype parameter = Parameter (pm_name: string) (pm_annotation: string) (pm_default: "json option")

text \<open>\<open>field.default\<close> is undefined for a field with a factory.\<close>

definition plain_default :: "field_default \<Rightarrow> json option" where
  "plain_default d = (case d of Default v \<Rightarrow> Some v | _ \<Rightarrow> None)"

definition signature_from_args_model :: "args_field list \<Rightarrow> parameter list" where
  "signature_from_args_model fs = map (\<lambda>f. Parameter (af_name f) (af_type f) (plain_default (af_default f))) fs"

definition wrapped_name :: "string \<Rightarrow> string" where
  "wrapped_name tool = ''instrumented_'' @ replace_all ''.'' ''_'' tool"

text \<open>What a call must contain: for the library, the parameters without a default; for the model, the
  fields without a default or a factory.\<close>

definition wire_required :: "args_field list \<Rightarrow> string list" where
  "wire_required fs = map pm_name (filter (\<lambda>p. pm_default p = None) (signature_from_args_model fs))"

definition model_required :: "args_field list \<Rightarrow> string list" where
  "model_required fs = map af_name (filter (\<lambda>f. af_default f = NoDefault) fs)"

definition fields_of :: "tool_spec \<Rightarrow> args_field list" where
  "fields_of t = (case map_of args_models (ts_args_model t) of None \<Rightarrow> [] | Some fs \<Rightarrow> fs)"

section \<open>What a client must send\<close>

lemma wire_required_eq: "wire_required fs = map af_name (filter (\<lambda>f. plain_default (af_default f) = None) fs)"
  by (induction fs) (simp_all add: wire_required_def signature_from_args_model_def)

lemma model_required_wire: "set (model_required fs) \<subseteq> set (wire_required fs)"
  unfolding wire_required_eq model_required_def by (auto simp: plain_default_def split: field_default.splits)

lemmas models_defs = args_models_def alerts_models_def agents_models_def vulns_models_def mitre_models_def
  hunt_models_def cluster_models_def fim_models_def write_models_def

text \<open>
  The announced signature is the argument model's, with one exception.  Every tool announces exactly the
  fields of its argument model under their names, and it asks for every field the model asks for.  It
  asks for more in one case: the factory of a default is not carried over, so a hunt must name
  \<open>must_not\<close> although its model does not need it.  No write tool can be called without \<open>confirm\<close>, which
  has no default.  The wrapped handlers have distinct names.
\<close>

theorem announced_signatures:
  "map pm_name (signature_from_args_model fs) = map af_name fs \<and>
   set (model_required fs) \<subseteq> set (wire_required fs) \<and>
   map (\<lambda>t. (ts_name t, filter (\<lambda>n. n \<notin> set (model_required (fields_of t))) (wire_required (fields_of t))))
     (filter (\<lambda>t. wire_required (fields_of t) \<noteq> model_required (fields_of t)) tool_specs) = [(''hunt.hunt_query'', [''must_not''])] \<and>
   list_all (\<lambda>t. ts_args_model t \<in> fst ` set args_models) tool_specs \<and>
   list_all (\<lambda>t. ''confirm'' \<in> set (wire_required (fields_of t))) (filter (\<lambda>t. ts_toolset t = ''writes'') tool_specs) \<and>
   distinct (map (\<lambda>t. wrapped_name (ts_name t)) tool_specs)"
proof (intro conjI)
  show "map pm_name (signature_from_args_model fs) = map af_name fs"
    by (simp add: signature_from_args_model_def)
  show "set (model_required fs) \<subseteq> set (wire_required fs)" by (rule model_required_wire)
  show "map (\<lambda>t. (ts_name t, filter (\<lambda>n. n \<notin> set (model_required (fields_of t))) (wire_required (fields_of t))))
     (filter (\<lambda>t. wire_required (fields_of t) \<noteq> model_required (fields_of t)) tool_specs) = [(''hunt.hunt_query'', [''must_not''])]"
    by code_simp
  show "list_all (\<lambda>t. ts_args_model t \<in> fst ` set args_models) tool_specs"
    by code_simp
  show "list_all (\<lambda>t. ''confirm'' \<in> set (wire_required (fields_of t))) (filter (\<lambda>t. ts_toolset t = ''writes'') tool_specs)"
    by code_simp
  show "distinct (map (\<lambda>t. wrapped_name (ts_name t)) tool_specs)"
    unfolding wrapped_name_def by code_simp
qed

end
