(* ===== verification/Startup.thy ===== *)
theory Startup imports StdioApp begin

text \<open>
  Starting a server: the choice of the transport (\<open>__main__.py\<close>), the address the HTTP server listens on
  (\<open>run_http\<close> in \<open>server.py\<close>) and that of the metrics page of the stdio server (\<open>observability/metrics.py\<close>).
\<close>

section \<open>Addresses\<close>

text \<open>\<open>s.partition(":")\<close> and \<open>s.rpartition(":")\<close>, without the separator.\<close>

definition partition_colon :: "string \<Rightarrow> string \<times> string" where
  "partition_colon s = (takeWhile (\<lambda>c. c \<noteq> CHR '':'') s, drop 1 (dropWhile (\<lambda>c. c \<noteq> CHR '':'') s))"

definition rpartition_colon :: "string \<Rightarrow> string \<times> string" where
  "rpartition_colon s =
     (if CHR '':'' \<in> set s
      then (case partition_colon (rev s) of (after, before) \<Rightarrow> (rev before, rev after))
      else ([], s))"

definition port_number :: "string \<Rightarrow> exn + int" where
  "port_number t = (case int_of_text t of None \<Rightarrow> Inl ValueE | Some p \<Rightarrow> Inr p)"

definition bind_address :: "string \<Rightarrow> exn + string \<times> int" where
  "bind_address b =
     (case partition_colon b of (host, port) \<Rightarrow> bind_res (port_number port) (\<lambda>p. Inr (host, p)))"

text \<open>\<open>addr\<close> is the value of \<open>WAZUH_MCP_METRICS_ADDR\<close>; \<open>None\<close> as a result is no server.\<close>

definition metrics_address :: "string option \<Rightarrow> exn + (string \<times> int) option" where
  "metrics_address addr =
     (case addr of
        None \<Rightarrow> Inr None
      | Some a \<Rightarrow>
          if a = [] then Inr None
          else (case rpartition_colon a of (host, port) \<Rightarrow>
                  bind_res (port_number port) (\<lambda>p. Inr (Some (if host = [] then ''0.0.0.0'' else host, p)))))"

section \<open>Telemetry\<close>

text \<open>The module state of \<open>observability/otel.py\<close>; \<open>ot_providers\<close> is the history of the providers that were set, by
  their service version.\<close>

record otel_state =
  ot_initialized :: bool
  ot_registry :: bool
  ot_providers :: "string list"

definition fresh_otel :: otel_state where
  "fresh_otel = \<lparr>ot_initialized = False, ot_registry = False, ot_providers = []\<rparr>"

definition init_otel :: "string \<Rightarrow> otel_state \<Rightarrow> otel_state" where
  "init_otel service_version st =
     (if ot_initialized st then st
      else st\<lparr>ot_initialized := True, ot_registry := True, ot_providers := ot_providers st @ [service_version]\<rparr>)"

definition prom_registry :: "otel_state \<Rightarrow> exn + unit" where
  "prom_registry st = (if ot_registry st then Inr () else Inl RuntimeE)"

definition shutdown_otel :: "otel_state \<Rightarrow> otel_state" where
  "shutdown_otel st = st\<lparr>ot_initialized := False, ot_registry := False\<rparr>"

text \<open>The port is read before the registry is asked for.\<close>

definition maybe_start_stdio_metrics_server :: "string option \<Rightarrow> otel_state \<Rightarrow> exn + (string \<times> int) option" where
  "maybe_start_stdio_metrics_server addr st =
     bind_res (metrics_address addr) (\<lambda>a.
       case a of None \<Rightarrow> Inr None | Some x \<Rightarrow> bind_res (prom_registry st) (\<lambda>u. Inr (Some x)))"

section \<open>The servers\<close>

datatype started =
    ExitStatus int
  | StdioServer stdio_app "built_limiter app_world"
  | HttpServer http_app http_world string int

definition run_http :: "'k platform \<Rightarrow> (string \<Rightarrow> bool) \<Rightarrow> config_dir \<Rightarrow> exn + started" where
  "run_http pf url_ok cd =
     bind_res (load_http_config url_ok (pf_feeds pf) cd) (\<lambda>cfg.
     bind_res (build_http_app pf cfg) (\<lambda>(app, w).
     bind_res (required (sy_http (cd_server cd))) (\<lambda>hc.
     bind_res (required (hs_bind hc)) (\<lambda>b.
     bind_res (bind_address b) (\<lambda>(host, port). Inr (HttpServer app w host port))))))"

text \<open>Telemetry is set up first; \<open>version\<close> is the installed version of the package.\<close>

definition start_stdio ::
    "'k platform \<Rightarrow> (string \<Rightarrow> bool) \<Rightarrow> string \<Rightarrow> string option \<Rightarrow> config_dir \<Rightarrow> exn + started" where
  "start_stdio pf url_ok version metrics_addr cd =
     bind_res (load_config url_ok cd) (\<lambda>cfg.
     bind_res (maybe_start_stdio_metrics_server metrics_addr (init_otel version fresh_otel)) (\<lambda>m.
     bind_res (build_app pf cfg) (\<lambda>(app, w). Inr (StdioServer app w))))"

text \<open>\<open>is_dir\<close>: the configuration directory exists.  Its \<open>server.yaml\<close> is taken to exist; without it the
  stdio server would be chosen and fail to read it.\<close>

definition main :: "'k platform \<Rightarrow> (string \<Rightarrow> bool) \<Rightarrow> string \<Rightarrow> string option \<Rightarrow> bool \<Rightarrow> config_dir \<Rightarrow> exn + started" where
  "main pf url_ok version metrics_addr is_dir cd =
     (if \<not> is_dir then Inr (ExitStatus 2)
      else
        (let transport = lower (or_else (sy_transport (cd_server cd)) ''stdio'')
         in if transport = ''stdio'' then start_stdio pf url_ok version metrics_addr cd
            else if transport = ''http'' then run_http pf url_ok cd
            else Inr (ExitStatus 2)))"

section \<open>What is listened on\<close>

lemma partition_colon_iff:
  "partition_colon s = (a, b) \<longleftrightarrow> CHR '':'' \<notin> set a \<and> (s = a @ CHR '':'' # b \<or> s = a \<and> b = [])"
proof -
  have "takeWhile (\<lambda>c. c \<noteq> CHR '':'') (a @ CHR '':'' # b) = a \<and> dropWhile (\<lambda>c. c \<noteq> CHR '':'') (a @ CHR '':'' # b) = CHR '':'' # b"
    if "CHR '':'' \<notin> set a" for a b
    using that by (induction a) auto
  moreover have "takeWhile (\<lambda>c. c \<noteq> CHR '':'') a = a \<and> dropWhile (\<lambda>c. c \<noteq> CHR '':'') a = []" if "CHR '':'' \<notin> set a" for a
    using that by (induction a) auto
  moreover have "CHR '':'' \<notin> set (takeWhile (\<lambda>c. c \<noteq> CHR '':'') s)" by (metis set_takeWhileD)
  moreover have "s = takeWhile (\<lambda>c. c \<noteq> CHR '':'') s @ dropWhile (\<lambda>c. c \<noteq> CHR '':'') s" by simp
  moreover have "dropWhile (\<lambda>c. c \<noteq> CHR '':'') s = [] \<or> (\<exists>r. dropWhile (\<lambda>c. c \<noteq> CHR '':'') s = CHR '':'' # r)"
    by (induction s) auto
  ultimately show ?thesis unfolding partition_colon_def
    by (smt (verit) append_Nil2 drop0 drop_Suc_Cons drop_Nil One_nat_def Pair_inject)
qed

lemma split_on_covers: "set s \<subseteq> insert c (\<Union> (set ` set (split_on c s)))"
proof (induction s)
  case (Cons x xs)
  obtain g gs where "split_on c xs = g # gs" using split_on_nonempty by (cases "split_on c xs") auto
  then show ?case using Cons by auto
qed simp

lemma read_digits_no_colon:
  assumes "read_digits s = Some n"
  shows "CHR '':'' \<notin> set s"
proof -
  have "\<forall>g \<in> set (split_on (CHR ''_'') s). \<forall>c \<in> set g. is_digit c"
    using assms by (auto simp: read_digits_def Let_def list_all_iff split: if_splits)
  moreover have "\<not> is_digit (CHR '':'')" by (simp add: is_digit_def)
  ultimately show ?thesis using split_on_covers [of s "CHR ''_''"] by fastforce
qed

lemma dropWhile_keeps: "c \<in> set xs \<Longrightarrow> \<not> P c \<Longrightarrow> c \<in> set (dropWhile P xs)"
  by (induction xs) auto

lemma int_of_text_no_colon: "int_of_text t = Some n \<Longrightarrow> CHR '':'' \<notin> set t"
proof -
  assume i: "int_of_text t = Some n"
  then have "CHR '':'' \<notin> set (py_strip t)"
    by (auto simp: int_of_text_def dest!: read_digits_no_colon split: list.splits if_splits)
  moreover have "CHR '':'' \<in> set t \<Longrightarrow> CHR '':'' \<in> set (py_strip t)"
    unfolding py_strip_def set_rev by (intro dropWhile_keeps) (simp_all add: dropWhile_keeps py_space_def)
  ultimately show ?thesis by blast
qed

text \<open>
  The HTTP server listens on the host before the only colon of \<open>http.bind\<close> and the number after it: an
  address without a port and one with several colons, as every IPv6 address has, end the start
  after the application was built.  The metrics page of the stdio server splits at the last colon.
\<close>

theorem http_bind_address:
  "(bind_address b = Inr (host, port)) =
     (\<exists>t. b = host @ CHR '':'' # t \<and> count_list b (CHR '':'') = 1 \<and> int_of_text t = Some port) \<and>
   bind_address (''['' @ h @ ''::'' @ r) = Inl ValueE \<and>
   metrics_address (Some ''[::1]:9100'') = Inr (Some (''[::1]'', 9100))"
proof (intro conjI)
  have no_port: "port_number t = Inr p \<Longrightarrow> CHR '':'' \<notin> set t \<and> int_of_text t = Some p" for t p
    using int_of_text_no_colon by (auto simp: port_number_def split: option.splits)
  obtain a t where p: "partition_colon b = (a, t)" by fastforce
  then have b: "CHR '':'' \<notin> set a" "b = a @ CHR '':'' # t \<or> b = a \<and> t = []" using partition_colon_iff by blast+
  have none: "int_of_text [] = None" by (simp add: int_of_text_def py_strip_def)
  show "(bind_address b = Inr (host, port)) =
     (\<exists>t. b = host @ CHR '':'' # t \<and> count_list b (CHR '':'') = 1 \<and> int_of_text t = Some port)"
  proof
    assume "bind_address b = Inr (host, port)"
    then have "port_number t = Inr port" "a = host" using p by (auto simp: bind_address_def bind_res_eq_Inr)
    then have "int_of_text t = Some port" "CHR '':'' \<notin> set t" "t \<noteq> []" using no_port none by auto
    then show "\<exists>t. b = host @ CHR '':'' # t \<and> count_list b (CHR '':'') = 1 \<and> int_of_text t = Some port"
      using b \<open>a = host\<close> by (intro exI [of _ t]) (auto simp: count_list_0_iff)
  next
    assume "\<exists>t. b = host @ CHR '':'' # t \<and> count_list b (CHR '':'') = 1 \<and> int_of_text t = Some port"
    then obtain u where u: "b = host @ CHR '':'' # u" "count_list b (CHR '':'') = 1" "int_of_text u = Some port" by blast
    then have "count_list host (CHR '':'') = 0" by simp
    then have "partition_colon b = (host, u)" using u(1) by (simp add: partition_colon_iff count_list_0_iff)
    then show "bind_address b = Inr (host, port)" using u(3) by (simp add: bind_address_def port_number_def)
  qed
  show "bind_address (''['' @ h @ ''::'' @ r) = Inl ValueE"
  proof -
    obtain c t where q: "partition_colon (''['' @ h @ ''::'' @ r) = (c, t)" by fastforce
    then have c: "count_list c (CHR '':'') = 0" "''['' @ h @ ''::'' @ r = c @ CHR '':'' # t \<or> ''['' @ h @ ''::'' @ r = c"
      using partition_colon_iff by (simp add: count_list_0_iff, blast)
    have two: "count_list (''['' @ h @ ''::'' @ r) (CHR '':'') = Suc (Suc (count_list h (CHR '':'') + count_list r (CHR '':'')))"
      by simp
    have "''['' @ h @ ''::'' @ r \<noteq> c" using c(1) two by (intro notI) (simp del: append.simps)
    then have "count_list (''['' @ h @ ''::'' @ r) (CHR '':'') = count_list (c @ CHR '':'' # t) (CHR '':'')" using c(2) by simp
    then have "count_list t (CHR '':'') \<noteq> 0" unfolding two using c(1) by simp
    then have "CHR '':'' \<in> set t" by (simp add: count_list_0_iff)
    then have "int_of_text t = None" using int_of_text_no_colon by (cases "int_of_text t") auto
    then show ?thesis using q by (simp add: bind_address_def port_number_def)
  qed
  show "metrics_address (Some ''[::1]:9100'') = Inr (Some (''[::1]'', 9100))"
    by code_simp
qed

text \<open>
  Telemetry is set up once.  A second initialisation changes nothing, whatever its version; the registry is there
  exactly while telemetry is initialised; and the stdio server asks for it only after the
  initialisation, so that its metrics page fails on nothing but its address.
\<close>

theorem telemetry_once:
  "init_otel v' (init_otel v st) = init_otel v st \<and>
   prom_registry (init_otel v fresh_otel) = Inr () \<and>
   prom_registry (shutdown_otel st) = Inl RuntimeE \<and>
   maybe_start_stdio_metrics_server addr (init_otel v fresh_otel) = metrics_address addr"
proof -
  have same: "bind_res r (\<lambda>a. case a of None \<Rightarrow> Inr None | Some x \<Rightarrow> Inr (Some x)) = (r :: exn + (string \<times> int) option)" for r
    by (cases r; cases "projr r") auto
  have reg: "prom_registry (init_otel v fresh_otel) = Inr ()" by (simp add: prom_registry_def init_otel_def fresh_otel_def)
  then have "maybe_start_stdio_metrics_server addr (init_otel v fresh_otel) = metrics_address addr"
    using same [of "metrics_address addr"] by (simp add: maybe_start_stdio_metrics_server_def cong: option.case_cong)
  then show ?thesis using reg by (simp add: prom_registry_def init_otel_def shutdown_otel_def)
qed

end
