(* ===== verification/Lifespan.thy ===== *)
theory Lifespan imports Sinks begin

text \<open>
  The life of a server around its audit sinks: the composed lifespan of the HTTP application
  (\<open>build_asgi_app\<close> in \<open>transport/http.py\<close>) and the runner of the stdio server (\<open>run_stdio\<close> in
  \<open>server.py\<close>).  Both serve between the start and the stop of the audit emitter.
\<close>

section \<open>Serving under the emitter\<close>

text \<open>\<open>await emitter.start()\<close>, then the body, then \<open>await emitter.stop()\<close> in a \<open>finally\<close>: failures of the stop replace
  the outcome of the body.\<close>

definition under_emitter ::
    "('s \<Rightarrow> exn option \<times> 's) \<Rightarrow> ('s \<Rightarrow> exn option \<times> 's) \<Rightarrow> ('s list \<Rightarrow> exn option \<times> 's list) \<Rightarrow> 's list \<Rightarrow> exn option \<times> 's list" where
  "under_emitter start_op stop_op body ss =
     (case start_sinks start_op stop_op [] ss of
        (Some e, ss1) \<Rightarrow> (Some e, ss1)
      | (None, ss1) \<Rightarrow>
          (case body ss1 of (r, ss2) \<Rightarrow>
             (case stop_sinks stop_op ss2 of (errs, ss3) \<Rightarrow> (if errs = [] then r else Some OtherE, ss3))))"

text \<open>The session manager of the MCP library is entered first and left last; leaving it cancels the calls that
  still run, which may submit events.\<close>

definition http_lifespan ::
    "exn option \<Rightarrow> (exn option \<times> 's list \<Rightarrow> exn option \<times> 's list) \<Rightarrow> ('s \<Rightarrow> exn option \<times> 's) \<Rightarrow> ('s \<Rightarrow> exn option \<times> 's) \<Rightarrow>
      ('s list \<Rightarrow> exn option \<times> 's list) \<Rightarrow> 's list \<Rightarrow> exn option \<times> 's list" where
  "http_lifespan mcp_enter mcp_exit start_op stop_op serve_op ss =
     (case mcp_enter of
        Some e \<Rightarrow> (Some e, ss)
      | None \<Rightarrow> mcp_exit (under_emitter start_op stop_op serve_op ss))"

text \<open>\<open>session\<close> is the outcome of building the one session.\<close>

definition stdio_runner ::
    "exn + unit \<Rightarrow> ('s \<Rightarrow> exn option \<times> 's) \<Rightarrow> ('s \<Rightarrow> exn option \<times> 's) \<Rightarrow> ('s list \<Rightarrow> exn option \<times> 's list) \<Rightarrow>
      's list \<Rightarrow> exn option \<times> 's list" where
  "stdio_runner built start_op stop_op serve_op ss =
     (case built of Inl e \<Rightarrow> (Some e, ss) | Inr u \<Rightarrow> under_emitter start_op stop_op serve_op ss)"

section \<open>The contract of a sink's life\<close>

locale sink_life =
  fixes start_op stop_op :: "'s \<Rightarrow> exn option \<times> 's"
    and running good :: "'s \<Rightarrow> bool"
  assumes start_good: "good s \<Longrightarrow> start_op s = (r, s') \<Longrightarrow> good s'"
    and start_runs: "good s \<Longrightarrow> start_op s = (None, s') \<Longrightarrow> running s'"
    and start_failed: "good s \<Longrightarrow> \<not> running s \<Longrightarrow> start_op s = (Some e, s') \<Longrightarrow> \<not> running s'"
    and stop_ends: "good s \<Longrightarrow> stop_op s = (r, s') \<Longrightarrow> good s' \<and> \<not> running s'"
    and stop_raises: "good s \<Longrightarrow> stop_op s = (Some e, s') \<Longrightarrow> is_exception e"
begin

abbreviation idle :: "'s list \<Rightarrow> bool" where
  "idle ss \<equiv> list_all (\<lambda>s. good s \<and> \<not> running s) ss"

abbreviation active :: "'s list \<Rightarrow> bool" where
  "active ss \<equiv> list_all (\<lambda>s. good s \<and> running s) ss"

lemma stopped_idle: "list_all good ss \<Longrightarrow> idle (map (snd \<circ> stop_op) ss)"
  using stop_ends by (induction ss) (auto, (metis prod.collapse)+)

text \<open>Starting ends with every sink running or with none.\<close>

lemma start_all_or_none:
  assumes "start_sinks start_op stop_op started ss = (r, ss')" "active started" "idle ss"
  shows "(r = None \<longrightarrow> active ss') \<and> (\<forall>e. r = Some e \<longrightarrow> idle ss')"
  using assms
proof (induction ss arbitrary: started)
  case Nil
  then show ?case by (auto simp: list_all_iff)
next
  case (Cons s ss)
  obtain x s1 where s1: "start_op s = (x, s1)" by fastforce
  have s: "good s" "\<not> running s" "good s1" using Cons.prems(3) start_good [OF _ s1] by auto
  show ?case
  proof (cases x)
    case None
    then have "start_sinks start_op stop_op (s1 # started) ss = (r, ss')" using Cons.prems(1) s1 by simp
    moreover have "active (s1 # started)" using Cons.prems(2) s start_runs [OF s(1)] s1 None by simp
    moreover have "idle ss" using Cons.prems(3) by simp
    ultimately show ?thesis by (rule Cons.IH)
  next
    case (Some e)
    have "rollback stop_op e started = (e, map (snd \<circ> stop_op) started)"
      by (rule rollback_stops_all) (use Cons.prems(2) stop_raises in \<open>auto simp: list_all_iff\<close>)
    then have "r = Some e" "ss' = rev (map (snd \<circ> stop_op) started) @ s1 # ss"
      using Cons.prems(1) s1 Some by auto
    moreover have "idle (map (snd \<circ> stop_op) started)"
      by (rule stopped_idle) (use Cons.prems(2) in \<open>auto simp: list_all_iff\<close>)
    moreover have "\<not> running s1" using start_failed [OF s(1,2)] s1 Some by simp
    ultimately show ?thesis using s(3) Cons.prems(3) by (auto simp: list_all_iff)
  qed
qed

lemma under_emitter_life:
  assumes "idle ss" "\<And>xs r ys. active xs \<Longrightarrow> body xs = (r, ys) \<Longrightarrow> list_all good ys"
    and "under_emitter start_op stop_op body ss = (r, ss')"
  shows "idle ss'"
proof -
  obtain x ss1 where st: "start_sinks start_op stop_op [] ss = (x, ss1)" by fastforce
  note life = start_all_or_none [OF st _ assms(1)]
  show ?thesis
  proof (cases x)
    case (Some e)
    then have "ss' = ss1" using assms(3) st by (simp add: under_emitter_def)
    then show ?thesis using life Some by simp
  next
    case None
    obtain y ss2 where b: "body ss1 = (y, ss2)" by fastforce
    have "active ss1" using life None by simp
    then have "list_all good ss2" using assms(2) b by blast
    then show ?thesis using assms(3) st None b stopped_idle by (auto simp: under_emitter_def stop_sinks_def Let_def)
  qed
qed

end

section \<open>Queued sinks that fail\<close>

text \<open>
  What can go wrong with one sink: what \<open>create_task\<close> raises in its \<open>start\<close>; what reaches the \<open>await\<close> on
  the queue in its \<open>stop\<close> beside the timeout (the cancellation of the task that stops it); and what
  awaiting a drain task that has ended raises.  \<open>sf_drain\<close> is what the drain task does while the
  queue is waited for.
\<close>

record sink_faults =
  sf_start :: "exn option"
  sf_drain :: "queued_sink \<Rightarrow> queued_sink"
  sf_wait :: "exn option"
  sf_died :: "exn option"

type_synonym faulty_sink = "sink_faults \<times> queued_sink"

definition task_runs :: "queued_sink \<Rightarrow> bool" where
  "task_runs s \<longleftrightarrow> qs_task s \<notin> {NoTask, Finished, CancelledTask}"

text \<open>\<open>create_task\<close> is the last statement of \<open>start\<close>.\<close>

definition start_queued :: "faulty_sink \<Rightarrow> exn option \<times> faulty_sink" where
  "start_queued x =
     (case x of (f, s) \<Rightarrow>
        (case sf_start f of
           None \<Rightarrow> (None, (f, start s))
         | Some e \<Rightarrow> (Some e, (f, (start s)\<lparr>qs_task := qs_task s\<rparr>))))"

text \<open>\<open>stop\<close>: the cancellation of a task that still runs is suppressed, the exception of one that has ended
  is not; an exception while the queue is waited for leaves before the task is cancelled.\<close>

definition stop_queued :: "faulty_sink \<Rightarrow> exn option \<times> faulty_sink" where
  "stop_queued x =
     (case x of (f, s) \<Rightarrow>
        if qs_queue s = None then (None, (f, s))
        else
          (let s1 = sf_drain f (request_stop s)
           in case sf_wait f of
                Some e \<Rightarrow> (Some e, (f, s1))
              | None \<Rightarrow>
                  if task_runs s1 then (None, (f, cancel_base s1))
                  else (if qs_task s1 = NoTask then None else sf_died f, (f, s1))))"

definition started_before :: "queued_sink \<Rightarrow> bool" where
  "started_before s \<longleftrightarrow> (task_runs s \<longrightarrow> qs_queue s \<noteq> None)"

text \<open>No cancellation cuts a stop short.\<close>

definition stop_uncut :: "sink_faults \<Rightarrow> bool" where
  "stop_uncut f \<longleftrightarrow> sf_wait f = None \<and> (\<forall>e. sf_died f = Some e \<longrightarrow> is_exception e)"

definition sound_sink :: "faulty_sink \<Rightarrow> bool" where
  "sound_sink x \<longleftrightarrow> stop_uncut (fst x) \<and> started_before (snd x)"

lemma cancel_stops: "\<not> task_runs (cancel_base s)"
  by (simp add: task_runs_def cancel_base_def cancel_task_def task_done_def)

lemma submit_op_queue: "qs_queue s \<noteq> None \<Longrightarrow> qs_queue (submit_op ev s) \<noteq> None"
  by (auto simp: submit_op_def submit_def put_nowait_def evict_oldest_def task_done_def safe_record_drop_def Let_def
      split: list.splits if_splits option.splits)

lemma start_queue: "qs_queue (start s) \<noteq> None"
proof -
  have "qs_queue x \<noteq> None \<Longrightarrow> qs_queue (fold submit_op b x) \<noteq> None" for b x
    by (induction b arbitrary: x) (auto simp del: not_None_eq simp: submit_op_queue)
  then show ?thesis by (simp add: start_def Let_def)
qed

interpretation queued_life: sink_life start_queued stop_queued "\<lambda>x. task_runs (snd x)" sound_sink
proof unfold_locales
  fix x x' :: faulty_sink and r :: "exn option" and e :: exn
  obtain f s where x: "x = (f, s)" by fastforce
  show "sound_sink x \<Longrightarrow> start_queued x = (r, x') \<Longrightarrow> sound_sink x'"
    using start_queue by (auto simp: x start_queued_def sound_sink_def started_before_def split: option.splits)
  show "sound_sink x \<Longrightarrow> start_queued x = (None, x') \<Longrightarrow> task_runs (snd x')"
    by (auto simp: x start_queued_def task_runs_def start_def Let_def split: option.splits)
  show "sound_sink x \<Longrightarrow> \<not> task_runs (snd x) \<Longrightarrow> start_queued x = (Some e, x') \<Longrightarrow> \<not> task_runs (snd x')"
    by (auto simp: x start_queued_def task_runs_def split: option.splits)
  show "sound_sink x \<Longrightarrow> stop_queued x = (r, x') \<Longrightarrow> sound_sink x' \<and> \<not> task_runs (snd x')"
    using cancel_stops by (auto simp: x stop_queued_def sound_sink_def stop_uncut_def started_before_def Let_def split: if_splits)
  show "sound_sink x \<Longrightarrow> stop_queued x = (Some e, x') \<Longrightarrow> is_exception e"
    by (auto simp: x stop_queued_def sound_sink_def stop_uncut_def Let_def split: if_splits)
qed

text \<open>The first start that fails is what the emitter's start raises.\<close>

lemma start_fault_raised:
  assumes "start_sinks start_queued stop_queued started ss = (r, ss')"
    and "\<forall>x \<in> set started \<union> set ss. sound_sink x" "\<exists>x \<in> set ss. sf_start (fst x) \<noteq> None"
  shows "r \<noteq> None \<and> r \<in> sf_start ` fst ` set ss"
  using assms
proof (induction ss arbitrary: started)
  case (Cons x ss)
  obtain f s where x: "x = (f, s)" by fastforce
  show ?case
  proof (cases "sf_start f")
    case None
    then have st: "start_queued x = (None, (f, start s))" by (simp add: x start_queued_def)
    moreover have "sound_sink (f, start s)"
      using Cons.prems(2) queued_life.start_good [OF _ st] by simp
    moreover have "\<exists>y \<in> set ss. sf_start (fst y) \<noteq> None" using Cons.prems(3) None x by auto
    ultimately have "r \<noteq> None \<and> r \<in> sf_start ` fst ` set ss"
      using Cons.IH [of "(f, start s) # started"] Cons.prems(1,2) by auto
    then show ?thesis by auto
  next
    case (Some e)
    have "rollback stop_queued e started = (e, map (snd \<circ> stop_queued) started)"
      using Cons.prems(2) by (intro rollback_stops_all) (erule queued_life.stop_raises [rotated], simp)
    then have "r = Some e" using Cons.prems(1) Some by (simp add: x start_queued_def)
    then show ?thesis using Some by (auto simp: x intro: rev_image_eqI)
  qed
qed simp

section \<open>Events after the stop\<close>

definition sink_moves :: "queued_sink \<Rightarrow> queued_sink \<Rightarrow> bool" where
  "sink_moves s s' \<longleftrightarrow> qstep s s' \<or> (\<exists>ev. s' = submit_op ev s)"

lemma submit_op_keeps: "qs_task (submit_op ev s) = qs_task s \<and> qs_delivered (submit_op ev s) = qs_delivered s"
  by (auto simp: submit_op_def submit_def put_nowait_def evict_oldest_def task_done_def safe_record_drop_def Let_def
      split: list.splits if_splits option.splits)

lemma stopped_moves:
  assumes "sink_moves s s'" "qs_queue s \<noteq> None" "\<not> task_runs s"
  shows "qs_queue s' \<noteq> None \<and> \<not> task_runs s' \<and> qs_delivered s' = qs_delivered s"
  using assms(1) unfolding sink_moves_def
proof (elim disjE exE)
  assume "qstep s s'"
  then show ?thesis by cases (use assms(2,3) in \<open>auto simp: task_runs_def request_stop_def\<close>)
next
  fix ev assume "s' = submit_op ev s"
  then show ?thesis using submit_op_queue [OF assms(2)] submit_op_keeps [of ev s] assms(3) by (simp add: task_runs_def)
qed

lemma stopped_forever:
  assumes "sink_moves\<^sup>*\<^sup>* s s'" "qs_queue s \<noteq> None" "\<not> task_runs s"
  shows "qs_queue s' \<noteq> None \<and> \<not> task_runs s' \<and> qs_delivered s' = qs_delivered s"
  using assms by (induction rule: rtranclp_induct) (use stopped_moves in \<open>fastforce+\<close>)

text \<open>
  C27: No drain task outlives the server, and no event after it is delivered.  Whatever starts fail
  (those before are rolled back, and the failure is what the server raises), whatever the serving
  does, and whatever exceptions drain tasks ended with: as long as no stop is itself cancelled while
  it waits, no sink has a task left when the emitter's part of the lifespan is over; so the events of
  calls that the MCP library cancels when it is left afterwards stay in the queues and are never
  delivered, however long the process goes on.
\<close>

theorem no_task_outlives_server:
  assumes "\<forall>(f, s) \<in> set ss. qs_task s = NoTask \<and> stop_uncut f"
    and "\<And>xs r ys. list_all (\<lambda>x. sound_sink x \<and> task_runs (snd x)) xs \<Longrightarrow> serve_op xs = (r, ys) \<Longrightarrow> list_all sound_sink ys"
    and "under_emitter start_queued stop_queued serve_op ss = (r, ss')"
    and "(f, s) \<in> set ss'" "sink_moves\<^sup>*\<^sup>* s s'"
  shows "\<not> task_runs s \<and> (qs_queue s \<noteq> None \<longrightarrow> \<not> task_runs s' \<and> qs_delivered s' = qs_delivered s) \<and>
    ((\<exists>(f, s) \<in> set ss. sf_start f \<noteq> None) \<longrightarrow> (\<exists>(f, s) \<in> set ss. sf_start f \<noteq> None \<and> r = sf_start f))"
proof -
  have fresh: "sound_sink x \<and> \<not> task_runs (snd x)" if "x \<in> set ss" for x
    using assms(1) that by (force simp: sound_sink_def task_runs_def started_before_def)
  then have idle: "list_all (\<lambda>x. sound_sink x \<and> \<not> task_runs (snd x)) ss" by (simp add: list_all_iff)
  have "list_all (\<lambda>x. sound_sink x \<and> \<not> task_runs (snd x)) ss'"
    by (rule queued_life.under_emitter_life [OF idle assms(2,3)])
  then have dead: "\<not> task_runs s" using assms(4) by (auto simp: list_all_iff)
  obtain x ss1 where st: "start_sinks start_queued stop_queued [] ss = (x, ss1)" by fastforce
  have "\<exists>(f, s) \<in> set ss. sf_start f \<noteq> None \<and> r = sf_start f" if fault: "\<exists>(f, s) \<in> set ss. sf_start f \<noteq> None"
  proof -
    have "\<exists>y \<in> set ss. sf_start (fst y) \<noteq> None" using fault by force
    then have "x \<noteq> None \<and> x \<in> sf_start ` fst ` set ss"
      by (intro start_fault_raised [OF st]) (use fresh in auto)
    moreover from this have "r = x" using assms(3) st by (auto simp: under_emitter_def)
    ultimately show ?thesis by force
  qed
  then show ?thesis using dead stopped_forever [OF assms(5)] by blast
qed

text \<open>The start of the second of two sinks fails: the first, which had started, is stopped again.\<close>

definition no_faults :: sink_faults where
  "no_faults = \<lparr>sf_start = None, sf_drain = id, sf_wait = None, sf_died = None\<rparr>"

theorem no_task_outlives_server_witness:
  "\<exists>ss' s. under_emitter start_queued stop_queued (\<lambda>xs. (None, xs))
      [(no_faults, new_queued_sink 10 5), (no_faults\<lparr>sf_start := Some RuntimeE\<rparr>, new_queued_sink 10 5)] = (Some RuntimeE, ss') \<and>
    hd ss' = (no_faults, s) \<and> qs_task s = CancelledTask \<and> qs_delivered (submit_op ev2 s) = []"
proof -
  let ?ss = "[(no_faults, new_queued_sink 10 5), (no_faults\<lparr>sf_start := Some RuntimeE\<rparr>, new_queued_sink 10 5)]"
  let ?run = "under_emitter start_queued stop_queued (\<lambda>xs. (None, xs)) ?ss"
  let ?s = "cancel_base (request_stop (start (new_queued_sink 10 5)))"
  have task: "task_runs (request_stop (start (new_queued_sink 10 5)))" "qs_queue (start (new_queued_sink 10 5)) \<noteq> None"
    by (simp_all add: start_def new_queued_sink_def request_stop_def task_runs_def Let_def)
  then have hd: "hd (snd ?run) = (no_faults, ?s)" "snd ?run \<noteq> []"
    by (auto simp: under_emitter_def start_queued_def stop_queued_def no_faults_def Let_def)
  then have mem: "(no_faults, ?s) \<in> set (snd ?run)" by (metis list.set_sel(1))
  have uncut: "\<forall>(f, s) \<in> set ?ss. qs_task s = NoTask \<and> stop_uncut f"
    by (simp add: new_queued_sink_def no_faults_def stop_uncut_def)
  have moves: "sink_moves\<^sup>*\<^sup>* ?s (submit_op ev2 ?s)" by (rule r_into_rtranclp) (auto simp: sink_moves_def)
  have run: "?run = (fst ?run, snd ?run)" by simp
  have s: "qs_task ?s = CancelledTask" "qs_queue ?s \<noteq> None" "qs_delivered ?s = []"
    by (simp_all add: cancel_base_def cancel_task_def request_stop_def start_def new_queued_sink_def in_flight_def
        task_done_def Let_def)
  note life = no_task_outlives_server [OF uncut _ run mem moves]
  have "fst ?run = Some RuntimeE" "qs_delivered (submit_op ev2 ?s) = []"
    using life s by (auto simp: list_all_iff no_faults_def)
  then show ?thesis using run hd(1) s(1) by metis
qed

text \<open>
  A cancelled stop leaves the task.  When the task that stops the emitter is cancelled while it waits
  for a sink's queue, that sink's drain task is never cancelled: it is still there when the lifespan
  is over and goes on delivering.
\<close>

theorem cancelled_stop_leaves_the_task:
  "\<exists>s s'. under_emitter start_queued stop_queued (\<lambda>xs. (None, map (map_prod id (submit_op ev1)) xs))
      [(no_faults\<lparr>sf_wait := Some CancelledE\<rparr>, new_queued_sink 10 5)] =
        (Some OtherE, [(no_faults\<lparr>sf_wait := Some CancelledE\<rparr>, s)]) \<and>
    task_runs s \<and> qs_delivered s = [] \<and> qstep\<^sup>*\<^sup>* s s' \<and> qs_delivered s' = [ev1]"
proof -
  let ?s = "(new_queued_sink 10 5)\<lparr>qs_queue := Some [ev1], qs_unfinished := 1, qs_stop := True, qs_task := Pulling []\<rparr>"
  let ?t = "?s\<lparr>qs_queue := Some [], qs_task := Sending [ev1] 0\<rparr>"
  have run: "under_emitter start_queued stop_queued (\<lambda>xs. (None, map (map_prod id (submit_op ev1)) xs))
      [(no_faults\<lparr>sf_wait := Some CancelledE\<rparr>, new_queued_sink 10 5)] =
        (Some OtherE, [(no_faults\<lparr>sf_wait := Some CancelledE\<rparr>, ?s)])"
    by (simp add: under_emitter_def start_queued_def stop_queued_def no_faults_def start_def Let_def new_queued_sink_def
        submit_op_def submit_def put_nowait_def stop_sinks_def request_stop_def map_filter_simps)
  have "qstep ?s ?t" by (rule qstep.get) simp_all
  moreover have "qstep ?t (after_delivery [ev1] 0 (Inr ()) ?t)" by (rule qstep.intros) simp_all
  ultimately have "qstep\<^sup>*\<^sup>* ?s (after_delivery [ev1] 0 (Inr ()) ?t)" by simp
  moreover have "qs_delivered (after_delivery [ev1] 0 (Inr ()) ?t) = [ev1]"
    by (simp add: after_delivery_def task_done_def new_queued_sink_def)
  ultimately show ?thesis using run by (intro exI conjI) (auto simp: task_runs_def new_queued_sink_def)
qed

end
