(* ===== verification/Streams.thy ===== *)
theory Streams imports SinkDrivers begin

text \<open>
  The stream sinks (\<open>observability/sinks/stream.py\<close>): one line per event, written and flushed on standard error
  or standard output, driven by the queue of \<open>QueuedSink\<close>.
\<close>

section \<open>Writing an event\<close>

text \<open>\<open>write\<close> and \<open>flush\<close> may raise; a line that was written stays written when the flush raises.\<close>

record stream_fault =
  sf_write :: "exn option"
  sf_flush :: "exn option"

definition stream_deliver :: "stream_fault \<Rightarrow> event \<Rightarrow> string \<Rightarrow> (exn + unit) \<times> string" where
  "stream_deliver f ev out =
     (case sf_write f of
        Some e \<Rightarrow> (Inl e, out)
      | None \<Rightarrow>
          (let out1 = out @ event_line ev
           in case sf_flush f of Some e \<Rightarrow> (Inl e, out1) | None \<Rightarrow> (Inr (), out1)))"

text \<open>The sink at work.  A delivery has no \<open>await\<close> in it, so nothing runs between the start of an attempt and
  its end.  \<open>flushes\<close> says that the stream's flush never raises.\<close>

inductive stream_reach :: "bool \<Rightarrow> int \<Rightarrow> int \<Rightarrow> event list \<Rightarrow> queued_sink \<Rightarrow> string \<Rightarrow> bool"
  for flushes maxsize max_attempts where
  init: "stream_reach flushes maxsize max_attempts [] (new_queued_sink maxsize max_attempts) []"
| submitted: "stream_reach flushes maxsize max_attempts evs s out \<Longrightarrow> submit ev s = (None, s') \<Longrightarrow>
    stream_reach flushes maxsize max_attempts (evs @ [ev]) s' out"
| quiet: "stream_reach flushes maxsize max_attempts evs s out \<Longrightarrow> (\<And>b k. qs_task s \<noteq> Sending b k) \<Longrightarrow> qstep s s' \<Longrightarrow>
    stream_reach flushes maxsize max_attempts evs s' out"
| attempt: "stream_reach flushes maxsize max_attempts evs s out \<Longrightarrow> qs_task s = Sending [ev] k \<Longrightarrow>
    stream_deliver f ev out = (r, out') \<Longrightarrow> (\<And>e. r = Inl e \<Longrightarrow> is_exception e) \<Longrightarrow> (flushes \<Longrightarrow> sf_flush f = None) \<Longrightarrow>
    stream_reach flushes maxsize max_attempts evs (after_delivery [ev] k r s) out'"

section \<open>The stream as a log\<close>

lemma stream_reach_sink: "stream_reach fl ms ma evs s out \<Longrightarrow> sink_reach ms ma evs s"
  by (induction rule: stream_reach.induct) (auto intro: sink_reach.intros qstep.delivery)

definition logged :: "bool \<Rightarrow> event list \<Rightarrow> queued_sink \<Rightarrow> string \<Rightarrow> bool" where
  "logged fl evs s out \<longleftrightarrow> (\<exists>ls. out = concat (map event_line ls) \<and> subseq (qs_delivered s) ls \<and> set ls \<subseteq> set evs \<and>
     (fl \<longrightarrow> ls = qs_delivered s))"

lemma quiet_delivered:
  assumes "qstep s s'" "\<And>b k. qs_task s \<noteq> Sending b k" "sink_ok s"
  shows "qs_delivered s' = qs_delivered s"
  using assms(1)
proof cases
  case starting
  then show ?thesis using start_facts [OF assms(3)] by simp
qed (use assms(2) in \<open>auto simp: after_backoff_def task_done_def request_stop_def cancel_base_def cancel_task_def\<close>)

lemma delivered_after:
  "int k < qs_max_attempts s \<Longrightarrow>
    qs_delivered (after_delivery evs k r s) = qs_delivered s @ (if r = Inr () then evs else [])"
  by (cases r) (auto simp: after_delivery_def task_done_def)

lemma stream_logged:
  assumes "stream_reach fl ms ma evs s out" "0 < ms" "1 \<le> ma"
  shows "logged fl evs s out"
  using assms
proof (induction rule: stream_reach.induct)
  case init
  then show ?case by (simp add: logged_def new_queued_sink_def)
next
  case (submitted evs s out ev s')
  have "sink_ok s" using sink_reach_inv [OF stream_reach_sink [OF submitted(1)]] submitted.prems by (simp add: sink_inv_def)
  then have "qs_delivered s' = qs_delivered s"
    by (rule submit_cases [of s ev]) (use submitted(2) in \<open>auto simp: same_task_def\<close>)
  then show ?case using submitted by (fastforce simp: logged_def)
next
  case (quiet evs s out s')
  have "sink_ok s" using sink_reach_inv [OF stream_reach_sink [OF quiet(1)]] quiet.prems by (simp add: sink_inv_def)
  then show ?case using quiet quiet_delivered [OF quiet(3)] by (simp add: logged_def)
next
  case (attempt evs s out ev k f r out')
  have inv: "sink_inv ma evs s" using sink_reach_inv [OF stream_reach_sink [OF attempt(1)]] attempt.prems by simp
  then have k: "int k < qs_max_attempts s" and acc: "sink_account s = mset evs"
    using attempt(2) by (auto simp: sink_inv_def task_ok_def)
  have "ev \<in># sink_account s" using attempt(2) by (simp add: sink_account_def in_flight_def)
  then have ev: "ev \<in> set evs" unfolding acc by simp
  obtain ls where ls: "out = concat (map event_line ls)" "subseq (qs_delivered s) ls" "set ls \<subseteq> set evs" "fl \<longrightarrow> ls = qs_delivered s"
    using attempt by (auto simp: logged_def)
  note after = delivered_after [OF k, of "[ev]" r]
  consider "out' = out" "r \<noteq> Inr ()" | "out' = out @ event_line ev" "r = Inr () \<or> \<not> fl"
    using attempt(3,5) by (auto simp: stream_deliver_def Let_def split: option.splits)
  then show ?case
  proof cases
    case 1
    then show ?thesis using after ls by (auto simp: logged_def)
  next
    case 2
    have "subseq (qs_delivered s @ [ev]) (ls @ [ev])" "subseq (qs_delivered s) (ls @ [ev])"
      using ls(2) subseq_snoc by auto
    then show ?thesis unfolding logged_def after using 2 ls ev by (intro exI [of _ "ls @ [ev]"]) auto
  qed
qed

text \<open>
  C35: The stream is the log of the events.  In every reachable state of a stream sink, the text it wrote, split into
  lines, is the JSON texts of submitted events; those of the delivered events are among them in the
  order of submission, and when flushing never fails they are all there is.  A failing flush repeats
  lines, and leaves lines of events that were recorded as dropped.
\<close>

theorem stream_lines:
  assumes "stream_reach fl ms ma (map (\<lambda>(env, c). build_event env c) cs) s out" "0 < ms" "1 \<le> ma"
  shows "\<exists>ls. split_on (CHR 0x0A) out = map (\<lambda>ev. dumps (\<lambda>r. []) '', '' '': '' (JObj ev)) ls @ [[]] \<and>
    set ls \<subseteq> (\<lambda>(env, c). build_event env c) ` set cs \<and> subseq (qs_delivered s) ls \<and>
    subseq (qs_delivered s) (map (\<lambda>(env, c). build_event env c) cs) \<and> (fl \<longrightarrow> ls = qs_delivered s)"
proof -
  let ?evs = "map (\<lambda>(env, c). build_event env c) cs"
  obtain ls where ls: "out = concat (map event_line ls)" "subseq (qs_delivered s) ls" "set ls \<subseteq> set ?evs" "fl \<longrightarrow> ls = qs_delivered s"
    using stream_logged [OF assms] unfolding logged_def by blast
  have "\<forall>ev \<in> set ls. no_float (JObj ev)" using ls(3) by (auto simp del: no_float.simps simp: no_float_event)
  note lines = split_lines [OF this]
  have "subseq (qs_delivered s) (qs_delivered s @ in_flight (qs_task s) @ queued s)" by (rule prefix_imp_subseq) simp
  then have "subseq (qs_delivered s) ?evs"
    using sink_reach_inv [OF stream_reach_sink [OF assms(1)] assms(2,3)] subseq_order.trans by (auto simp: sink_inv_def)
  then show ?thesis using lines ls by auto
qed

text \<open>A flush that fails once: the event is delivered by the second attempt and stands on the stream twice.\<close>

definition one_event :: event where "one_event = build_event sample_env sample_call"

lemma flush_twice:
  "stream_reach False 10 5 [one_event]
     \<lparr>qs_maxsize = 10, qs_max_attempts = 5, qs_buffer = [], qs_queue = Some [], qs_unfinished = 0, qs_stop = False,
      qs_task = Pulling [], qs_dropped = [], qs_delivered = [one_event], qs_lost = []\<rparr>
     (event_line one_event @ event_line one_event)"
proof -
  let ?q = "\<lambda>t q u del. \<lparr>qs_maxsize = 10, qs_max_attempts = 5, qs_buffer = [], qs_queue = Some q, qs_unfinished = u, qs_stop = False,
      qs_task = t, qs_dropped = [], qs_delivered = del, qs_lost = []\<rparr>"
  let ?s1 = "(new_queued_sink 10 5)\<lparr>qs_buffer := [one_event]\<rparr>"
  have r1: "stream_reach False 10 5 [one_event] ?s1 []"
    using stream_reach.submitted [OF stream_reach.init, where ev = one_event and s' = ?s1]
    by (simp add: submit_def new_queued_sink_def)
  have "start ?s1 = ?q (Pulling []) [one_event] 1 []"
    by (simp add: start_def Let_def submit_op_def submit_def put_nowait_def new_queued_sink_def)
  moreover have "stream_reach False 10 5 [one_event] (start ?s1) []"
    by (rule stream_reach.quiet [OF r1 _ qstep.starting]) (simp_all add: new_queued_sink_def)
  ultimately have r2: "stream_reach False 10 5 [one_event] (?q (Pulling []) [one_event] 1 []) []" by simp
  have r3: "stream_reach False 10 5 [one_event] (?q (Sending [one_event] 0) [] 1 []) []"
    using stream_reach.quiet [OF r2 _ qstep.get, of one_event "[]"] by simp
  have r4: "stream_reach False 10 5 [one_event] (?q (BackingOff [one_event] 1) [] 1 []) (event_line one_event)"
    using stream_reach.attempt [OF r3, of one_event 0 "\<lparr>sf_write = None, sf_flush = Some OtherE\<rparr>"]
    by (simp add: stream_deliver_def after_delivery_def is_exception_def)
  have r5: "stream_reach False 10 5 [one_event] (?q (Sending [one_event] 1) [] 1 []) (event_line one_event)"
    using stream_reach.quiet [OF r4 _ qstep.backoff] by (simp add: after_backoff_def)
  show ?thesis
    using stream_reach.attempt [OF r5, of one_event 1 "\<lparr>sf_write = None, sf_flush = None\<rparr>"]
    by (simp add: stream_deliver_def after_delivery_def task_done_def)
qed

theorem stream_lines_witness:
  "\<exists>s out ls. stream_reach False 10 5 [one_event] s out \<and> qs_delivered s = [one_event] \<and> length (split_on (CHR 0x0A) out) = 3 \<and>
    split_on (CHR 0x0A) out = map (\<lambda>ev. dumps (\<lambda>r. []) '', '' '': '' (JObj ev)) ls @ [[]]"
proof -
  let ?s = "\<lparr>qs_maxsize = 10, qs_max_attempts = 5, qs_buffer = [], qs_queue = Some [], qs_unfinished = 0, qs_stop = False,
      qs_task = Pulling [], qs_dropped = [], qs_delivered = [one_event], qs_lost = []\<rparr> :: queued_sink"
  let ?out = "event_line one_event @ event_line one_event"
  have "stream_reach False 10 5 (map (\<lambda>(env, c). build_event env c) [(sample_env, sample_call)]) ?s ?out"
    using flush_twice by (simp add: one_event_def)
  from stream_lines [OF this] obtain ls where ls: "split_on (CHR 0x0A) ?out = map (\<lambda>ev. dumps (\<lambda>r. []) '', '' '': '' (JObj ev)) ls @ [[]]"
    by (auto simp del: dumps.simps)
  have "length (split_on (CHR 0x0A) ?out) = 3"
    using split_lines [of "[one_event, one_event]"] no_float_event [of sample_env sample_call]
    by (simp add: one_event_def del: dumps.simps no_float.simps)
  then show ?thesis using flush_twice ls by (intro exI [of _ ?s] exI [of _ ?out] exI [of _ ls]) (simp del: dumps.simps)
qed

end
