(* ===== verification/ClientIdentity.thy ===== *)
theory ClientIdentity imports StdioApp begin

text \<open>
  Whose clients the running server holds: over any run of requests, each client in the two pools points at
  the address configured for its tenant and carries the secrets held for it, however tools, resources and
  prompts used it.
\<close>

section \<open>Using a pool\<close>

context client_pool
begin

lemma stored_ok:
  assumes "pool_ok p" "acquire tid p = (Inr c, p')" "ident c' = ident c"
  shows "pool_ok (store tid c' p')"
proof -
  note ok = acquire_ok [OF assms(1,2)]
  then obtain g where "fresh tid = Inr g" "ident c = ident g" by blast
  then show ?thesis using pool_ok_upd [OF conjunct1 [OF ok] store_clients] assms(3) by simp
qed

text \<open>The pool after one action on the client of a tenant.\<close>

definition used :: "string \<Rightarrow> ('c \<Rightarrow> 'c) \<Rightarrow> 'p \<Rightarrow> 'p" where
  "used tid f p = (case acquire tid p of (Inl e, p') \<Rightarrow> p' | (Inr c, p') \<Rightarrow> store tid (f c) p')"

lemma used_ok: "pool_ok p \<Longrightarrow> (\<And>c. ident (f c) = ident c) \<Longrightarrow> pool_ok (used tid f p)"
  using acquire_ok stored_ok by (auto simp: used_def split: prod.splits sum.splits)

end

text \<open>Both pools of a server hold clients made for their tenants.\<close>

definition own_clients :: "tool_env \<Rightarrow> 'l app_world \<Rightarrow> bool" where
  "own_clients env w \<longleftrightarrow>
     sp.pool_ok (te_open_api env) (te_net_api env) (ap_api (wd_app w)) \<and>
     ip.pool_ok (te_open_ix env) (te_net_ix env) (ap_indexer (wd_app w))"

lemma own_clients_app: "wd_app w' = wd_app w \<Longrightarrow> own_clients env w' = own_clients env w"
  by (simp add: own_clients_def)

lemma own_clients_emit [simp]: "own_clients env (emit_events evs w) = own_clients env w"
  by (rule own_clients_app) (simp add: emit_events_def)

section \<open>Handlers keep the clients\<close>

lemma with_indexer_used:
  "wd_app (snd (with_indexer env s m w)) =
     (wd_app w)\<lparr>ap_indexer := ip.used (te_open_ix env) (te_net_ix env) (s_tenant_id s)
       (\<lambda>c. snd (m c)) (ap_indexer (wd_app w))\<rparr>"
  by (auto simp: with_indexer_def ip.used_def split: prod.splits sum.splits)

lemma with_api_used:
  "wd_app (snd (with_api env s m w)) =
     (wd_app w)\<lparr>ap_api := sp.used (te_open_api env) (te_net_api env) (s_tenant_id s)
       (\<lambda>c. snd (m c)) (ap_api (wd_app w))\<rparr>"
  by (auto simp: with_api_def sp.used_def split: prod.splits sum.splits)

lemma with_client_used:
  "wd_app (snd (with_client env s m w)) =
     sp.used (we_open env) (we_net env) (s_tenant_id s) (\<lambda>c. snd (m c)) (wd_app w)"
  by (auto simp: with_client_def sp.used_def split: prod.splits sum.splits)

lemma with_indexer_own: "ix_sends m \<Longrightarrow> own_clients env w \<Longrightarrow> own_clients env (snd (with_indexer env s m w))"
  by (simp add: own_clients_def with_indexer_used ip.used_ok ix_sends_ident)

lemma with_api_own: "sends P m \<Longrightarrow> own_clients env w \<Longrightarrow> own_clients env (snd (with_api env s m w))"
  by (simp add: own_clients_def with_api_used sp.used_ok sends_ident)

lemma read_handler_own:
  "(tool, h) \<in> set (read_tools env s) \<Longrightarrow> own_clients env w \<Longrightarrow> own_clients env (snd (h kw w))"
  using read_handler_step [of tool h env s w kw] with_indexer_own with_api_own unfolding read_step_def by metis

text \<open>The write tools use the pool of the Server API clients that the read tools use.\<close>

definition same_pools :: "tool_env \<Rightarrow> write_env \<Rightarrow> bool" where
  "same_pools env wenv \<longleftrightarrow> we_open wenv = te_open_api env \<and> we_net wenv = te_net_api env"

lemma client_call_own:
  assumes "client_call P wenv s v out"
    and "sp.pool_ok (we_open wenv) (we_net wenv) (wd_app v)"
  shows "sp.pool_ok (we_open wenv) (we_net wenv) (wd_app (snd out))"
  using assms(1) unfolding client_call_def
proof (elim disjE exE conjE)
  fix evs m
  assume "sends P m" "out = with_client wenv s m (emit_events evs v)"
  then show ?thesis using assms(2)
    by (simp add: with_client_used sp.used_ok sends_ident emit_events_def)
qed (use assms(2) in \<open>simp add: emit_events_def\<close>)

lemma lift_handler_app:
  "\<exists>v. wd_app v = ap_api (wd_app w) \<and>
     wd_app (snd (lift_handler h kw w)) = (wd_app w)\<lparr>ap_api := wd_app (snd (h kw v))\<rparr>"
  unfolding lift_handler_def
  by (rule exI [of _ "\<lparr>wd_events = wd_events w, wd_calls = wd_calls w, wd_limited = wd_limited w,
    wd_durations = wd_durations w, wd_limiter = wd_limiter w, wd_app = ap_api (wd_app w)\<rparr>"])
    (auto split: prod.splits)

lemma write_handler_own:
  assumes "(tool, g) \<in> set (write_tools wenv s)" "same_pools env wenv" "own_clients env w"
  shows "own_clients env (snd (lift_handler g kw w))"
proof -
  obtain v where v: "wd_app v = ap_api (wd_app w)"
    "wd_app (snd (lift_handler g kw w)) = (wd_app w)\<lparr>ap_api := wd_app (snd (g kw v))\<rparr>"
    using lift_handler_app by blast
  show ?thesis
    using client_call_own [OF write_handler_call [OF assms(1)], of v kw] assms(2,3)
    by (simp add: own_clients_def v same_pools_def)
qed

lemma tool_own:
  assumes "map_of (all_tools tenv wenv s) name = Some h" "same_pools tenv wenv" "own_clients tenv w"
  shows "own_clients tenv (snd (h kw w))"
  using tool_cases [OF assms(1)] read_handler_own write_handler_own assms(2,3) by blast

lemma resource_handler_own:
  assumes "sends P (\<lambda>c. case m c of (out, c1) \<Rightarrow> (Inr out, c1))" "own_clients env w"
  shows "own_clients env (snd (resource_handler env s m w))"
  using with_api_own [OF assms, of s]
  by (auto simp: resource_handler_def split: prod.splits sum.splits)

lemma with_clients_own:
  assumes m: "\<And>cs out cs'. m cs = (out, cs') \<Longrightarrow> both_read cs cs'" and own: "own_clients env w"
  shows "own_clients env (snd (with_clients env s m w))"
proof -
  obtain x p where i: "ip_acquire (te_open_ix env) (te_net_ix env) (s_tenant_id s) (ap_indexer (wd_app w)) = (x, p)"
    by fastforce
  obtain y q where a: "sp_acquire (te_open_api env) (te_net_api env) (s_tenant_id s) (ap_api (wd_app w)) = (y, q)"
    by fastforce
  have ix: "ip.pool_ok (te_open_ix env) (te_net_ix env) p"
    and api: "sp.pool_ok (te_open_api env) (te_net_api env) q"
    using own ip.acquire_ok [OF _ i] sp.acquire_ok [OF _ a] by (simp_all add: own_clients_def)
  show ?thesis
  proof (cases "\<exists>c d. x = Inr c \<and> y = Inr d")
    case False
    then show ?thesis using own ix api i a
      by (cases x; cases y) (auto simp: with_clients_def own_clients_def)
  next
    case True
    then obtain c d where xy: "x = Inr c" "y = Inr d" by blast
    obtain o1 evs c1 d1 where out: "m (c, d) = ((o1, evs), (c1, d1))" by (metis prod.collapse)
    have same: "indexer_ident c1 = indexer_ident c" "api_ident d1 = api_ident d"
      using m [OF out] by (simp_all add: both_read_def)
    have "ip.pool_ok (te_open_ix env) (te_net_ix env) (ip_store (s_tenant_id s) c1 p)"
      using ip.stored_ok [OF _ i [unfolded xy] same(1)] own by (simp add: own_clients_def)
    moreover have "sp.pool_ok (te_open_api env) (te_net_api env) (sp_store (s_tenant_id s) d1 q)"
      using sp.stored_ok [OF _ a [unfolded xy] same(2)] own by (simp add: own_clients_def)
    ultimately show ?thesis using i a xy out
      by (simp add: with_clients_def) (simp add: own_clients_def)
  qed
qed

lemma context_own:
  assumes "own_clients env w"
  shows "own_clients env (serve_context env s elapsed req w)"
proof -
  have triage: "own_clients env (snd (prompt_triage_last_hour env s elapsed w))"
    using with_indexer_own [OF triage_sends [of "te_read env" s elapsed] assms, of s]
    by (auto simp: prompt_triage_last_hour_def split: prod.splits sum.splits)
  have res: "own_clients env (snd (resource_handler env s (m i) w))"
    if "(tool, arg, m) \<in> set (resource_reads (te_api env) (te_read env) s)" for tool arg m i
    by (rule resource_handler_own [OF resource_reads_send [OF that] assms])
  show ?thesis
    using triage res with_clients_own [OF investigate_reads assms] with_clients_own [OF posture_reads assms]
    by (cases req) (auto simp: resource_rule_def resource_mitre_def resource_agent_config_def resource_reads_def
        prompt_investigate_alert_def prompt_agent_posture_def)
qed

lemma serve_own:
  assumes "same_pools tenv wenv" "own_clients tenv w"
  shows "own_clients tenv (serve tenv wenv policy acq (s, elapsed, req) w)"
proof (cases req)
  case (CallTool name kw)
  let ?w' = "serve tenv wenv policy acq (s, elapsed, CallTool name kw) w"
  have "own_clients tenv ?w'"
  proof (cases rule: call_app [of tenv wenv policy acq s elapsed name kw w])
    case kept
    then show ?thesis using assms(2) own_clients_app by blast
  next
    case (handled pol evs w1 h)
    have "own_clients tenv w1" using assms(2) own_clients_app [OF handled(4)] by simp
    from tool_own [OF handled(3) assms(1) this] show ?thesis using own_clients_app [OF handled(5)] by simp
  qed
  then show ?thesis unfolding CallTool .
next
  case (Context c)
  then show ?thesis using context_own [OF assms(2)] by simp
qed

section \<open>Runs\<close>

definition pools_own :: "'k platform \<Rightarrow> client_open \<times> client_open \<Rightarrow> 'l app_world \<Rightarrow> bool" where
  "pools_own pf opens w \<longleftrightarrow>
     sp.pool_ok (snd opens) (pf_net_api pf) (ap_api (wd_app w)) \<and>
     ip.pool_ok (fst opens) (pf_net_ix pf) (ap_indexer (wd_app w))"

lemma pools_own_env: "own_clients (app_tool_env pf opens ck) w = pools_own pf opens w"
  by (simp add: own_clients_def pools_own_def app_tool_env_def)

lemma app_serve_own:
  "pools_own pf opens w \<Longrightarrow>
    pools_own pf opens (serve (app_tool_env pf opens ck) (app_write_env pf opens registry ck) policy acq (s, elapsed, req) w)"
  unfolding pools_own_env [of pf opens ck, symmetric]
  by (rule serve_own) (simp_all add: same_pools_def app_tool_env_def app_write_env_def)

lemma serve_delivery_own:
  assumes "pools_own pf (pool_opens (ha_pool app)) w"
  shows "pools_own pf (pool_opens (ha_pool app)) (serve_delivery pf app d w)"
proof -
  obtain ctx ck el req where d: "d = (ctx, ck, el, req)" by (cases d)
  show ?thesis
  proof (cases ctx)
    case None
    then show ?thesis using assms
      by (cases req) (auto simp: d serve_delivery_def rbac_call_tool_def)
  next
    case (Some s)
    then show ?thesis using app_serve_own [OF assms] by (simp add: d serve_delivery_def)
  qed
qed

lemma deliveries_own:
  "pools_own pf (pool_opens (ha_pool app)) w \<Longrightarrow> pools_own pf (pool_opens (ha_pool app)) (foldl (\<lambda>v d. serve_delivery pf app d v) w ds)"
  by (induction ds arbitrary: w) (simp_all add: serve_delivery_own)

lemma http_handle_own:
  assumes "pools_own pf (pool_opens (ha_pool app)) (hw_app w)" "http_handle pf lib app rq w = (r, w')"
  shows "pools_own pf (pool_opens (ha_pool app)) (hw_app w')"
  using assms(2)
proof (cases rule: http_handle_cases)
  case stopped
  then show ?thesis using assms(1) by simp
next
  case (entered ctx)
  then show ?thesis using deliveries_own [OF assms(1)] by simp
qed

lemma http_run_own:
  "pools_own pf (pool_opens (ha_pool app)) (hw_app w) \<Longrightarrow> pools_own pf (pool_opens (ha_pool app)) (hw_app (http_run pf lib app rqs w))"
  unfolding http_run_def
  by (induction rqs arbitrary: w) (simp_all add: http_handle_own [OF _ prod.collapse [symmetric]])


lemma fresh_world_own: "pools_own pf opens (fresh_app_world l)"
  by (simp add: pools_own_def fresh_app_world_def sp.pool_ok_def ip.pool_ok_def new_server_api_pool_def)

section \<open>Whose the clients are\<close>

text \<open>A client made for a tenant identifier from a tenant's configuration and a secrets file.\<close>

definition api_client_of :: "yaml_secrets \<Rightarrow> string \<Rightarrow> tenant_config \<Rightarrow> api_client \<Rightarrow> bool" where
  "api_client_of d tid t c \<longleftrightarrow> ac_base c = rstrip_char (CHR ''/'') (server_api_base t) \<and>
     ac_verify c = tls_verify (verify_tls t) (ca_bundle_path t) \<and>
     yaml_held d (tid, ''server_api_user'') = Some (ac_user c) \<and>
     yaml_held d (tid, ''server_api_password'') = Some (ac_password c)"

definition indexer_client_of :: "yaml_secrets \<Rightarrow> string \<Rightarrow> tenant_config \<Rightarrow> indexer_client \<Rightarrow> bool" where
  "indexer_client_of d tid t c \<longleftrightarrow> ix_base c = rstrip_char (CHR ''/'') (indexer_url t) \<and>
     ix_verify c = tls_verify (verify_tls t) (ca_bundle_path t) \<and>
     yaml_held d (tid, ''indexer_user'') = Some (ix_user c) \<and>
     yaml_held d (tid, ''indexer_password'') = Some (ix_password c)"

lemma pool_clients_of:
  assumes "pools_own pf (pool_opens (reg, yaml_secret_get d)) w"
  shows "dget (sp_clients (ap_api (wd_app w))) tid = Some c \<Longrightarrow> \<exists>t. reg tid = Inr t \<and> api_client_of d tid t c"
    and "dget (ap_indexer (wd_app w)) tid = Some i \<Longrightarrow> \<exists>t. reg tid = Inr t \<and> indexer_client_of d tid t i"
proof -
  assume "dget (sp_clients (ap_api (wd_app w))) tid = Some c"
  then obtain f where "sp_fresh (sp_open reg (yaml_secret_get d)) (pf_net_api pf) tid = Inr f" "api_ident c = api_ident f"
    using assms by (auto simp: pools_own_def pool_opens_def sp.pool_ok_def)
  then show "\<exists>t. reg tid = Inr t \<and> api_client_of d tid t c"
    by (auto simp: sp_fresh_def sp_open_def bind_res_eq_Inr new_api_client_def api_ident_def api_client_of_def
        dest!: yaml_store.get_held)
next
  assume "dget (ap_indexer (wd_app w)) tid = Some i"
  then obtain f where "ip_fresh (ip_open reg (yaml_secret_get d)) (pf_net_ix pf) tid = Inr f" "indexer_ident i = indexer_ident f"
    using assms by (auto simp: pools_own_def pool_opens_def ip.pool_ok_def)
  then show "\<exists>t. reg tid = Inr t \<and> indexer_client_of d tid t i"
    by (auto simp: ip_fresh_def ip_open_def bind_res_eq_Inr new_indexer_client_def indexer_ident_def indexer_client_of_def
        dest!: yaml_store.get_held)
qed

lemma loaded_pool:
  assumes "load_http_config url_ok feeds cd = Inr cfg"
  obtains registry d where "yaml_load url_ok (cd_tenants cd) [] = Inr registry"
    "yaml_secrets_load (cd_secrets cd) = Inr d" "hc_pool cfg = (yaml_get registry, yaml_secret_get d)"
  using assms by (auto simp: load_http_config_def bind_res_eq_Inr)

text \<open>
  C19: Every client is its tenant's, for as long as the server runs.  After any run of HTTP requests on an
  application built from a configuration directory, each Server API client and each indexer client
  the server holds for a tenant identifier belongs to the entry of \<open>tenants.yaml\<close> with that
  identifier: it points at the address configured there, verifies certificates as configured there,
  and carries the user and the password that the secrets file holds for that tenant, whatever the
  requests, the upstream answers and the order of tools, resources and prompts.
\<close>

theorem http_clients_are_their_tenants:
  assumes "load_http_config url_ok (pf_feeds pf) cd = Inr cfg" "build_http_app pf cfg = Inr (app, w0)"
  shows "\<exists>d. yaml_secrets_load (cd_secrets cd) = Inr d \<and>
    (\<forall>c. dget (sp_clients (ap_api (wd_app (hw_app (http_run pf lib app rqs w0))))) tid = Some c \<longrightarrow>
      (\<exists>t \<in> set (cd_tenants cd). tenant_id t = tid \<and> api_client_of d tid t c)) \<and>
    (\<forall>c. dget (ap_indexer (wd_app (hw_app (http_run pf lib app rqs w0)))) tid = Some c \<longrightarrow>
      (\<exists>t \<in> set (cd_tenants cd). tenant_id t = tid \<and> indexer_client_of d tid t c))"
proof -
  obtain registry d where reg: "yaml_load url_ok (cd_tenants cd) [] = Inr registry"
    and d: "yaml_secrets_load (cd_secrets cd) = Inr d" and pool: "hc_pool cfg = (yaml_get registry, yaml_secret_get d)"
    using assms(1) by (rule loaded_pool)
  have wf: "yaml_wf registry" "yaml_all registry = cd_tenants cd"
    using yaml_load_wf [OF reg] by (simp_all add: yaml_wf_def yaml_all_def)
  have "ha_pool app = (yaml_get registry, yaml_secret_get d)" "\<exists>l. hw_app w0 = fresh_app_world l"
    using assms(2) pool by (auto elim: build_http_cases)
  then have "pools_own pf (pool_opens (yaml_get registry, yaml_secret_get d)) (hw_app (http_run pf lib app rqs w0))"
    using http_run_own [of pf app w0] fresh_world_own by metis
  note held = pool_clients_of [OF this, of tid]
  have entry: "yaml_get registry tid = Inr t \<Longrightarrow> t \<in> set (cd_tenants cd) \<and> tenant_id t = tid" for t
    using yaml.get_iff [OF wf(1)] wf(2) by simp
  show ?thesis
  proof (rule exI [of _ d], intro conjI allI impI)
    show "yaml_secrets_load (cd_secrets cd) = Inr d" by (rule d)
  qed (use held entry in meson)+
qed

section \<open>A server that opened a client\<close>

definition demo_keyed_dir :: config_dir where
  "demo_keyed_dir = demo_dir\<lparr>
     cd_secrets := JObj [(''a'', JObj [(''indexer_user'', JStr ''reader''), (''indexer_password'', JStr ''pw'')])],
     cd_files := (\<lambda>_. Inr (JObj [(''api_keys'', JList [demo_key_entry JNull])]))\<rparr>"

definition demo_reading_mcp :: mcp_lib where
  "demo_reading_mcp =
     \<lparr>ml_deliver = \<lambda>ctxs rq. if ctxs = [] then [] else [(last ctxs, demo_clocks, 1, Context TriagePrompt)],
      ml_respond = \<lambda>rq. Inr (plain_response 200 JNull)\<rparr>"

definition demo_key_request :: http_request where
  "demo_key_request = demo_request [(''authorization'', ''Bearer wzk_a_001.secret'')]"

lemma demo_keyed_loads: "\<exists>cfg app w0. load_http_config (\<lambda>_. True) (pf_feeds demo_platform) demo_keyed_dir = Inr cfg \<and>
    build_http_app demo_platform cfg = Inr (app, w0) \<and> load_keys [demo_key_entry JNull] [] = Inr (ha_keys app) \<and>
    hw_app w0 = fresh_app_world (wd_limiter (hw_app w0)) \<and> hw_contexts w0 = [] \<and>
    ip_fresh (fst (pool_opens (ha_pool app))) (pf_net_ix demo_platform) ''a'' =
      Inr (new_indexer_client (indexer_url (sample_tenant ''a'')) ''reader'' ''pw'' (verify_tls (sample_tenant ''a''))
        (ca_bundle_path (sample_tenant ''a'')) [])"
proof -
  have ids: "tenant_ids two_tenants = [''a'', ''b'']"
    by (simp add: tenant_ids_def two_tenants_def sample_tenant_def)
  have "\<exists>cfg. load_http_config (\<lambda>_. True) (pf_feeds demo_platform) demo_keyed_dir = Inr cfg \<and> hc_rate_limiter cfg = None \<and>
      load_keys [demo_key_entry JNull] [] = Inr (hc_keys cfg) \<and>
      all_tenants_of cfg = [(sample_tenant ''a'')\<lparr>audit_sinks := []\<rparr>, (sample_tenant ''b'')\<lparr>audit_sinks := []\<rparr>] \<and>
      ip_fresh (fst (pool_opens (hc_pool cfg))) (pf_net_ix demo_platform) ''a'' =
        Inr (new_indexer_client (indexer_url (sample_tenant ''a'')) ''reader'' ''pw'' (verify_tls (sample_tenant ''a''))
          (ca_bundle_path (sample_tenant ''a'')) [])"
    using demo_load_keys [of JNull]
    by (auto simp: load_http_config_def demo_keyed_dir_def demo_dir_def demo_tenants_load ids required_def yaml_secrets_load_def py_or_def
        yaml_get_def load_key_file_def or_else_def load_oauth_def new_oauth_factory_def
        lower_def lower_char_def is_upper_def Let_def all_tenants_of_def yaml_all_def pool_opens_def ip_fresh_def ip_open_def yaml_secret_get_def
        demo_platform_def)
  then obtain cfg where cfg: "load_http_config (\<lambda>_. True) (pf_feeds demo_platform) demo_keyed_dir = Inr cfg"
    "hc_rate_limiter cfg = None" "load_keys [demo_key_entry JNull] [] = Inr (hc_keys cfg)"
    "all_tenants_of cfg = [(sample_tenant ''a'')\<lparr>audit_sinks := []\<rparr>, (sample_tenant ''b'')\<lparr>audit_sinks := []\<rparr>]"
    "ip_fresh (fst (pool_opens (hc_pool cfg))) (pf_net_ix demo_platform) ''a'' =
        Inr (new_indexer_client (indexer_url (sample_tenant ''a'')) ''reader'' ''pw'' (verify_tls (sample_tenant ''a''))
          (ca_bundle_path (sample_tenant ''a'')) [])" by blast
  have "\<exists>app w0. build_http_app demo_platform cfg = Inr (app, w0)"
    by (simp add: build_http_app_def cfg build_sinks_def sample_tenant_def validate_rate_limiter_def
        or_else_def default_rate_limiter_def redis_limiter_ok_def circuit_breaker_ok_def build_rate_limiter_def
        alnum_def is_lower_def is_upper_def is_digit_def)
  then obtain app w0 where app: "build_http_app demo_platform cfg = Inr (app, w0)" by blast
  then have "ha_keys app = hc_keys cfg \<and> ha_pool app = hc_pool cfg \<and> hw_contexts w0 = [] \<and>
      (\<exists>l. hw_app w0 = fresh_app_world l)"
    by (auto simp: build_http_app_def bind_res_eq_Inr)
  moreover have "fresh_app_world (wd_limiter (fresh_app_world l)) = fresh_app_world l" for l :: built_limiter
    by (simp add: fresh_app_world_def)
  ultimately show ?thesis using cfg app by auto
qed

lemma demo_key_authenticates:
  assumes "load_keys [demo_key_entry JNull] [] = Inr (ha_keys app)"
  shows "\<exists>s. s_tenant_id s = ''a'' \<and>
    (\<forall>w. authenticate demo_platform app demo_key_request [(''Authorization'', ''Bearer wzk_a_001.secret'')] w = (Inr s, w))"
proof -
  have rp: "rpartition_dot ''wzk_a_001.secret'' = (''wzk_a_001'', ''secret'')"
    using rpartition_key [of "''secret''" "''wzk_a_001''"] by simp
  obtain e where "load_keys [demo_key_entry JNull] [] = Inr e"
    "dget e ''wzk_a_001'' = Some [(''key_id'', JStr ''wzk_a_001''), (''hash'', JStr ''$argon2id$x''),
     (''tenant_id'', JStr ''a''), (''user_id'', JStr ''bot''), (''rbac_role'', JStr ''readonly''),
     (''expires_at'', JNull)]" using demo_load_keys by blast
  then have e: "dget (ha_keys app) ''wzk_a_001'' = Some [(''key_id'', JStr ''wzk_a_001''), (''hash'', JStr ''$argon2id$x''),
     (''tenant_id'', JStr ''a''), (''user_id'', JStr ''bot''), (''rbac_role'', JStr ''readonly''),
     (''expires_at'', JNull)]" using assms by simp
  have "\<exists>s. s_tenant_id s = ''a'' \<and>
      api_key_build demo_key_lib 900 (ha_keys app) [(''Authorization'', ''Bearer wzk_a_001.secret'')] = Inr s"
    unfolding api_key_build_def demo_bearer
    by (simp add: startswith_def rp verify_key_def e jget_def expiry_check_def item_str_def json_str_def demo_key_lib_def)
  then show ?thesis using demo_bearer
    by (auto simp: authenticate_def chain_build_def startswith_def demo_key_request_def demo_request_def demo_platform_def)
qed

lemma triage_app:
  "wd_app (snd (prompt_triage_last_hour env s elapsed w)) =
     (wd_app w)\<lparr>ap_indexer := ip.used (te_open_ix env) (te_net_ix env) (s_tenant_id s)
       (\<lambda>c. snd (triage_last_hour (te_read env) s elapsed c)) (ap_indexer (wd_app w))\<rparr>"
proof -
  define m :: "json audited indexer" where
    "m = (\<lambda>c. case triage_last_hour (te_read env) s elapsed c of (out, c1) \<Rightarrow> (Inr out, c1))"
  have "wd_app (snd (prompt_triage_last_hour env s elapsed w)) = wd_app (snd (with_indexer env s m w))"
    unfolding m_def by (auto simp: prompt_triage_last_hour_def emit_events_def split: prod.splits sum.splits)
  moreover have "(\<lambda>c. snd (m c)) = (\<lambda>c. snd (triage_last_hour (te_read env) s elapsed c))"
    unfolding m_def by (rule ext) (simp split: prod.splits)
  ultimately show ?thesis by (simp only: with_indexer_used)
qed

lemma demo_client_opened:
  assumes "load_keys [demo_key_entry JNull] [] = Inr (ha_keys app)" "hw_app w0 = fresh_app_world l" "hw_contexts w0 = []"
    and "ip_fresh (fst (pool_opens (ha_pool app))) (pf_net_ix demo_platform) ''a'' = Inr f"
  shows "\<exists>c. dget (ap_indexer (wd_app (hw_app (http_run demo_platform demo_reading_mcp app [demo_key_request] w0)))) ''a'' = Some c"
proof -
  obtain s where s: "s_tenant_id s = ''a''" and auth: "\<And>w. authenticate demo_platform app demo_key_request
      [(''Authorization'', ''Bearer wzk_a_001.secret'')] w = (Inr s, w)"
    using demo_key_authenticates [OF assms(1)] by blast
  have hs: "dupdate [] (map (\<lambda>(k, v). (title_header k, v)) [(''authorization'', ''Bearer wzk_a_001.secret'')]) =
      [(''Authorization'', ''Bearer wzk_a_001.secret'')]" by code_simp
  have "hw_app (http_run demo_platform demo_reading_mcp app [demo_key_request] w0) =
      serve_delivery demo_platform app (Some s, demo_clocks, 1, Context TriagePrompt) (hw_app w0)"
    using auth hs assms(3)
    by (simp add: http_run_def http_handle_def dispatch_def is_protected_def PROTECTED_def demo_key_request_def
        demo_request_def base_app_def route_of_def mcp_app_def demo_reading_mcp_def Let_def)
  then have "ap_indexer (wd_app (hw_app (http_run demo_platform demo_reading_mcp app [demo_key_request] w0))) =
      ip.used (fst (pool_opens (ha_pool app))) (pf_net_ix demo_platform) ''a''
        (\<lambda>c. snd (triage_last_hour demo_read_env s 1 c)) []"
    by (simp add: serve_delivery_def assms(2) fresh_app_world_def triage_app s) (simp add: app_tool_env_def demo_platform_def)
  then show ?thesis using assms(4) by (simp add: ip.used_def ip_acquire_def ip_store_def)
qed

theorem http_clients_are_their_tenants_witness:
  "\<exists>cfg app w0 c. load_http_config (\<lambda>_. True) (pf_feeds demo_platform) demo_keyed_dir = Inr cfg \<and>
    build_http_app demo_platform cfg = Inr (app, w0) \<and>
    dget (ap_indexer (wd_app (hw_app (http_run demo_platform demo_reading_mcp app [demo_key_request] w0)))) ''a'' = Some c \<and>
    ix_user c = ''reader''"
proof -
  obtain cfg app w0 where cfg: "load_http_config (\<lambda>_. True) (pf_feeds demo_platform) demo_keyed_dir = Inr cfg"
    and app: "build_http_app demo_platform cfg = Inr (app, w0)" and keys: "load_keys [demo_key_entry JNull] [] = Inr (ha_keys app)"
    and w0: "hw_app w0 = fresh_app_world (wd_limiter (hw_app w0))" "hw_contexts w0 = []"
    and fr: "ip_fresh (fst (pool_opens (ha_pool app))) (pf_net_ix demo_platform) ''a'' =
      Inr (new_indexer_client (indexer_url (sample_tenant ''a'')) ''reader'' ''pw'' (verify_tls (sample_tenant ''a''))
        (ca_bundle_path (sample_tenant ''a'')) [])"
    using demo_keyed_loads by blast
  obtain c where c: "dget (ap_indexer (wd_app (hw_app (http_run demo_platform demo_reading_mcp app [demo_key_request] w0)))) ''a'' = Some c"
    using demo_client_opened [OF keys w0 fr] by blast
  have d: "yaml_secrets_load (cd_secrets demo_keyed_dir) = Inr d \<Longrightarrow> yaml_held d (''a'', ''indexer_user'') = Some ''reader''" for d
    by (auto simp: demo_keyed_dir_def yaml_secrets_load_def py_or_def yaml_held_def)
  have "ix_user c = ''reader''"
    using http_clients_are_their_tenants [OF cfg app, of demo_reading_mcp "[demo_key_request]" "''a''"] c d
    by (auto simp: indexer_client_of_def)
  then show ?thesis using cfg app c by blast
qed


section \<open>The clients of the stdio server\<close>








end
