(* ===== verification/SecurityIgnores.thy ===== *)
theory SecurityIgnores imports Json begin

text \<open>
  The check of the suppression list for security findings (\<open>tools/check_security_ignores.py\<close>), with the
  reading of ISO dates it rests on.
\<close>

section \<open>Dates\<close>

text \<open>A date is the number of its day, counted from 1 for the first of January of year 1; \<open>date.max\<close> is the last
  day of year 9999.\<close>

definition leap :: "nat \<Rightarrow> bool" where
  "leap y \<longleftrightarrow> 4 dvd y \<and> (\<not> 100 dvd y \<or> 400 dvd y)"

definition days_before_year :: "nat \<Rightarrow> nat" where
  "days_before_year y = 365 * (y - 1) + (y - 1) div 4 + (y - 1) div 400 - (y - 1) div 100"

definition month_lengths :: "nat \<Rightarrow> nat list" where
  "month_lengths y = [31, if leap y then 29 else 28, 31, 30, 31, 30, 31, 31, 30, 31, 30, 31]"

definition valid_date :: "nat \<Rightarrow> nat \<Rightarrow> nat \<Rightarrow> bool" where
  "valid_date y m d \<longleftrightarrow> 1 \<le> y \<and> y \<le> 9999 \<and> 1 \<le> m \<and> m \<le> 12 \<and> 1 \<le> d \<and> d \<le> month_lengths y ! (m - 1)"

definition day_number :: "nat \<Rightarrow> nat \<Rightarrow> nat \<Rightarrow> nat" where
  "day_number y m d = days_before_year y + sum_list (take (m - 1) (month_lengths y)) + d"

definition last_day :: nat where
  "last_day = 3652059"

text \<open>The day of the week, from 0 for Monday.\<close>

definition weekday :: "nat \<Rightarrow> nat" where
  "weekday n = (n + 6) mod 7"

definition iso_week1_monday :: "nat \<Rightarrow> nat" where
  "iso_week1_monday y =
     (let first = day_number y 1 1; w = weekday first
      in if 3 < w then first + 7 - w else first - w)"

definition iso_week_date :: "nat \<Rightarrow> nat \<Rightarrow> nat \<Rightarrow> nat option" where
  "iso_week_date y week day =
     (let w = weekday (day_number y 1 1);
          long = (w = 3 \<or> (w = 2 \<and> leap y))
      in if y = 0 \<or> 9999 < y then None
         else if week = 0 \<or> 53 \<le> week \<and> \<not> (week = 53 \<and> long) then None
         else if day = 0 \<or> 8 \<le> day then None
         else let n = iso_week1_monday y + 7 * (week - 1) + (day - 1) in if n \<le> last_day then Some n else None)"

text \<open>\<open>date.fromisoformat\<close>: seven, eight or ten characters, a calendar date or a week date, with or without
  dashes.  What follows a complete date of eight characters is not looked at.\<close>

definition take_digits :: "nat \<Rightarrow> string \<Rightarrow> (nat \<times> string) option" where
  "take_digits n s =
     (if length (take n s) = n \<and> list_all is_digit (take n s) then Some (read_nat (take n s), drop n s) else None)"

definition skip_dash :: "bool \<Rightarrow> string \<Rightarrow> string option" where
  "skip_dash sep s =
     (if sep then (case s of c # cs \<Rightarrow> if c = CHR ''-'' then Some cs else None | [] \<Rightarrow> None) else Some s)"

definition iso_week_part :: "nat \<Rightarrow> bool \<Rightarrow> string \<Rightarrow> nat option" where
  "iso_week_part y sep s =
     Option.bind (take_digits 2 s) (\<lambda>(week, r).
       if r = [] then iso_week_date y week 1
       else Option.bind (skip_dash sep r) (\<lambda>r1.
            Option.bind (take_digits 1 r1) (\<lambda>(day, r2). iso_week_date y week day)))"

definition iso_month_part :: "nat \<Rightarrow> bool \<Rightarrow> string \<Rightarrow> nat option" where
  "iso_month_part y sep s =
     Option.bind (take_digits 2 s) (\<lambda>(m, r).
     Option.bind (skip_dash sep r) (\<lambda>r1.
     Option.bind (take_digits 2 r1) (\<lambda>(d, r2).
       if valid_date y m d then Some (day_number y m d) else None)))"

definition date_fromisoformat :: "string \<Rightarrow> nat option" where
  "date_fromisoformat s =
     (if length s \<notin> {7, 8, 10} then None
      else Option.bind (take_digits 4 s) (\<lambda>(y, r).
             let sep = startswith r ''-'';
                 r1 = (if sep then drop 1 r else r)
             in if startswith r1 ''W'' then iso_week_part y sep (drop 1 r1) else iso_month_part y sep r1))"

section \<open>The check\<close>

definition REQUIRED_FIELDS :: "string list" where
  "REQUIRED_FIELDS = [''id'', ''reason'', ''expires'', ''reviewer'']"

datatype verdict = SchemaError | Expired | Fine

text \<open>One entry; \<open>fr\<close> prints floats.  A date the YAML loader has read is given by its ISO text.\<close>

definition check_entry :: "(rat \<Rightarrow> string) \<Rightarrow> nat \<Rightarrow> json \<Rightarrow> verdict" where
  "check_entry fr today entry =
     (case entry of
        JObj kvs \<Rightarrow>
          if \<not> list_all (\<lambda>k. dget kvs k \<noteq> None) REQUIRED_FIELDS then SchemaError
          else (case date_fromisoformat (json_str fr (jget kvs ''expires'')) of
                  None \<Rightarrow> SchemaError
                | Some n \<Rightarrow> if n < today then Expired else Fine)
      | _ \<Rightarrow> SchemaError)"

text \<open>The exit status; \<open>None\<close> is the missing file.\<close>

definition check_ignores :: "(rat \<Rightarrow> string) \<Rightarrow> nat \<Rightarrow> json option \<Rightarrow> exn + int" where
  "check_ignores fr today file =
     (case file of
        None \<Rightarrow> Inr 1
      | Some doc \<Rightarrow>
          bind_res (py_get (py_or doc (JObj [])) ''ignores'') (\<lambda>raw.
          bind_res (py_iter (py_or raw (JList []))) (\<lambda>entries.
            let verdicts = map (check_entry fr today) entries
            in if SchemaError \<in> set verdicts then Inr 1
               else if Expired \<in> set verdicts then Inr 1
               else Inr 0)))"

section \<open>Day numbers order as the calendar\<close>

lemma year_step: "1 \<le> y \<Longrightarrow> days_before_year (Suc y) = days_before_year y + (if leap y then 366 else 365)"
proof -
  assume "1 \<le> y"
  then obtain x where y: "y = Suc x" by (cases y) auto
  define a b c where abc: "a = x div 4" "b = x div 100" "c = x div 400"
  have step: "Suc x div k = x div k + (if k dvd Suc x then 1 else 0)" for k
    by (simp add: div_Suc dvd_eq_mod_eq_0)
  have steps: "Suc x div 4 = a + (if 4 dvd Suc x then 1 else 0)" "Suc x div 100 = b + (if 100 dvd Suc x then 1 else 0)"
    "Suc x div 400 = c + (if 400 dvd Suc x then 1 else 0)" unfolding abc by (rule step)+
  have dvds: "(400 :: nat) dvd Suc x \<Longrightarrow> 100 dvd Suc x" "(100 :: nat) dvd Suc x \<Longrightarrow> 4 dvd Suc x"
    by (auto elim: dvd_trans [rotated])
  have ba: "b \<le> a" unfolding abc by (rule div_le_mono2) simp_all
  have "365 * Suc x + (a + p) + (c + r) - (b + q) = 365 * x + a + c - b + 365 + (p + r - q)"
    if "q \<le> p + r" for p q r :: nat
  proof -
    from le_Suc_ex [OF ba] le_Suc_ex [OF that] obtain u v where uv: "a = b + u" "p + r = q + v" by blast
    have "365 * Suc x + (a + p) + (c + r) = (365 * x + 365 + u + c + v) + (b + q)" using uv by simp
    then show ?thesis unfolding uv(2) by (simp add: uv(1))
  qed
  then have gen: "days_before_year (Suc y) = days_before_year y + 365 + (p + r - q)"
    if "p = (if 4 dvd Suc x then 1 else 0)" "q = (if 100 dvd Suc x then 1 else 0)" "r = (if 400 dvd Suc x then 1 else 0)" for p q r
    using that dvds unfolding days_before_year_def y diff_Suc_1 steps abc [symmetric] by simp
  show ?thesis using gen [OF refl refl refl] dvds by (cases "4 dvd Suc x"; cases "100 dvd Suc x"; cases "400 dvd Suc x") (simp_all add: leap_def y)
qed

lemma years_mono: "1 \<le> y \<Longrightarrow> y < z \<Longrightarrow> days_before_year y + (if leap y then 366 else 365) \<le> days_before_year z"
proof (induction z)
  case (Suc z)
  then show ?case using year_step [of y] year_step [of z] by (cases "y = z") auto
qed simp

lemma sum_take_mono: "m \<le> n \<Longrightarrow> sum_list (take m xs) \<le> sum_list (take n (xs :: nat list))"
  by (metis le_add1 le_Suc_ex sum_list_append take_add)

lemma months_mono:
  assumes "m < n" "n \<le> length xs"
  shows "sum_list (take m xs) + xs ! m \<le> sum_list (take n (xs :: nat list))"
proof -
  have "sum_list (take m xs) + xs ! m = sum_list (take (Suc m) xs)"
    using assms by (simp add: take_Suc_conv_app_nth)
  then show ?thesis using sum_take_mono [of "Suc m" n xs] assms by simp
qed

lemma year_length: "sum_list (month_lengths y) = (if leap y then 366 else 365)" "length (month_lengths y) = 12"
  by (simp_all add: month_lengths_def)

lemma day_of_year:
  assumes "valid_date y m d"
  shows "1 \<le> sum_list (take (m - 1) (month_lengths y)) + d"
    and "sum_list (take (m - 1) (month_lengths y)) + d \<le> (if leap y then 366 else 365)"
proof -
  have v: "1 \<le> d" "d \<le> month_lengths y ! (m - 1)" "m - 1 < 12" using assms by (auto simp: valid_date_def)
  show "1 \<le> sum_list (take (m - 1) (month_lengths y)) + d" using v by simp
  show "sum_list (take (m - 1) (month_lengths y)) + d \<le> (if leap y then 366 else 365)"
    using months_mono [of "m - 1" 12 "month_lengths y"] v year_length [of y] by simp
qed

lemma day_number_less:
  assumes "valid_date y m d" "valid_date y' m' d'"
    and "y < y' \<or> y = y' \<and> (m < m' \<or> m = m' \<and> d < d')"
  shows "day_number y m d < day_number y' m' d'"
  using assms(3)
proof (elim disjE conjE)
  assume "y < y'"
  moreover have "1 \<le> y" using assms(1) by (simp add: valid_date_def)
  ultimately show ?thesis
    using years_mono [of y y'] day_of_year(2) [OF assms(1)] day_of_year(1) [OF assms(2)] by (simp add: day_number_def)
next
  assume y: "y = y'" and m: "m < m'"
  have "m - 1 < m' - 1" "m' - 1 \<le> 12" "d \<le> month_lengths y ! (m - 1)" "1 \<le> d'"
    using m assms(1,2) by (auto simp: valid_date_def)
  then show ?thesis using months_mono [of "m - 1" "m' - 1" "month_lengths y"] year_length(2) [of y] y
    by (simp add: day_number_def)
qed (simp add: day_number_def)

lemma day_number_order:
  assumes "valid_date y m d" "valid_date y' m' d'"
  shows "day_number y m d < day_number y' m' d' \<longleftrightarrow> y < y' \<or> y = y' \<and> (m < m' \<or> m = m' \<and> d < d')"
  using day_number_less [OF assms] day_number_less [OF assms(2,1)]
  by (metis less_asym less_irrefl linorder_less_linear)

section \<open>Printed dates read back\<close>

text \<open>\<open>str(date)\<close>.\<close>

definition padded :: "nat \<Rightarrow> nat \<Rightarrow> string" where
  "padded k n = replicate (k - length (show_nat n)) (CHR ''0'') @ show_nat n"

definition isoformat :: "nat \<Rightarrow> nat \<Rightarrow> nat \<Rightarrow> string" where
  "isoformat y m d = padded 4 y @ ''-'' @ padded 2 m @ ''-'' @ padded 2 d"

lemma show_nat_length: "n < 10 ^ k \<Longrightarrow> 0 < k \<Longrightarrow> length (show_nat n) \<le> k"
proof (induction k arbitrary: n)
  case (Suc k)
  show ?case
  proof (cases "n < 10")
    case True
    then show ?thesis by (subst show_nat.simps) simp
  next
    case False
    then have "0 < k" using Suc.prems(1) by (cases k) auto
    moreover have "n div 10 < 10 ^ k" using Suc.prems(1) by (simp add: less_mult_imp_div_less mult.commute)
    ultimately have "length (show_nat (n div 10)) \<le> k" using Suc.IH by blast
    then show ?thesis using False by (subst show_nat.simps) simp
  qed
qed simp

lemma read_nat_zeros: "read_nat (replicate k (CHR ''0'') @ s) = read_nat s"
  by (induction k) (simp_all add: read_nat_def)

lemma take_digits_padded:
  assumes "n < 10 ^ k" "0 < k"
  shows "take_digits k (padded k n @ r) = Some (n, r)"
proof -
  have len: "length (padded k n) = k" using show_nat_length [OF assms] by (simp add: padded_def)
  have "list_all is_digit (padded k n)"
    using show_nat_digits [of _ n] by (auto simp: padded_def list_all_iff is_digit_def)
  moreover have "read_nat (padded k n) = n" by (simp add: padded_def read_nat_zeros)
  ultimately show ?thesis using len by (simp add: take_digits_def)
qed

lemma month_length_le: "m < 12 \<Longrightarrow> month_lengths y ! m \<le> 31"
  by (auto simp: month_lengths_def nth_Cons split: nat.splits)

lemma padded_first: "0 < k \<Longrightarrow> n < 10 ^ k \<Longrightarrow> \<exists>c cs. padded k n = c # cs \<and> is_digit c"
  using take_digits_padded [of n k "[]"] by (cases "padded k n"; cases k) (auto simp: take_digits_def split: if_splits)

lemma iso_reads_back:
  assumes "valid_date y m d"
  shows "date_fromisoformat (isoformat y m d) = Some (day_number y m d)"
proof -
  have v: "y \<le> 9999" "m \<le> 12" "m - 1 < 12" "d \<le> month_lengths y ! (m - 1)" using assms by (auto simp: valid_date_def)
  have "d \<le> 31" using v(4) month_length_le [OF v(3)] by (rule order_trans)
  then have b: "y < 10 ^ 4" "m < 10 ^ 2" "d < 10 ^ 2" using v(1,2) by simp_all
  have len: "length (padded 4 y) = 4" "length (padded 2 m) = 2" "length (padded 2 d) = 2"
    using show_nat_length [of y 4] show_nat_length [of m 2] show_nat_length [of d 2] b by (simp_all add: padded_def)
  obtain c cs where m: "padded 2 m = c # cs" "is_digit c" using padded_first [OF _ b(2)] by auto
  have w: "\<not> startswith (padded 2 m @ r) ''W''" for r using m by (auto simp: startswith_def is_digit_def)
  have "take_digits 4 (isoformat y m d) = Some (y, ''-'' @ padded 2 m @ ''-'' @ padded 2 d)"
    unfolding isoformat_def by (rule take_digits_padded [OF b(1)]) simp
  moreover have "take_digits 2 (padded 2 m @ ''-'' @ padded 2 d) = Some (m, ''-'' @ padded 2 d)"
    by (rule take_digits_padded [OF b(2)]) simp
  moreover have "take_digits 2 (padded 2 d) = Some (d, [])" using take_digits_padded [OF b(3), of "[]"] by simp
  moreover have "startswith (''-'' @ r) ''-''" for r by (simp add: startswith_def)
  moreover have "length (isoformat y m d) = 10" by (simp add: isoformat_def len)
  ultimately show ?thesis using w assms
    by (simp add: date_fromisoformat_def Let_def iso_month_part_def skip_dash_def)
qed

section \<open>What the check lets pass\<close>

text \<open>
  An entry passes until its day is over.  An entry that names the four fields, with a calendar date as
  its expiry, is reported as expired exactly when that date lies before today in the calendar, and
  passes otherwise, the day of expiry included.
\<close>

theorem expiry_is_calendar:
  assumes "valid_date y m d" "valid_date y' m' d'" "list_all (\<lambda>k. dget kvs k \<noteq> None) REQUIRED_FIELDS"
    and "dget kvs ''expires'' = Some (JStr (isoformat y m d))"
  shows "check_entry fr (day_number y' m' d') (JObj kvs) =
    (if y < y' \<or> y = y' \<and> (m < m' \<or> m = m' \<and> d < d') then Expired else Fine)"
  using assms day_number_order [OF assms(1,2)] iso_reads_back [OF assms(1)]
  by (simp add: check_entry_def jget_def json_str_def)

text \<open>
  The script succeeds exactly when the file exists and every entry is a mapping with the four fields whose
  expiry reads as a date that is not before today.
\<close>

theorem ignores_check_exact:
  "check_ignores fr today (Some (JObj [(''ignores'', JList entries)])) =
     Inr (if list_all (\<lambda>e. check_entry fr today e = Fine) entries then 0 else 1) \<and>
   check_ignores fr today None = Inr 1 \<and>
   (check_entry fr today e = Fine) =
     (\<exists>kvs n. e = JObj kvs \<and> list_all (\<lambda>k. dget kvs k \<noteq> None) REQUIRED_FIELDS \<and>
       date_fromisoformat (json_str fr (jget kvs ''expires'')) = Some n \<and> today \<le> n)"
proof (intro conjI)
  have "list_all (\<lambda>e. check_entry fr today e = Fine) entries \<longleftrightarrow>
      SchemaError \<notin> set (map (check_entry fr today) entries) \<and> Expired \<notin> set (map (check_entry fr today) entries)"
    unfolding list_all_iff by (metis (full_types) image_iff imageI list.set_map verdict.distinct verdict.exhaust)
  then show "check_ignores fr today (Some (JObj [(''ignores'', JList entries)])) =
     Inr (if list_all (\<lambda>e. check_entry fr today e = Fine) entries then 0 else 1)"
    by (auto simp: check_ignores_def py_access jget_def Let_def)
  show "check_ignores fr today None = Inr 1" by (simp add: check_ignores_def)
  show "(check_entry fr today e = Fine) =
     (\<exists>kvs n. e = JObj kvs \<and> list_all (\<lambda>k. dget kvs k \<noteq> None) REQUIRED_FIELDS \<and>
       date_fromisoformat (json_str fr (jget kvs ''expires'')) = Some n \<and> today \<le> n)"
    by (cases e) (auto simp: check_entry_def split: option.splits)
qed

text \<open>
  The documented form of an expiry is \<open>YYYY-MM-DD\<close>; week dates, dates without dashes and such dates with two
  more characters are read as well.
\<close>

theorem lax_expiry_formats:
  "date_fromisoformat ''2026-01-01'' = Some (day_number 2026 1 1) \<and>
   date_fromisoformat ''20260101'' = Some (day_number 2026 1 1) \<and>
   date_fromisoformat ''20260101xx'' = Some (day_number 2026 1 1) \<and>
   date_fromisoformat ''2026-W01'' = Some (day_number 2025 12 29) \<and>
   date_fromisoformat ''2021-W53'' = None \<and> date_fromisoformat ''2023-02-29'' = None"
  by (simp add: date_fromisoformat_def take_digits_def read_nat_def is_digit_def startswith_def Let_def iso_month_part_def
      iso_week_part_def iso_week_date_def iso_week1_monday_def weekday_def skip_dash_def valid_date_def month_lengths_def
      day_number_def days_before_year_def leap_def last_day_def)

theorem expiry_is_calendar_witness:
  "check_entry (\<lambda>_. []) (day_number 2026 5 1)
     (JObj [(''id'', JStr ''GHSA-1''), (''reason'', JStr ''r''), (''expires'', JStr (isoformat 2026 4 30)), (''reviewer'', JStr ''u'')]) = Expired"
proof -
  let ?kvs = "[(''id'', JStr ''GHSA-1''), (''reason'', JStr ''r''), (''expires'', JStr (isoformat 2026 4 30)), (''reviewer'', JStr ''u'')]"
  have "valid_date 2026 4 30" "valid_date 2026 5 1" by (simp_all add: valid_date_def month_lengths_def)
  moreover have "list_all (\<lambda>k. dget ?kvs k \<noteq> None) REQUIRED_FIELDS" by (simp add: REQUIRED_FIELDS_def)
  moreover have "dget ?kvs ''expires'' = Some (JStr (isoformat 2026 4 30))" by simp
  ultimately have "check_entry (\<lambda>_. []) (day_number 2026 5 1) (JObj ?kvs) =
      (if (2026 :: nat) < 2026 \<or> (2026 :: nat) = 2026 \<and> ((4 :: nat) < 5 \<or> (4 :: nat) = 5 \<and> (30 :: nat) < 1) then Expired else Fine)"
    by (rule expiry_is_calendar)
  then show ?thesis by simp
qed

end
