(* ===== verification/EvalScore.thy ===== *)
theory EvalScore imports Json begin

text \<open>
  The scoring of evaluation runs (\<open>tools/eval/score.py\<close>): each recorded pick is compared with the
  corpus entry it names, the counts become accuracies per tier and category, and these are held
  against the thresholds of the model.  The parsed files are arguments.
\<close>

section \<open>Python's equality of values\<close>

text \<open>Numbers and Booleans compare by value, dictionaries without regard to order.\<close>

fun py_eq :: "json \<Rightarrow> json \<Rightarrow> bool"
and eq_list :: "json list \<Rightarrow> json list \<Rightarrow> bool"
and eq_dict :: "(string \<times> json) list \<Rightarrow> (string \<times> json) list \<Rightarrow> bool" where
  "py_eq JNull b = (b = JNull)"
| "py_eq (JBool x) b = (json_num b = Some (if x then 1 else 0))"
| "py_eq (JInt i) b = (json_num b = Some (of_int i))"
| "py_eq (JFloat r) b = (json_num b = Some r)"
| "py_eq (JStr s) b = (b = JStr s)"
| "py_eq (JList xs) b = (case b of JList ys \<Rightarrow> eq_list xs ys | _ \<Rightarrow> False)"
| "py_eq (JObj kvs) b = (case b of JObj d \<Rightarrow> length kvs = length d \<and> eq_dict kvs d | _ \<Rightarrow> False)"
| "eq_list [] ys = (ys = [])"
| "eq_list (x # xs) ys = (case ys of [] \<Rightarrow> False | y # ys' \<Rightarrow> py_eq x y \<and> eq_list xs ys')"
| "eq_dict [] d = True"
| "eq_dict ((k, v) # kvs) d = (case dget d k of None \<Rightarrow> False | Some w \<Rightarrow> py_eq v w \<and> eq_dict kvs d)"

text \<open>A value as a dictionary key: lists and dictionaries cannot be one, equal numbers are one.\<close>

definition hash_key :: "json \<Rightarrow> exn + json" where
  "hash_key v =
     (case v of
        JList _ \<Rightarrow> Inl TypeE
      | JObj _ \<Rightarrow> Inl TypeE
      | _ \<Rightarrow> Inr (case json_num v of Some r \<Rightarrow> JFloat r | None \<Rightarrow> v))"

definition dict_items :: "json \<Rightarrow> exn + (string \<times> json) list" where
  "dict_items v = (case v of JObj kvs \<Rightarrow> Inr kvs | _ \<Rightarrow> Inl OtherE)"

section \<open>The corpus\<close>

definition TIERS :: "string list" where
  "TIERS = [''selection_only'', ''with_args'', ''multi_step'']"

type_synonym corpus = "string \<Rightarrow> (json, json) dict"

definition corpus_entry :: "json \<Rightarrow> exn + json \<times> json" where
  "corpus_entry e = bind_res (py_index e ''id'') (\<lambda>i. bind_res (hash_key i) (\<lambda>k. Inr (k, e)))"

definition load_tier :: "json \<Rightarrow> exn + (json, json) dict" where
  "load_tier file =
     bind_res (py_iter (py_or file (JList []))) (\<lambda>entries.
     bind_res (map_res corpus_entry entries) (\<lambda>kvs. Inr (foldl (\<lambda>d (k, e). dset k e d) [] kvs)))"

definition load_corpus :: "(string \<Rightarrow> json) \<Rightarrow> exn + corpus" where
  "load_corpus files =
     bind_res (load_tier (files ''selection_only'')) (\<lambda>a.
     bind_res (load_tier (files ''with_args'')) (\<lambda>b.
     bind_res (load_tier (files ''multi_step'')) (\<lambda>c.
       Inr (\<lambda>t. if t = ''selection_only'' then a else if t = ''with_args'' then b
                else if t = ''multi_step'' then c else []))))"

section \<open>Checking a pick\<close>

definition check_selection :: "json \<Rightarrow> json \<Rightarrow> exn + bool" where
  "check_selection picked expected =
     bind_res (py_get picked ''picked_tool'') (\<lambda>p.
     bind_res (py_index expected ''expected_tool'') (\<lambda>e. Inr (py_eq p e)))"

fun args_match :: "json \<Rightarrow> (string \<times> json) list \<Rightarrow> exn + bool" where
  "args_match picked [] = Inr True"
| "args_match picked ((k, v) # kvs) =
     bind_res (py_get picked k) (\<lambda>x. if py_eq x v then args_match picked kvs else Inr False)"

definition check_with_args :: "json \<Rightarrow> json \<Rightarrow> exn + bool" where
  "check_with_args picked expected =
     bind_res (check_selection picked expected) (\<lambda>same.
       if \<not> same then Inr False
       else bind_res (py_get expected ''expected_args'') (\<lambda>ea.
            bind_res (py_get picked ''picked_args'') (\<lambda>pa.
            bind_res (dict_items (py_or ea (JObj []))) (args_match (py_or pa (JObj []))))))"

definition step_matches :: "json \<Rightarrow> json \<Rightarrow> exn + bool" where
  "step_matches ps es =
     bind_res (py_get ps ''tool'') (\<lambda>pt.
     bind_res (py_index es ''tool'') (\<lambda>et.
       if \<not> py_eq pt et then Inr False
       else bind_res (py_in ''args'' es) (\<lambda>has.
              if \<not> has then Inr True
              else bind_res (py_get ps ''args'') (\<lambda>pa.
                   bind_res (bind_res (py_index es ''args'') dict_items) (args_match (py_or pa (JObj [])))))))"

fun steps_match :: "json list \<Rightarrow> json list \<Rightarrow> exn + bool" where
  "steps_match (p # ps) (e # es) =
     bind_res (step_matches p e) (\<lambda>ok. if ok then steps_match ps es else Inr False)"
| "steps_match _ _ = Inr True"

definition check_multi_step :: "json \<Rightarrow> json \<Rightarrow> exn + bool" where
  "check_multi_step picked expected =
     bind_res (py_index expected ''expected_sequence'') (\<lambda>e.
     bind_res (py_get picked ''picked_sequence'') (\<lambda>p.
     bind_res (py_iter (py_or p (JList []))) (\<lambda>ps.
     bind_res (py_iter e) (\<lambda>es.
       if length ps \<noteq> length es then Inr False else steps_match ps es))))"

definition check :: "string \<Rightarrow> json \<Rightarrow> json \<Rightarrow> exn + bool" where
  "check tier picked expected =
     (if tier = ''selection_only'' then check_selection picked expected
      else if tier = ''with_args'' then check_with_args picked expected
      else check_multi_step picked expected)"

text \<open>What the failure record shows; \<open>picked\<close> has been found a dictionary before.\<close>

definition expected_repr :: "string \<Rightarrow> json \<Rightarrow> exn + json" where
  "expected_repr tier expected =
     (if tier = ''selection_only'' then py_index expected ''expected_tool''
      else if tier = ''with_args''
      then bind_res (py_index expected ''expected_tool'') (\<lambda>t.
           bind_res (py_get_or expected ''expected_args'' (JObj [])) (\<lambda>a.
             Inr (JObj [(''tool'', t), (''args'', a)])))
      else py_index expected ''expected_sequence'')"

definition picked_repr :: "string \<Rightarrow> json \<Rightarrow> exn + json" where
  "picked_repr tier picked =
     (if tier = ''selection_only'' then py_get picked ''picked_tool''
      else if tier = ''with_args''
      then bind_res (py_get picked ''picked_tool'') (\<lambda>t.
           bind_res (py_get_or picked ''picked_args'' (JObj [])) (\<lambda>a.
             Inr (JObj [(''tool'', t), (''args'', a)])))
      else py_get picked ''picked_sequence'')"

section \<open>The run\<close>

record tally =
  tl_tier_passed :: "string \<Rightarrow> nat"
  tl_tier_failed :: "string \<Rightarrow> nat"
  tl_cat_passed :: "(json, nat) dict"
  tl_cat_failed :: "(json, nat) dict"
  tl_failures :: "json list"

definition new_tally :: tally where
  "new_tally = \<lparr>tl_tier_passed = \<lambda>_. 0, tl_tier_failed = \<lambda>_. 0, tl_cat_passed = [], tl_cat_failed = [], tl_failures = []\<rparr>"

definition counted :: "(json, nat) dict \<Rightarrow> json \<Rightarrow> nat" where
  "counted d k = (case dget d k of None \<Rightarrow> 0 | Some n \<Rightarrow> n)"

definition bump :: "json \<Rightarrow> (json, nat) dict \<Rightarrow> (json, nat) dict" where
  "bump k d = dset k (counted d k + 1) d"

text \<open>\<open>corpus[tier]\<close>: a tier outside the three is a \<open>KeyError\<close>.\<close>

definition tier_of :: "json \<Rightarrow> exn + string" where
  "tier_of picked =
     bind_res (py_index picked ''tier'') (\<lambda>v.
       case v of
         JStr t \<Rightarrow> if t \<in> set TIERS then Inr t else Inl KeyE
       | JList _ \<Rightarrow> Inl TypeE
       | JObj _ \<Rightarrow> Inl TypeE
       | _ \<Rightarrow> Inl KeyE)"

definition absent_failure :: "string \<Rightarrow> json \<Rightarrow> json \<Rightarrow> exn + json" where
  "absent_failure tier i picked =
     bind_res (py_get picked ''picked_sequence'') (\<lambda>sq.
     bind_res (py_get_or picked ''picked_tool'' sq) (\<lambda>p.
       Inr (JObj [(''id'', i), (''tier'', JStr tier), (''expected'', JStr ''<not in corpus>''), (''picked'', p)])))"

definition count_failed :: "string \<Rightarrow> json \<Rightarrow> tally \<Rightarrow> tally" where
  "count_failed tier f t =
     t\<lparr>tl_tier_failed := (tl_tier_failed t)(tier := tl_tier_failed t tier + 1), tl_failures := tl_failures t @ [f]\<rparr>"

definition count_passed :: "string \<Rightarrow> json \<Rightarrow> tally \<Rightarrow> tally" where
  "count_passed tier ck t =
     t\<lparr>tl_tier_passed := (tl_tier_passed t)(tier := tl_tier_passed t tier + 1),
       tl_cat_passed := bump ck (tl_cat_passed t)\<rparr>"

definition score_known :: "string \<Rightarrow> json \<Rightarrow> json \<Rightarrow> json \<Rightarrow> tally \<Rightarrow> exn + tally" where
  "score_known tier i picked expected t =
     bind_res (py_get_or expected ''category'' (JStr ''uncategorized'')) (\<lambda>category.
     bind_res (check tier picked expected) (\<lambda>ok.
     bind_res (expected_repr tier expected) (\<lambda>er.
     bind_res (picked_repr tier picked) (\<lambda>pr.
     bind_res (hash_key category) (\<lambda>ck.
       Inr (if ok then count_passed tier ck t
            else (count_failed tier
                   (JObj [(''id'', i), (''tier'', JStr tier), (''category'', category), (''expected'', er), (''picked'', pr)]) t)
                 \<lparr>tl_cat_failed := bump ck (tl_cat_failed t)\<rparr>))))))"

definition score_pick :: "corpus \<Rightarrow> json \<Rightarrow> tally \<Rightarrow> exn + tally" where
  "score_pick corpus picked t =
     bind_res (py_index picked ''tier'') (\<lambda>_.
     bind_res (py_index picked ''id'') (\<lambda>i.
     bind_res (tier_of picked) (\<lambda>tier.
     bind_res (hash_key i) (\<lambda>k.
       case dget (corpus tier) k of
         None \<Rightarrow> bind_res (absent_failure tier i picked) (\<lambda>f. Inr (count_failed tier f t))
       | Some expected \<Rightarrow> score_known tier i picked expected t))))"

fun score_picks :: "corpus \<Rightarrow> json list \<Rightarrow> tally \<Rightarrow> exn + tally" where
  "score_picks corpus [] t = Inr t"
| "score_picks corpus (p # ps) t = bind_res (score_pick corpus p t) (score_picks corpus ps)"

record tier_stats =
  ts_accuracy :: rat
  ts_passed :: nat
  ts_failed :: nat
  ts_total :: nat

definition stats :: "nat \<Rightarrow> nat \<Rightarrow> tier_stats" where
  "stats passed failed =
     (let total = passed + failed
      in \<lparr>ts_accuracy = (if total = 0 then 1 else of_nat passed / of_nat total), ts_passed = passed,
          ts_failed = failed, ts_total = total\<rparr>)"

definition model_override :: "json \<Rightarrow> json \<Rightarrow> exn + json" where
  "model_override per_model model =
     bind_res (dict_items per_model) (\<lambda>kvs.
       case model of
         JStr m \<Rightarrow> Inr (jget kvs m)
       | JList _ \<Rightarrow> Inl TypeE
       | JObj _ \<Rightarrow> Inl TypeE
       | _ \<Rightarrow> Inr JNull)"

definition resolve_thresholds :: "json \<Rightarrow> json \<Rightarrow> exn + (string, json) dict" where
  "resolve_thresholds thresholds model =
     bind_res (bind_res (py_get_or thresholds ''default'' (JObj [])) dict_items) (\<lambda>base.
     bind_res (py_get thresholds ''per_model'') (\<lambda>pm.
     bind_res (model_override (py_or pm (JObj [])) model) (\<lambda>m.
     bind_res (dict_items (py_or m (JObj []))) (\<lambda>over. Inr (dupdate base over)))))"

text \<open>An absent or null threshold is met; comparing with anything but a number is a \<open>TypeError\<close>.\<close>

definition meets :: "(string, json) dict \<Rightarrow> string \<Rightarrow> tier_stats \<Rightarrow> exn + bool" where
  "meets thresholds key st =
     (case jget thresholds key of
        JNull \<Rightarrow> Inr True
      | g \<Rightarrow> (case json_num g of None \<Rightarrow> Inl TypeE | Some r \<Rightarrow> Inr (ts_accuracy st \<ge> r)))"

fun all_meet :: "(string, json) dict \<Rightarrow> (string \<Rightarrow> tier_stats) \<Rightarrow> string list \<Rightarrow> exn + bool" where
  "all_meet thresholds st [] = Inr True"
| "all_meet thresholds st (t # ts) =
     bind_res (meets thresholds t (st t)) (\<lambda>ok. if ok then all_meet thresholds st ts else Inr False)"

record report =
  rp_model :: json
  rp_run_date :: json
  rp_overall :: tier_stats
  rp_by_tier :: "string \<Rightarrow> tier_stats"
  rp_by_category :: "(json, tier_stats) dict"
  rp_failures :: "json list"
  rp_thresholds_met :: bool

definition tier_stats_of :: "tally \<Rightarrow> string \<Rightarrow> tier_stats" where
  "tier_stats_of t tier = stats (tl_tier_passed t tier) (tl_tier_failed t tier)"

definition overall_of :: "tally \<Rightarrow> tier_stats" where
  "overall_of t = stats (sum_list (map (tl_tier_passed t) TIERS)) (sum_list (map (tl_tier_failed t) TIERS))"

definition category_stats :: "tally \<Rightarrow> (json, tier_stats) dict" where
  "category_stats t =
     map (\<lambda>c. (c, stats (counted (tl_cat_passed t) c) (counted (tl_cat_failed t) c)))
       (remdups (map fst (tl_cat_passed t) @ map fst (tl_cat_failed t)))"

definition score_run :: "json \<Rightarrow> (string \<Rightarrow> json) \<Rightarrow> json \<Rightarrow> exn + report" where
  "score_run raw files thresholds_file =
     bind_res (load_corpus files) (\<lambda>corpus.
     bind_res (py_get_or raw ''model'' (JStr ''unknown'')) (\<lambda>model.
     bind_res (py_get_or raw ''run_date'' (JStr ''unknown'')) (\<lambda>run_date.
     bind_res (bind_res (py_get_or raw ''results'' (JList [])) py_iter) (\<lambda>picks.
     bind_res (score_picks corpus picks new_tally) (\<lambda>t.
     bind_res (resolve_thresholds (py_or thresholds_file (JObj [])) model) (\<lambda>th.
     bind_res (meets th ''overall'' (overall_of t)) (\<lambda>ok.
     bind_res (if ok then all_meet th (tier_stats_of t) TIERS else Inr False) (\<lambda>met.
       Inr \<lparr>rp_model = model, rp_run_date = run_date, rp_overall = overall_of t, rp_by_tier = tier_stats_of t, rp_by_category = category_stats t,
            rp_failures = tl_failures t, rp_thresholds_met = met\<rparr>))))))))"

section \<open>What a score counts\<close>

text \<open>Every scored pick is counted once, in its tier, as passed or failed; a failed one is listed.\<close>

definition tally_ok :: "nat \<Rightarrow> tally \<Rightarrow> bool" where
  "tally_ok n t \<longleftrightarrow>
     sum_list (map (tl_tier_passed t) TIERS) + sum_list (map (tl_tier_failed t) TIERS) = n \<and>
     length (tl_failures t) = sum_list (map (tl_tier_failed t) TIERS)"

lemma tiers_sum:
  fixes f :: "string \<Rightarrow> nat"
  assumes "tier \<in> set TIERS"
  shows "sum_list (map (f(tier := f tier + 1)) TIERS) = sum_list (map f TIERS) + 1"
  using assms by (auto simp: TIERS_def)

lemma tier_of_mem: "tier_of p = Inr tier \<Longrightarrow> tier \<in> set TIERS"
  unfolding tier_of_def bind_res_eq_Inr by (elim exE conjE) (auto split: json.splits if_splits)

lemma counts_ok:
  assumes "tally_ok n t" "tier \<in> set TIERS"
  shows "tally_ok (Suc n) (count_failed tier f t)" "tally_ok (Suc n) (count_passed tier ck t)"
    "tally_ok (Suc n) ((count_failed tier f t)\<lparr>tl_cat_failed := d\<rparr>)"
  using assms(1) tiers_sum [OF assms(2), of "tl_tier_failed t"] tiers_sum [OF assms(2), of "tl_tier_passed t"]
  by (simp_all add: tally_ok_def count_failed_def count_passed_def)

lemma score_pick_ok:
  assumes "tally_ok n t" "score_pick corpus p t = Inr t'"
  shows "tally_ok (Suc n) t'"
proof -
  obtain i k tier where tier: "tier_of p = Inr tier" and rest:
    "(case dget (corpus tier) k of
        None \<Rightarrow> bind_res (absent_failure tier i p) (\<lambda>f. Inr (count_failed tier f t))
      | Some expected \<Rightarrow> score_known tier i p expected t) = Inr t'"
    using assms(2) unfolding score_pick_def bind_res_eq_Inr by blast
  note ok = counts_ok [OF assms(1) tier_of_mem [OF tier]]
  show ?thesis
  proof (cases "dget (corpus tier) k")
    case None
    then show ?thesis using rest ok(1) by (auto simp: bind_res_eq_Inr)
  next
    case (Some e)
    then show ?thesis using rest ok(2,3) by (auto simp: score_known_def bind_res_eq_Inr split: if_splits)
  qed
qed

lemma score_picks_ok:
  "tally_ok n t \<Longrightarrow> score_picks corpus ps t = Inr t' \<Longrightarrow> tally_ok (n + length ps) t'"
proof (induction ps arbitrary: n t)
  case (Cons p ps)
  then obtain t1 where t1: "score_pick corpus p t = Inr t1" "score_picks corpus ps t1 = Inr t'"
    by (auto simp: bind_res_eq_Inr)
  have "tally_ok (Suc n + length ps) t'"
    by (rule Cons.IH [OF score_pick_ok [OF Cons.prems(1) t1(1)] t1(2)])
  then show ?case by simp
qed simp

lemma new_tally_ok: "tally_ok 0 new_tally"
  by (simp add: tally_ok_def new_tally_def TIERS_def)

text \<open>
  A score counts every pick once.  When a run is scored, its total is the number of recorded
  picks, each of them passed or failed, every failed one and no other is in the list of failures,
  and the accuracy is the share of the passed ones.
\<close>

theorem score_counts_every_pick:
  assumes "score_run raw files th = Inr r" "py_get_or raw ''results'' (JList []) = Inr (JList picks)"
  shows "ts_total (rp_overall r) = length picks \<and>
    ts_passed (rp_overall r) + ts_failed (rp_overall r) = length picks \<and>
    length (rp_failures r) = ts_failed (rp_overall r) \<and>
    (picks \<noteq> [] \<longrightarrow> ts_accuracy (rp_overall r) * of_nat (length picks) = of_nat (ts_passed (rp_overall r)))"
proof -
  obtain corpus t where t: "score_picks corpus picks new_tally = Inr t" "rp_overall r = overall_of t"
    "rp_failures r = tl_failures t"
    using assms by (auto simp: score_run_def bind_res_eq_Inr py_iter_def)
  have "tally_ok (length picks) t" using score_picks_ok [OF new_tally_ok t(1)] by simp
  then show ?thesis unfolding t(2,3) by (auto simp: tally_ok_def overall_of_def stats_def Let_def)
qed

text \<open>
  Picks that are missing are not missed.  A run without any recorded pick is scored with accuracy
  one in every tier and passes every threshold up to one, whatever the corpus asks.
\<close>

theorem empty_run_passes:
  assumes "load_corpus files = Inr corpus"
    and "resolve_thresholds (py_or th (JObj [])) (JStr m) = Inr gates"
    and "\<forall>k \<in> {''overall'', ''selection_only'', ''with_args'', ''multi_step''}.
      \<exists>g. jget gates k = JFloat g \<and> g \<le> 1"
  shows "\<exists>r. score_run (JObj [(''model'', JStr m), (''results'', JList [])]) files th = Inr r \<and>
    rp_thresholds_met r \<and> ts_accuracy (rp_overall r) = 1 \<and> ts_total (rp_overall r) = 0"
proof -
  have one: "overall_of new_tally = stats 0 0" "tier_stats_of new_tally k = stats 0 0" for k
    by (simp_all add: overall_of_def tier_stats_of_def new_tally_def TIERS_def)
  have "meets gates k (stats 0 0) = Inr True"
    if "k \<in> {''overall'', ''selection_only'', ''with_args'', ''multi_step''}" for k
    using assms(3) that by (auto simp: meets_def stats_def)
  then show ?thesis
    using assms(1,2) by (simp add: score_run_def py_get_or_def py_iter_def one TIERS_def) (simp add: stats_def)
qed

definition demo_corpus :: "string \<Rightarrow> json" where
  "demo_corpus tier = (if tier = ''selection_only''
     then JList [JObj [(''id'', JStr ''s1''), (''expected_tool'', JStr ''alerts.search_alerts'')]] else JNull)"

definition demo_gates :: json where
  "demo_gates = JObj [(''default'', JObj [(''overall'', JFloat 1), (''selection_only'', JFloat 1), (''with_args'', JFloat 1),
     (''multi_step'', JFloat 1)])]"

definition demo_run :: json where
  "demo_run = JObj [(''model'', JStr ''m''), (''results'', JList
     [JObj [(''tier'', JStr ''selection_only''), (''id'', JStr ''s1''), (''picked_tool'', JStr ''hunt.hunt_query'')]])]"

lemma demo_load:
  "load_corpus demo_corpus = Inr (\<lambda>t. if t = ''selection_only''
     then [(JStr ''s1'', JObj [(''id'', JStr ''s1''), (''expected_tool'', JStr ''alerts.search_alerts'')])] else [])"
  by (auto simp: load_corpus_def load_tier_def demo_corpus_def py_access corpus_entry_def hash_key_def)

lemma demo_thresholds:
  "resolve_thresholds (py_or demo_gates (JObj [])) (JStr ''m'') =
    Inr [(''overall'', JFloat 1), (''selection_only'', JFloat 1), (''with_args'', JFloat 1), (''multi_step'', JFloat 1)]"
  by (simp add: resolve_thresholds_def demo_gates_def py_access dict_items_def model_override_def jget_def dupdate_def)

theorem score_counts_every_pick_witness:
  "\<exists>r. score_run demo_run demo_corpus demo_gates = Inr r \<and> ts_total (rp_overall r) = 1 \<and> length (rp_failures r) = ts_failed (rp_overall r)"
proof -
  have "\<exists>r. score_run demo_run demo_corpus demo_gates = Inr r"
    by (simp add: score_run_def demo_load demo_thresholds demo_run_def py_get_or_def py_iter_def score_pick_def score_known_def tier_of_def
        py_index_def TIERS_def hash_key_def check_def check_selection_def py_get_def jget_def expected_repr_def
        picked_repr_def meets_def)
  then obtain r where r: "score_run demo_run demo_corpus demo_gates = Inr r" by blast
  have "\<exists>p. py_get_or demo_run ''results'' (JList []) = Inr (JList [p])" by (simp add: demo_run_def py_get_or_def)
  then obtain p where "py_get_or demo_run ''results'' (JList []) = Inr (JList [p])" by blast
  from score_counts_every_pick [OF r this] r show ?thesis by auto
qed

theorem empty_run_passes_witness:
  "\<exists>r. score_run (JObj [(''model'', JStr ''m''), (''results'', JList [])]) demo_corpus demo_gates = Inr r \<and> rp_thresholds_met r"
  using empty_run_passes [OF demo_load demo_thresholds] by (auto simp: jget_def)

end
