(* ===== verification/EvalMain.thy ===== *)
theory EvalMain imports EvalScore Pools begin

text \<open>
  The command line of the evaluation scorer (\<open>main\<close> in \<open>tools/eval/score.py\<close>): where the report goes, what is
  printed of it, and the exit status.  The text of the report file and of a percentage are arguments.
\<close>

section \<open>Arguments\<close>

text \<open>A path as the text of its directory with the final slash, and its name.\<close>

type_synonym file_path = "string \<times> string"

record eval_args =
  ea_raw :: file_path
  ea_out :: "file_path option"

definition path_text :: "file_path \<Rightarrow> string" where
  "path_text p = fst p @ snd p"

definition report_path :: "eval_args \<Rightarrow> file_path" where
  "report_path a =
     (case ea_out a of
        Some p \<Rightarrow> p
      | None \<Rightarrow> (fst (ea_raw a), replace_all ''-results-raw'' ''-results'' (snd (ea_raw a))))"

section \<open>The summary\<close>

definition share_text :: "(rat \<Rightarrow> string) \<Rightarrow> tier_stats \<Rightarrow> string" where
  "share_text pct st =
     pct (ts_accuracy st) @ '' ('' @ show_nat (ts_passed st) @ ''/'' @ show_nat (ts_total st) @ '')''"

definition failure_line :: "(rat \<Rightarrow> string) \<Rightarrow> json \<Rightarrow> exn + string" where
  "failure_line fr f =
     bind_res (py_index f ''id'') (\<lambda>i.
     bind_res (py_index f ''tier'') (\<lambda>t.
     bind_res (py_index f ''expected'') (\<lambda>e.
     bind_res (py_index f ''picked'') (\<lambda>p.
       Inr (''  - '' @ json_str fr i @ '' ['' @ json_str fr t @ '']: expected '' @ json_repr fr e @
            '', got '' @ json_repr fr p)))))"

definition failure_lines :: "(rat \<Rightarrow> string) \<Rightarrow> string \<Rightarrow> json list \<Rightarrow> exn + string list" where
  "failure_lines fr out fs =
     (if fs = [] then Inr []
      else bind_res (map_res (failure_line fr) (take 5 fs)) (\<lambda>ls.
             Inr ([CHR 0x0A # ''Failures ('' @ show_nat (length fs) @ ''):''] @ ls @
                  (if 5 < length fs
                   then [''  ... and '' @ show_nat (length fs - 5) @ '' more (see '' @ out @ '')''] else []))))"

definition summary_lines :: "(rat \<Rightarrow> string) \<Rightarrow> (rat \<Rightarrow> string) \<Rightarrow> string \<Rightarrow> report \<Rightarrow> exn + string list" where
  "summary_lines fr pct out r =
     bind_res (failure_lines fr out (rp_failures r)) (\<lambda>fl.
       Inr ([CHR 0x0A # ''=== eval scoring summary ('' @ json_str fr (rp_model r) @ '', '' @ json_str fr (rp_run_date r) @ '') ==='',
             ''Overall: '' @ share_text pct (rp_overall r)] @
            map (\<lambda>t. ''  '' @ t @ '': '' @ share_text pct (rp_by_tier r t)) TIERS @ fl @
            [CHR 0x0A # ''Report written to: '' @ out,
             ''Thresholds met: '' @ (if rp_thresholds_met r then ''True'' else ''False'')]))"

text \<open>The file written, the lines printed, and the exit status.\<close>

definition eval_main ::
    "(rat \<Rightarrow> string) \<Rightarrow> (rat \<Rightarrow> string) \<Rightarrow> (report \<Rightarrow> string) \<Rightarrow> eval_args \<Rightarrow> json \<Rightarrow> (string \<Rightarrow> json) \<Rightarrow> json \<Rightarrow>
     exn + (file_path \<times> string) \<times> string list \<times> int" where
  "eval_main fr pct render a raw files thresholds_file =
     bind_res (score_run raw files thresholds_file) (\<lambda>r.
       let out = report_path a
       in bind_res (summary_lines fr pct (path_text out) r) (\<lambda>ls.
            Inr ((out, render r @ [CHR 0x0A]), ls, if rp_thresholds_met r then 0 else 1)))"

section \<open>What is reported\<close>

lemma failure_lines_length: "failure_lines fr out fs = Inr ls \<Longrightarrow> length ls \<le> 7"
  by (auto simp: failure_lines_def bind_res_eq_Inr dest!: map_res_length split: if_splits)

text \<open>
  The exit status is the verdict, and the summary stays short: at most five failures are shown, however many there are.
\<close>

theorem eval_main_verdict:
  assumes "eval_main fr pct render a raw files th = Inr (written, ls, status)"
  shows "\<exists>r. score_run raw files th = Inr r \<and> (status = 0) = rp_thresholds_met r \<and> status \<in> {0, 1} \<and>
    fst written = report_path a \<and> length ls \<le> 14"
proof -
  obtain r where r: "score_run raw files th = Inr r"
    and rest: "bind_res (summary_lines fr pct (path_text (report_path a)) r) (\<lambda>ls.
            Inr ((report_path a, render r @ [CHR 0x0A]), ls, if rp_thresholds_met r then 0 else 1)) = Inr (written, ls, status :: int)"
    using assms by (auto simp: eval_main_def Let_def bind_res_eq_Inr)
  have "length ls' \<le> 14" if "summary_lines fr pct out r = Inr ls'" for out ls'
    using that by (auto simp: summary_lines_def bind_res_eq_Inr TIERS_def dest!: failure_lines_length)
  then show ?thesis using r rest by (auto simp: bind_res_eq_Inr split: if_splits)
qed

lemma replace_absent: "\<not> contains_sub old s \<Longrightarrow> old \<noteq> [] \<Longrightarrow> replace_all old new s = s"
proof (induction s)
  case Nil
  then show ?case by (subst replace_all.simps) (simp add: startswith_def)
next
  case (Cons c cs)
  then have "\<not> startswith (c # cs) old" "replace_all old new cs = cs" by simp_all
  then show ?case by (subst replace_all.simps) simp
qed

text \<open>
  The report can replace its input.  Without an output path the report goes beside the raw results, under their name
  with \<open>-results-raw\<close> shortened; a file of raw results that is not named so is overwritten.
\<close>

theorem report_overwrites_raw:
  assumes "ea_out a = None" "\<not> contains_sub ''-results-raw'' (snd (ea_raw a))"
    and "eval_main fr pct render a raw files th = Inr (written, ls, status)"
  shows "fst written = ea_raw a"
proof -
  have "report_path a = ea_raw a"
    using assms(1) replace_absent [OF assms(2)] by (simp add: report_path_def)
  then show ?thesis using eval_main_verdict [OF assms(3)] by auto
qed

end
