(* ===== verification/Telemetry.thy ===== *)
theory Telemetry imports Startup Lifespan begin

text \<open>
  The metrics of the server (\<open>observability/metrics.py\<close>): the declared instruments, the samples the
  program records on them, the drop recorders the audit emitter installs
  (\<open>observability/audit.py\<close>), the metrics page, and the switch of the HTTP client's instrumentation
  (\<open>observability/instrumentation.py\<close>).  What OpenTelemetry makes of a sample is its own.
\<close>

section \<open>The instruments\<close>

datatype instrument = Counter | Histogram "rat list" | Gauge

definition DURATION_BOUNDARIES :: "rat list" where
  "DURATION_BOUNDARIES =
     [5 / 1000, 10 / 1000, 25 / 1000, 50 / 1000, 100 / 1000, 250 / 1000, 500 / 1000, 1, 25 / 10, 5, 10]"

definition m4_counters :: "(string, instrument \<times> string) dict" where
  "m4_counters =
     [(''mcp_tool_calls_total'', Counter, ''MCP tool invocations, labeled by tenant/tool/outcome.''),
      (''mcp_tool_duration_seconds'', Histogram DURATION_BOUNDARIES, ''Tool invocation latency in seconds.''),
      (''wazuh_upstream_errors_total'', Counter, ''Upstream Wazuh errors, labeled by tenant/upstream/code.''),
      (''jwt_refresh_total'', Counter, ''Wazuh Server API JWT refresh attempts.''),
      (''rate_limited_total'', Counter, ''Rate-limit denials, labeled by tenant/scope.''),
      (''audit_dropped_total'', Counter, ''Audit events dropped, labeled by sink/reason.''),
      (''rate_limit_redis_state'', Gauge,
       ''Circuit breaker state for the Redis-backed rate limiter '' @
       ''(0=closed, 1=half_open, 2=open). One time series per replica.''),
      (''rate_limit_redis_call_total'', Counter,
       ''Total Redis calls from the rate limiter, labeled by outcome.''),
      (''rate_limit_fallback_total'', Counter,
       ''Acquire calls served by the in-process fallback while the Redis backend is OPEN.'')]"

text \<open>A sample: the method called on the instrument with its value, and the labels.\<close>

datatype reading = Add nat | Observe rat | SetTo int

type_synonym labels = "(string, string) dict"
type_synonym sample = "string \<times> reading \<times> labels"

fun offers :: "instrument \<Rightarrow> reading \<Rightarrow> bool" where
  "offers Counter (Add n) = True"
| "offers (Histogram bs) (Observe x) = True"
| "offers Gauge (SetTo i) = True"
| "offers _ _ = False"

text \<open>\<open>m4_counters()[name].add(...)\<close>: an unknown name or a method the instrument lacks raises.\<close>

definition record_sample :: "sample \<Rightarrow> exn + unit" where
  "record_sample smp =
     (case smp of (name, r, ls) \<Rightarrow>
       (case dget m4_counters name of
          None \<Rightarrow> Inl KeyE
        | Some (i, d) \<Rightarrow> if offers i r then Inr () else Inl OtherE))"

section \<open>The samples of a tool call\<close>

definition call_sample :: "string \<times> string \<times> string \<Rightarrow> sample" where
  "call_sample c = (case c of (tenant, tool, outcome) \<Rightarrow>
     (''mcp_tool_calls_total'', Add 1, [(''tenant'', tenant), (''tool'', tool), (''outcome'', outcome)]))"

definition limited_sample :: "string \<times> string \<Rightarrow> sample" where
  "limited_sample c = (case c of (tenant, scope) \<Rightarrow>
     (''rate_limited_total'', Add 1, [(''tenant'', tenant), (''scope'', scope)]))"

definition duration_sample :: "string \<times> string \<times> rat \<Rightarrow> sample" where
  "duration_sample c = (case c of (tenant, tool, elapsed) \<Rightarrow>
     (''mcp_tool_duration_seconds'', Observe elapsed, [(''tenant'', tenant), (''tool'', tool)]))"

definition tool_samples :: "('l, 'w) world \<Rightarrow> sample list" where
  "tool_samples w =
     map call_sample (wd_calls w) @ map limited_sample (wd_limited w) @ map duration_sample (wd_durations w)"

section \<open>The samples of the Redis limiter\<close>

definition redis_sample :: "string \<Rightarrow> string \<times> string \<Rightarrow> sample" where
  "redis_sample tenant m = (case m of (name, label) \<Rightarrow>
     if name = ''rate_limit_fallback_total''
     then (name, Add 1, [(''tenant_id'', tenant), (''scope'', label)])
     else (name, Add 1, [(''outcome'', label)]))"

text \<open>The breaker sets its gauge whenever an operation moves it; \<open>host\<close> is the name of the machine.\<close>

definition breaker_samples :: "string \<Rightarrow> breaker \<Rightarrow> breaker \<Rightarrow> sample list" where
  "breaker_samples host b b' =
     (if bk_state b' = bk_state b then []
      else [(''rate_limit_redis_state'', SetTo (breaker_code (bk_state b')), [(''replica'', host)])])"

datatype breaker_event = Enter rat | Leave rat "exn + unit"

fun breaker_after :: "breaker_event \<Rightarrow> breaker \<Rightarrow> breaker" where
  "breaker_after (Enter now) b = snd (call_enter now b)"
| "breaker_after (Leave now outcome) b = call_exit now outcome b"

fun watch_breaker :: "string \<Rightarrow> breaker_event list \<Rightarrow> breaker \<Rightarrow> breaker \<times> sample list" where
  "watch_breaker host [] b = (b, [])"
| "watch_breaker host (ev # evs) b =
     (let b1 = breaker_after ev b
      in case watch_breaker host evs b1 of (b2, samples) \<Rightarrow> (b2, breaker_samples host b b1 @ samples))"

section \<open>The drop recorders\<close>

text \<open>What \<open>_record_drop\<close> of a sink is: the empty method of the class, or the counter with the labels that
  were bound when the emitter was made.\<close>

datatype recorder = Silent | DropCounter string string

text \<open>A sink of an emitter: its identity, its name, and whether it is a \<open>QueuedSink\<close>.\<close>

record sink_ref =
  sr_id :: nat
  sr_name :: string
  sr_queued :: bool

definition wire_drop_metric :: "sink_ref list \<Rightarrow> (string, sink_ref list) dict \<Rightarrow> sink_ref \<Rightarrow> recorder" where
  "wire_drop_metric globals per_tenant s =
     (if \<not> sr_queued s then Silent
      else DropCounter (sr_name s)
             (drop_label (map sr_id globals) (map (\<lambda>(tid, ss). (tid, map sr_id ss)) per_tenant) (sr_id s)))"

text \<open>\<open>drop_metric\<close> is the name of the counter given to the emitter.\<close>

definition emitter_recorder ::
    "string option \<Rightarrow> sink_ref list \<Rightarrow> (string, sink_ref list) dict \<Rightarrow> sink_ref \<Rightarrow> recorder" where
  "emitter_recorder drop_metric globals per_tenant s =
     (case drop_metric of None \<Rightarrow> Silent | Some m \<Rightarrow> wire_drop_metric globals per_tenant s)"

definition drop_sample :: "string option \<Rightarrow> recorder \<Rightarrow> event \<times> string \<Rightarrow> sample list" where
  "drop_sample drop_metric r d =
     (case (drop_metric, r) of
        (Some m, DropCounter name tenant) \<Rightarrow>
          [(m, Add 1, [(''sink'', name), (''tenant'', tenant), (''reason'', snd d)])]
      | _ \<Rightarrow> [])"

text \<open>The samples for the drops a sink has recorded since the emitter was made.\<close>

definition sink_drop_samples ::
    "string option \<Rightarrow> sink_ref list \<Rightarrow> (string, sink_ref list) dict \<Rightarrow> sink_ref \<times> queued_sink \<Rightarrow> sample list" where
  "sink_drop_samples drop_metric globals per_tenant s =
     concat (map (drop_sample drop_metric (emitter_recorder drop_metric globals per_tenant (fst s))) (qs_dropped (snd s)))"

text \<open>Both servers make their emitter from the sinks alone.\<close>

definition server_drop_metric :: "string option" where
  "server_drop_metric = None"

section \<open>The metrics page\<close>

definition metrics_endpoint :: "string \<Rightarrow> otel_state \<Rightarrow> exn + string" where
  "metrics_endpoint text st = bind_res (prom_registry st) (\<lambda>u. Inr text)"

text \<open>The HTTP server sets telemetry up before anything else; the page is asked for later.\<close>

definition http_metrics_page :: "string \<Rightarrow> string \<Rightarrow> otel_state \<Rightarrow> exn + string" where
  "http_metrics_page version text st = metrics_endpoint text (init_otel version st)"

section \<open>The instrumentation of the HTTP client\<close>

text \<open>\<open>hi_log\<close> is the history of the library's calls: \<open>True\<close> for \<open>instrument\<close>, \<open>False\<close> for \<open>uninstrument\<close>.\<close>

record httpx_instrumentation =
  hi_on :: bool
  hi_log :: "bool list"

definition fresh_instrumentation :: httpx_instrumentation where
  "fresh_instrumentation = \<lparr>hi_on = False, hi_log = []\<rparr>"

definition instrument_httpx :: "httpx_instrumentation \<Rightarrow> httpx_instrumentation" where
  "instrument_httpx st = (if hi_on st then st else \<lparr>hi_on = True, hi_log = hi_log st @ [True]\<rparr>)"

definition uninstrument_all :: "httpx_instrumentation \<Rightarrow> httpx_instrumentation" where
  "uninstrument_all st = (if hi_on st then \<lparr>hi_on = False, hi_log = hi_log st @ [False]\<rparr> else st)"

definition switch_instrumentation :: "bool \<Rightarrow> httpx_instrumentation \<Rightarrow> httpx_instrumentation" where
  "switch_instrumentation on st = (if on then instrument_httpx st else uninstrument_all st)"

section \<open>Every sample has its instrument\<close>

lemma declared_samples [simp]:
  "record_sample (''mcp_tool_calls_total'', Add n, ls) = Inr ()"
  "record_sample (''mcp_tool_duration_seconds'', Observe x, ls) = Inr ()"
  "record_sample (''rate_limited_total'', Add n, ls) = Inr ()"
  "record_sample (''audit_dropped_total'', Add n, ls) = Inr ()"
  "record_sample (''rate_limit_redis_state'', SetTo i, ls) = Inr ()"
  "record_sample (''rate_limit_redis_call_total'', Add n, ls) = Inr ()"
  "record_sample (''rate_limit_fallback_total'', Add n, ls) = Inr ()"
  by (simp_all add: record_sample_def m4_counters_def)

lemma breaker_samples_declared: "smp \<in> set (breaker_samples host b b') \<Longrightarrow> record_sample smp = Inr ()"
  by (auto simp: breaker_samples_def split: if_splits)

lemma watch_breaker_declared:
  "smp \<in> set (snd (watch_breaker host evs b)) \<Longrightarrow> record_sample smp = Inr ()"
  by (induction evs arbitrary: b) (auto simp: Let_def case_prod_unfold dest: breaker_samples_declared)

text \<open>The names the Redis limiter counts under are those of its two counters.\<close>

definition redis_metric_names :: "redis_limiter \<Rightarrow> bool" where
  "redis_metric_names st \<longleftrightarrow>
     (\<forall>m \<in> set (rl_metrics st). fst m \<in> {''rate_limit_redis_call_total'', ''rate_limit_fallback_total''})"

lemma script_metrics:
  "rl_metrics (snd (load_script st)) = rl_metrics st"
  "rl_metrics (snd (evalsha ck key cfg n ttl st)) = rl_metrics st"
  "rl_metrics (snd (run_script ck key cfg n ttl st)) = rl_metrics st"
proof -
  show l: "rl_metrics (snd (load_script st)) = rl_metrics st" for st
    by (auto simp: load_script_def split: prod.splits sum.splits)
  show e: "rl_metrics (snd (evalsha ck key cfg n ttl st)) = rl_metrics st" for st
    by (auto simp: evalsha_def split: prod.splits)
  obtain r1 st1 where 1: "(if rl_script_sha st then (Inr (), st) else load_script st) = (r1, st1)" by fastforce
  obtain r2 st2 where 2: "evalsha ck key cfg n ttl st1 = (r2, st2)" by fastforce
  obtain r3 st3 where 3: "load_script st2 = (r3, st3)" by fastforce
  have "rl_metrics st1 = rl_metrics st" using 1 l [of st] by (simp split: if_splits)
  moreover have "rl_metrics st2 = rl_metrics st1" "rl_metrics st3 = rl_metrics st2"
    using 2 3 e [of st1] l [of st2] by simp_all
  ultimately show "rl_metrics (snd (run_script ck key cfg n ttl st)) = rl_metrics st"
    unfolding run_script_def 1 by (cases r1; cases r2; cases r3) (simp_all add: 2 3 e)
qed

lemma names_by_metrics: "rl_metrics st' = rl_metrics st \<Longrightarrow> redis_metric_names st' = redis_metric_names st"
  by (simp add: redis_metric_names_def)

lemma names_count:
  "redis_metric_names (count_metric name label st) \<longleftrightarrow>
     name \<in> {''rate_limit_redis_call_total'', ''rate_limit_fallback_total''} \<and> redis_metric_names st"
  by (auto simp: redis_metric_names_def count_metric_def)

lemma names_try:
  "redis_metric_names (snd (try_redis_acquire ck key cfg ttl st)) = redis_metric_names st"
proof -
  obtain r st1 where r: "run_script ck key cfg 1 ttl st = (r, st1)" by fastforce
  then have "redis_metric_names st1 = redis_metric_names st"
    using script_metrics(3) [of ck key cfg 1 ttl st] by (intro names_by_metrics) simp
  then show ?thesis using r by (cases r) (auto simp: try_redis_acquire_def names_count)
qed

lemma names_guarded:
  "redis_metric_names (snd (guarded_acquire ck key cfg ttl st)) = redis_metric_names st"
proof -
  obtain r st1 where r: "try_redis_acquire ck key cfg ttl st = (r, st1)" by fastforce
  have "redis_metric_names st1 = redis_metric_names st" using names_try [of ck key cfg ttl st] r by simp
  moreover have "redis_metric_names (s\<lparr>rl_breaker := b\<rparr>) = redis_metric_names s" for s b by (simp add: redis_metric_names_def)
  ultimately show ?thesis using r
    by (auto simp: guarded_acquire_def breaker_call_def split: prod.splits option.splits)
qed

lemma names_fallback:
  "redis_metric_names (snd (use_fallback ck scope tid sid st)) = redis_metric_names st"
proof -
  have "redis_metric_names (s\<lparr>rl_fallback := l\<rparr>) = redis_metric_names s" for s l by (simp add: redis_metric_names_def)
  then show ?thesis by (auto simp: use_fallback_def Let_def names_count split: prod.splits)
qed

lemma redis_acquire_names:
  assumes "redis_metric_names st"
  shows "redis_metric_names (snd (redis_acquire ck tid sid st))"
proof -
  have g: "redis_metric_names s'" if "guarded_acquire ck key cfg ttl s = (r, s')" "redis_metric_names s" for key cfg ttl s r s'
    using names_guarded [of ck key cfg ttl s] that by simp
  let ?cfg = "redis_cfg st tid"
  obtain r1 st1 where 1: "guarded_acquire ck (tenant_key (rl_prefix st) tid) (rl_tenant ?cfg) (ttl_for ?cfg) st = (r1, st1)"
    by fastforce
  obtain r2 st2 where 2: "guarded_acquire ck (session_key (rl_prefix st) tid sid) (rl_session ?cfg) (ttl_for ?cfg) st1 = (r2, st2)"
    by fastforce
  have "redis_metric_names st1" "redis_metric_names st2" using g [OF 1 assms] g [OF 2] by blast+
  then show ?thesis unfolding redis_acquire_def Let_def 1
    by (cases r1; cases r2) (simp_all add: 2 names_fallback)
qed

text \<open>
  No sample fails.  Every sample a tool call, the Redis limiter or its breaker records names a declared
  instrument and calls a method that instrument has, so that counting never ends a call; every call of
  the limiter keeps that.
\<close>

theorem samples_are_declared:
  assumes "redis_metric_names st"
  shows "\<forall>smp \<in> set (tool_samples w @ map (redis_sample tid) (rl_metrics (snd (redis_acquire ck tid sid st))) @
      snd (watch_breaker host evs b)). record_sample smp = Inr ()"
proof -
  have "record_sample (redis_sample tid m) = Inr ()"
    if "m \<in> set (rl_metrics (snd (redis_acquire ck tid sid st)))" for m
    using redis_acquire_names [OF assms, of ck tid sid] that
    by (cases m) (auto simp: redis_metric_names_def redis_sample_def)
  moreover have "record_sample smp = Inr ()" if "smp \<in> set (tool_samples w)" for smp
    using that by (auto simp: tool_samples_def call_sample_def limited_sample_def duration_sample_def)
  ultimately show ?thesis using watch_breaker_declared by auto
qed

text \<open>The boundaries of the histogram rise, as a histogram needs.\<close>

lemma duration_boundaries_sorted: "sorted_wrt (<) DURATION_BOUNDARIES \<and> list_all (\<lambda>b. 0 < b) DURATION_BOUNDARIES"
  by (simp add: DURATION_BOUNDARIES_def)

section \<open>The gauge follows the breaker\<close>

text \<open>The value a gauge shows: what it was set to last.\<close>

fun shown :: "int \<Rightarrow> sample list \<Rightarrow> int" where
  "shown v [] = v"
| "shown v ((name, SetTo i, ls) # samples) = shown i samples"
| "shown v (_ # samples) = shown v samples"

lemma shown_append: "shown v (xs @ ys) = shown (shown v xs) ys"
  by (induction v xs rule: shown.induct) auto

lemma breaker_code_inj: "breaker_code a = breaker_code b \<longleftrightarrow> a = b"
  by (cases a; cases b) auto

text \<open>
  The gauge shows the state of the breaker.  Whatever calls enter and leave a breaker, the value set last is the
  code of the state it is in, and one value was set for each move between two states.
\<close>

theorem gauge_follows_breaker:
  "shown (breaker_code (bk_state b)) (snd (watch_breaker host evs b)) =
     breaker_code (bk_state (fst (watch_breaker host evs b)))"
proof (induction evs arbitrary: b)
  case (Cons ev evs)
  let ?b = "breaker_after ev b"
  have "shown (breaker_code (bk_state b)) (breaker_samples host b ?b) = breaker_code (bk_state ?b)"
    by (simp add: breaker_samples_def)
  then show ?case using Cons [of ?b] by (simp add: Let_def shown_append case_prod_unfold)
qed simp

section \<open>Drops\<close>

lemma owner_of_sink:
  assumes "distinct (concat (map snd per_tenant))" "(tid, ids) \<in> set per_tenant" "i \<in> set ids"
  shows "map_of (rev (concat (map (\<lambda>(tid, ids). map (\<lambda>i. (i, tid)) ids) per_tenant))) i = Some tid"
proof -
  let ?pairs = "concat (map (\<lambda>(tid, ids). map (\<lambda>i. (i, tid)) ids) per_tenant)"
  have "map fst ?pairs = concat (map snd per_tenant)"
    by (simp add: map_concat comp_def case_prod_unfold)
  then have "distinct (map fst (rev ?pairs))" using assms(1) by (simp add: rev_map [symmetric])
  moreover have "(i, tid) \<in> set (rev ?pairs)" using assms(2,3) by force
  ultimately show ?thesis by (rule map_of_is_SomeI)
qed

text \<open>
  An emitter with a counter counts every drop.  Each drop of a queued sink adds one to the counter, under the
  sink's name and the recorded reason, and under the tenant that owns the sink; the sinks every
  event goes to are counted under a label of their own.
\<close>

theorem wired_drops_are_counted:
  assumes "distinct (map sr_id (globals @ concat (map snd per_tenant)))" "sr_queued s"
    and "s \<in> set globals \<and> label = ''<global>'' \<or> (\<exists>ss. (label, ss) \<in> set per_tenant \<and> s \<in> set ss)"
  shows "sink_drop_samples (Some m) globals per_tenant (s, q) =
    map (\<lambda>(ev, reason). (m, Add 1, [(''sink'', sr_name s), (''tenant'', label), (''reason'', reason)])) (qs_dropped q)"
proof -
  let ?ids = "map (\<lambda>(tid, ss). (tid, map sr_id ss)) per_tenant"
  have "map snd ?ids = map (map sr_id) (map snd per_tenant)" by (simp add: case_prod_unfold)
  then have ids: "concat (map snd ?ids) = map sr_id (concat (map snd per_tenant))" by (simp only: map_concat)
  have apart: "sr_id s \<notin> set (map sr_id globals)" if "(l, ss) \<in> set per_tenant" "s \<in> set ss" for l ss
  proof -
    have "sr_id s \<in> sr_id ` set (concat (map snd per_tenant))" using that by force
    then show ?thesis using assms(1) unfolding map_append distinct_append set_map by blast
  qed
  have "drop_label (map sr_id globals) ?ids (sr_id s) = label"
  proof (cases "s \<in> set globals")
    case True
    then show ?thesis using apart assms(3) by (auto simp: drop_label_def)
  next
    case False
    then obtain ss where ss: "(label, ss) \<in> set per_tenant" "s \<in> set ss" using assms(3) by blast
    have "distinct (concat (map snd ?ids))" using assms(1) unfolding ids by simp
    moreover have "(label, map sr_id ss) \<in> set ?ids" using ss(1) by force
    moreover have "sr_id s \<in> set (map sr_id ss)" using ss(2) by simp
    ultimately have "map_of (rev (concat (map (\<lambda>(tid, ids). map (\<lambda>i. (i, tid)) ids) ?ids))) (sr_id s) = Some label"
      by (rule owner_of_sink)
    then show ?thesis using apart [OF ss] unfolding drop_label_def by simp
  qed
  then have "emitter_recorder (Some m) globals per_tenant s = DropCounter (sr_name s) label"
    using assms(2) by (simp add: emitter_recorder_def wire_drop_metric_def)
  moreover have "drop_sample (Some m) (DropCounter (sr_name s) label) =
      (\<lambda>(ev, reason). [(m, Add 1, [(''sink'', sr_name s), (''tenant'', label), (''reason'', reason)])])"
    by (simp add: fun_eq_iff drop_sample_def)
  moreover have "concat (map (\<lambda>(ev, reason). [f reason]) ds) = map (\<lambda>(ev, reason). f reason) ds" for f :: "string \<Rightarrow> sample" and ds :: "(event \<times> string) list"
    by (induction ds) auto
  ultimately show ?thesis by (simp only: sink_drop_samples_def fst_conv snd_conv)
qed

text \<open>
  The servers count no drop.  Neither server gives its emitter a counter, so whatever its sinks drop leaves no
  sample: the metric \<open>audit_dropped_total\<close> stays at nothing.
\<close>

theorem server_drops_are_not_counted:
  "sink_drop_samples server_drop_metric globals per_tenant (s, q) = []"
  by (simp add: sink_drop_samples_def server_drop_metric_def emitter_recorder_def drop_sample_def)

section \<open>The page and the switch\<close>

text \<open>The page answers once the server is built, whatever telemetry was before.\<close>

theorem metrics_page_answers:
  assumes "ot_initialized st \<longrightarrow> ot_registry st"
  shows "http_metrics_page version text st = Inr text"
  using assms by (auto simp: http_metrics_page_def metrics_endpoint_def prom_registry_def init_otel_def)

fun alternating :: "bool \<Rightarrow> bool list \<Rightarrow> bool" where
  "alternating b [] = True"
| "alternating b (x # xs) = (x = b \<and> alternating (\<not> b) xs)"

lemma alternating_snoc: "alternating b (xs @ [x]) \<longleftrightarrow> alternating b xs \<and> x = (b = even (length xs))"
  by (induction b xs rule: alternating.induct) auto

text \<open>
  The HTTP client is never instrumented twice.  Whatever the order of the switches, the calls to the library
  alternate, the first of them instruments, and the flag is that of the last call.
\<close>

theorem instrumentation_alternates:
  assumes "st = fold switch_instrumentation switches fresh_instrumentation"
  shows "alternating True (hi_log st) \<and> hi_on st = (hi_log st \<noteq> [] \<and> last (hi_log st)) \<and> hi_on st = odd (length (hi_log st))"
  unfolding assms
proof (induction switches rule: rev_induct)
  case Nil
  then show ?case by (simp add: fresh_instrumentation_def)
next
  case (snoc on switches)
  then show ?case
    by (auto simp: switch_instrumentation_def instrument_httpx_def uninstrument_all_def alternating_snoc)
qed

end
