(* ===== verification/Endpoints.thy ===== *)
theory Endpoints imports HttpApp begin

text \<open>
  The small applications of \<open>transport/http.py\<close> that serve one part of the server each: the metadata of the
  protected resource, and the health answers; and what they have in common with the whole application.
\<close>

section \<open>Applications of routes\<close>

text \<open>A route answers \<open>GET\<close> and \<open>HEAD\<close> on its path; \<open>None\<close> is left to the library (no such path, or another
  method).\<close>

type_synonym route = "string \<times> response"

fun serve_routes :: "route list \<Rightarrow> http_request \<Rightarrow> response option" where
  "serve_routes [] rq = None"
| "serve_routes ((path, answer) # rs) rq =
     (if hr_path rq = path \<and> hr_method rq \<in> {''GET'', ''HEAD''} then Some answer else serve_routes rs rq)"

definition endpoint_metadata :: "string \<Rightarrow> string \<Rightarrow> json" where
  "endpoint_metadata resource_url authorization_server =
     JObj [(''resource'', JStr resource_url), (''authorization_servers'', JList [JStr authorization_server]),
           (''bearer_methods_supported'', JList [JStr ''header'']), (''scopes_supported'', JList [])]"

definition metadata_handler :: "json \<Rightarrow> response" where
  "metadata_handler metadata = plain_response 200 metadata"

definition build_metadata_endpoint :: "string \<Rightarrow> string \<Rightarrow> http_request \<Rightarrow> response option" where
  "build_metadata_endpoint resource_url authorization_server =
     serve_routes [(''/.well-known/oauth-protected-resource'',
                    metadata_handler (endpoint_metadata resource_url authorization_server))]"

definition healthz_handler :: "breaker_state option option \<Rightarrow> response" where
  "healthz_handler limiter =
     (case rate_limiter_health limiter of
        (backend, redis) \<Rightarrow> plain_response 200 (JObj [(''status'', JStr ''ok''),
           (''rate_limiter'', JObj [(''backend'', JStr backend), (''redis'', JStr redis)])]))"

definition build_health_endpoints :: "bool \<Rightarrow> http_request \<Rightarrow> response option" where
  "build_health_endpoints is_ready =
     serve_routes [(''/healthz'', healthz_handler None), (''/readyz'', readyz_response is_ready)]"

section \<open>The parts and the whole\<close>

text \<open>
  The parts answer as the whole does.  On its own path the metadata application gives the answer of the server's
  application, and so does the readiness answer; the health answer differs in that it knows no
  limiter.  No other request gets an answer from either.
\<close>

theorem endpoints_agree:
  "build_metadata_endpoint (ha_resource_url app) (ha_authorization_server app) rq =
     (if route_of (hr_method rq) (hr_path rq) = MetadataRoute then Some (projr (fst (base_app pf lib app rq st))) else None)"
  "build_health_endpoints (ha_ready app) rq =
     (if route_of (hr_method rq) (hr_path rq) = ReadyzRoute then Some (projr (fst (base_app pf lib app rq st)))
      else if route_of (hr_method rq) (hr_path rq) = HealthzRoute then Some (healthz_handler None) else None)"
  by (auto simp: build_metadata_endpoint_def build_health_endpoints_def route_of_def base_app_def metadata_handler_def
      endpoint_metadata_def metadata_body_def)

lemma healthz_of_limiter:
  assumes "route_of (hr_method rq) (hr_path rq) = HealthzRoute"
  shows "fst (base_app pf lib app rq st) = Inr (healthz_handler (limiter_health (wd_limiter (hw_app (mw_rest st)))))"
  using assms by (simp add: base_app_def healthz_body_def healthz_handler_def case_prod_unfold)

end
