(* ===== verification/IndexerDrain.thy ===== *)
theory IndexerDrain imports IndexerSink begin

text \<open>
  The whole indexer sink (\<open>sinks/wazuh_indexer.py\<close>): the queue, the loop that pulls batches from it, and the
  attempts it makes through the client pool, as one machine.  Every \<open>await\<close> of the loop is a step
  boundary; between two steps of the sink the tools may use the pool.
\<close>

section \<open>The machine\<close>

text \<open>\<open>id_own\<close> is the history of the requests the sink itself has sent.\<close>

record indexer_system =
  id_queue :: queued_sink
  id_sink :: indexer_sink
  id_pool :: indexer_pool
  id_own :: "request list"

definition new_indexer_system :: "string \<Rightarrow> string \<Rightarrow> int \<Rightarrow> int \<Rightarrow> indexer_pool \<Rightarrow> indexer_system" where
  "new_indexer_system tid pfx ms ma p =
     \<lparr>id_queue = new_queued_sink ms ma, id_sink = new_indexer_sink tid pfx ma, id_pool = p, id_own = []\<rparr>"

definition sent_since :: "indexer_pool \<Rightarrow> indexer_pool \<Rightarrow> string \<Rightarrow> request list" where
  "sent_since p p' tid = drop (length (pool_sent p tid)) (pool_sent p' tid)"

text \<open>One attempt for the batch the loop holds, with what the loop does with its outcome.\<close>

definition attempt ::
    "pool_env \<Rightarrow> (rat \<Rightarrow> string) \<Rightarrow> string \<Rightarrow> event list \<Rightarrow> nat \<Rightarrow> indexer_system \<Rightarrow> (exn + unit) \<times> indexer_system" where
  "attempt env fr day b k s =
     (case send_once env fr day b (id_sink s, id_pool s) of
        (outcome, sk, p) \<Rightarrow>
          (outcome, \<lparr>id_queue = batch_after_send b k outcome (id_queue s), id_sink = sk, id_pool = p,
                     id_own = id_own s @ sent_since (id_pool s) p (wi_tenant (id_sink s))\<rparr>))"

inductive drain_step ::
    "pool_env \<Rightarrow> (rat \<Rightarrow> string) \<Rightarrow> nat \<Rightarrow> indexer_system \<Rightarrow> indexer_system \<Rightarrow> bool" for env fr batch where
  pull: "qs_task (id_queue s) = Pulling b \<Longrightarrow> length b < batch \<Longrightarrow> qs_queue (id_queue s) = Some (ev # q) \<Longrightarrow>
    drain_step env fr batch s
      (s\<lparr>id_queue := task_done ((id_queue s)\<lparr>qs_queue := Some q, qs_task := Pulling (b @ [ev])\<rparr>)\<rparr>)"
| flush: "qs_task (id_queue s) = Pulling b \<Longrightarrow> b \<noteq> [] \<Longrightarrow>
    drain_step env fr batch s (s\<lparr>id_queue := (id_queue s)\<lparr>qs_task := Sending b 0\<rparr>\<rparr>)"
| exit: "qs_task (id_queue s) = Pulling [] \<Longrightarrow> qs_stop (id_queue s) \<Longrightarrow> qs_queue (id_queue s) = Some [] \<Longrightarrow>
    drain_step env fr batch s (s\<lparr>id_queue := (id_queue s)\<lparr>qs_task := Finished\<rparr>\<rparr>)"
| no_attempt: "qs_task (id_queue s) = Sending b k \<Longrightarrow> qs_max_attempts (id_queue s) \<le> int k \<Longrightarrow>
    drain_step env fr batch s (s\<lparr>id_queue := batch_after_send b k (Inr ()) (id_queue s)\<rparr>)"
| send: "qs_task (id_queue s) = Sending b k \<Longrightarrow> int k < qs_max_attempts (id_queue s) \<Longrightarrow>
    attempt env fr day b k s = (outcome, s') \<Longrightarrow> (\<And>e. outcome = Inl e \<Longrightarrow> is_exception e) \<Longrightarrow>
    drain_step env fr batch s s'"
| backoff: "qs_task (id_queue s) = BackingOff b k \<Longrightarrow>
    drain_step env fr batch s (s\<lparr>id_queue := batch_after_backoff b k (id_queue s)\<rparr>)"
| starting: "qs_queue (id_queue s) = None \<Longrightarrow> qs_task (id_queue s) = NoTask \<Longrightarrow>
    drain_step env fr batch s (s\<lparr>id_queue := start (id_queue s)\<rparr>)"
| stopping: "drain_step env fr batch s (s\<lparr>id_queue := request_stop (id_queue s)\<rparr>)"
| cancelling: "qs_stop (id_queue s) \<Longrightarrow> qs_task (id_queue s) \<notin> {NoTask, Finished, CancelledTask} \<Longrightarrow>
    drain_step env fr batch s (s\<lparr>id_queue := cancel_task (id_queue s)\<rparr>)"
| pool_used: "drain_step env fr batch s (s\<lparr>id_pool := p\<rparr>)"

inductive drain_reach ::
    "pool_env \<Rightarrow> (rat \<Rightarrow> string) \<Rightarrow> nat \<Rightarrow> indexer_system \<Rightarrow> event list \<Rightarrow> indexer_system \<Rightarrow> bool" for env fr batch s0 where
  init: "drain_reach env fr batch s0 [] s0"
| submitted: "drain_reach env fr batch s0 evs s \<Longrightarrow> submit ev (id_queue s) = (None, q) \<Longrightarrow>
    drain_reach env fr batch s0 (evs @ [ev]) (s\<lparr>id_queue := q\<rparr>)"
| step: "drain_reach env fr batch s0 evs s \<Longrightarrow> drain_step env fr batch s s' \<Longrightarrow> drain_reach env fr batch s0 evs s'"

section \<open>The queue of the machine\<close>

text \<open>Seen from its queue, the machine is the batching sink.\<close>

lemma drain_step_queue:
  "drain_step env fr batch s s' \<Longrightarrow> batch_step batch (id_queue s) (id_queue s') \<or> id_queue s' = id_queue s"
proof (induction rule: drain_step.induct)
  case (send s b k day outcome s')
  then have "id_queue s' = batch_after_send b k outcome (id_queue s)"
    by (auto simp: attempt_def split: prod.splits)
  moreover have "batch_step batch (id_queue s) (batch_after_send b k outcome (id_queue s))"
    using send(1,4) by (intro batch_step.send)
  ultimately show ?case by simp
next
  case (no_attempt s b k)
  have "batch_step batch (id_queue s) (batch_after_send b k (Inr ()) (id_queue s))"
    by (rule batch_step.send [OF no_attempt(1)]) simp
  then show ?case by simp
qed (auto intro: batch_step.intros)

lemma drain_reach_queue:
  assumes "drain_reach env fr batch s0 evs s" "id_queue s0 = new_queued_sink ms ma"
  shows "batch_reach ms ma batch evs (id_queue s)"
  using assms
proof (induction rule: drain_reach.induct)
  case init
  then show ?case by (simp add: batch_reach.init)
next
  case (submitted evs s ev q)
  then show ?case using batch_reach.submitted by simp
next
  case (step evs s s')
  then show ?case using batch_reach.step drain_step_queue by metis
qed

section \<open>The requests of the machine\<close>

lemma attempt_facts:
  assumes "attempt env fr day b k s = (outcome, s')"
  shows "\<exists>ts bs. id_own s' = id_own s @ ts @ bs \<and> list_all (is_template (id_sink s)) ts \<and>
      list_all (is_bulk fr {day} b (id_sink s)) bs \<and>
      (bs \<noteq> [] \<longrightarrow> wi_installed (id_sink s')) \<and> (\<not> wi_installed (id_sink s) \<and> wi_installed (id_sink s') \<longrightarrow> ts \<noteq> []) \<and>
      (wi_installed (id_sink s) \<longrightarrow> wi_installed (id_sink s')) \<and>
      id_sink s' = (id_sink s)\<lparr>wi_installed := wi_installed (id_sink s')\<rparr> \<and> (outcome = Inr () \<longrightarrow> bs \<noteq> [])"
proof -
  obtain sk p where o: "send_once env fr day b (id_sink s, id_pool s) = (outcome, sk, p)"
    and s': "id_sink s' = sk" "id_own s' = id_own s @ sent_since (id_pool s) p (wi_tenant (id_sink s))"
    using assms by (auto simp: attempt_def split: prod.splits)
  have own: "sent_since (id_pool s) p (wi_tenant (id_sink s)) = ts @ bs"
    if "\<forall>tid. pool_sent p tid =
      (if tid = wi_tenant (id_sink s) then pool_sent (id_pool s) tid @ ts @ bs else pool_sent (id_pool s) tid)" for ts bs
    using that by (simp add: sent_since_def)
  show ?thesis using send_once_requests [OF o, of "{day}", unfolded fst_conv snd_conv, OF singletonI] unfolding s'
    by (elim exE, rename_tac ts bs, rule_tac x = ts in exI, rule_tac x = bs in exI, elim conjE, intro conjI)
      (assumption | (subst own, assumption, rule refl))+
qed

section \<open>What a run has sent\<close>

text \<open>A sink that differs from another at most in whether its template is installed.\<close>

definition same_sink :: "indexer_sink \<Rightarrow> indexer_sink \<Rightarrow> bool" where
  "same_sink a b \<longleftrightarrow> a\<lparr>wi_installed := True\<rparr> = b\<lparr>wi_installed := True\<rparr>"

definition batch_request :: "(rat \<Rightarrow> string) \<Rightarrow> indexer_sink \<Rightarrow> event list \<Rightarrow> request \<Rightarrow> bool" where
  "batch_request fr sk b rq \<longleftrightarrow> (\<exists>day. is_bulk fr {day} b sk rq)"

definition own_ok :: "(rat \<Rightarrow> string) \<Rightarrow> nat \<Rightarrow> indexer_sink \<Rightarrow> event list \<Rightarrow> request \<Rightarrow> bool" where
  "own_ok fr batch sk evs rq \<longleftrightarrow>
     is_template sk rq \<or> (\<exists>b. b \<noteq> [] \<and> length b \<le> batch \<and> subseq b evs \<and> batch_request fr sk b rq)"

definition drain_inv :: "(rat \<Rightarrow> string) \<Rightarrow> nat \<Rightarrow> indexer_sink \<Rightarrow> event list \<Rightarrow> indexer_system \<Rightarrow> bool" where
  "drain_inv fr batch sk evs s \<longleftrightarrow>
     same_sink sk (id_sink s) \<and> (\<forall>rq \<in> set (id_own s). own_ok fr batch sk evs rq) \<and>
     (\<forall>ev \<in> set (qs_delivered (id_queue s)). \<exists>rq \<in> set (id_own s). \<exists>b. ev \<in> set b \<and> batch_request fr sk b rq) \<and>
     (id_own s \<noteq> [] \<longrightarrow> is_template sk (hd (id_own s))) \<and> (wi_installed (id_sink s) \<longrightarrow> id_own s \<noteq> [])"

lemma same_sink_kinds:
  assumes "same_sink a b"
  shows "is_template b = is_template a" "is_bulk fr days evs b = is_bulk fr days evs a"
  using is_request_cong [where sk = a and b = True] is_request_cong [where sk = b and b = True] assms
  unfolding same_sink_def by metis+

lemma same_sink_installed: "b' = b\<lparr>wi_installed := x\<rparr> \<Longrightarrow> same_sink a b \<Longrightarrow> same_sink a b'"
  by (simp add: same_sink_def)

lemma drain_inv_cong:
  "id_sink s' = id_sink s \<Longrightarrow> id_own s' = id_own s \<Longrightarrow> qs_delivered (id_queue s') = qs_delivered (id_queue s) \<Longrightarrow>
    drain_inv fr batch sk evs s' = drain_inv fr batch sk evs s"
  by (simp add: drain_inv_def)

lemma own_ok_more: "own_ok fr batch sk evs rq \<Longrightarrow> own_ok fr batch sk (evs @ [ev]) rq"
  unfolding own_ok_def using subseq_order.trans [OF _ prefix_imp_subseq [of evs "evs @ [ev]"]] by fastforce

lemma drain_inv_attempt:
  assumes inv: "drain_inv fr batch sk evs s" and a: "attempt env fr day b k s = (outcome, s')"
    and b: "b \<noteq> []" "length b \<le> batch" "subseq b evs" and k: "int k < qs_max_attempts (id_queue s)"
  shows "drain_inv fr batch sk evs s'"
proof -
  have same: "same_sink sk (id_sink s)" using inv by (simp add: drain_inv_def)
  note kinds = same_sink_kinds [OF same]
  obtain ts bs where own: "id_own s' = id_own s @ ts @ bs" and tb: "list_all (is_template sk) ts" "list_all (is_bulk fr {day} b sk) bs"
    and flags: "bs \<noteq> [] \<longrightarrow> wi_installed (id_sink s')" "\<not> wi_installed (id_sink s) \<and> wi_installed (id_sink s') \<longrightarrow> ts \<noteq> []"
    and sk': "id_sink s' = (id_sink s)\<lparr>wi_installed := wi_installed (id_sink s')\<rparr>" and ack: "outcome = Inr () \<longrightarrow> bs \<noteq> []"
    using attempt_facts [OF a] unfolding kinds by blast
  have q: "id_queue s' = batch_after_send b k outcome (id_queue s)" using a by (auto simp: attempt_def split: prod.splits)
  have bulk: "batch_request fr sk b rq" if "rq \<in> set bs" for rq
    using tb(2) that by (auto simp: batch_request_def list_all_iff)
  have "own_ok fr batch sk evs rq" if "rq \<in> set (id_own s')" for rq
    using that inv own tb(1) bulk b by (auto simp: drain_inv_def own_ok_def list_all_iff)
  moreover have "\<exists>rq \<in> set (id_own s'). \<exists>b. ev \<in> set b \<and> batch_request fr sk b rq"
    if ev: "ev \<in> set (qs_delivered (id_queue s'))" for ev
  proof (cases "ev \<in> set (qs_delivered (id_queue s))")
    case True
    then obtain rq c where "rq \<in> set (id_own s)" "ev \<in> set c" "batch_request fr sk c rq"
      using inv unfolding drain_inv_def by blast
    then show ?thesis using own by auto
  next
    case False
    then have "outcome = Inr ()" "ev \<in> set b"
      using ev q k by (auto simp: batch_after_send_def split: sum.splits if_splits)
    then show ?thesis using ack bulk own by (cases bs) auto
  qed
  moreover have "is_template sk (hd (id_own s'))" if "id_own s' \<noteq> []"
  proof (cases "id_own s")
    case Nil
    then have "\<not> wi_installed (id_sink s)" using inv by (auto simp: drain_inv_def)
    then have "ts \<noteq> []" using flags that own Nil by auto
    then show ?thesis using own Nil tb(1) by (cases ts) auto
  next
    case (Cons rq rqs)
    then show ?thesis using own inv by (auto simp: drain_inv_def)
  qed
  moreover have "id_own s' \<noteq> []" if "wi_installed (id_sink s')"
    using that flags inv own by (auto simp: drain_inv_def)
  ultimately show ?thesis using same_sink_installed [OF sk' same] by (simp add: drain_inv_def)
qed

lemma drain_step_inv:
  assumes inv: "drain_inv fr batch sk evs s" and q: "batch_inv ma batch evs (id_queue s)" and step: "drain_step env fr batch s s'"
  shows "drain_inv fr batch sk evs s'"
  using step
proof cases
  case (no_attempt b k)
  then show ?thesis using q by (auto simp: batch_inv_def batch_task_ok_def)
next
  case (send b k day outcome)
  have "subseq (qs_delivered (id_queue s) @ b @ queued (id_queue s)) evs" "b \<noteq> []" "length b \<le> batch"
    using q send(1) by (simp_all add: batch_inv_def in_flight_def batch_task_ok_def)
  moreover have "subseq b (xs @ b @ ys)" for xs ys
    by (rule subseq_order.trans [OF prefix_imp_subseq [of b "b @ ys"] suffix_imp_subseq]) (simp_all add: suffix_def)
  ultimately show ?thesis using drain_inv_attempt [OF inv send(3)] send(2) subseq_order.trans by blast
next
  case starting
  then have "qs_delivered (start (id_queue s)) = qs_delivered (id_queue s)"
    using start_facts [of "id_queue s"] q by (simp add: batch_inv_def)
  then show ?thesis using inv starting drain_inv_cong [of s' s] by simp
qed (use inv in \<open>auto simp: drain_inv_def task_done_def batch_after_backoff_def request_stop_def cancel_task_def\<close>)

lemma drain_reach_inv:
  assumes "drain_reach env fr batch (new_indexer_system tid pfx ms ma p) evs s" "0 < ms" "1 \<le> ma"
  shows "drain_inv fr batch (new_indexer_sink tid pfx ma) evs s \<and> batch_inv ma batch evs (id_queue s)"
proof -
  have q: "batch_inv ma batch evs (id_queue s)"
    if "drain_reach env fr batch (new_indexer_system tid pfx ms ma p) evs s" for evs s
    using batch_reach_inv [OF drain_reach_queue [OF that]] assms(2,3) by (simp add: new_indexer_system_def)
  from assms(1) have "drain_inv fr batch (new_indexer_sink tid pfx ma) evs s"
  proof (induction rule: drain_reach.induct)
    case init
    then show ?case
      by (simp add: drain_inv_def new_indexer_system_def same_sink_def new_queued_sink_def new_indexer_sink_def)
  next
    case (submitted evs s ev q')
    have "sink_ok (id_queue s)" using q [OF submitted(1)] by (simp add: batch_inv_def)
    then have "qs_delivered q' = qs_delivered (id_queue s)"
      by (rule submit_cases [where ev = ev]) (use submitted(2) in \<open>auto simp: same_task_def\<close>)
    then show ?case using submitted(3) own_ok_more by (auto simp: drain_inv_def)
  next
    case (step evs s s')
    then show ?case using drain_step_inv q by blast
  qed
  then show ?thesis using q [OF assms(1)] by blast
qed

text \<open>
  C33: The indexer sink as a whole.  In every interleaving of submissions, pulls, attempts, stops and other uses of the
  client pool, each submitted event is queued, delivered, in flight, recorded as dropped or lost to a
  cancellation; everything the sink has sent is its index template or one bulk request that holds at most a
  batch of submitted events in their order, the template first; and every event counted as delivered was in
  such a request.
\<close>

theorem indexer_run_accounted:
  assumes "drain_reach env fr batch (new_indexer_system tid pfx ms ma p) evs s" "0 < ms" "1 \<le> ma"
  shows "sink_account (id_queue s) = mset evs \<and>
    (\<forall>rq \<in> set (id_own s). is_template (new_indexer_sink tid pfx ma) rq \<or>
      (\<exists>b day. b \<noteq> [] \<and> length b \<le> batch \<and> subseq b evs \<and> is_bulk fr {day} b (new_indexer_sink tid pfx ma) rq)) \<and>
    (id_own s \<noteq> [] \<longrightarrow> is_template (new_indexer_sink tid pfx ma) (hd (id_own s))) \<and>
    (\<forall>ev \<in> set (qs_delivered (id_queue s)). \<exists>rq \<in> set (id_own s). \<exists>b day.
      ev \<in> set b \<and> is_bulk fr {day} b (new_indexer_sink tid pfx ma) rq)"
  using drain_reach_inv [OF assms] unfolding drain_inv_def own_ok_def batch_request_def batch_inv_def by blast

section \<open>A run\<close>

text \<open>Two events for a queue of one; the first bulk request is answered with errors, the second one, on the next day, is
  not.\<close>

definition demo_system :: "queued_sink \<Rightarrow> indexer_system" where
  "demo_system q = (new_indexer_system ''acme'' ''audit'' 1 5 [])\<lparr>id_queue := q\<rparr>"

lemma demo_started:
  "drain_reach env fr 2 (new_indexer_system ''acme'' ''audit'' 1 5 []) [ev1, ev2] (demo_system started_pair)"
proof -
  let ?s0 = "new_indexer_system ''acme'' ''audit'' 1 5 []"
  let ?q1 = "submit_op ev1 (new_queued_sink 1 5)"
  let ?q2 = "submit_op ev2 ?q1"
  have "drain_reach env fr 2 ?s0 [] (demo_system (new_queued_sink 1 5))"
    using drain_reach.init [of env fr 2 ?s0] by (simp add: demo_system_def new_indexer_system_def)
  from drain_reach.submitted [OF this, of ev1 ?q1] have "drain_reach env fr 2 ?s0 [ev1] (demo_system ?q1)"
    by (simp add: demo_system_def submit_op_def submit_def new_queued_sink_def)
  from drain_reach.submitted [OF this, of ev2 ?q2] have r: "drain_reach env fr 2 ?s0 [ev1, ev2] (demo_system ?q2)"
    by (simp add: demo_system_def submit_op_def submit_def new_queued_sink_def safe_record_drop_def)
  have st: "drain_step env fr 2 (demo_system ?q2) ((demo_system ?q2)\<lparr>id_queue := start (id_queue (demo_system ?q2))\<rparr>)"
    by (rule drain_step.starting)
      (simp_all add: demo_system_def submit_op_def submit_def new_queued_sink_def safe_record_drop_def)
  have eq: "(demo_system ?q2)\<lparr>id_queue := start (id_queue (demo_system ?q2))\<rparr> = demo_system started_pair"
    by (simp add: demo_system_def started_pair_def)
  show ?thesis using drain_reach.step [OF r st] unfolding eq .
qed

lemma demo_sending:
  "drain_reach env fr 2 (new_indexer_system ''acme'' ''audit'' 1 5 []) [ev1, ev2]
     (demo_system (started_pair\<lparr>qs_queue := Some [], qs_unfinished := 0, qs_task := Sending [ev2] 0\<rparr>))"
proof -
  let ?q = "task_done (started_pair\<lparr>qs_queue := Some [], qs_task := Pulling ([] @ [ev2])\<rparr>)"
  have "drain_step env fr 2 (demo_system started_pair) ((demo_system started_pair)\<lparr>id_queue :=
      task_done ((id_queue (demo_system started_pair))\<lparr>qs_queue := Some [], qs_task := Pulling ([] @ [ev2])\<rparr>)\<rparr>)"
    by (rule drain_step.pull) (simp_all add: demo_system_def started_pair_eq)
  then have "drain_step env fr 2 (demo_system started_pair) (demo_system ?q)" by (simp add: demo_system_def)
  from drain_reach.step [OF demo_started this]
  have r: "drain_reach env fr 2 (new_indexer_system ''acme'' ''audit'' 1 5 []) [ev1, ev2] (demo_system ?q)" .
  have st: "drain_step env fr 2 (demo_system ?q)
      ((demo_system ?q)\<lparr>id_queue := (id_queue (demo_system ?q))\<lparr>qs_task := Sending [ev2] 0\<rparr>\<rparr>)"
    by (rule drain_step.flush) (simp_all add: demo_system_def task_done_def)
  have eq: "(demo_system ?q)\<lparr>id_queue := (id_queue (demo_system ?q))\<lparr>qs_task := Sending [ev2] 0\<rparr>\<rparr> =
      demo_system (started_pair\<lparr>qs_queue := Some [], qs_unfinished := 0, qs_task := Sending [ev2] 0\<rparr>)"
    by (simp add: demo_system_def task_done_def started_pair_eq)
  show ?thesis using drain_reach.step [OF r st] unfolding eq .
qed

lemmas demo_run_defs = sink_run_defs attempt_def demo_system_def new_indexer_system_def started_pair_eq batch_after_send_def
  batch_after_backoff_def sent_since_def is_exception_def

theorem indexer_run_accounted_witness:
  "\<exists>s. drain_reach demo_sink_env (\<lambda>r. []) 2 (new_indexer_system ''acme'' ''audit'' 1 5 []) [ev1, ev2] s \<and>
     qs_delivered (id_queue s) = [ev2] \<and> length (id_own s) = 3 \<and> is_template (new_indexer_sink ''acme'' ''audit'' 5) (hd (id_own s))"
proof -
  let ?reach = "drain_reach demo_sink_env (\<lambda>r. []) 2 (new_indexer_system ''acme'' ''audit'' 1 5 []) [ev1, ev2]"
  let ?a = "demo_system (started_pair\<lparr>qs_queue := Some [], qs_unfinished := 0, qs_task := Sending [ev2] 0\<rparr>)"
  obtain o1 b where b: "attempt demo_sink_env (\<lambda>r. []) ''2026.01.01'' [ev2] 0 ?a = (o1, b)" by fastforce
  then have o1: "o1 = Inl RuntimeE" and qb: "qs_task (id_queue b) = BackingOff [ev2] 1" "\<not> qs_stop (id_queue b)"
    "qs_max_attempts (id_queue b) = 5" "qs_delivered (id_queue b) = []" "length (id_own b) = 2"
    by (auto simp: demo_run_defs)
  have "drain_step demo_sink_env (\<lambda>r. []) 2 ?a b"
    by (rule drain_step.send [OF _ _ b]) (simp_all add: demo_system_def started_pair_eq o1 is_exception_def)
  from drain_reach.step [OF demo_sending this] have rb: "?reach b" .
  let ?c = "b\<lparr>id_queue := batch_after_backoff [ev2] 1 (id_queue b)\<rparr>"
  have rc: "?reach ?c" by (rule drain_reach.step [OF rb drain_step.backoff]) (rule qb(1))
  have qc: "qs_task (id_queue ?c) = Sending [ev2] 1" "qs_max_attempts (id_queue ?c) = 5"
    using qb by (simp_all add: batch_after_backoff_def)
  obtain o2 d where d: "attempt demo_sink_env (\<lambda>r. []) ''2026.01.02'' [ev2] 1 ?c = (o2, d)" by fastforce
  have o2: "o2 = Inr ()" and qd: "qs_delivered (id_queue d) = [ev2]" "length (id_own d) = 3"
    using d b qb by (auto simp: demo_run_defs)
  have rd: "?reach d"
    by (rule drain_reach.step [OF rc drain_step.send [OF qc(1) _ d]]) (simp_all add: qc(2) [simplified] o2 qb batch_after_backoff_def)
  have "is_template (new_indexer_sink ''acme'' ''audit'' 5) (hd (id_own d))"
    using indexer_run_accounted [OF rd] qd(2) by auto
  then show ?thesis using rd qd by blast
qed

end
