(* ===== verification/ClientLife.thy ===== *)
theory ClientLife imports Pools begin

text \<open>
  The end of the upstream clients: \<open>aclose\<close> of \<open>wazuh/server_api.py\<close> and \<open>wazuh/indexer.py\<close>, and the closing of
  all clients of a pool (\<open>wazuh/server_api_pool.py\<close>, \<open>wazuh/indexer_pool.py\<close>) with the failures a close can
  have.  What the HTTP library makes of a close is an argument.
\<close>

section \<open>Closing a client\<close>

text \<open>\<open>ch_closes\<close> counts the calls of the HTTP library's \<open>aclose\<close>.\<close>

record 'c client_handle =
  ch_client :: 'c
  ch_closed :: bool
  ch_closes :: nat

definition open_handle :: "'c \<Rightarrow> 'c client_handle" where
  "open_handle c = \<lparr>ch_client = c, ch_closed = False, ch_closes = 0\<rparr>"

definition aclose :: "('c \<Rightarrow> exn option) \<Rightarrow> 'c client_handle \<Rightarrow> exn option \<times> 'c client_handle" where
  "aclose lib h =
     (if ch_closed h then (None, h)
      else (lib (ch_client h), h\<lparr>ch_closed := True, ch_closes := Suc (ch_closes h)\<rparr>))"

text \<open>\<open>for client in clients: await client.aclose()\<close>: an exception ends the loop.\<close>

fun aclose_each :: "('c \<Rightarrow> exn option) \<Rightarrow> (string \<times> 'c client_handle) list \<Rightarrow> exn option \<times> (string \<times> 'c client_handle) list" where
  "aclose_each lib [] = (None, [])"
| "aclose_each lib ((tid, h) # hs) =
     (case aclose lib h of
        (Some e, h') \<Rightarrow> (Some e, (tid, h') # hs)
      | (None, h') \<Rightarrow> (case aclose_each lib hs of (r, hs') \<Rightarrow> (r, (tid, h') # hs')))"

section \<open>Closing a pool\<close>

text \<open>\<open>pl_gone\<close> is the history of the clients the pool no longer refers to.\<close>

record 'c live_pool =
  pl_closed :: bool
  pl_clients :: "(string \<times> 'c client_handle) list"
  pl_gone :: "(string \<times> 'c client_handle) list"

definition close_server_api_pool :: "(api_client \<Rightarrow> exn option) \<Rightarrow> api_client live_pool \<Rightarrow> exn option \<times> api_client live_pool" where
  "close_server_api_pool lib p =
     (if pl_closed p then (None, p)
      else case aclose_each lib (pl_clients p) of
        (Some e, hs) \<Rightarrow> (Some e, p\<lparr>pl_closed := True, pl_clients := hs\<rparr>)
      | (None, hs) \<Rightarrow> (None, p\<lparr>pl_closed := True, pl_clients := [], pl_gone := pl_gone p @ hs\<rparr>))"

definition close_indexer_pool :: "(indexer_client \<Rightarrow> exn option) \<Rightarrow> indexer_client live_pool \<Rightarrow> exn option \<times> indexer_client live_pool" where
  "close_indexer_pool lib p =
     (case aclose_each lib (pl_clients p) of
        (r, hs) \<Rightarrow> (r, p\<lparr>pl_clients := [], pl_gone := pl_gone p @ hs\<rparr>))"

section \<open>What closing does\<close>

text \<open>A client is closed once, however often it is asked to.\<close>

lemma aclose_once:
  "ch_closed (snd (aclose lib h)) \<and> ch_client (snd (aclose lib h)) = ch_client h \<and>
   aclose lib' (snd (aclose lib h)) = (None, snd (aclose lib h)) \<and>
   (\<not> ch_closed h \<longrightarrow> ch_closes (snd (aclose lib h)) = Suc (ch_closes h))"
  by (auto simp: aclose_def)

definition closed_once :: "'c client_handle \<Rightarrow> bool" where
  "closed_once h \<longleftrightarrow> ch_closed h \<and> ch_closes h = 1"

definition still_open :: "'c client_handle \<Rightarrow> bool" where
  "still_open h \<longleftrightarrow> \<not> ch_closed h \<and> ch_closes h = 0"

text \<open>Over open clients the loop closes a front part, up to the first close that fails.\<close>

lemma aclose_each_front:
  assumes "aclose_each lib hs = (r, hs')" "list_all (\<lambda>(tid, h). still_open h) hs"
  shows "map (\<lambda>(tid, h). (tid, ch_client h)) hs' = map (\<lambda>(tid, h). (tid, ch_client h)) hs \<and>
    (\<exists>k. list_all (\<lambda>(tid, h). closed_once h) (take k hs') \<and> drop k hs' = drop k hs \<and>
      (case r of None \<Rightarrow> k = length hs
       | Some e \<Rightarrow> 0 < k \<and> k \<le> length hs \<and> lib (ch_client (snd (hs ! (k - 1)))) = Some e))"
  using assms
proof (induction hs arbitrary: r hs')
  case Nil
  then show ?case by simp
next
  case (Cons th hs)
  obtain tid h where th: "th = (tid, h)" by (cases th)
  have h: "still_open h" and hs: "list_all (\<lambda>(tid, h). still_open h) hs" using Cons.prems(2) th by simp_all
  let ?h = "h\<lparr>ch_closed := True, ch_closes := Suc (ch_closes h)\<rparr>"
  have ac: "aclose lib h = (lib (ch_client h), ?h)" and once: "closed_once ?h"
    using h by (simp_all add: aclose_def still_open_def closed_once_def)
  show ?case
  proof (cases "lib (ch_client h)")
    case (Some e)
    then have "r = Some e" "hs' = (tid, ?h) # hs" using Cons.prems(1) th ac by simp_all
    then show ?thesis using Some th once by (intro conjI exI [of _ 1]) (simp_all)
  next
    case None
    obtain r1 hs1 where rest: "aclose_each lib hs = (r1, hs1)" by fastforce
    then have eqs: "r = r1" "hs' = (tid, ?h) # hs1" using Cons.prems(1) th ac None by simp_all
    obtain k where k: "list_all (\<lambda>(tid, h). closed_once h) (take k hs1)" "drop k hs1 = drop k hs"
      "case r1 of None \<Rightarrow> k = length hs
       | Some e \<Rightarrow> 0 < k \<and> k \<le> length hs \<and> lib (ch_client (snd (hs ! (k - 1)))) = Some e"
      "map (\<lambda>(tid, h). (tid, ch_client h)) hs1 = map (\<lambda>(tid, h). (tid, ch_client h)) hs"
      using Cons.IH [OF rest hs] by blast
    then show ?thesis using eqs th once by (intro conjI exI [of _ "Suc k"]) (auto split: option.splits)
  qed
qed

text \<open>
  A pool closes each of its clients once.  When no close fails, both pools end without clients, each former client closed
  exactly once, and the pool is what closing it means for the tasks that use it.
\<close>

theorem pools_close_every_client:
  assumes "list_all (\<lambda>(tid, h). still_open h) (pl_clients p)" "\<forall>(tid, h) \<in> set (pl_clients p). lib (ch_client h) = None"
    and "list_all (\<lambda>(tid, h). still_open h) (pl_clients q)" "\<forall>(tid, h) \<in> set (pl_clients q). lib' (ch_client h) = None"
    and "\<not> pl_closed p" "pl_gone p = []" "pl_gone q = []"
    and "close_server_api_pool lib p = (r, p')" "close_indexer_pool lib' q = (r', q')"
  shows "r = None \<and> pl_clients p' = [] \<and> pl_closed p' \<and> list_all (\<lambda>(tid, h). closed_once h) (pl_gone p') \<and>
    map fst (pl_gone p') = map fst (pl_clients p) \<and>
    r' = None \<and> pl_clients q' = [] \<and> list_all (\<lambda>(tid, h). closed_once h) (pl_gone q') \<and>
    map fst (pl_gone q') = map fst (pl_clients q)"
proof -
  have all: "x = None \<and> list_all (\<lambda>(tid, h). closed_once h) hs' \<and> map fst hs' = map fst hs"
    if e: "aclose_each lb hs = (x, hs')" and o: "list_all (\<lambda>(tid, h). still_open h) hs"
      and l: "\<forall>(tid, h) \<in> set hs. lb (ch_client h) = None" for lb :: "'d \<Rightarrow> exn option" and hs x hs'
  proof -
    obtain k where k: "list_all (\<lambda>(tid, h). closed_once h) (take k hs')"
      "case x of None \<Rightarrow> k = length hs | Some e \<Rightarrow> 0 < k \<and> k \<le> length hs \<and> lb (ch_client (snd (hs ! (k - 1)))) = Some e"
      and m: "map (\<lambda>(tid, h). (tid, ch_client h)) hs' = map (\<lambda>(tid, h). (tid, ch_client h)) hs"
      using aclose_each_front [OF e o] by blast
    have "x = None"
    proof (cases x)
      case (Some e)
      then have "hs ! (k - 1) \<in> set hs" "lb (ch_client (snd (hs ! (k - 1)))) = Some e" using k(2) by auto
      then show ?thesis using l by fastforce
    qed simp
    moreover have "length hs' = length hs" using m by (rule map_eq_imp_length_eq)
    moreover have "map fst hs' = map fst hs" using arg_cong [OF m, of "map fst"] by (simp add: comp_def case_prod_unfold)
    ultimately show ?thesis using k by simp
  qed
  obtain x hs where x: "aclose_each lib (pl_clients p) = (x, hs)" by fastforce
  obtain y ks where y: "aclose_each lib' (pl_clients q) = (y, ks)" by fastforce
  show ?thesis using all [OF x assms(1,2)] all [OF y assms(3,4)] assms(5-9) x y
    by (auto simp: close_server_api_pool_def close_indexer_pool_def)
qed

text \<open>
  One failing close leaves the others open.  When the close of a client raises, the clients after it stay open: the Server
  API pool is marked closed by then, so that closing it again does nothing, and the indexer pool has dropped
  its clients before it closed them.
\<close>

theorem failed_close_leaks:
  assumes "still_open a" "still_open b" "lib (ch_client a) = Some e"
    and "p = \<lparr>pl_closed = False, pl_clients = [(t, a), (u, b)], pl_gone = []\<rparr>"
    and "close_server_api_pool lib p = (r, p')"
  shows "r = Some e \<and> (\<exists>a'. pl_clients p' = [(t, a'), (u, b)]) \<and> still_open b \<and> close_server_api_pool lib' p' = (None, p')"
  using assms by (auto simp: close_server_api_pool_def aclose_def still_open_def)

lemma failed_close_leaks_indexer:
  assumes "still_open a" "still_open b" "lib (ch_client a) = Some e"
  shows "\<exists>a'. close_indexer_pool lib \<lparr>pl_closed = False, pl_clients = [(t, a), (u, b)], pl_gone = []\<rparr> =
    (Some e, \<lparr>pl_closed = False, pl_clients = [], pl_gone = [(t, a'), (u, b)]\<rparr>)"
  using assms by (auto simp: close_indexer_pool_def aclose_def still_open_def)

text \<open>Seen from the tasks that use it, a pool that closes without a failure is the pool of Pools after its
  \<open>aclose_all\<close>.\<close>

definition seen_api_pool :: "api_client live_pool \<Rightarrow> server_api_pool" where
  "seen_api_pool p = \<lparr>sp_clients = map (\<lambda>(tid, h). (tid, ch_client h)) (pl_clients p), sp_closed = pl_closed p\<rparr>"

definition seen_indexer_pool :: "indexer_client live_pool \<Rightarrow> indexer_pool" where
  "seen_indexer_pool p = map (\<lambda>(tid, h). (tid, ch_client h)) (pl_clients p)"

theorem closing_refines:
  assumes "close_server_api_pool lib p = (None, p')" "close_indexer_pool lib' q = (r, q')"
  shows "seen_api_pool p' = sp_aclose_all (seen_api_pool p) \<and> seen_indexer_pool q' = ip_aclose_all (seen_indexer_pool q)"
  using assms
  by (auto simp: close_server_api_pool_def close_indexer_pool_def seen_api_pool_def seen_indexer_pool_def sp_aclose_all_def
      ip_aclose_all_def split: if_splits prod.splits option.splits)

end
