(* ===== verification/RequestScope.thy ===== *)
theory RequestScope imports AuditTrail begin

text \<open>
  The request identifier of audit events (\<open>observability/audit_context.py\<close>): a context variable that a scope
  sets and resets, before the identifier the MCP library has for the request.
\<close>

section \<open>The context variable\<close>

text \<open>A token remembers the value before its \<open>set\<close>.\<close>

datatype rid_token = RidToken (rid_before: "string option")

definition set_request_id :: "string option \<Rightarrow> string option \<Rightarrow> rid_token \<times> string option" where
  "set_request_id rid current = (RidToken current, rid)"

definition reset_request_id :: "rid_token \<Rightarrow> string option \<Rightarrow> string option" where
  "reset_request_id tok current = rid_before tok"

section \<open>Scopes\<close>

text \<open>What runs inside a scope: events and further scopes, in order.  \<open>sdk\<close> is the identifier of the library's
  request, if one is active.\<close>

datatype scoped = Emits emit_call | Scope "string option" "scoped list"

fun run_scoped :: "emit_env \<Rightarrow> scoped \<Rightarrow> string option \<Rightarrow> event list \<times> string option"
and run_scopeds :: "emit_env \<Rightarrow> scoped list \<Rightarrow> string option \<Rightarrow> event list \<times> string option" where
  "run_scoped env (Emits c) current = ([build_event (env\<lparr>ee_local_rid := current\<rparr>) c], current)"
| "run_scoped env (Scope rid body) current =
     (case set_request_id rid current of
        (tok, inner) \<Rightarrow> (case run_scopeds env body inner of (evs, left) \<Rightarrow> (evs, reset_request_id tok left)))"
| "run_scopeds env [] current = ([], current)"
| "run_scopeds env (x # xs) current =
     (case run_scoped env x current of
        (evs, c1) \<Rightarrow> (case run_scopeds env xs c1 of (evs', c2) \<Rightarrow> (evs @ evs', c2)))"

text \<open>The calls of a scope with the identifier in force at each, read off the nesting.\<close>

fun ids_of :: "string option \<Rightarrow> scoped \<Rightarrow> (string option \<times> emit_call) list"
and ids_of_all :: "string option \<Rightarrow> scoped list \<Rightarrow> (string option \<times> emit_call) list" where
  "ids_of rid (Emits c) = [(rid, c)]"
| "ids_of rid (Scope r body) = ids_of_all r body"
| "ids_of_all rid [] = []"
| "ids_of_all rid (x # xs) = ids_of rid x @ ids_of_all rid xs"

text \<open>
  Every event carries the identifier of its innermost scope.  However scopes are nested, each event is built with the
  identifier of the scope that directly holds it, and the end of a scope restores the one before it; where no
  scope gives one, the event has the identifier of the library's request, or none.
\<close>

theorem scoped_request_ids:
  "run_scoped env x rid = (map (\<lambda>(r, c). build_event (env\<lparr>ee_local_rid := r\<rparr>) c) (ids_of rid x), rid)"
  "run_scopeds env xs rid = (map (\<lambda>(r, c). build_event (env\<lparr>ee_local_rid := r\<rparr>) c) (ids_of_all rid xs), rid)"
  by (induction env x rid and env xs rid rule: run_scoped_run_scopeds.induct)
    (simp_all add: set_request_id_def reset_request_id_def)

lemma event_request_id:
  "dget (build_event (env\<lparr>ee_local_rid := r\<rparr>) c) ''request_id'' =
     Some (opt_json (case r of Some i \<Rightarrow> Some i | None \<Rightarrow> ee_sdk_rid env))"
  by (simp add: build_event_def get_request_id_def)

end
