(* ===== verification/SeedAlerts.thy ===== *)
theory SeedAlerts imports Models begin

text \<open>
  The seeding script of the integration tests (\<open>docker/seed_alerts.py\<close>): an agent and a group on the
  manager, then twenty synthetic alerts in one bulk request to the indexer.  The two services are a
  function from requests to answers; no request is sent twice.  Time stamps are formatted by an argument.
\<close>

section \<open>Scripts\<close>

datatype seed_auth = Password string string | Token string
datatype seed_content = NoContent | JsonContent json | Ndjson string

record seed_request =
  sq_url :: string
  sq_auth :: seed_auth
  sq_content :: seed_content

text \<open>\<open>sn_json\<close> is \<open>None\<close> for a body that is not JSON.\<close>

record seed_answer =
  sn_status :: int
  sn_text :: string
  sn_json :: "json option"

datatype action = Posted seed_request | Printed string | Warned string

type_synonym 'a script = "(exn + 'a) \<times> action list"

definition andthen :: "'a script \<Rightarrow> ('a \<Rightarrow> 'b script) \<Rightarrow> 'b script" where
  "andthen m f =
     (case m of
        (Inl e, l) \<Rightarrow> (Inl e, l)
      | (Inr x, l) \<Rightarrow> (case f x of (r, l') \<Rightarrow> (r, l @ l')))"

definition pure_step :: "exn + 'a \<Rightarrow> 'a script" where
  "pure_step r = (r, [])"

text \<open>\<open>se_today\<close> is the day as \<open>YYYY.MM.DD\<close>, \<open>se_stamp i m\<close> the time of the \<open>i\<close>-th alert, \<open>m\<close> minutes ago,
  as \<open>YYYY-MM-DDThh:mm:ss\<close>.\<close>

record seed_env =
  se_manager_url :: "string option"
  se_manager_user :: "string option"
  se_manager_password :: "string option"
  se_today :: string
  se_stamp :: "int \<Rightarrow> int \<Rightarrow> string"
  se_float :: "rat \<Rightarrow> string"
  se_net :: "seed_request \<Rightarrow> exn + seed_answer"

definition manager_base :: "seed_env \<Rightarrow> string" where
  "manager_base env = (case se_manager_url env of None \<Rightarrow> ''https://localhost:55000'' | Some u \<Rightarrow> u)"

definition manager_login :: "seed_env \<Rightarrow> seed_auth" where
  "manager_login env =
     Password (case se_manager_user env of None \<Rightarrow> ''wazuh-wui'' | Some u \<Rightarrow> u)
       (case se_manager_password env of None \<Rightarrow> ''MCPmcp12345!'' | Some p \<Rightarrow> p)"

definition seed_index :: "seed_env \<Rightarrow> string" where
  "seed_index env = ''wazuh-alerts-4.x-'' @ se_today env"

definition send_seed :: "seed_env \<Rightarrow> seed_request \<Rightarrow> seed_answer script" where
  "send_seed env rq = (se_net env rq, [Posted rq])"

definition post :: "seed_env \<Rightarrow> string \<Rightarrow> seed_auth \<Rightarrow> seed_content \<Rightarrow> seed_answer script" where
  "post env url auth content =
     send_seed env \<lparr>sq_url = url, sq_auth = auth, sq_content = content\<rparr>"

definition raise_for_status :: "seed_answer \<Rightarrow> exn + unit" where
  "raise_for_status r = (if 200 \<le> sn_status r \<and> sn_status r \<le> 299 then Inr () else Inl OtherE)"

definition answer_json :: "seed_answer \<Rightarrow> exn + json" where
  "answer_json r = (case sn_json r of None \<Rightarrow> Inl ValueE | Some j \<Rightarrow> Inr j)"

section \<open>The manager\<close>

definition register_agent :: "seed_env \<Rightarrow> string \<Rightarrow> unit script" where
  "register_agent env token =
     andthen (post env (manager_base env @ ''/agents'') (Token token)
               (JsonContent (JObj [(''name'', JStr ''web-01''), (''ip'', JStr ''any'')]))) (\<lambda>agent.
       if sn_status agent = 200 \<or> sn_status agent = 201
       then andthen (pure_step (bind_res (answer_json agent) (\<lambda>body.
                       bind_res (py_get_or body ''data'' (JObj [])) (\<lambda>d. py_get d ''id'')))) (\<lambda>new_id.
              (Inr (), [Printed (''[seed] registered agent id='' @ json_str (se_float env) new_id)]))
       else if sn_status agent = 400 \<and> contains_sub ''already'' (lower (sn_text agent))
       then (Inr (), [Printed ''[seed] agent already registered, skipping''])
       else (Inr (), [Warned (''[seed] agent registration returned '' @ show_int (sn_status agent) @ '': '' @ take 300 (sn_text agent))]))"

definition create_test_group :: "seed_env \<Rightarrow> string \<Rightarrow> unit script" where
  "create_test_group env token =
     andthen (post env (manager_base env @ ''/groups'') (Token token)
               (JsonContent (JObj [(''group_id'', JStr ''test-group'')]))) (\<lambda>grp.
       if sn_status grp = 200 \<or> sn_status grp = 201
       then (Inr (), [Printed (''[seed] created group '' @ py_repr ''test-group'')])
       else if sn_status grp = 400 \<and> contains_sub ''exist'' (lower (sn_text grp))
       then (Inr (), [Printed (''[seed] group '' @ py_repr ''test-group'' @ '' already exists, skipping'')])
       else (Inr (), [Warned (''[seed] group creation returned '' @ show_int (sn_status grp) @ '': '' @ take 300 (sn_text grp))]))"

definition seed_manager_state :: "seed_env \<Rightarrow> unit script" where
  "seed_manager_state env =
     andthen (post env (manager_base env @ ''/security/user/authenticate?raw=true'') (manager_login env) NoContent) (\<lambda>auth.
       if sn_status auth \<noteq> 200
       then (Inr (), [Warned (''[seed] manager auth skipped (status '' @ show_int (sn_status auth) @ '')'')])
       else let token = py_strip (sn_text auth)
            in andthen (register_agent env token) (\<lambda>u. create_test_group env token))"

section \<open>The alerts\<close>

definition seed_alert :: "seed_env \<Rightarrow> int \<Rightarrow> int \<Rightarrow> int \<Rightarrow> json" where
  "seed_alert env idx level offset =
     JObj [(''timestamp'', JStr (se_stamp env idx offset @ ''.000+0000'')),
           (''@timestamp'', JStr (se_stamp env idx offset @ ''.000Z'')),
           (''agent'', JObj [(''id'', JStr ''001''), (''name'', JStr ''web-01''), (''ip'', JStr ''10.0.0.5'')]),
           (''rule'', JObj [(''id'', JStr (show_int (5700 + idx))), (''level'', JInt level),
              (''description'', JStr (''synthetic rule '' @ show_int idx)),
              (''mitre'', if 10 \<le> level
                 then JObj [(''id'', JList [JStr ''T1110.001'']), (''tactic'', JList [JStr ''Credential Access''])]
                 else JObj [])]),
           (''location'', JStr ''/var/log/auth.log''),
           (''decoder'', JObj [(''name'', JStr ''sshd'')])]"

definition seed_offsets :: "int list" where
  "seed_offsets = [5, 10, 15, 20, 25] @ map (\<lambda>k. 60 + 60 * k) [0 .. 14]"

definition seed_level :: "int \<Rightarrow> int" where
  "seed_level i = (if i mod 4 = 0 then 12 else 3)"

definition seed_docs :: "seed_env \<Rightarrow> json list" where
  "seed_docs env = map (\<lambda>(i, offset). seed_alert env i (seed_level i) offset) (zip [0 .. 19] seed_offsets)"

definition seed_lines :: "seed_env \<Rightarrow> string list" where
  "seed_lines env =
     concat (map (\<lambda>d. [dumps (se_float env) '', '' '': '' (JObj [(''index'', JObj [(''_index'', JStr (seed_index env))])]),
                       dumps (se_float env) '', '' '': '' d]) (seed_docs env))"

definition seed_body :: "seed_env \<Rightarrow> string" where
  "seed_body env = join_with [CHR 0x0A] (seed_lines env) @ [CHR 0x0A]"

text \<open>The indexer; the result is the exit status of the script.\<close>

definition bulk_request :: "seed_env \<Rightarrow> seed_request" where
  "bulk_request env =
     \<lparr>sq_url = ''https://localhost:9200/_bulk'', sq_auth = Password ''admin'' ''admin'', sq_content = Ndjson (seed_body env)\<rparr>"

definition refresh_request :: "seed_env \<Rightarrow> seed_request" where
  "refresh_request env =
     \<lparr>sq_url = ''https://localhost:9200/'' @ seed_index env @ ''/_refresh'', sq_auth = Password ''admin'' ''admin'',
      sq_content = NoContent\<rparr>"

definition seed_indexer :: "seed_env \<Rightarrow> int script" where
  "seed_indexer env =
     andthen (send_seed env (bulk_request env)) (\<lambda>r.
     andthen (pure_step (bind_res (raise_for_status r) (\<lambda>u. answer_json r))) (\<lambda>resp.
     andthen (pure_step (py_get resp ''errors'')) (\<lambda>errors.
       if truthy errors
       then (Inr 1, [Warned (''bulk errors: '' @ take 500 (dumps (se_float env) '', '' '': '' resp))])
       else andthen (send_seed env (refresh_request env)) (\<lambda>f.
            andthen (pure_step (raise_for_status f)) (\<lambda>u.
              (Inr 0, [Printed (''Seeded '' @ show_int (int (length (seed_docs env))) @ '' alerts into '' @ seed_index env)]))))))"

definition seed_main :: "seed_env \<Rightarrow> int script" where
  "seed_main env = andthen (seed_manager_state env) (\<lambda>u. seed_indexer env)"

section \<open>What is seeded\<close>

lemma seed_offsets_length [simp]: "length seed_offsets = 20"
  by (simp add: seed_offsets_def)

lemma seed_docs_length: "length (seed_docs env) = 20"
  by (simp add: seed_docs_def)

text \<open>
  Every seeded alert is read by the tools.  A hit that holds the document of a seeded alert becomes the alert model
  with the agent and the rule of the script, whatever the index called it; alerts of level ten and more carry their
  technique.
\<close>

theorem seeded_alert_is_read:
  "alert_from_hit renv (JObj [(''_id'', JStr i), (''_source'', seed_alert env idx level offset)]) =
    Inr \<lparr>al_id = i, al_timestamp = se_stamp env idx offset @ ''.000+0000'',
         al_agent = \<lparr>aref_id = Some ''001'', aref_name = Some ''web-01'', aref_ip = Some ''10.0.0.5''\<rparr>,
         al_rule = \<lparr>rref_id = show_int (5700 + idx), rref_level = level,
           rref_description = ''synthetic rule '' @ show_int idx,
           rref_mitre_ids = (if 10 \<le> level then [''T1110.001''] else [])\<rparr>,
         al_location = Some ''/var/log/auth.log''\<rparr>"
  by (simp add: alert_from_hit_def sub_dict_def py_access jget_def seed_alert_def agent_ref_validate_def opt_str_field_def
      rule_ref_from_source_def items_at_def text_at_def json_str_def py_int_def strs_field_def str_field_def)

text \<open>
  The seeded set: twenty alerts of the last fifteen hours, oldest last, every fourth of them critical.
\<close>

lemma seed_set:
  "length seed_offsets = 20 \<and> sorted_wrt (<) seed_offsets \<and> (\<forall>m \<in> set seed_offsets. 0 < m \<and> m \<le> 15 * 60) \<and>
   length (filter (\<lambda>i. 10 \<le> seed_level i) [0 .. 19]) = 5"
  by code_simp

lemma seed_docs_no_float: "d \<in> set (seed_docs env) \<Longrightarrow> no_float d"
  by (auto simp: seed_docs_def seed_alert_def)

lemma seed_lines_printable: "l \<in> set (seed_lines env) \<Longrightarrow> printable l"
proof -
  have line: "no_float j \<Longrightarrow> printable (dumps (se_float env) '', '' '': '' j)" for j
    by (rule dumps_printable) simp_all
  assume "l \<in> set (seed_lines env)"
  then consider "l = dumps (se_float env) '', '' '': '' (JObj [(''index'', JObj [(''_index'', JStr (seed_index env))])])"
    | d where "d \<in> set (seed_docs env)" "l = dumps (se_float env) '', '' '': '' d"
    unfolding seed_lines_def by (auto simp del: dumps.simps split: if_splits)
  then show "printable l"
  proof cases
    case 1
    then show ?thesis using line [of "JObj [(''index'', JObj [(''_index'', JStr (seed_index env))])]"] by (simp del: dumps.simps)
  next
    case (2 d)
    then show ?thesis using line seed_docs_no_float by blast
  qed
qed

text \<open>
  The bulk body holds the seeded alerts and nothing else: cut at its line feeds it gives an action naming the
  index of the day and the document, for each alert in turn.
\<close>

theorem seed_body_reads_back:
  "split_on (CHR 0x0A) (seed_body env) =
    concat (map (\<lambda>d. [dumps (se_float env) '', '' '': '' (JObj [(''index'', JObj [(''_index'', JStr (seed_index env))])]),
                      dumps (se_float env) '', '' '': '' d]) (seed_docs env)) @ [[]]"
proof -
  have "\<forall>l \<in> set (seed_lines env). CHR 0x0A \<notin> set l"
    using seed_lines_printable [THEN printable_no_newline] by blast
  moreover have "seed_lines env \<noteq> []"
    using seed_docs_length [of env] by (cases "seed_docs env") (auto simp: seed_lines_def)
  ultimately have "split_on (CHR 0x0A) (join_with [CHR 0x0A] (seed_lines env)) = seed_lines env"
    by (intro split_join)
  then show ?thesis unfolding seed_body_def split_on_snoc by (simp only: seed_lines_def)
qed

section \<open>What the script sends\<close>

definition posts :: "action list \<Rightarrow> seed_request list" where
  "posts l = List.map_filter (\<lambda>a. case a of Posted rq \<Rightarrow> Some rq | _ \<Rightarrow> None) l"

lemma posts_simps [simp]:
  "posts [] = []" "posts (Posted rq # l) = rq # posts l" "posts (Printed s # l) = posts l"
  "posts (Warned s # l) = posts l" "posts (l @ l') = posts l @ posts l'"
  by (simp_all add: posts_def map_filter_def)

lemmas script_defs = andthen_def pure_step_def post_def send_seed_def Let_def

lemma register_agent_posts:
  "\<exists>rq. posts (snd (register_agent env token)) = [rq] \<and> sq_url rq = manager_base env @ ''/agents''"
  by (auto simp: register_agent_def script_defs split: prod.splits sum.splits)

lemma create_test_group_posts:
  "\<exists>rq. posts (snd (create_test_group env token)) = [rq] \<and> sq_url rq = manager_base env @ ''/groups''"
  by (auto simp: create_test_group_def script_defs split: prod.splits sum.splits)

lemma seed_manager_posts:
  "\<exists>ms. posts (snd (seed_manager_state env)) = \<lparr>sq_url = manager_base env @ ''/security/user/authenticate?raw=true'',
      sq_auth = manager_login env, sq_content = NoContent\<rparr> # ms \<and>
    (\<exists>n. map sq_url ms = take n [manager_base env @ ''/agents'', manager_base env @ ''/groups''])"
proof -
  define token where "token = py_strip (sn_text (projr (se_net env
    \<lparr>sq_url = manager_base env @ ''/security/user/authenticate?raw=true'', sq_auth = manager_login env, sq_content = NoContent\<rparr>)))"
  obtain ra la rg lg where a: "register_agent env token = (ra, la)" and g: "create_test_group env token = (rg, lg)"
    by fastforce
  obtain x where x: "posts la = [x]" "sq_url x = manager_base env @ ''/agents''"
    using register_agent_posts [of env token] a by auto
  obtain y where y: "posts lg = [y]" "sq_url y = manager_base env @ ''/groups''"
    using create_test_group_posts [of env token] g by auto
  have none: "\<exists>n. ([] :: string list) = take n zs" for zs by (rule exI [of _ 0]) simp
  have one: "\<exists>n. [z] = take n (z # zs)" for z :: string and zs by (rule exI [of _ 1]) simp
  have two: "\<exists>n. [z, z'] = take n [z, z']" for z z' :: string by (rule exI [of _ 2]) simp
  show ?thesis
    using a g x y none one two unfolding token_def
    by (auto simp: seed_manager_state_def script_defs split: prod.splits sum.splits)
qed

lemma seed_indexer_posts:
  assumes "seed_indexer env = (r, l)"
  shows "posts l \<in> {[bulk_request env], [bulk_request env, refresh_request env]} \<and>
    (\<forall>status. r = Inr status \<longrightarrow> status = 0 \<and> length (posts l) = 2 \<or> status = 1 \<and> length (posts l) = 1)"
proof (cases "se_net env (bulk_request env)")
  case (Inl e)
  then show ?thesis using assms by (auto simp: seed_indexer_def script_defs)
next
  case bulk: (Inr a)
  show ?thesis
  proof (cases "bind_res (bind_res (raise_for_status a) (\<lambda>u. answer_json a)) (\<lambda>resp. py_get resp ''errors'')")
    case (Inl e)
    then show ?thesis using assms bulk
      by (cases "bind_res (raise_for_status a) (\<lambda>u. answer_json a)") (auto simp: seed_indexer_def script_defs)
  next
    case (Inr errors)
    then obtain resp where resp: "bind_res (raise_for_status a) (\<lambda>u. answer_json a) = Inr resp" "py_get resp ''errors'' = Inr errors"
      by (auto simp: bind_res_eq_Inr)
    show ?thesis
    proof (cases "truthy errors")
      case True
      then show ?thesis using assms bulk resp by (auto simp: seed_indexer_def script_defs)
    next
      case ok: False
      then show ?thesis using assms bulk resp
        by (cases "se_net env (refresh_request env)"; cases "raise_for_status (projr (se_net env (refresh_request env)))")
          (auto simp: seed_indexer_def script_defs)
    qed
  qed
qed

text \<open>
  The order of the script.  The manager is asked first, at most for a token, an agent and a group, in that order; only
  then one bulk request and, when it is acknowledged without errors, one refresh of the same index go to the
  indexer.  The exit status is 0 or 1, and 0 only after both were sent.
\<close>

theorem seeding_protocol:
  assumes "seed_main env = (r, l)"
  shows "\<exists>ms n. posts l = ms @ take n [bulk_request env, refresh_request env] \<and>
      (\<exists>k. map sq_url ms = take k (map (\<lambda>p. manager_base env @ p) [''/security/user/authenticate?raw=true'', ''/agents'', ''/groups''])) \<and>
      (\<forall>status. r = Inr status \<longrightarrow> status = 0 \<and> n = 2 \<or> status = 1 \<and> n = 1)"
proof -
  obtain rm lm where m: "seed_manager_state env = (rm, lm)" by fastforce
  obtain ms n where ms: "posts lm = \<lparr>sq_url = manager_base env @ ''/security/user/authenticate?raw=true'',
      sq_auth = manager_login env, sq_content = NoContent\<rparr> # ms"
      "map sq_url ms = take n [manager_base env @ ''/agents'', manager_base env @ ''/groups'']"
    using seed_manager_posts [of env] m by auto
  then have k: "\<exists>k. map sq_url (posts lm) =
      take k (map (\<lambda>p. manager_base env @ p) [''/security/user/authenticate?raw=true'', ''/agents'', ''/groups''])"
    by (intro exI [of _ "Suc n"]) simp
  have "\<exists>n. posts l = posts lm @ take n [bulk_request env, refresh_request env] \<and>
      (\<forall>status. r = Inr status \<longrightarrow> status = 0 \<and> n = 2 \<or> status = 1 \<and> n = 1)"
  proof (cases rm)
    case (Inl e)
    then show ?thesis using assms m by (intro exI [of _ 0]) (auto simp: seed_main_def andthen_def)
  next
    case (Inr u)
    obtain ri li where i: "seed_indexer env = (ri, li)" by fastforce
    then have "r = ri" "l = lm @ li" using assms m Inr by (auto simp: seed_main_def andthen_def)
    then show ?thesis using seed_indexer_posts [OF i] by (intro exI [of _ "length (posts li)"]) auto
  qed
  then show ?thesis using k by blast
qed

text \<open>
  The manager is not optional.  A manager that cannot be reached ends the script before anything is seeded, where its
  description calls the registration a best effort; an answer that refuses the login only skips it.
\<close>

theorem unreachable_manager_ends_seeding:
  assumes "se_net env \<lparr>sq_url = manager_base env @ ''/security/user/authenticate?raw=true'', sq_auth = manager_login env,
    sq_content = NoContent\<rparr> = Inl e"
  shows "fst (seed_main env) = Inl e \<and> length (snd (seed_main env)) = 1"
  using assms by (simp add: seed_main_def seed_manager_state_def script_defs)

end
