(* ===== verification/Spec2Isabelle.thy ===== *)
theory Spec2Isabelle
  imports Prelude Errors Config Json Buckets Limiter Breaker RedisLimiter AuditTrail Sinks SinkDrivers
    Rbac Instrument Auth Access ServerApi RuleRender Secrets Pools WriteTools WriteGuard
    Query Hunt Models ReadTools ReadGuard Paging Resources Prompts Server HttpApp HttpLimits AuditScope CallTrail StdioApp TokenIssuer IndexerSink
    Registration Signatures Startup Lifespan Streams ClientIdentity SecurityIgnores EvalScore EvalMain
    Telemetry Endpoints IndexerDrain ClientLife RequestScope SeedAlerts
begin

text \<open>
  \<^bold>\<open>wazuh-mcp\<close>: an MCP server that gives language-model clients audited, multi-tenant access to Wazuh
  (sources under \<open>src/src/wazuh_mcp\<close>).  This development models the server's own logic and proves what
  makes it safe and correct.

  \<^bold>\<open>The program.\<close>  A client authenticates with an OAuth bearer token or an API key; the middleware of the
  HTTP transport puts the resulting session (user, tenant, role, optional Wazuh user) into a context
  variable.  A tool call passes the role hook of the server, the instrumentation (role check, rate
  limit, audit, metrics) and reaches a handler, which validates its arguments, acquires the tenant's
  shared client from a pool (made from the tenant registry and the secret store on first use) and talks
  to the tenant's indexer (searches) or its manager's Server API.  Write tools have two more guards, the
  tenant's write allowlist and the active-response allowlists.  Resources and prompts run outside the
  instrumentation.  Audit events fan out to sinks that queue, batch, rotate, retry and drop.

  \<^bold>\<open>Theories and code.\<close>
  \<^item> Prelude: results as sums, Python strings, dictionaries in insertion order.  Errors: \<open>wazuh/errors.py\<close>,
    \<open>auth/errors.py\<close>.  Json: JSON values, \<open>json.dumps\<close>, Python's access to decoded JSON.
  \<^item> Config: \<open>tenancy/config.py\<close>, \<open>tenancy/m4_config.py\<close>.  Rbac: \<open>rbac/\<close>, \<open>tenancy/registry.py\<close>,
    \<open>tenancy/issuer_index.py\<close>, with the locale of tenant registries.
  \<^item> Buckets, Limiter: \<open>rate_limit/token_bucket.py\<close>, \<open>limiter.py\<close> and the Lua script, with the locale of
    rate limiters.  Breaker, RedisLimiter: \<open>rate_limit/redis_limiter.py\<close>; the breaker is a step
    relation over interleaved calls, Redis a state with injected faults.
  \<^item> AuditTrail: \<open>observability/audit.py\<close>; RequestScope: the request identifier of \<open>audit_context.py\<close>.  Sinks, SinkDrivers: \<open>observability/sinks/\<close>, the drain tasks as
    step relations.  Instrument: \<open>observability/decorators.py\<close> and the role hooks of \<open>server.py\<close>.
  \<^item> Auth: \<open>auth/oauth.py\<close>, \<open>auth/jwks_cache.py\<close>.  Access: API keys, the chain, configured sessions, the
    middleware of \<open>transport/http.py\<close>.  Secrets: \<open>secrets/\<close>, with the locale of secret stores and the
    single-flight cache as an event machine over the futures of asyncio.
  \<^item> ServerApi: \<open>wazuh/server_api.py\<close>.  Pools: \<open>wazuh/indexer.py\<close> and the two pools, with the locale of
    client pools; how a client is opened is an argument, given by the HTTP server's registry and secrets
    (\<open>sp_open\<close>, \<open>ip_open\<close>) or by the stdio server's adapters; ClientLife: the end of their clients.  RuleRender: \<open>wazuh/rule_render.py\<close>.
  \<^item> WriteTools, WriteGuard: \<open>tools/write.py\<close> and its handlers in \<open>server.py\<close>.
  \<^item> Query: \<open>wazuh/query.py\<close>.  Hunt: \<open>tools/hunt.py\<close>, and what a search engine is assumed
    to make of its queries.  Models: \<open>wazuh/models.py\<close>.  ReadTools, ReadGuard,
    Paging: the other read tools, their handlers in \<open>server.py\<close>, and the walk along the cursor.
  \<^item> Resources, Prompts: \<open>resources/\<close>, \<open>prompts/\<close> and their registration.  Server: the tools, resources
    and prompts registered in \<open>server.py\<close> together, and what any run of requests can send.
  \<^item> HttpApp: \<open>load_http_config\<close> and \<open>build_http_app\<close> of \<open>server.py\<close>, the routes and the middleware of
    \<open>transport/http.py\<close> around the MCP library, and runs of HTTP requests.  HttpLimits, AuditScope: the rate
    limits and the audit trail of such runs; CallTrail: what one call of any registered tool leaves behind,
    under either limiter.  StdioApp: \<open>load_config\<close>, \<open>build_app\<close> with its two adapters, \<open>run_stdio\<close>.
  \<^item> Registration: what \<open>server.py\<close> announces for every tool, resource and prompt, and what the default roles
    see of it.  Signatures: the signatures \<open>observability/decorators.py\<close> derives from the argument models.
  \<^item> Startup: \<open>__main__.py\<close>, \<open>run_http\<close>, the addresses, \<open>observability/otel.py\<close>.  Lifespan: the emitter's life in
    \<open>transport/http.py\<close> and \<open>run_stdio\<close>, with the locale of the life of sinks whose start, stop or drain task may fail.  Streams: \<open>sinks/stream.py\<close>.
  \<^item> ClientIdentity: whose clients the assembled server holds, over any run.
  \<^item> TokenIssuer: the keys of \<open>auth/oauth.py\<close> over runs.  IndexerSink: \<open>sinks/wazuh_indexer.py\<close> on the pooled client;
    IndexerDrain: that sink as one machine, from its queue to its requests.
  \<^item> Telemetry: \<open>observability/metrics.py\<close>, \<open>observability/instrumentation.py\<close>, and what the rest of the program records on
    the instruments.  Endpoints: the stand-alone metadata and health applications of \<open>transport/http.py\<close>.
  \<^item> EvalScore, EvalMain: \<open>tools/eval/score.py\<close>, the scoring of evaluation runs and its command.  SecurityIgnores:
    \<open>tools/check_security_ignores.py\<close>.  SeedAlerts: \<open>docker/seed_alerts.py\<close>.

  \<^bold>\<open>How it is modelled.\<close>  Records and datatypes carry the fields and cases of the code's classes; an
  operation is a function on explicit state that returns a result or the exception.  The upstream
  services are answer lists inside the clients (an answer is a transport exception, or a status with a
  body), and every request sent is recorded, so that statements about what the server does to Wazuh are
  statements about the recorded requests.  Concurrency is explicit where the code has it: the breaker,
  the sinks and the secret cache are step relations; a pool acquisition runs under a lock and is one step.
  The MCP library chooses which requests it delivers, and in which of the contexts it was entered with.
  Time is rational and passed in; the wall clock, the monotonic clock and the clock of Redis are apart.  Pydantic's reading of keyword arguments, the JWT library, Argon2,
  the YAML loader's result, YAML and HTTP transports, floating point text and base64 are arguments.

  \<^bold>\<open>What is shown.\<close>
  \<^item> The assembled server (HttpApp, HttpLimits, AuditScope, StdioApp, ClientIdentity), from the configuration directory to
    the requests sent: a tenant is reached only by those who authenticate for it, its executed calls are
    within its configured limits, its audit trail names only authenticated sessions, a request without
    credentials reaches no tenant, every client it holds is its tenant's in address and credentials, and the
    stdio server serves and holds clients of its one tenant only.
  \<^item> What is announced and started (Registration, Signatures, Startup, Lifespan): the announced tools are the
    implemented ones under their models' fields; no drain task outlives the server unless a stop is
    itself cancelled, and then one can.
  \<^item> Isolation and authority (Server, WriteGuard, ReadGuard): no run of requests makes the server touch a
    tenant whose sessions did not ask; without an administrator nothing is changed; a change needs the
    role, the write allowlist, a rate-limit token and an audited intent; read tools only read, within bounds.
  \<^item> Identity (Auth, TokenIssuer, Access, Rbac): sessions rest on checked credentials and the tenant these
    select, and no identity provider can speak for another.
  \<^item> Limits (Limiter, RedisLimiter, Breaker): token-bucket bounds over any run, refinement of the in-process
    limiter by the distributed one, the breaker's invariant and its state machine.
  \<^item> Audit (Instrument, CallTrail, AuditTrail, Sinks, IndexerSink, IndexerDrain, Streams): exactly one completion event per call, fan-out
    by tenant, accounting of every event through queue, retry, drop and shutdown, the protocol towards the
    indexer, the lines of the file and stream logs.
  \<^item> Clients and secrets (ServerApi, Pools, Secrets): replay at most once, the tenant's own address and
    credentials, freshness and single flight of cached secrets.
  \<^item> Metrics (Telemetry): every recorded sample has its instrument, the breaker's gauge shows its state, and an emitter
    with a counter counts each drop under its owner, which neither server gives it.
  \<^item> Queries (Query, Hunt, Paging): hunts mean what their clauses say, operator by operator, and stay in the
    grammar; paging is complete over at most ten thousand alerts of distinct timestamps, and loses
    alerts over equal ones.
  Properties that state a defect of the code say so in their text.

  \<^bold>\<open>Bounds.\<close>  Every function terminates; the recursions are structural, by a length measure
  (\<open>replace_all\<close>) or by division (\<open>show_nat\<close>).  Fuel appears once: \<open>walk\<close> counts the pages a caller
  fetches, and one more than the number of alerts is enough (shown with its property).

  \<^bold>\<open>Not modelled.\<close>  The decoding of YAML text, the MCP library itself and its loop, uvicorn, what
  OpenTelemetry and Prometheus do with a recorded sample, the tracing spans, the parsing of the scorer's command line,
  the messages of the ignore check, the log lines, text beyond code point 255, and floating-point rounding.
\<close>

end
